(* ===== verification/Go_Prelude.thy ===== *)
theory Go_Prelude
  imports Main "HOL-Library.Word" "HOL-Library.Sublist" "HOL-Library.List_Lexorder"
    "HOL-Library.Char_ord"
begin

text \<open>
  What every component shares: the development's fact collection, Go's machine integers,
  and list lemmas about suffixes, windows and folds.

  Go's \<open>int32\<close> values are integers in two's complement range with the wrap-around written
  out by \<open>i32\<close> below.  Go's 64-bit \<open>int\<close> and \<open>int64\<close> are unbounded integers where the
  quantity is the program's own (lengths, token estimates), since those stay far below $2^{63}$;
  where a script chooses a number that is then added or multiplied, \<open>i64\<close> wraps the result.
\<close>

named_theorems go_strings \<open>evaluation of the models of package strings\<close>

type_synonym bytes = string

section \<open>Machine integers\<close>

text \<open>\<open>int32(x)\<close>: the low 32 bits of \<open>x\<close>, read as a signed number.\<close>

definition i32 :: "int \<Rightarrow> int" where
  "i32 x = signed_take_bit 31 x"

lemma i32_is_sint: "i32 x = sint (word_of_int x :: 32 word)"
  by (simp add: i32_def sint_sbintrunc')

lemma i32_range: "- (2 ^ 31) \<le> i32 x \<and> i32 x < 2 ^ 31"
  unfolding i32_def
  using signed_take_bit_int_greater_eq_minus_exp [of 31 x] signed_take_bit_int_less_exp [of 31 x]
  by simp

lemma i32_id: "- (2 ^ 31) \<le> x \<Longrightarrow> x < 2 ^ 31 \<Longrightarrow> i32 x = x"
  by (simp add: i32_def signed_take_bit_int_eq_self)

lemma i32_i32 [simp]: "i32 (i32 x) = i32 x"
  using i32_range [of x] by (simp add: i32_id)

lemma i32_add_left: "i32 (i32 a + b) = i32 (a + b)"
  unfolding i32_is_sint by (simp flip: wi_hom_add)

lemma i32_add_right: "i32 (a + i32 b) = i32 (a + b)"
  using i32_add_left [of b a] by (simp add: add.commute)

text \<open>\<open>int64\<close>, and \<open>int\<close> on the machines the program is built for.\<close>

definition i64 :: "int \<Rightarrow> int" where
  "i64 x = signed_take_bit 63 x"

lemma i64_is_sint: "i64 x = sint (word_of_int x :: 64 word)"
  by (simp add: i64_def sint_sbintrunc')

lemma i64_id: "- (2 ^ 63) \<le> x \<Longrightarrow> x < 2 ^ 63 \<Longrightarrow> i64 x = x"
  by (simp add: i64_def signed_take_bit_int_eq_self)

lemma i64_range: "- (2 ^ 63) \<le> i64 x \<and> i64 x < 2 ^ 63"
  unfolding i64_def
  using signed_take_bit_int_greater_eq_minus_exp [of 63 x] signed_take_bit_int_less_exp [of 63 x]
  by simp

section \<open>Lists\<close>

text \<open>\<open>rows[len(rows)-n:]\<close>, the trailing window of a slice.\<close>

definition last_n :: "nat \<Rightarrow> 'a list \<Rightarrow> 'a list" where
  "last_n n xs = drop (length xs - n) xs"

lemma length_last_n [simp]: "length (last_n n xs) = min n (length xs)"
  by (auto simp: last_n_def)

lemma last_n_all: "length xs \<le> n \<Longrightarrow> last_n n xs = xs"
  by (simp add: last_n_def)

lemma suffix_last_n: "suffix (last_n n xs) xs"
  by (simp add: last_n_def suffix_drop)

lemma set_last_n: "set (last_n n xs) \<subseteq> set xs"
  by (simp add: last_n_def set_drop_subset)

lemma last_n_append: "length ys \<le> n \<Longrightarrow> last_n n (xs @ ys) = last_n (n - length ys) xs @ ys"
  by (simp add: last_n_def drop_append)

lemma sorted_wrt_last_n: "sorted_wrt P xs \<Longrightarrow> sorted_wrt P (last_n n xs)"
  by (simp add: last_n_def sorted_wrt_drop)

lemma takeWhile_dropWhile_all:
  "list_all P xs \<Longrightarrow> takeWhile P (xs @ ys) = xs @ takeWhile P ys"
  "list_all P xs \<Longrightarrow> dropWhile P (xs @ ys) = dropWhile P ys"
  by (induction xs) auto

lemma sum_list_nonneg_int: "(\<And>x. x \<in> set xs \<Longrightarrow> 0 \<le> f x) \<Longrightarrow> 0 \<le> sum_list (map f xs)"
  for f :: "'a \<Rightarrow> int"
  by (induction xs) auto

lemma take_take_append: "take n (take n xs @ ys) = take n (xs @ ys)"
  by (simp add: take_append min_def)

end
