(* ===== verification/Go_Strings.thy ===== *)
theory Go_Strings
  imports Go_Prelude
begin

text \<open>
  The functions of Go's packages \<open>strings\<close>, \<open>bytes\<close>, \<open>strconv\<close> and \<open>fmt\<close> that the
  modelled code calls, on strings as byte lists, so that \<open>length\<close> is Go's \<open>len\<close>.
  White space is the ASCII white space \<open>strings.TrimSpace\<close> strips (tab, line feed,
  vertical tab, form feed, carriage return, space); the non-ASCII spaces of Unicode, which
  it strips as well, and case folding outside ASCII are not modelled.
\<close>

section \<open>Prefixes, searching, trimming\<close>

fun has_prefix :: "bytes \<Rightarrow> bytes \<Rightarrow> bool" where
  "has_prefix [] s = True"
| "has_prefix (p # ps) [] = False"
| "has_prefix (p # ps) (c # cs) = (p = c \<and> has_prefix ps cs)"

text \<open>\<open>strings.Index\<close>, with \<open>None\<close> for -1.\<close>

fun index_of :: "bytes \<Rightarrow> bytes \<Rightarrow> nat option" where
  "index_of sub [] = (if sub = [] then Some 0 else None)"
| "index_of sub (c # cs) =
     (if has_prefix sub (c # cs) then Some 0 else map_option Suc (index_of sub cs))"

definition contains :: "bytes \<Rightarrow> bytes \<Rightarrow> bool" where
  "contains sub s = (index_of sub s \<noteq> None)"

definition is_space :: "char \<Rightarrow> bool" where
  "is_space c = (c \<in> set [CHR '' '', CHR 0x09, CHR 0x0A, CHR 0x0B, CHR 0x0C, CHR 0x0D])"

definition trim_space :: "bytes \<Rightarrow> bytes" where
  "trim_space s = rev (dropWhile is_space (rev (dropWhile is_space s)))"

definition trim_prefix :: "bytes \<Rightarrow> bytes \<Rightarrow> bytes" where
  "trim_prefix p s = (if has_prefix p s then drop (length p) s else s)"

text \<open>
  \<open>strings.ReplaceAll\<close> and \<open>bytes.ReplaceAll\<close> for a non-empty \<open>old\<close>, which is the only
  way the modelled code calls them: the leftmost occurrence first, without overlap.
\<close>

fun replace_all :: "bytes \<Rightarrow> bytes \<Rightarrow> bytes \<Rightarrow> bytes" where
  "replace_all old new [] = []"
| "replace_all old new (c # cs) =
     (if old \<noteq> [] \<and> has_prefix old (c # cs)
      then new @ replace_all old new (drop (length old - 1) cs)
      else c # replace_all old new cs)"

definition to_lower :: "bytes \<Rightarrow> bytes" where
  "to_lower s = map (\<lambda>c. if 65 \<le> (of_char c :: nat) \<and> (of_char c :: nat) \<le> 90
                        then char_of ((of_char c :: nat) + 32) else c) s"

fun join_with :: "bytes \<Rightarrow> bytes list \<Rightarrow> bytes" where
  "join_with sep [] = []"
| "join_with sep [x] = x"
| "join_with sep (x # y # ys) = x @ sep @ join_with sep (y # ys)"

section \<open>Decimal integers\<close>

definition digit_char :: "nat \<Rightarrow> char" where
  "digit_char d = char_of (48 + d)"

definition is_digit :: "char \<Rightarrow> bool" where
  "is_digit c = (48 \<le> (of_char c :: nat) \<and> (of_char c :: nat) \<le> 57)"

definition digit_val :: "char \<Rightarrow> nat" where
  "digit_val c = of_char c - 48"

fun nat_text :: "nat \<Rightarrow> bytes" where
  "nat_text n = (if n < 10 then [digit_char n] else nat_text (n div 10) @ [digit_char (n mod 10)])"

declare nat_text.simps [simp del]

text \<open>The verb \<open>%d\<close> of \<open>fmt\<close>, and \<open>strconv.Itoa\<close>.\<close>

definition itoa :: "int \<Rightarrow> bytes" where
  "itoa i = (if i < 0 then CHR ''-'' # nat_text (nat (- i)) else nat_text (nat i))"

definition digits_val :: "bytes \<Rightarrow> nat" where
  "digits_val s = foldl (\<lambda>n c. 10 * n + digit_val c) 0 s"

text \<open>\<open>strconv.ParseInt\<close> in base 10, before its range check: an optional sign and digits.\<close>

definition parse_int :: "bytes \<Rightarrow> int option" where
  "parse_int s =
     (case s of
        [] \<Rightarrow> None
      | c # cs \<Rightarrow>
          if c = CHR ''-'' then
            (if cs \<noteq> [] \<and> list_all is_digit cs then Some (- int (digits_val cs)) else None)
          else if c = CHR ''+'' then
            (if cs \<noteq> [] \<and> list_all is_digit cs then Some (int (digits_val cs)) else None)
          else if list_all is_digit s then Some (int (digits_val s)) else None)"

abbreviation newline :: bytes where
  "newline \<equiv> [CHR 0x0A]"

text \<open>The UTF-8 bytes of the em dash that several of the program's texts contain.\<close>

definition em_dash :: bytes where
  "em_dash = [CHR 0xE2, CHR 0x80, CHR 0x94]"

section \<open>Lemmas\<close>

lemma has_prefix_iff: "has_prefix p s \<longleftrightarrow> (\<exists>r. s = p @ r)"
  by (induction p s rule: has_prefix.induct) auto

lemma has_prefix_append [simp, go_strings]: "has_prefix p (p @ r)"
  by (simp add: has_prefix_iff)

lemma has_prefix_length: "has_prefix p s \<Longrightarrow> length p \<le> length s"
  by (auto simp: has_prefix_iff)

lemma has_prefix_drop: "has_prefix p s \<Longrightarrow> s = p @ drop (length p) s"
  by (auto simp: has_prefix_iff)

lemma index_of_Some: "index_of sub s = Some i \<Longrightarrow> \<exists>r. drop i s = sub @ r \<and> i \<le> length s"
  by (induction s arbitrary: i) (fastforce simp: has_prefix_iff split: if_splits)+

lemma index_of_None: "index_of sub s = None \<longleftrightarrow> (\<nexists>a b. s = a @ sub @ b)"
proof (induction s)
  case Nil
  then show ?case by auto
next
  case (Cons c cs)
  show ?case
  proof (cases "has_prefix sub (c # cs)")
    case True
    then obtain r where "c # cs = [] @ sub @ r" by (auto simp: has_prefix_iff)
    then have "\<exists>a b. c # cs = a @ sub @ b" by blast
    with True show ?thesis by simp
  next
    case False
    have "(\<exists>a b. c # cs = a @ sub @ b) \<longleftrightarrow> (\<exists>a b. cs = a @ sub @ b)"
      using False by (auto simp: has_prefix_iff Cons_eq_append_conv)
    with Cons.IH False show ?thesis by simp
  qed
qed

lemma contains_iff: "contains sub s \<longleftrightarrow> (\<exists>a b. s = a @ sub @ b)"
  by (simp add: contains_def index_of_None)

lemma contains_sublist: "contains sub s \<longleftrightarrow> sublist sub s"
  by (auto simp: contains_iff sublist_def)

lemma trim_space_set: "set (trim_space s) \<subseteq> set s"
  unfolding trim_space_def by (auto dest!: set_dropWhileD)

lemma length_trim_space: "length (trim_space s) \<le> length s"
  unfolding trim_space_def
  by (metis length_dropWhile_le length_rev order_trans)

lemma trim_space_empty_iff: "trim_space s = [] \<longleftrightarrow> list_all is_space s"
proof
  assume "trim_space s = []"
  then have *: "\<forall>c \<in> set (dropWhile is_space s). is_space c"
    by (simp add: trim_space_def dropWhile_eq_Nil_conv)
  have "dropWhile is_space s = []"
    using * hd_dropWhile hd_in_set by blast
  then show "list_all is_space s" by (simp add: dropWhile_eq_Nil_conv list_all_iff)
next
  assume "list_all is_space s"
  then have "dropWhile is_space s = []" by (simp add: dropWhile_eq_Nil_conv list_all_iff)
  then show "trim_space s = []" by (simp add: trim_space_def del: dropWhile_eq_Nil_conv)
qed

lemma trim_space_ends:
  assumes "trim_space s = c # cs"
  shows "\<not> is_space c" and "\<not> is_space (last (c # cs))"
proof -
  let ?d = "dropWhile is_space s"
  have d: "rev (dropWhile is_space (rev ?d)) = c # cs" using assms by (simp add: trim_space_def)
  then have dn: "?d \<noteq> []"
    by (metis dropWhile.simps(1) list.distinct(1) rev.simps(1))
  have "?d = (c # cs) @ rev (takeWhile is_space (rev ?d))"
    by (metis d rev_append rev_rev_ident takeWhile_dropWhile_id)
  then have "hd ?d = c" by (metis append_Cons list.sel(1))
  then show "\<not> is_space c" using hd_dropWhile [OF dn] by simp
  have e: "dropWhile is_space (rev ?d) = rev (c # cs)" using d by (metis rev_rev_ident)
  then have "dropWhile is_space (rev ?d) \<noteq> []" by simp
  from hd_dropWhile [OF this] show "\<not> is_space (last (c # cs))"
    unfolding e by (simp only: hd_rev not_Cons_self2 rev_is_Nil_conv list.distinct) simp
qed

lemma trim_space_id: "trim_space (trim_space s) = trim_space s"
proof (cases "trim_space s")
  case Nil
  have "trim_space [] = []" by (simp add: trim_space_def)
  then show ?thesis by (simp only: Nil)
next
  case (Cons c cs)
  have ends: "\<not> is_space c" "\<not> is_space (last (c # cs))" by (rule trim_space_ends [OF Cons])+
  have "rev (c # cs) = last (c # cs) # rev (butlast (c # cs))"
    by (metis append_butlast_last_id list.distinct(1) rev.simps(2) rev_rev_ident)
  then have "dropWhile is_space (rev (c # cs)) = rev (c # cs)" using ends(2) by simp
  moreover have "dropWhile is_space (c # cs) = c # cs" using ends(1) by simp
  ultimately show ?thesis unfolding Cons by (simp only: trim_space_def rev_rev_ident)
qed

lemma length_replace_all: "length new \<le> length old \<Longrightarrow> length (replace_all old new s) \<le> length s"
proof (induction old new s rule: replace_all.induct)
  case (1 old new)
  then show ?case by simp
next
  case (2 old new c cs)
  show ?case
  proof (cases "old \<noteq> [] \<and> has_prefix old (c # cs)")
    case True
    then have "length old \<le> Suc (length cs)" using has_prefix_length by fastforce
    moreover have "length (replace_all old new (drop (length old - 1) cs))
        \<le> length (drop (length old - 1) cs)"
      using 2 True by blast
    ultimately show ?thesis using True "2.prems" by auto
  next
    case False
    with "2.IH"(2) "2.prems" show ?thesis by auto
  qed
qed

lemma replace_all_absent: "\<not> contains old s \<Longrightarrow> replace_all old new s = s"
proof (induction old new s rule: replace_all.induct)
  case (1 old new)
  then show ?case by simp
next
  case (2 old new c cs)
  then have no: "\<not> has_prefix old (c # cs)" and tl: "\<not> contains old cs"
    by (auto simp: contains_def split: if_splits)
  with "2.IH"(2) show ?case by auto
qed

lemma digit_char_val: "d < 10 \<Longrightarrow> digit_val (digit_char d) = d \<and> is_digit (digit_char d)"
  by (simp add: digit_val_def digit_char_def is_digit_def)

lemma digits_val_snoc: "digits_val (s @ [c]) = 10 * digits_val s + digit_val c"
  by (simp add: digits_val_def)

lemma nat_text_digits: "list_all is_digit (nat_text n)"
proof (induction n rule: nat_text.induct)
  case (1 n)
  then show ?case
    by (subst nat_text.simps) (auto simp: digit_char_val)
qed

lemma nat_text_nonempty: "nat_text n \<noteq> []"
  by (subst nat_text.simps) simp

lemma digits_val_nat_text: "digits_val (nat_text n) = n"
proof (induction n rule: nat_text.induct)
  case (1 n)
  show ?case
  proof (cases "n < 10")
    case True
    then show ?thesis
      by (subst nat_text.simps) (simp add: digits_val_def digit_char_val)
  next
    case False
    with 1 show ?thesis
      by (subst nat_text.simps) (simp add: digits_val_snoc digit_char_val)
  qed
qed

lemma digit_not_sign: "is_digit c \<Longrightarrow> c \<noteq> CHR ''-'' \<and> c \<noteq> CHR ''+''"
  by (auto simp: is_digit_def)

text \<open>Parsing the decimal text of an integer gives it back.\<close>

lemma parse_int_itoa: "parse_int (itoa i) = Some i"
proof (cases "i < 0")
  case True
  then show ?thesis
    by (simp add: parse_int_def itoa_def nat_text_digits nat_text_nonempty digits_val_nat_text)
next
  case False
  then obtain c cs where c: "nat_text (nat i) = c # cs"
    using nat_text_nonempty neq_Nil_conv by metis
  then have dig: "is_digit c" "list_all is_digit cs"
    using nat_text_digits [of "nat i"] by auto
  from c have "int (digits_val (c # cs)) = i"
    using digits_val_nat_text [of "nat i"] False by simp
  with False c dig digit_not_sign [OF dig(1)] show ?thesis
    by (simp add: parse_int_def itoa_def)
qed

lemma length_nat_text_mono: "m \<le> n \<Longrightarrow> length (nat_text m) \<le> length (nat_text n)"
proof (induction n arbitrary: m rule: nat_text.induct)
  case (1 n)
  show ?case
  proof (cases "n < 10")
    case True
    with 1(2) show ?thesis
      by (subst (1 2) nat_text.simps) simp
  next
    case False
    have "length (nat_text (m div 10)) \<le> length (nat_text (n div 10))"
      using 1 False div_le_mono by blast
    moreover have "1 \<le> length (nat_text (n div 10))"
      using nat_text_nonempty [of "n div 10"] by (simp add: Suc_le_eq)
    ultimately show ?thesis using False
      by (subst (1 2) nat_text.simps) simp
  qed
qed

end
