(* ===== verification/Go_Json.thy ===== *)
theory Go_Json
  imports Go_Strings
begin

text \<open>
  What the program uses of \<open>encoding/json\<close>: \<open>json.Unmarshal\<close> into an \<open>any\<close> and
  \<open>json.Marshal\<close> of a \<open>map[string]any\<close>.  The decoder is, like Go's own scanner, a
  machine that reads a byte at a time (\<open>json_lex\<close>) and keeps a stack of open arrays and
  objects (\<open>p_step\<close>), so it is total by its shape.  An object is the key-sorted
  association list of a Go map: a repeated key keeps its last value.  A number keeps its
  literal text (Go's rounding to \<open>float64\<close> is not modelled), bytes from 0x80 on pass
  through unchanged (Go's replacement of invalid UTF-8, its escaping of U+2028 and U+2029,
  and its nesting limit of 10000 are not modelled).  The encoder escapes as
  \<open>json.Marshal\<close> does, including the HTML characters.
\<close>

datatype json =
    JNull
  | JBool bool
  | JNum bytes
  | JStr bytes
  | JArr "json list"
  | JObj "(bytes \<times> json) list"

type_synonym json_object = "(bytes \<times> json) list"

section \<open>Lexing\<close>

datatype str_unit = UByte char | UCode nat

datatype token =
    TLBrace | TRBrace | TLBrack | TRBrack | TComma | TColon
  | TStr bytes | TNum bytes | TWord bytes

datatype lex_state =
    LBase
  | LStr "str_unit list"
  | LEsc "str_unit list"
  | LHex nat nat "str_unit list"
  | LNum bytes
  | LWord bytes

definition json_space :: "char \<Rightarrow> bool" where
  "json_space c = (c \<in> set [CHR '' '', CHR 0x09, CHR 0x0A, CHR 0x0D])"

definition num_char :: "char \<Rightarrow> bool" where
  "num_char c = (is_digit c \<or> c \<in> set ''+-.eE'')"

definition is_lower :: "char \<Rightarrow> bool" where
  "is_lower c = (97 \<le> (of_char c :: nat) \<and> (of_char c :: nat) \<le> 122)"

definition hex_val :: "char \<Rightarrow> nat option" where
  "hex_val c =
     (let n = (of_char c :: nat) in
      if 48 \<le> n \<and> n \<le> 57 then Some (n - 48)
      else if 97 \<le> n \<and> n \<le> 102 then Some (n - 87)
      else if 65 \<le> n \<and> n \<le> 70 then Some (n - 55)
      else None)"

definition utf8 :: "nat \<Rightarrow> bytes" where
  "utf8 n =
     (if n < 128 then [char_of n]
      else if n < 2048 then [char_of (192 + n div 64), char_of (128 + n mod 64)]
      else if n < 65536 then
        [char_of (224 + n div 4096), char_of (128 + n div 64 mod 64), char_of (128 + n mod 64)]
      else
        [char_of (240 + n div 262144), char_of (128 + n div 4096 mod 64),
         char_of (128 + n div 64 mod 64), char_of (128 + n mod 64)])"

definition high_surrogate :: "nat \<Rightarrow> bool" where
  "high_surrogate n = (55296 \<le> n \<and> n < 56320)"

definition low_surrogate :: "nat \<Rightarrow> bool" where
  "low_surrogate n = (56320 \<le> n \<and> n < 57344)"

text \<open>The bytes of a string literal: a surrogate pair is joined, a lone surrogate is U+FFFD.\<close>

fun decode_units :: "str_unit list \<Rightarrow> bytes" where
  "decode_units [] = []"
| "decode_units (UByte c # us) = c # decode_units us"
| "decode_units (UCode a # UCode b # us) =
     (if high_surrogate a \<and> low_surrogate b
      then utf8 (65536 + (a - 55296) * 1024 + (b - 56320)) @ decode_units us
      else (if high_surrogate a \<or> low_surrogate a then utf8 65533 else utf8 a)
             @ decode_units (UCode b # us))"
| "decode_units (UCode a # us) =
     (if high_surrogate a \<or> low_surrogate a then utf8 65533 else utf8 a) @ decode_units us"

definition lex_start :: "char \<Rightarrow> (token list \<times> lex_state) option" where
  "lex_start c =
     (if json_space c then Some ([], LBase)
      else if c = CHR ''{'' then Some ([TLBrace], LBase)
      else if c = CHR ''}'' then Some ([TRBrace], LBase)
      else if c = CHR ''['' then Some ([TLBrack], LBase)
      else if c = CHR '']'' then Some ([TRBrack], LBase)
      else if c = CHR '','' then Some ([TComma], LBase)
      else if c = CHR '':'' then Some ([TColon], LBase)
      else if c = CHR 0x22 then Some ([], LStr [])
      else if is_digit c \<or> c = CHR ''-'' then Some ([], LNum [c])
      else if is_lower c then Some ([], LWord [c])
      else None)"

definition esc_char :: "char \<Rightarrow> char option" where
  "esc_char c =
     (if c = CHR 0x22 \<or> c = CHR 0x5C \<or> c = CHR ''/'' then Some c
      else if c = CHR ''b'' then Some (CHR 0x08)
      else if c = CHR ''f'' then Some (CHR 0x0C)
      else if c = CHR ''n'' then Some (CHR 0x0A)
      else if c = CHR ''r'' then Some (CHR 0x0D)
      else if c = CHR ''t'' then Some (CHR 0x09)
      else None)"

fun lex_char :: "lex_state \<Rightarrow> char \<Rightarrow> (token list \<times> lex_state) option" where
  "lex_char LBase c = lex_start c"
| "lex_char (LNum acc) c =
     (if num_char c then Some ([], LNum (c # acc))
      else map_option (\<lambda>(ts, st). (TNum (rev acc) # ts, st)) (lex_start c))"
| "lex_char (LWord acc) c =
     (if is_lower c then Some ([], LWord (c # acc))
      else map_option (\<lambda>(ts, st). (TWord (rev acc) # ts, st)) (lex_start c))"
| "lex_char (LStr acc) c =
     (if c = CHR 0x22 then Some ([TStr (decode_units (rev acc))], LBase)
      else if c = CHR 0x5C then Some ([], LEsc acc)
      else if (of_char c :: nat) < 32 then None
      else Some ([], LStr (UByte c # acc)))"
| "lex_char (LEsc acc) c =
     (if c = CHR ''u'' then Some ([], LHex 0 0 acc)
      else map_option (\<lambda>e. ([], LStr (UByte e # acc))) (esc_char c))"
| "lex_char (LHex k v acc) c =
     (case hex_val c of
        None \<Rightarrow> None
      | Some d \<Rightarrow>
          if k = 3 then Some ([], LStr (UCode (16 * v + d) # acc))
          else Some ([], LHex (Suc k) (16 * v + d) acc))"

definition prepend :: "token list \<Rightarrow> token list option \<Rightarrow> token list option" where
  "prepend ts r = map_option (\<lambda>us. ts @ us) r"

fun json_lex :: "lex_state \<Rightarrow> bytes \<Rightarrow> token list option" where
  "json_lex LBase [] = Some []"
| "json_lex (LNum acc) [] = Some [TNum (rev acc)]"
| "json_lex (LWord acc) [] = Some [TWord (rev acc)]"
| "json_lex st [] = None"
| "json_lex st (c # cs) =
     (case lex_char st c of
        None \<Rightarrow> None
      | Some (ts, st') \<Rightarrow> prepend ts (json_lex st' cs))"

section \<open>Parsing\<close>

definition valid_exp :: "bytes \<Rightarrow> bool" where
  "valid_exp r =
     (case r of
        [] \<Rightarrow> True
      | c # cs \<Rightarrow>
          (c = CHR ''e'' \<or> c = CHR ''E'') \<and>
          (let ds = (case cs of [] \<Rightarrow> [] | x # xs \<Rightarrow> if x = CHR ''+'' \<or> x = CHR ''-'' then xs else cs)
           in ds \<noteq> [] \<and> list_all is_digit ds))"

definition valid_frac :: "bytes \<Rightarrow> bool" where
  "valid_frac r =
     (case r of
        [] \<Rightarrow> True
      | c # cs \<Rightarrow>
          if c = CHR ''.'' then cs \<noteq> [] \<and> is_digit (hd cs) \<and> valid_exp (dropWhile is_digit cs)
          else valid_exp r)"

definition valid_number :: "bytes \<Rightarrow> bool" where
  "valid_number s =
     (case (if has_prefix ''-'' s then tl s else s) of
        [] \<Rightarrow> False
      | c # cs \<Rightarrow>
          is_digit c \<and> valid_frac (if c = CHR ''0'' then cs else dropWhile is_digit cs))"

fun obj_put :: "bytes \<Rightarrow> json \<Rightarrow> json_object \<Rightarrow> json_object" where
  "obj_put k v [] = [(k, v)]"
| "obj_put k v ((k', v') # kvs) =
     (if k = k' then (k, v) # kvs
      else if k < k' then (k, v) # (k', v') # kvs
      else (k', v') # obj_put k v kvs)"

datatype frame = FArr "json list" | FObj json_object | FMem json_object bytes

datatype expect = EValue | EFirst | EKeyFirst | EKey | EColon | EAfter

datatype pstate = PState expect "frame list" | PDone json | PFail

fun push_value :: "json \<Rightarrow> frame list \<Rightarrow> pstate" where
  "push_value v [] = PDone v"
| "push_value v (FArr vs # st) = PState EAfter (FArr (v # vs) # st)"
| "push_value v (FMem kvs k # st) = PState EAfter (FObj (obj_put k v kvs) # st)"
| "push_value v (FObj kvs # st) = PFail"

fun value_token :: "frame list \<Rightarrow> token \<Rightarrow> pstate" where
  "value_token st TLBrace = PState EKeyFirst (FObj [] # st)"
| "value_token st TLBrack = PState EFirst (FArr [] # st)"
| "value_token st (TStr s) = push_value (JStr s) st"
| "value_token st (TNum s) = (if valid_number s then push_value (JNum s) st else PFail)"
| "value_token st (TWord w) =
     (if w = ''true'' then push_value (JBool True) st
      else if w = ''false'' then push_value (JBool False) st
      else if w = ''null'' then push_value JNull st
      else PFail)"
| "value_token st _ = PFail"

fun p_step :: "pstate \<Rightarrow> token \<Rightarrow> pstate" where
  "p_step (PState EValue st) t = value_token st t"
| "p_step (PState EFirst (FArr vs # st)) TRBrack = push_value (JArr (rev vs)) st"
| "p_step (PState EFirst st) t = value_token st t"
| "p_step (PState EKeyFirst (FObj kvs # st)) TRBrace = push_value (JObj kvs) st"
| "p_step (PState EKeyFirst (FObj kvs # st)) (TStr k) = PState EColon (FMem kvs k # st)"
| "p_step (PState EKey (FObj kvs # st)) (TStr k) = PState EColon (FMem kvs k # st)"
| "p_step (PState EColon st) TColon = PState EValue st"
| "p_step (PState EAfter (FArr vs # st)) TComma = PState EValue (FArr vs # st)"
| "p_step (PState EAfter (FArr vs # st)) TRBrack = push_value (JArr (rev vs)) st"
| "p_step (PState EAfter (FObj kvs # st)) TComma = PState EKey (FObj kvs # st)"
| "p_step (PState EAfter (FObj kvs # st)) TRBrace = push_value (JObj kvs) st"
| "p_step _ _ = PFail"

definition json_parse :: "bytes \<Rightarrow> json option" where
  "json_parse s =
     (case json_lex LBase s of
        None \<Rightarrow> None
      | Some ts \<Rightarrow>
          (case foldl p_step (PState EValue []) ts of PDone v \<Rightarrow> Some v | _ \<Rightarrow> None))"

section \<open>Marshalling\<close>

definition hex_digit :: "nat \<Rightarrow> char" where
  "hex_digit d = (if d < 10 then char_of (48 + d) else char_of (87 + d))"

definition esc_byte :: "char \<Rightarrow> bytes" where
  "esc_byte c =
     (let n = (of_char c :: nat) in
      if c = CHR 0x22 \<or> c = CHR 0x5C then [CHR 0x5C, c]
      else if c = CHR 0x08 then [CHR 0x5C, CHR ''b'']
      else if c = CHR 0x0C then [CHR 0x5C, CHR ''f'']
      else if c = CHR 0x0A then [CHR 0x5C, CHR ''n'']
      else if c = CHR 0x0D then [CHR 0x5C, CHR ''r'']
      else if c = CHR 0x09 then [CHR 0x5C, CHR ''t'']
      else if n < 32 \<or> c = CHR ''<'' \<or> c = CHR ''>'' \<or> c = CHR ''&'' then
        [CHR 0x5C, CHR ''u'', CHR ''0'', CHR ''0'', hex_digit (n div 16), hex_digit (n mod 16)]
      else [c])"

definition json_quote :: "bytes \<Rightarrow> bytes" where
  "json_quote s = CHR 0x22 # concat (map esc_byte s) @ [CHR 0x22]"

fun json_marshal :: "json \<Rightarrow> bytes"
  and marshal_elems :: "json list \<Rightarrow> bytes"
  and marshal_members :: "json_object \<Rightarrow> bytes"
where
  "json_marshal JNull = ''null''"
| "json_marshal (JBool b) = (if b then ''true'' else ''false'')"
| "json_marshal (JNum s) = s"
| "json_marshal (JStr s) = json_quote s"
| "json_marshal (JArr vs) = CHR ''['' # marshal_elems vs @ [CHR '']'']"
| "json_marshal (JObj kvs) = CHR ''{'' # marshal_members kvs @ [CHR ''}'']"
| "marshal_elems [] = []"
| "marshal_elems [v] = json_marshal v"
| "marshal_elems (v # w # vs) = json_marshal v @ CHR '','' # marshal_elems (w # vs)"
| "marshal_members [] = []"
| "marshal_members [(k, v)] = json_quote k @ CHR '':'' # json_marshal v"
| "marshal_members ((k, v) # kv # kvs) =
     json_quote k @ CHR '':'' # json_marshal v @ CHR '','' # marshal_members (kv # kvs)"

text \<open>The values Go holds: numbers that print as JSON numbers, maps with distinct keys.\<close>

fun wf_json :: "json \<Rightarrow> bool" where
  "wf_json (JNum s) = (valid_number s \<and> list_all num_char s)"
| "wf_json (JArr vs) = list_all wf_json vs"
| "wf_json (JObj kvs) = (sorted_wrt (<) (map fst kvs) \<and> list_all wf_json (map snd kvs))"
| "wf_json _ = True"

section \<open>Parsing what was marshalled\<close>

text \<open>The tokens of a marshalled value.\<close>

fun json_tokens :: "json \<Rightarrow> token list"
  and elem_tokens :: "json list \<Rightarrow> token list"
  and member_tokens :: "json_object \<Rightarrow> token list"
where
  "json_tokens JNull = [TWord ''null'']"
| "json_tokens (JBool b) = [TWord (if b then ''true'' else ''false'')]"
| "json_tokens (JNum s) = [TNum s]"
| "json_tokens (JStr s) = [TStr s]"
| "json_tokens (JArr vs) = TLBrack # elem_tokens vs @ [TRBrack]"
| "json_tokens (JObj kvs) = TLBrace # member_tokens kvs @ [TRBrace]"
| "elem_tokens [] = []"
| "elem_tokens [v] = json_tokens v"
| "elem_tokens (v # w # vs) = json_tokens v @ TComma # elem_tokens (w # vs)"
| "member_tokens [] = []"
| "member_tokens [(k, v)] = TStr k # TColon # json_tokens v"
| "member_tokens ((k, v) # kv # kvs) =
     TStr k # TColon # json_tokens v @ TComma # member_tokens (kv # kvs)"

definition plain_units :: "str_unit list \<Rightarrow> bool" where
  "plain_units us = list_all (\<lambda>u. case u of UByte _ \<Rightarrow> True | UCode n \<Rightarrow> n < 128) us"

lemma prepend_simps [simp]:
  "prepend ts None = None" "prepend ts (Some us) = Some (ts @ us)"
  "prepend [] r = r" "prepend ts (prepend us r) = prepend (ts @ us) r"
  by (cases r; simp add: prepend_def)+

lemma plain_no_surrogate: "n < 128 \<Longrightarrow> \<not> high_surrogate n \<and> \<not> low_surrogate n"
  by (simp add: high_surrogate_def low_surrogate_def)

lemma decode_plain_append:
  "plain_units us \<Longrightarrow> decode_units (us @ vs) = decode_units us @ decode_units vs"
proof (induction us)
  case (Cons u us)
  then have IH: "decode_units (us @ vs) = decode_units us @ decode_units vs"
    by (simp add: plain_units_def)
  show ?case
  proof (cases u)
    case (UCode n)
    with Cons.prems have n: "\<not> high_surrogate n" "\<not> low_surrogate n"
      using plain_no_surrogate by (auto simp: plain_units_def)
    have *: "decode_units (UCode n # ws) = utf8 n @ decode_units ws" for ws
      using n by (cases "(UCode n # ws)" rule: decode_units.cases) auto
    show ?thesis using UCode IH by (simp add: *)
  qed (simp add: IH)
qed simp

lemma hex_digit_val: "d < 16 \<Longrightarrow> hex_val (hex_digit d) = Some d"
  by (simp add: hex_val_def hex_digit_def)

definition delimited :: "bytes \<Rightarrow> bool" where
  "delimited r = (r = [] \<or> hd r \<in> set '',]}'')"

lemma esc_byte_cases:
  obtains (quoted) "c \<in> set [CHR 0x22, CHR 0x5C, CHR 0x08, CHR 0x0C, CHR 0x0A, CHR 0x0D, CHR 0x09]"
  | (unicode) "(of_char c :: nat) < 128"
      "esc_byte c = [CHR 0x5C, CHR ''u'', CHR ''0'', CHR ''0'',
                     hex_digit (of_char c div 16), hex_digit (of_char c mod 16)]"
  | (plain) "esc_byte c = [c]" "\<not> (of_char c :: nat) < 32" "c \<noteq> CHR 0x22" "c \<noteq> CHR 0x5C"
proof (cases "c \<in> set [CHR 0x22, CHR 0x5C, CHR 0x08, CHR 0x0C, CHR 0x0A, CHR 0x0D, CHR 0x09]")
  case True
  then show thesis by (rule quoted)
next
  case False
  show thesis
  proof (cases "(of_char c :: nat) < 32 \<or> c = CHR ''<'' \<or> c = CHR ''>'' \<or> c = CHR ''&''")
    case True
    then have "(of_char c :: nat) < 128" by (elim disjE) simp_all
    moreover have "esc_byte c = [CHR 0x5C, CHR ''u'', CHR ''0'', CHR ''0'',
                     hex_digit (of_char c div 16), hex_digit (of_char c mod 16)]"
      using True False by (simp add: esc_byte_def Let_def)
    ultimately show thesis by (rule unicode)
  next
    case plain': False
    with False have "esc_byte c = [c]" by (simp add: esc_byte_def Let_def)
    with plain' False show thesis by (intro plain) simp_all
  qed
qed

lemma decode_snoc:
  "plain_units (rev acc) \<Longrightarrow> decode_units (rev (UByte c # acc)) = decode_units (rev acc) @ [c]"
  "plain_units (rev acc) \<Longrightarrow> (of_char c :: nat) < 128 \<Longrightarrow>
     decode_units (rev (UCode (of_char c) # acc)) = decode_units (rev acc) @ [c]"
  using plain_no_surrogate [of "of_char c"] by (simp_all add: decode_plain_append utf8_def)

lemma lex_esc_byte:
  assumes "plain_units (rev acc)"
  shows "\<exists>acc'. plain_units (rev acc') \<and> decode_units (rev acc') = decode_units (rev acc) @ [c]
           \<and> json_lex (LStr acc) (esc_byte c @ r) = json_lex (LStr acc') r"
proof (cases c rule: esc_byte_cases)
  case quoted
  then have "json_lex (LStr acc) (esc_byte c @ r) = json_lex (LStr (UByte c # acc)) r"
    by (auto simp: esc_byte_def esc_char_def)
  then show ?thesis using assms decode_snoc(1) [OF assms, of c]
    by (intro exI [of _ "UByte c # acc"]) (simp add: plain_units_def)
next
  case unicode
  have hx: "hex_val (hex_digit (of_char c div 16)) = Some (of_char c div 16)"
      "hex_val (hex_digit (of_char c mod 16)) = Some (of_char c mod 16)"
      "hex_val (CHR ''0'') = Some 0"
    using unicode(1) by (simp_all add: hex_digit_val) (simp add: hex_val_def)
  have "json_lex (LStr acc) (esc_byte c @ r) = json_lex (LStr (UCode (of_char c) # acc)) r"
    unfolding unicode(2) using hx by simp
  then show ?thesis using assms unicode(1) decode_snoc(2) [OF assms unicode(1)]
    by (intro exI [of _ "UCode (of_char c) # acc"]) (simp add: plain_units_def)
next
  case plain
  then have "json_lex (LStr acc) (esc_byte c @ r) = json_lex (LStr (UByte c # acc)) r"
    by simp
  then show ?thesis using assms decode_snoc(1) [OF assms, of c]
    by (intro exI [of _ "UByte c # acc"]) (simp add: plain_units_def)
qed

lemma lex_escaped:
  "plain_units (rev acc) \<Longrightarrow>
   json_lex (LStr acc) (concat (map esc_byte s) @ CHR 0x22 # r)
     = prepend [TStr (decode_units (rev acc) @ s)] (json_lex LBase r)"
proof (induction s arbitrary: acc)
  case Nil
  then show ?case by simp
next
  case (Cons c s)
  obtain acc' where acc': "plain_units (rev acc')"
      "decode_units (rev acc') = decode_units (rev acc) @ [c]"
      "json_lex (LStr acc) (esc_byte c @ concat (map esc_byte s) @ CHR 0x22 # r)
         = json_lex (LStr acc') (concat (map esc_byte s) @ CHR 0x22 # r)"
    using lex_esc_byte [OF Cons.prems] by blast
  from Cons.IH [OF acc'(1)] acc'(2,3) show ?case by simp
qed

lemma lex_quote: "json_lex LBase (json_quote s @ r) = prepend [TStr s] (json_lex LBase r)"
  using lex_escaped [of "[]" s r]
  by (simp add: json_quote_def lex_start_def json_space_def plain_units_def)

lemma lex_start_delim: "delimited (c # cs) \<Longrightarrow> \<not> num_char c \<and> \<not> is_lower c"
  by (auto simp: delimited_def num_char_def is_lower_def is_digit_def)

lemma lex_num_acc:
  "list_all num_char s \<Longrightarrow> delimited r \<Longrightarrow>
   json_lex (LNum acc) (s @ r) = prepend [TNum (rev acc @ s)] (json_lex LBase r)"
proof (induction s arbitrary: acc)
  case Nil
  then show ?case
    by (cases r) (auto simp: lex_start_delim split: option.splits)
next
  case (Cons c s)
  then show ?case by simp
qed

lemma lex_word_acc:
  "list_all is_lower s \<Longrightarrow> delimited r \<Longrightarrow>
   json_lex (LWord acc) (s @ r) = prepend [TWord (rev acc @ s)] (json_lex LBase r)"
proof (induction s arbitrary: acc)
  case Nil
  then show ?case
    by (cases r) (auto simp: lex_start_delim split: option.splits)
next
  case (Cons c s)
  then show ?case by simp
qed

lemma lower_other: "is_lower c \<Longrightarrow> \<not> is_digit c \<and>
    c \<notin> set [CHR '' '', CHR 0x09, CHR 0x0A, CHR 0x0D, CHR ''{'', CHR ''}'', CHR ''['', CHR '']'',
             CHR '','', CHR '':'', CHR 0x22, CHR ''-'']"
  by (auto simp: is_lower_def is_digit_def)

lemma digit_other: "is_digit c \<Longrightarrow>
    c \<notin> set [CHR '' '', CHR 0x09, CHR 0x0A, CHR 0x0D, CHR ''{'', CHR ''}'', CHR ''['', CHR '']'',
             CHR '','', CHR '':'', CHR 0x22]"
  by (auto simp: is_digit_def)

lemma lex_start_lower: "is_lower c \<Longrightarrow> lex_start c = Some ([], LWord [c])"
  using lower_other [of c] by (simp add: lex_start_def json_space_def)

lemma lex_start_num: "is_digit c \<or> c = CHR ''-'' \<Longrightarrow> lex_start c = Some ([], LNum [c])"
  using digit_other [of c] by (elim disjE) (simp_all add: lex_start_def json_space_def)

lemma lex_word:
  "list_all is_lower s \<Longrightarrow> s \<noteq> [] \<Longrightarrow> delimited r \<Longrightarrow>
   json_lex LBase (s @ r) = prepend [TWord s] (json_lex LBase r)"
  using lex_word_acc [of "tl s" r "[hd s]"]
  by (cases s) (simp_all add: lex_start_lower)

lemma valid_number_start: "valid_number (c # cs) \<Longrightarrow> is_digit c \<or> c = CHR ''-''"
  by (auto simp: valid_number_def split: if_splits)

lemma lex_num:
  assumes "valid_number s" and "list_all num_char s" and "delimited r"
  shows "json_lex LBase (s @ r) = prepend [TNum s] (json_lex LBase r)"
proof -
  from assms(1) obtain c cs where s: "s = c # cs" by (cases s) (auto simp: valid_number_def)
  have start: "is_digit c \<or> c = CHR ''-''" using assms(1) s valid_number_start by blast
  then have "lex_start c = Some ([], LNum [c])"
    by (rule lex_start_num)
  with s assms lex_num_acc [of cs r "[c]"] show ?thesis by simp
qed

lemma lex_struct:
  "json_lex LBase (CHR ''['' # r) = prepend [TLBrack] (json_lex LBase r)"
  "json_lex LBase (CHR '']'' # r) = prepend [TRBrack] (json_lex LBase r)"
  "json_lex LBase (CHR ''{'' # r) = prepend [TLBrace] (json_lex LBase r)"
  "json_lex LBase (CHR ''}'' # r) = prepend [TRBrace] (json_lex LBase r)"
  "json_lex LBase (CHR '','' # r) = prepend [TComma] (json_lex LBase r)"
  "json_lex LBase (CHR '':'' # r) = prepend [TColon] (json_lex LBase r)"
  by (simp_all add: lex_start_def json_space_def)

lemma delimited_simps [simp]:
  "delimited (CHR '','' # r)" "delimited (CHR '']'' # r)" "delimited (CHR ''}'' # r)" "delimited []"
  by (simp_all add: delimited_def)

declare json_lex.simps(5-) [simp del]

lemma lex_marshal:
  "wf_json v \<Longrightarrow> delimited r \<Longrightarrow>
     json_lex LBase (json_marshal v @ r) = prepend (json_tokens v) (json_lex LBase r)"
  "list_all wf_json vs \<Longrightarrow> delimited r \<Longrightarrow>
     json_lex LBase (marshal_elems vs @ r) = prepend (elem_tokens vs) (json_lex LBase r)"
  "list_all wf_json (map snd kvs) \<Longrightarrow> delimited r \<Longrightarrow>
     json_lex LBase (marshal_members kvs @ r) = prepend (member_tokens kvs) (json_lex LBase r)"
proof (induction v and vs and kvs arbitrary: r and r and r
    rule: json_marshal_marshal_elems_marshal_members.induct)
  case 1
  then show ?case using lex_word [of "''null''" r] by (simp add: is_lower_def)
next
  case (2 b)
  then show ?case using lex_word [of "''true''" r] lex_word [of "''false''" r]
    by (simp add: is_lower_def)
next
  case (3 s)
  then show ?case using lex_num [of s r] by simp
next
  case (4 s)
  then show ?case by (simp add: lex_quote)
next
  case (5 vs)
  then show ?case by (simp add: lex_struct)
next
  case (6 kvs)
  then show ?case by (simp add: lex_struct)
qed (simp_all add: lex_struct lex_quote)

lemma obj_put_last: "\<forall>k' \<in> fst ` set kvs. k' < k \<Longrightarrow> obj_put k v kvs = kvs @ [(k, v)]"
  by (induction kvs) (auto simp: less_imp_not_eq2 less_not_sym)

lemma p_step_value: "t \<noteq> TRBrack \<Longrightarrow> p_step (PState EFirst st) t = value_token st t"
  by (cases st; cases "hd st"; cases t) auto

lemma json_tokens_hd: "\<exists>t ts. json_tokens v = t # ts \<and> t \<noteq> TRBrack"
  by (cases v) auto

lemma elem_tokens_hd: "\<exists>t ts. elem_tokens (w # ws) = t # ts \<and> t \<noteq> TRBrack"
  using json_tokens_hd [of w] by (cases ws) auto

lemma foldl_json_tokens:
  "wf_json v \<Longrightarrow>
     foldl p_step (PState EValue st) (json_tokens v) = push_value v st"
  "list_all wf_json vs \<Longrightarrow>
     foldl p_step (PState EValue (FArr acc # st)) (elem_tokens vs @ [TRBrack])
       = (if vs = [] then PFail else push_value (JArr (rev acc @ vs)) st)"
  "list_all wf_json (map snd kvs) \<Longrightarrow> sorted_wrt (<) (map fst kvs) \<Longrightarrow>
     \<forall>k \<in> fst ` set o1. \<forall>k' \<in> fst ` set kvs. k < k' \<Longrightarrow>
     foldl p_step (PState EKey (FObj o1 # st)) (member_tokens kvs @ [TRBrace])
       = (if kvs = [] then PFail else push_value (JObj (o1 @ kvs)) st)"
proof (induction v and vs and kvs arbitrary: st and acc st and o1 st
    rule: json_marshal_marshal_elems_marshal_members.induct)
  case (5 vs)
  show ?case
  proof (cases vs)
    case (Cons w ws)
    have "foldl p_step (PState EFirst (FArr [] # st)) (elem_tokens vs @ [TRBrack])
        = foldl p_step (PState EValue (FArr [] # st)) (elem_tokens vs @ [TRBrack])"
      using elem_tokens_hd [of w ws] Cons p_step_value by fastforce
    with 5 Cons show ?thesis by simp
  qed simp
next
  case (6 kvs)
  show ?case
  proof (cases kvs)
    case (Cons kv kvs')
    have "foldl p_step (PState EKeyFirst (FObj [] # st)) (member_tokens kvs @ [TRBrace])
        = foldl p_step (PState EKey (FObj [] # st)) (member_tokens kvs @ [TRBrace])"
      unfolding Cons by (cases kv; cases kvs') auto
    with 6 Cons show ?thesis by simp
  qed simp
next
  case (12 k v kv kvs)
  then show ?case by (fastforce simp: obj_put_last)
qed (auto simp: obj_put_last)

lemma json_parse_marshal:
  assumes "wf_json v"
  shows "json_parse (json_marshal v) = Some v"
  using lex_marshal(1) [OF assms, of "[]"] foldl_json_tokens(1) [OF assms, of "[]"]
  by (simp add: json_parse_def)


section \<open>Integers as JSON numbers\<close>

lemma nat_text_no_leading_zero: "0 < n \<Longrightarrow> hd (nat_text n) \<noteq> CHR ''0''"
proof (induction n rule: nat_text.induct)
  case (1 n)
  show ?case
  proof (cases "n < 10")
    case True
    have "digit_val (digit_char n) \<noteq> digit_val (CHR ''0'')"
      using True 1(2) by (simp add: digit_char_val) (simp add: digit_val_def)
    then have "digit_char n \<noteq> CHR ''0''" by metis
    with True show ?thesis
      by (subst nat_text.simps) simp
  next
    case False
    with 1 show ?thesis
      by (subst nat_text.simps) (simp add: nat_text_nonempty)
  qed
qed

lemma valid_nat_text: "valid_frac (if hd (nat_text n) = CHR ''0'' then tl (nat_text n)
    else dropWhile is_digit (tl (nat_text n)))"
proof (cases "n = 0")
  case True
  then show ?thesis by (subst (1 2 3) nat_text.simps) (simp add: digit_char_def valid_frac_def)
next
  case False
  have "dropWhile is_digit (tl (nat_text n)) = []"
    using nat_text_digits [of n] nat_text_nonempty [of n]
    by (cases "nat_text n") (auto simp: list_all_iff dropWhile_eq_Nil_conv)
  moreover have "valid_frac []" by (simp add: valid_frac_def)
  ultimately show ?thesis using False nat_text_no_leading_zero [of n]
    by (simp del: dropWhile_eq_Nil_conv)
qed

lemma digit_num_char: "is_digit c \<Longrightarrow> num_char c"
  by (simp add: num_char_def)

lemma valid_nat_number:
  "valid_number (nat_text n)" "valid_number (CHR ''-'' # nat_text n)" "list_all num_char (nat_text n)"
proof -
  obtain c cs where c: "nat_text n = c # cs" using nat_text_nonempty by (metis list.exhaust)
  then have d: "is_digit c" "c \<noteq> CHR ''-''"
    using nat_text_digits [of n] digit_not_sign by auto
  with c valid_nat_text [of n]
  show "valid_number (nat_text n)" "valid_number (CHR ''-'' # nat_text n)"
    by (auto simp: valid_number_def)
  show "list_all num_char (nat_text n)"
    using nat_text_digits [of n] digit_num_char by (simp add: list_all_iff)
qed

lemma wf_itoa: "wf_json (JNum (itoa i))"
  using valid_nat_number [of "nat i"] valid_nat_number [of "nat (- i)"]
  by (simp add: itoa_def num_char_def)

end
