(* ===== verification/Llm_Types.thy ===== *)
theory Llm_Types
  imports Go_Strings
begin

text \<open>
  The vocabulary of package \<open>llm\<close> (\<open>llm/client.go\<close>): chat messages, one completion
  request, one completion response.  A request's temperature is a \<open>float64\<close> nothing in the
  modelled code computes with, so it is kept as its text.
\<close>

record message =
  role :: bytes
  msg_content :: bytes

definition mk_message :: "bytes \<Rightarrow> bytes \<Rightarrow> message" where
  "mk_message r c = \<lparr>role = r, msg_content = c\<rparr>"

record completion_request =
  req_messages :: "message list"
  req_model :: bytes
  req_temperature :: "bytes option"
  req_max_tokens :: "int option"

record completion_response =
  resp_content :: bytes
  resp_model :: bytes
  input_tokens :: int
  output_tokens :: int

lemma mk_message_simps [simp]:
  "role (mk_message r c) = r" "msg_content (mk_message r c) = c"
  by (simp_all add: mk_message_def)

end
