(* ===== verification/Context_Budget.thy ===== *)
theory Context_Budget
  imports Llm_Types
begin

text \<open>
  \<open>budget.go\<close>: the token budget of one request and the trim that enforces it.  A nil
  \<open>Estimate\<close> is \<open>None\<close>.  \<open>fit\<close> on an empty slice would panic at \<open>messages[0]\<close>
  when the budget is enabled; that is the result \<open>None\<close> here.
\<close>

abbreviation bytes_per_token :: int where "bytes_per_token \<equiv> 4"
abbreviation message_frame_tokens :: int where "message_frame_tokens \<equiv> 4"
abbreviation default_reserve_fraction :: int where "default_reserve_fraction \<equiv> 8"
abbreviation min_default_reserve :: int where "min_default_reserve \<equiv> 512"
abbreviation max_default_reserve :: int where "max_default_reserve \<equiv> 4096"

text \<open>\<open>executionResultPrefix\<close> and \<open>isExecutionResult\<close> of \<open>compact.go\<close>, which the trim shares.\<close>

definition execution_result_prefix :: bytes where
  "execution_result_prefix = ''Execution result:''"

definition is_execution_result :: "message \<Rightarrow> bool" where
  "is_execution_result m =
     (role m = ''user'' \<and> has_prefix execution_result_prefix (msg_content m))"

text \<open>\<open>fmt.Sprintf(budgetDropMarker, n)\<close>.\<close>

definition budget_drop_marker :: "int \<Rightarrow> bytes" where
  "budget_drop_marker n =
     ''['' @ itoa n @
     '' earlier messages in this session were dropped to fit the context window. They are gone ''
     @ em_dash @ '' do not assume what they contained.]''"

definition estimate_tokens :: "bytes \<Rightarrow> int" where
  "estimate_tokens s =
     (if s = [] then 0 else (int (length s) + bytes_per_token - 1) div bytes_per_token)"

type_synonym token_estimator = "bytes \<Rightarrow> int"

record context_budget =
  max_tokens :: int
  reserve_tokens :: int
  estimate :: "token_estimator option"

definition budget_enabled :: "context_budget \<Rightarrow> bool" where
  "budget_enabled b = (max_tokens b > 0)"

definition reserve :: "context_budget \<Rightarrow> int" where
  "reserve b =
     (if reserve_tokens b > 0 then reserve_tokens b
      else
        let r = max_tokens b div default_reserve_fraction;
            r = (if r < min_default_reserve then min_default_reserve else r);
            r = (if r > max_default_reserve then max_default_reserve else r);
            half = max_tokens b div 2
        in if r > half then half else r)"

definition allowance :: "context_budget \<Rightarrow> int" where
  "allowance b = max_tokens b - reserve b"

definition estimator :: "context_budget \<Rightarrow> token_estimator" where
  "estimator b = (case estimate b of Some e \<Rightarrow> e | None \<Rightarrow> estimate_tokens)"

definition completion_cap :: "context_budget \<Rightarrow> int option" where
  "completion_cap b = (if \<not> budget_enabled b then None else Some (reserve b))"

record budget_fit =
  fit_messages :: "message list"
  fit_dropped :: int
  fit_tokens :: int
  fit_over :: bool

definition cost :: "token_estimator \<Rightarrow> message \<Rightarrow> int" where
  "cost est m = est (msg_content m) + message_frame_tokens"

text \<open>
  The first loop of \<open>fit\<close>: \<open>i\<close> runs down from \<open>last - 1\<close> to 1 and stops at the first
  message that does not fit.  The arguments are \<open>i\<close>, \<open>used\<close> and \<open>keepFrom\<close>.
\<close>

fun keep_loop :: "token_estimator \<Rightarrow> int \<Rightarrow> message list \<Rightarrow> nat \<Rightarrow> int \<Rightarrow> nat \<Rightarrow> int \<times> nat" where
  "keep_loop est allow ms 0 used keep_from = (used, keep_from)"
| "keep_loop est allow ms (Suc i) used keep_from =
     (let c = cost est (ms ! Suc i) in
      if used + c > allow then (used, keep_from)
      else keep_loop est allow ms i (used + c) (Suc i))"

text \<open>The second loop: step over execution results whose \<open>run()\<close> block was dropped.\<close>

function orphan_loop :: "token_estimator \<Rightarrow> message list \<Rightarrow> nat \<Rightarrow> int \<Rightarrow> nat \<Rightarrow> int \<times> nat" where
  "orphan_loop est ms last_i used keep_from =
     (if keep_from < last_i \<and> is_execution_result (ms ! keep_from)
      then orphan_loop est ms last_i (used - cost est (ms ! keep_from)) (Suc keep_from)
      else (used, keep_from))"
  by pat_completeness auto
termination
  by (relation "measure (\<lambda>(est, ms, last_i, used, k). last_i - k)") auto

declare orphan_loop.simps [simp del]

definition fit :: "context_budget \<Rightarrow> message list \<Rightarrow> budget_fit option" where
  "fit b ms =
     (if \<not> budget_enabled b then
        Some \<lparr>fit_messages = ms, fit_dropped = 0, fit_tokens = 0, fit_over = False\<rparr>
      else if ms = [] then None
      else
        let est = estimator b;
            allow = allowance b;
            last_i = length ms - 1;
            used = cost est (ms ! 0) + (if last_i > 0 then cost est (ms ! last_i) else 0)
        in
        if length ms < 3 then
          Some \<lparr>fit_messages = ms, fit_dropped = 0, fit_tokens = used, fit_over = (used > allow)\<rparr>
        else
          let marker = est (budget_drop_marker (int (length ms))) + message_frame_tokens;
              (used1, keep1) = keep_loop est allow ms (last_i - 1) (used + marker) last_i;
              (used2, keep2) = orphan_loop est ms last_i used1 keep1
          in
          if keep2 \<le> 1 then
            Some \<lparr>fit_messages = ms, fit_dropped = 0, fit_tokens = used2 - marker, fit_over = False\<rparr>
          else
            Some \<lparr>fit_messages = ms ! 0 # mk_message ''user'' (budget_drop_marker (int (keep2 - 1)))
                                  # drop keep2 ms,
                  fit_dropped = int (keep2 - 1), fit_tokens = used2, fit_over = (used2 > allow)\<rparr>)"

section \<open>The reserve and the allowance\<close>

lemma default_reserve_bounds:
  assumes "0 < max_tokens b" and "reserve_tokens b \<le> 0"
  shows "0 \<le> reserve b" and "2 * reserve b \<le> max_tokens b" and "reserve b \<le> max_default_reserve"
  using assms by (auto simp: reserve_def Let_def)

lemma default_allowance_pos:
  "0 < max_tokens b \<Longrightarrow> reserve_tokens b \<le> 0 \<Longrightarrow> 0 < allowance b"
  using default_reserve_bounds [of b] by (simp add: allowance_def)

section \<open>The estimate\<close>

lemma estimate_ceil: "estimate_tokens s = (int (length s) + 3) div 4"
  by (simp add: estimate_tokens_def add.commute)

lemma estimate_nonneg: "0 \<le> estimate_tokens s"
  by (simp add: estimate_ceil)

lemma estimate_mono: "length s \<le> length t \<Longrightarrow> estimate_tokens s \<le> estimate_tokens t"
  unfolding estimate_ceil by (intro zdiv_mono1) auto

lemma estimate_append: "estimate_tokens (s @ t) \<le> estimate_tokens s + estimate_tokens t"
  unfolding estimate_ceil by simp

lemma estimate_le_iff: "estimate_tokens s \<le> n \<longleftrightarrow> int (length s) \<le> 4 * n"
  unfolding estimate_ceil by linarith

lemma length_drop_marker_mono:
  "0 \<le> m \<Longrightarrow> m \<le> n \<Longrightarrow> length (budget_drop_marker m) \<le> length (budget_drop_marker n)"
  by (simp add: budget_drop_marker_def itoa_def length_nat_text_mono nat_mono)

section \<open>The trim\<close>

definition total_cost :: "token_estimator \<Rightarrow> message list \<Rightarrow> int" where
  "total_cost est ms = sum_list (map (cost est) ms)"

lemma total_cost_simps [simp]:
  "total_cost est [] = 0" "total_cost est (m # ms) = cost est m + total_cost est ms"
  "total_cost est (ms @ ns) = total_cost est ms + total_cost est ns"
  by (simp_all add: total_cost_def)

text \<open>
  Both loops keep \<open>used\<close> equal to a base (the system prompt, the last message and the
  marker) plus the cost of the messages from \<open>keepFrom\<close> up to the last one.
\<close>

definition kept_cost :: "token_estimator \<Rightarrow> message list \<Rightarrow> nat \<Rightarrow> int" where
  "kept_cost est ms k = total_cost est (drop k (butlast ms))"

lemma kept_cost_step:
  "Suc k < length ms \<Longrightarrow> kept_cost est ms k = cost est (ms ! k) + kept_cost est ms (Suc k)"
  by (simp add: kept_cost_def Cons_nth_drop_Suc [symmetric] nth_butlast)

lemma kept_cost_last: "kept_cost est ms (length ms - 1) = 0"
  by (simp add: kept_cost_def)

lemma total_cost_nonneg: "\<forall>s. 0 \<le> est s \<Longrightarrow> 0 \<le> total_cost est ms"
  by (induction ms) (auto simp: cost_def)

lemma kept_cost_antimono:
  assumes "\<forall>s. 0 \<le> est s" and "k \<le> k'"
  shows "kept_cost est ms k' \<le> kept_cost est ms k"
proof -
  let ?xs = "drop k (butlast ms)"
  have "total_cost est ?xs = total_cost est (take (k' - k) ?xs) + total_cost est (drop (k' - k) ?xs)"
    by (metis append_take_drop_id total_cost_simps(3))
  moreover have "0 \<le> total_cost est (take (k' - k) ?xs)" by (rule total_cost_nonneg [OF assms(1)])
  ultimately show ?thesis using assms(2) by (simp add: kept_cost_def)
qed

lemma keep_loop_spec:
  assumes "keep_loop est allow ms i used k = (used', k')"
    and "k = Suc i" and "k < length ms"
  shows "k' \<le> k \<and> 1 \<le> k' \<and> used' - kept_cost est ms k' = used - kept_cost est ms k
         \<and> (k' = k \<longrightarrow> used' = used) \<and> (k' < k \<longrightarrow> used' \<le> allow)"
  using assms
proof (induction i arbitrary: used k)
  case 0
  then show ?case by simp
next
  case (Suc i)
  show ?case
  proof (cases "used + cost est (ms ! Suc i) > allow")
    case True
    with Suc.prems show ?thesis by simp
  next
    case False
    let ?u = "used + cost est (ms ! Suc i)"
    have rec: "keep_loop est allow ms i ?u (Suc i) = (used', k')"
      using Suc.prems(1) False by simp
    have "k' \<le> Suc i \<and> 1 \<le> k' \<and> used' - kept_cost est ms k' = ?u - kept_cost est ms (Suc i)
         \<and> (k' = Suc i \<longrightarrow> used' = ?u) \<and> (k' < Suc i \<longrightarrow> used' \<le> allow)"
      using Suc.IH [OF rec] Suc.prems False by simp
    moreover have "kept_cost est ms (Suc i) = cost est (ms ! Suc i) + kept_cost est ms k"
      using kept_cost_step [of "Suc i" ms est] Suc.prems by simp
    ultimately show ?thesis using False Suc.prems(2) by auto
  qed
qed

lemma orphan_loop_spec:
  assumes "orphan_loop est ms l used k = (used', k')" and "k \<le> l" and "l = length ms - 1"
    and "ms \<noteq> []"
  shows "k \<le> k' \<and> k' \<le> l \<and> used' - kept_cost est ms k' = used - kept_cost est ms k
         \<and> (k' < l \<longrightarrow> \<not> is_execution_result (ms ! k'))
         \<and> (\<forall>j. k \<le> j \<and> j < k' \<longrightarrow> is_execution_result (ms ! j))"
  using assms
proof (induction est ms l used k rule: orphan_loop.induct)
  case (1 est ms l used k)
  show ?case
  proof (cases "k < l \<and> is_execution_result (ms ! k)")
    case True
    have rec: "orphan_loop est ms l (used - cost est (ms ! k)) (Suc k) = (used', k')"
      using "1.prems"(1) True by (subst (asm) orphan_loop.simps) simp
    have ih: "Suc k \<le> k' \<and> k' \<le> l
         \<and> used' - kept_cost est ms k' = used - cost est (ms ! k) - kept_cost est ms (Suc k)
         \<and> (k' < l \<longrightarrow> \<not> is_execution_result (ms ! k'))
         \<and> (\<forall>j. Suc k \<le> j \<and> j < k' \<longrightarrow> is_execution_result (ms ! j))"
      using "1.IH" [OF True rec] True "1.prems" by simp
    moreover have "kept_cost est ms k = cost est (ms ! k) + kept_cost est ms (Suc k)"
      using True "1.prems" by (intro kept_cost_step) auto
    moreover have "\<forall>j. k \<le> j \<and> j < k' \<longrightarrow> is_execution_result (ms ! j)"
      using ih True by (metis Suc_leI le_neq_implies_less)
    ultimately show ?thesis by auto
  next
    case False
    then show ?thesis using "1.prems" by (subst (asm) orphan_loop.simps) auto
  qed
qed

lemma drop_split_last: "k < length ms \<Longrightarrow> drop k ms = drop k (butlast ms) @ [last ms]"
  by (cases ms rule: rev_cases) simp_all

lemma fit_total: "ms \<noteq> [] \<Longrightarrow> \<exists>f. fit b ms = Some f"
  by (auto simp: fit_def Let_def split: prod.splits)

text \<open>Everything \<open>fit\<close> can return, with what it costs.\<close>

lemma fit_cases:
  assumes "budget_enabled b" and "ms \<noteq> []" and "fit b ms = Some f"
  obtains (short) "length ms < 3" "fit_messages f = ms" "fit_dropped f = 0"
      "fit_tokens f = total_cost (estimator b) ms"
      "fit_over f = (total_cost (estimator b) ms > allowance b)"
  | (whole) "3 \<le> length ms" "fit_messages f = ms" "fit_dropped f = 0" "\<not> fit_over f"
      "fit_tokens f = total_cost (estimator b) ms"
      "total_cost (estimator b) ms
         + estimator b (budget_drop_marker (int (length ms))) + message_frame_tokens \<le> allowance b"
  | (trimmed) k where "3 \<le> length ms" "2 \<le> k" "k < length ms" "fit_dropped f = int (k - 1)"
      "fit_messages f = hd ms # mk_message ''user'' (budget_drop_marker (int (k - 1))) # drop k ms"
      "k < length ms - 1 \<longrightarrow> \<not> is_execution_result (ms ! k)"
      "fit_tokens f = cost (estimator b) (hd ms) + total_cost (estimator b) (drop k ms)
         + estimator b (budget_drop_marker (int (length ms))) + message_frame_tokens"
      "fit_over f = (fit_tokens f > allowance b)"
      "(\<forall>s. 0 \<le> estimator b s) \<longrightarrow> fit_over f \<longrightarrow> k = length ms - 1"
proof -
  let ?est = "estimator b"
  let ?n = "length ms"
  show thesis
  proof (cases "?n < 3")
    case True
    then consider m where "ms = [m]" | m m' where "ms = [m, m']"
      using assms(2) by (cases ms; cases "tl ms"; cases "tl (tl ms)") auto
    then show thesis
      using assms(1,3) by cases (auto simp: fit_def Let_def intro!: short)
  next
    case False
    then have n3: "3 \<le> ?n" by simp
    let ?l = "?n - 1"
    let ?marker = "?est (budget_drop_marker (int ?n)) + message_frame_tokens"
    let ?base = "cost ?est (ms ! 0) + cost ?est (ms ! ?l)"
    obtain u1 k1 where l1: "keep_loop ?est (allowance b) ms (?l - 1) (?base + ?marker) ?l = (u1, k1)"
      by fastforce
    obtain u2 k2 where l2: "orphan_loop ?est ms ?l u1 k1 = (u2, k2)" by fastforce
    have hd: "ms ! 0 = hd ms" and last: "ms ! ?l = last ms"
      using assms(2) by (simp_all add: hd_conv_nth last_conv_nth)
    have s1: "k1 \<le> ?l \<and> 1 \<le> k1 \<and> u1 - kept_cost ?est ms k1 = ?base + ?marker
        \<and> (k1 < ?l \<longrightarrow> u1 \<le> allowance b)"
    proof -
      have l: "?l = Suc (?l - 1)" "?l < ?n" using n3 by auto
      show ?thesis using keep_loop_spec [OF l1 l] kept_cost_last [of ?est ms] by auto
    qed
    then have s2: "k1 \<le> k2 \<and> k2 \<le> ?l \<and> u2 - kept_cost ?est ms k2 = ?base + ?marker
        \<and> (k2 < ?l \<longrightarrow> \<not> is_execution_result (ms ! k2))"
      using orphan_loop_spec [OF l2] assms(2) by auto
    have dropc: "total_cost ?est (drop k2 ms) = kept_cost ?est ms k2 + cost ?est (last ms)"
      using s2 n3 by (subst drop_split_last) (auto simp: kept_cost_def)
    have f: "f = (if k2 \<le> 1 then
            \<lparr>fit_messages = ms, fit_dropped = 0, fit_tokens = u2 - ?marker, fit_over = False\<rparr>
          else \<lparr>fit_messages = ms ! 0 # mk_message ''user'' (budget_drop_marker (int (k2 - 1))) # drop k2 ms,
                 fit_dropped = int (k2 - 1), fit_tokens = u2, fit_over = (u2 > allowance b)\<rparr>)"
      using assms n3 l1 l2 by (simp add: fit_def Let_def split: if_splits)
    show thesis
    proof (cases "k2 \<le> 1")
      case True
      with s1 s2 have k: "k2 = 1" "k1 = 1" by auto
      have "ms = hd ms # drop 1 ms" using assms(2) by (simp add: drop_Suc)
      then have tot: "total_cost ?est ms = cost ?est (hd ms) + total_cost ?est (drop 1 ms)"
        by (metis total_cost_simps(2))
      have "u2 = u1" using s1 s2 k by simp
      moreover have "1 < ?l" using n3 by simp
      ultimately have "u2 \<le> allowance b" using s1 k by simp
      then show thesis using f True n3 s2 k hd last tot dropc by (intro whole) simp_all
    next
      case False
      have over: "k2 = ?l" if nn: "\<forall>s. 0 \<le> ?est s" and "fit_over f"
      proof (rule ccontr)
        assume "k2 \<noteq> ?l"
        with s1 s2 have "u1 \<le> allowance b" by auto
        moreover have "kept_cost ?est ms k2 \<le> kept_cost ?est ms k1"
          using kept_cost_antimono [OF nn] s2 by blast
        ultimately have "u2 \<le> allowance b" using s1 s2 by linarith
        then show False using f False that(2) by simp
      qed
      show thesis using f n3 s2 hd last dropc False over by (intro trimmed [of k2]) auto
    qed
  qed
qed

section \<open>Properties\<close>

text \<open>
  Trimming never fails on a prompt and never touches its ends: the system prompt stays first
  and the newest message last.  What is dropped is one run of messages after the system prompt,
  replaced by a notice that counts them, and the first message kept after it is not a script's
  output, unless that is the newest message.
\<close>

theorem fit_keeps_ends:
  "\<exists>f. fit b (m # ms) = Some f \<and> hd (fit_messages f) = m \<and> last (fit_messages f) = last (m # ms)
     \<and> (fit_messages f = m # ms \<and> fit_dropped f = 0
        \<or> (\<exists>k. 2 \<le> k \<and> k \<le> length ms \<and> fit_dropped f = int (k - 1)
             \<and> fit_messages f = m # mk_message ''user'' (budget_drop_marker (int (k - 1))) # drop k (m # ms)
             \<and> (if k = length ms then True else \<not> is_execution_result ((m # ms) ! k))))"
proof (cases "budget_enabled b")
  case True
  have ne: "m # ms \<noteq> []" by simp
  obtain f where f: "fit b (m # ms) = Some f" using fit_total [OF ne] by blast
  from True ne f show ?thesis
  proof (cases rule: fit_cases)
    case short
    then show ?thesis using f by simp
  next
    case whole
    then show ?thesis using f by simp
  next
    case (trimmed k)
    have "last (drop k (m # ms)) = last (m # ms)" by (rule last_drop) (use trimmed in simp)
    moreover have "drop k (m # ms) \<noteq> []" using trimmed by simp
    ultimately have "last (fit_messages f) = last (m # ms)" unfolding trimmed(5) by simp
    moreover have "if k = length ms then True else \<not> is_execution_result ((m # ms) ! k)"
      using trimmed by auto
    moreover have "hd (fit_messages f) = m" "k \<le> length ms" using trimmed(3,5) by simp_all
    moreover note trimmed(2,4) trimmed(5) [simplified list.sel]
    ultimately show ?thesis using f by blast
  qed
qed (simp add: fit_def)

text \<open>
  The default reserve never takes more than half of the window and never leaves the prompt
  without room, for any window.
\<close>

theorem default_reserve_sound:
  "if 0 < max_tokens b \<and> reserve_tokens b \<le> 0
   then 0 \<le> reserve b \<and> 2 * reserve b \<le> max_tokens b \<and> reserve b \<le> 4096 \<and> 0 < allowance b
        \<and> completion_cap b = Some (reserve b) \<and> allowance b + reserve b = max_tokens b
   else True"
  using default_reserve_bounds [of b] default_allowance_pos [of b]
  by (auto simp: completion_cap_def budget_enabled_def allowance_def)

end
