(* ===== verification/Step_History.thy ===== *)
theory Step_History
  imports Go_Json Context_Budget
begin

text \<open>
  The session trace and its replay: the \<open>RunStep\<close> row of \<open>store.go\<close>, the compaction
  checkpoint and its marker (\<open>compact.go\<close>), \<open>history.go\<close>, which turns rows back into chat
  messages, and \<open>retainFromStep\<close> (\<open>run.go\<close>).  Decoding a marker follows
  \<open>json.Unmarshal\<close> into a struct with one \<open>int32\<close> field: other keys are ignored, an
  absent or null field stays zero, anything but an integer literal in range is an error (the
  field name is matched in its own spelling only; Go also accepts other letter case).
\<close>

record run_step =
  session_id :: bytes
  step_index :: int
  step_type :: bytes
  step_content :: bytes
  tool_args :: bytes
  duration_ms :: int
  step_prompt_tokens :: int
  step_completion_tokens :: int
  created_at :: int

section \<open>Checkpoints\<close>

definition step_type_summary :: bytes where
  "step_type_summary = ''summary''"

datatype checkpoint_error = No_marker | Bad_marker

definition retain_key :: bytes where
  "retain_key = ''retain_from_step''"

definition decode_retain :: "json \<Rightarrow> checkpoint_error + int" where
  "decode_retain v =
     (case v of
        JNull \<Rightarrow> Inr 0
      | JNum s \<Rightarrow>
          (case parse_int s of
             None \<Rightarrow> Inl Bad_marker
           | Some n \<Rightarrow> if - (2 ^ 31) \<le> n \<and> n < 2 ^ 31 then Inr n else Inl Bad_marker)
      | _ \<Rightarrow> Inl Bad_marker)"

definition decode_checkpoint :: "bytes \<Rightarrow> checkpoint_error + int" where
  "decode_checkpoint raw =
     (if raw = [] then Inl No_marker
      else case json_parse raw of
             None \<Rightarrow> Inl Bad_marker
           | Some JNull \<Rightarrow> Inr 0
           | Some (JObj kvs) \<Rightarrow>
               (case map_of kvs retain_key of None \<Rightarrow> Inr 0 | Some v \<Rightarrow> decode_retain v)
           | Some _ \<Rightarrow> Inl Bad_marker)"

text \<open>\<open>json.Marshal(CompactionCheckpoint{RetainFromStep: retain})\<close>.\<close>

definition encode_checkpoint :: "int \<Rightarrow> bytes" where
  "encode_checkpoint retain = json_marshal (JObj [(retain_key, JNum (itoa retain))])"

text \<open>The loop of \<open>lastCheckpoint\<close> runs from the newest step down: the argument is reversed.\<close>

fun last_checkpoint_rev :: "run_step list \<Rightarrow> (bytes \<times> int \<times> int) option" where
  "last_checkpoint_rev [] = None"
| "last_checkpoint_rev (s # ss) =
     (if step_type s \<noteq> step_type_summary \<or> trim_space (step_content s) = []
      then last_checkpoint_rev ss
      else case decode_checkpoint (tool_args s) of
             Inl _ \<Rightarrow> last_checkpoint_rev ss
           | Inr retain \<Rightarrow> Some (step_content s, retain, step_index s))"

definition last_checkpoint :: "run_step list \<Rightarrow> (bytes \<times> int \<times> int) option" where
  "last_checkpoint steps = last_checkpoint_rev (rev steps)"

section \<open>Replay\<close>

definition js_fence_open :: bytes where
  "js_fence_open = ''```javascript'' @ newline"

definition js_fence_close :: bytes where
  "js_fence_close = newline @ ''```''"

definition step_to_turn :: "run_step \<Rightarrow> (bytes \<times> bytes) option" where
  "step_to_turn s =
     (if step_type s = ''user'' then Some (''user'', step_content s)
      else if step_type s = ''response'' then Some (''assistant'', step_content s)
      else if step_type s = ''execute_js'' then
        Some (''assistant'', js_fence_open @ step_content s @ js_fence_close)
      else if step_type s = ''execute_js_result'' then
        Some (''user'', execution_result_prefix @ newline @ step_content s)
      else None)"

text \<open>The loop of \<open>rehydrateHistory\<close>; \<open>retain\<close> is \<open>None\<close> when \<open>compacted\<close> is false.\<close>

fun replay_steps :: "int option \<Rightarrow> run_step list \<Rightarrow> message list \<times> int list" where
  "replay_steps retain [] = ([], [])"
| "replay_steps retain (s # ss) =
     (if step_type s = step_type_summary then replay_steps retain ss
      else if (case retain of Some r \<Rightarrow> step_index s < r | None \<Rightarrow> False) then replay_steps retain ss
      else case step_to_turn s of
             None \<Rightarrow> replay_steps retain ss
           | Some (r, t) \<Rightarrow>
               let (out, step_of) = replay_steps retain ss
               in (mk_message r t # out, step_index s # step_of))"

abbreviation default_history_window :: int where "default_history_window \<equiv> 80"

definition rehydrate_history :: "run_step list \<Rightarrow> int \<Rightarrow> message list \<times> int list" where
  "rehydrate_history steps window =
     (let window = (if window \<le> 0 then default_history_window else window);
          steps = (if int (length steps) > window then last_n (nat window) steps else steps)
      in case last_checkpoint steps of
           None \<Rightarrow> replay_steps None steps
         | Some (summary, retain, at) \<Rightarrow>
             let (out, step_of) = replay_steps (Some retain) steps
             in (mk_message ''user'' summary # out, at # step_of))"

definition retain_from_step :: "int \<Rightarrow> int list \<Rightarrow> int option" where
  "retain_from_step retained_from step_of =
     (if retained_from \<le> 0 \<or> step_of = [] then None
      else if retained_from \<ge> int (length step_of)
        then Some (i32 (step_of ! (length step_of - 1) + 1))
      else Some (step_of ! nat retained_from))"

section \<open>Markers round-trip\<close>

lemma decode_encode_checkpoint:
  assumes "- (2 ^ 31) \<le> n" and "n < 2 ^ 31"
  shows "decode_checkpoint (encode_checkpoint n) = Inr n"
proof -
  have "wf_json (JObj [(retain_key, JNum (itoa n))])"
    using wf_itoa by simp
  then have "json_parse (encode_checkpoint n) = Some (JObj [(retain_key, JNum (itoa n))])"
    unfolding encode_checkpoint_def by (rule json_parse_marshal)
  moreover have "encode_checkpoint n \<noteq> []" by (simp add: encode_checkpoint_def)
  ultimately show ?thesis using assms
    by (simp add: decode_checkpoint_def decode_retain_def parse_int_itoa)
qed

section \<open>What is replayed\<close>

text \<open>The turns of a trace, as pairs of a message and the index of its row.\<close>

definition turn_of :: "run_step \<Rightarrow> (message \<times> int) option" where
  "turn_of s = map_option (\<lambda>(r, t). (mk_message r t, step_index s)) (step_to_turn s)"

definition turns :: "run_step list \<Rightarrow> (message \<times> int) list" where
  "turns ss = List.map_filter turn_of ss"

lemma turns_simps [simp]:
  "turns [] = []"
  "turns (s # ss) = (case turn_of s of None \<Rightarrow> turns ss | Some m \<Rightarrow> m # turns ss)"
  by (simp_all add: turns_def List.map_filter_simps split: option.split)

lemma turns_append [simp]: "turns (ss @ ts) = turns ss @ turns ts"
  by (induction ss) (auto split: option.splits)

lemma turn_of_summary: "step_type s = step_type_summary \<Longrightarrow> turn_of s = None"
  by (simp add: turn_of_def step_to_turn_def step_type_summary_def)

definition retained :: "int option \<Rightarrow> message \<times> int \<Rightarrow> bool" where
  "retained retain m = (case retain of Some r \<Rightarrow> r \<le> snd m | None \<Rightarrow> True)"

lemma turn_of_index: "turn_of s = Some m \<Longrightarrow> snd m = step_index s"
  by (auto simp: turn_of_def)

text \<open>The loop computes the turns the checkpoint does not cover.\<close>

lemma replay_steps_turns:
  "replay_steps retain ss
     = (let ms = filter (retained retain) (turns ss) in (map fst ms, map snd ms))"
proof (induction ss)
  case (Cons s ss)
  show ?case
  proof (cases "turn_of s")
    case None
    then have "step_to_turn s = None" by (simp add: turn_of_def)
    with None Cons show ?thesis by (simp add: Let_def)
  next
    case (Some m)
    then have ty: "step_type s \<noteq> step_type_summary" using turn_of_summary by fastforce
    from Some obtain r t where "step_to_turn s = Some (r, t)" "m = (mk_message r t, step_index s)"
      by (auto simp: turn_of_def)
    with Some Cons ty show ?thesis
      by (cases retain) (auto simp: Let_def retained_def)
  qed
qed simp

lemma replay_steps_fst: "fst (replay_steps retain ss) = map fst (filter (retained retain) (turns ss))"
  and replay_steps_snd: "snd (replay_steps retain ss) = map snd (filter (retained retain) (turns ss))"
  by (simp_all add: replay_steps_turns Let_def)

text \<open>Along a trace whose indices increase, retaining from a turn's index drops what precedes it.\<close>

definition increasing :: "run_step list \<Rightarrow> bool" where
  "increasing ss = sorted_wrt (<) (map step_index ss)"

lemma turns_increasing: "increasing ss \<Longrightarrow> sorted_wrt (<) (map snd (turns ss))"
proof (induction ss)
  case (Cons s ss)
  have "\<forall>m \<in> set (turns ss). snd m \<in> step_index ` set ss"
    by (induction ss) (auto split: option.splits dest: turn_of_index)
  with Cons show ?case
    by (fastforce simp: increasing_def split: option.splits dest: turn_of_index)
qed simp

lemma filter_from_index:
  assumes "sorted_wrt (<) (map snd ms)" and "j < length ms"
  shows "filter (retained (Some (snd (ms ! j)))) ms = drop j ms"
  using assms
proof (induction ms arbitrary: j)
  case (Cons m ms)
  show ?case
  proof (cases j)
    case 0
    have "\<forall>n \<in> set ms. snd m \<le> snd n" using Cons.prems by (auto simp: less_imp_le)
    then have "filter (retained (Some (snd m))) ms = ms"
      by (simp add: filter_id_conv retained_def)
    moreover have "retained (Some (snd m)) m" by (simp add: retained_def)
    ultimately show ?thesis using 0 by simp
  next
    case (Suc i)
    with Cons.prems have "snd m < snd (ms ! i)" by simp
    then have "\<not> retained (Some (snd (ms ! i))) m" by (simp add: retained_def)
    with Suc Cons show ?thesis by simp
  qed
qed simp

lemma filter_below:
  "\<forall>m \<in> set ms. snd m < r \<Longrightarrow> filter (retained (Some r)) ms = []"
  "\<forall>m \<in> set ms. r \<le> snd m \<Longrightarrow> filter (retained (Some r)) ms = ms"
  by (auto simp: retained_def filter_empty_conv not_le intro: filter_True)

lemma last_checkpoint_newest:
  assumes "step_type cp = step_type_summary" and "trim_space (step_content cp) \<noteq> []"
    and "decode_checkpoint (tool_args cp) = Inr retain"
    and "list_all (\<lambda>s. step_type s \<noteq> step_type_summary) later"
  shows "last_checkpoint (steps @ cp # later) = Some (step_content cp, retain, step_index cp)"
proof -
  have skip: "list_all (\<lambda>s. step_type s \<noteq> step_type_summary) ss \<Longrightarrow>
      last_checkpoint_rev (ss @ ts) = last_checkpoint_rev ts" for ss ts
    by (induction ss) auto
  have "last_checkpoint_rev (rev later @ cp # rev steps) = last_checkpoint_rev (cp # rev steps)"
    using assms(4) by (intro skip) simp
  then show ?thesis using assms by (simp add: last_checkpoint_def)
qed

lemma turn_indices: "m \<in> set (turns ss) \<Longrightarrow> snd m \<in> step_index ` set ss"
  by (induction ss) (auto split: option.splits dest: turn_of_index)

section \<open>Properties\<close>

text \<open>
  A compaction marker that was written for an index decodes to that index, for every
  \<open>int32\<close>; in particular a written marker is never mistaken for a missing or a damaged one.
\<close>

theorem checkpoint_roundtrip:
  "decode_checkpoint (encode_checkpoint (i32 n)) = Inr (i32 n)"
  using i32_range [of n] by (intro decode_encode_checkpoint) auto

text \<open>
  Without a checkpoint in the window, replay keeps exactly the steps that are turns of the
  conversation, in order, each with the index it came from: errors and summaries are left out,
  scripts come back fenced, their results labelled.
\<close>

theorem rehydrate_plain:
  assumes "0 < window" and "int (length steps) \<le> window"
    and "list_all (\<lambda>s. step_type s \<noteq> step_type_summary) steps"
  shows "rehydrate_history steps window = (map fst (turns steps), map snd (turns steps))"
proof -
  have "last_checkpoint_rev ss = None" if "list_all (\<lambda>s. step_type s \<noteq> step_type_summary) ss" for ss
    using that by (induction ss) auto
  moreover have "list_all (\<lambda>s. step_type s \<noteq> step_type_summary) (rev steps)"
    using assms(3) by (simp add: list_all_iff)
  ultimately have "last_checkpoint steps = None" by (simp add: last_checkpoint_def)
  moreover have "filter (retained None) (turns steps) = turns steps"
    by (rule filter_True) (simp add: retained_def)
  ultimately show ?thesis
    using assms(1,2) by (simp add: rehydrate_history_def Let_def replay_steps_turns)
qed

theorem rehydrate_plain_witness:
  "rehydrate_history
     [\<lparr>session_id = [], step_index = 0, step_type = ''user'', step_content = ''a'', tool_args = [],
       duration_ms = 0, step_prompt_tokens = 0, step_completion_tokens = 0, created_at = 0\<rparr>] 80
   = ([mk_message ''user'' ''a''], [0])"
  by (subst rehydrate_plain) (simp_all add: step_type_summary_def turn_of_def step_to_turn_def)

end
