(* ===== verification/Compaction.thy ===== *)
theory Compaction
  imports Context_Budget
begin

text \<open>
  \<open>compact.go\<close>: \<open>SummarizingCompactor\<close>, which folds the older part of a history into one
  summary message, in as many summarization calls as it takes.  The \<open>llm.Client\<close> is an
  argument: a function from the requests it has served so far and the next one to a response
  and an optional error text (\<open>Complete\<close> returns both).  The state of a compaction is that
  list of requests and the token usage charged so far.
\<close>

text \<open>\<open>DefaultCompactPrompt\<close> and \<open>DefaultMergePrompt\<close>, line by line.\<close>

definition default_compact_prompt :: bytes where
  "default_compact_prompt =
     concat [''You are compacting the earlier part of an agent session so it can be dropped'',
       '' from the context window without losing what matters.'',
       newline,
       newline,
       ''The transcript interleaves three kinds of turn: what the user asked, JavaScript'',
       '' the agent wrote, and the logs that script produced. The agent's working data'',
       '' is threaded separately and is NOT in this transcript '',
       em_dash,
       '' do not claim a value you cannot see here.'',
       newline,
       newline,
       ''Write a compact summary covering, in this order:'',
       newline,
       ''- what the user asked for, in their own terms, including any constraint they'',
       '' stated'',
       newline,
       ''- what has actually been established: findings, values, identifiers, and'',
       '' decisions the later turns will need'',
       newline,
       ''- what failed and why, so the agent does not retry a dead end'',
       newline,
       ''- what remains unfinished'',
       newline,
       newline,
       ''Be specific '',
       em_dash,
       '' names, ids, numbers, paths '',
       em_dash,
       '' and omit anything the agent can trivially recompute. No preamble, no closing'',
       '' remark, no markdown headings. Prose and short bullets only.'']"

definition default_merge_prompt :: bytes where
  "default_merge_prompt =
     concat [''You are merging several partial summaries of ONE agent session into a single'',
       '' summary.'',
       newline,
       newline,
       ''The inputs are consecutive stretches of the same session, in order. Later parts'',
       '' continue the work of earlier ones: a fact established early is still true'',
       '' later unless a later part says otherwise, and a value a later part corrects'',
       '' supersedes the earlier one.'',
       newline,
       newline,
       ''Write one summary in the same shape as its inputs, covering, in this order:'',
       newline,
       ''- what the user asked for, in their own terms, including any constraint they'',
       '' stated'',
       newline,
       ''- what has actually been established: findings, values, identifiers, and'',
       '' decisions the later turns will need'',
       newline,
       ''- what failed and why, so the agent does not retry a dead end'',
       newline,
       ''- what remains unfinished'',
       newline,
       newline,
       ''Reconcile rather than concatenate. Drop what a later part superseded, keep'',
       '' every specific still in play '',
       em_dash,
       '' names, ids, numbers, paths '',
       em_dash,
       '' and never introduce a detail no input states. No preamble, no closing remark,'',
       '' no markdown headings. Prose and short bullets only.'']"

abbreviation default_compact_trigger :: int where "default_compact_trigger \<equiv> 60"
abbreviation default_compact_keep :: int where "default_compact_keep \<equiv> 20"
abbreviation default_summarize_tokens :: int where "default_summarize_tokens \<equiv> 50000"
abbreviation min_chunk_tokens :: int where "min_chunk_tokens \<equiv> 1000"
abbreviation max_fold_rounds :: nat where "max_fold_rounds \<equiv> 5"

type_synonym llm_complete =
  "completion_request list \<Rightarrow> completion_request \<Rightarrow> completion_response \<times> bytes option"

record summarizing_compactor =
  sc_llm :: "llm_complete option"
  sc_model :: bytes
  sc_trigger :: int
  sc_keep :: int
  sc_prompt :: bytes
  sc_merge_prompt :: bytes
  sc_budget :: context_budget

record compact_result =
  cr_messages :: "message list"
  cr_prompt_tokens :: int
  cr_completion_tokens :: int
  cr_summary :: bytes
  cr_retained_from :: int

record call_state =
  cs_requests :: "completion_request list"
  cs_prompt :: int
  cs_completion :: int

section \<open>Where to cut\<close>

definition bounds :: "summarizing_compactor \<Rightarrow> int \<times> int" where
  "bounds c =
     (let trigger = (if sc_trigger c \<le> 0 then default_compact_trigger else sc_trigger c);
          keep = (if sc_keep c \<le> 0 then default_compact_keep else sc_keep c);
          keep = (if keep \<ge> trigger then trigger div 2 else keep)
      in (trigger, keep))"

definition safe_split_point :: "message list \<Rightarrow> int \<Rightarrow> int" where
  "safe_split_point history desired =
     (if desired \<le> 0 then 0
      else if desired \<ge> int (length history) then int (length history)
      else if is_execution_result (history ! nat desired) then desired - 1
      else desired)"

section \<open>The transcript and its chunks\<close>

definition render_message :: "message \<Rightarrow> bytes" where
  "render_message m =
     (let label = (if is_execution_result m then ''execution result'' else role m)
      in ''['' @ label @ '']'' @ newline @ msg_content m @ newline @ newline)"

definition render_transcript :: "message list \<Rightarrow> bytes" where
  "render_transcript ms = concat (map render_message ms)"

definition elide_to :: "bytes \<Rightarrow> int \<Rightarrow> bytes" where
  "elide_to s keep =
     (if keep \<ge> int (length s) then s
      else
        let half = keep div 2 in
        take (nat half) s @
        newline @ newline @ ''[... '' @ itoa (int (length s) - keep) @
        '' bytes of the middle of this transcript omitted ...]'' @ newline @ newline @
        drop (nat (int (length s) - (keep - half))) s)"

text \<open>The binary search of \<open>elideMiddle\<close> over the number of bytes kept.\<close>

function elide_search :: "bytes \<Rightarrow> int \<Rightarrow> token_estimator \<Rightarrow> int \<Rightarrow> int \<Rightarrow> bytes \<Rightarrow> bytes" where
  "elide_search s max_t est lo hi best =
     (if lo \<le> hi then
        let mid = (lo + hi) div 2; candidate = elide_to s mid in
        if est candidate \<le> max_t then elide_search s max_t est (mid + 1) hi candidate
        else elide_search s max_t est lo (mid - 1) best
      else best)"
  by pat_completeness auto
termination
  by (relation "measure (\<lambda>(s, m, est, lo, hi, best). nat (hi + 1 - lo))") auto

declare elide_search.simps [simp del]

definition elide_middle :: "bytes \<Rightarrow> int \<Rightarrow> token_estimator \<Rightarrow> bytes" where
  "elide_middle s max_t est =
     (if est s \<le> max_t then s else elide_search s max_t est 0 (int (length s)) (elide_to s 0))"

text \<open>
  The loop of \<open>transcriptChunks\<close>: \<open>cur\<close> is the builder, \<open>chunks\<close> the slice so far.
  \<open>flush\<close> leaves both alone when the builder is empty.
\<close>

definition flush :: "bytes list \<Rightarrow> bytes \<Rightarrow> int \<Rightarrow> bytes list \<times> bytes \<times> int" where
  "flush chunks cur n = (if cur \<noteq> [] then (chunks @ [cur], [], 0) else (chunks, cur, n))"

fun chunk_loop :: "int \<Rightarrow> token_estimator \<Rightarrow> message list \<Rightarrow> bytes list \<Rightarrow> bytes \<Rightarrow> int \<Rightarrow> bytes list" where
  "chunk_loop allow est [] chunks cur cur_n = fst (flush chunks cur cur_n)"
| "chunk_loop allow est (m # ms) chunks cur cur_n =
     (let part = render_message m; n = est part in
      if n > allow then
        let (chunks1, cur1, n1) = flush chunks cur cur_n
        in chunk_loop allow est ms (chunks1 @ [elide_middle part allow est]) cur1 n1
      else
        let (chunks1, cur1, n1) =
              (if cur_n + n > allow then flush chunks cur cur_n else (chunks, cur, cur_n))
        in chunk_loop allow est ms chunks1 (cur1 @ part) (n1 + n))"

definition transcript_chunks :: "message list \<Rightarrow> int \<Rightarrow> token_estimator \<Rightarrow> bytes list" where
  "transcript_chunks ms allow est =
     (let chunks = chunk_loop allow est ms [] [] 0 in if chunks = [] then [[]] else chunks)"

definition compact_prompt :: "summarizing_compactor \<Rightarrow> bytes" where
  "compact_prompt c = (if sc_prompt c \<noteq> [] then sc_prompt c else default_compact_prompt)"

definition merge_prompt :: "summarizing_compactor \<Rightarrow> bytes" where
  "merge_prompt c = (if sc_merge_prompt c \<noteq> [] then sc_merge_prompt c else default_merge_prompt)"

definition chunk_bounds :: "summarizing_compactor \<Rightarrow> int \<times> token_estimator" where
  "chunk_bounds c =
     (let est = estimator (sc_budget c);
          allow = (if budget_enabled (sc_budget c) then allowance (sc_budget c)
                   else default_summarize_tokens);
          overhead = est (compact_prompt c);
          merge = est (merge_prompt c);
          overhead = (if merge > overhead then merge else overhead);
          allow = allow - (overhead + 2 * message_frame_tokens);
          allow = (if allow < min_chunk_tokens then min_chunk_tokens else allow)
      in (allow, est))"

section \<open>Folding partial summaries\<close>

fun group_loop :: "int \<Rightarrow> token_estimator \<Rightarrow> bytes list \<Rightarrow> bytes list list \<Rightarrow> bytes list \<Rightarrow> int
    \<Rightarrow> bytes list list" where
  "group_loop allow est [] groups cur cur_n = (if cur \<noteq> [] then groups @ [cur] else groups)"
| "group_loop allow est (p # ps) groups cur cur_n =
     (let n = est p + message_frame_tokens in
      if cur \<noteq> [] \<and> cur_n + n > allow
      then group_loop allow est ps (groups @ [cur]) [p] n
      else group_loop allow est ps groups (cur @ [p]) (cur_n + n))"

definition group_parts :: "bytes list \<Rightarrow> int \<Rightarrow> token_estimator \<Rightarrow> bytes list list" where
  "group_parts parts allow est = group_loop allow est parts [] [] 0"

fun label_parts :: "nat \<Rightarrow> nat \<Rightarrow> bytes list \<Rightarrow> bytes" where
  "label_parts i n_total [] = []"
| "label_parts i n_total (p # ps) =
     ''[part '' @ itoa (int i) @ '' of '' @ itoa (int n_total) @ '']'' @ newline @ p @ newline @ newline
       @ label_parts (Suc i) n_total ps"

definition join_parts :: "bytes list \<Rightarrow> bytes" where
  "join_parts parts =
     (case parts of [p] \<Rightarrow> p | _ \<Rightarrow> trim_space (label_parts 1 (length parts) parts))"

text \<open>
  \<open>call\<close>: one round trip.  Its usage is charged before the error is looked at.
\<close>

definition call_llm :: "summarizing_compactor \<Rightarrow> llm_complete \<Rightarrow> bytes \<Rightarrow> bytes \<Rightarrow> call_state
    \<Rightarrow> (bytes + bytes) \<times> call_state" where
  "call_llm c llm prompt body st =
     (let req = \<lparr>req_messages = [mk_message ''system'' prompt, mk_message ''user'' body],
                 req_model = sc_model c, req_temperature = None, req_max_tokens = None\<rparr>;
          (resp, err) = llm (cs_requests st) req;
          st = \<lparr>cs_requests = cs_requests st @ [req],
                cs_prompt = i32 (cs_prompt st + i32 (input_tokens resp)),
                cs_completion = i32 (cs_completion st + i32 (output_tokens resp))\<rparr>
      in case err of
           Some e \<Rightarrow> (Inl (''agentloop: compact: '' @ e), st)
         | None \<Rightarrow>
             let summary = trim_space (resp_content resp)
             in (if summary = [] then Inl ''agentloop: compact: empty summary'' else Inr summary, st))"

fun merge_groups :: "summarizing_compactor \<Rightarrow> llm_complete \<Rightarrow> bytes list list \<Rightarrow> call_state
    \<Rightarrow> (bytes + bytes list) \<times> call_state" where
  "merge_groups c llm [] st = (Inr [], st)"
| "merge_groups c llm (g # gs) st =
     (case call_llm c llm (merge_prompt c) (join_parts g) st of
        (Inl e, st) \<Rightarrow> (Inl e, st)
      | (Inr merged, st) \<Rightarrow>
          (case merge_groups c llm gs st of
             (Inl e, st) \<Rightarrow> (Inl e, st)
           | (Inr rest, st) \<Rightarrow> (Inr (merged # rest), st)))"

text \<open>
  The rounds of \<open>fold\<close>, counted down from \<open>maxFoldRounds\<close>; \<open>parts[0]\<close> of an empty slice
  would panic, which is the result \<open>None\<close>.
\<close>

fun fold_rounds :: "summarizing_compactor \<Rightarrow> llm_complete \<Rightarrow> nat \<Rightarrow> bytes list \<Rightarrow> int
    \<Rightarrow> token_estimator \<Rightarrow> call_state \<Rightarrow> (bytes + bytes) option \<times> call_state" where
  "fold_rounds c llm 0 parts allow est st =
     (case parts of
        [] \<Rightarrow> (None, st)
      | [p] \<Rightarrow> (Some (Inr p), st)
      | _ \<Rightarrow> (Some (Inl (''agentloop: compact: '' @ itoa (int (length parts)) @
              '' partial summaries still do not fit one call after '' @ itoa (int max_fold_rounds) @
              '' fold rounds'')), st))"
| "fold_rounds c llm (Suc k) parts allow est st =
     (case parts of
        [] \<Rightarrow> (None, st)
      | [p] \<Rightarrow> (Some (Inr p), st)
      | _ \<Rightarrow>
          (case merge_groups c llm (group_parts parts allow est) st of
             (Inl e, st) \<Rightarrow> (Some (Inl e), st)
           | (Inr next_parts, st) \<Rightarrow> fold_rounds c llm k next_parts allow est st))"

fun summarize_chunks :: "summarizing_compactor \<Rightarrow> llm_complete \<Rightarrow> nat \<Rightarrow> nat \<Rightarrow> bytes list
    \<Rightarrow> call_state \<Rightarrow> (bytes + bytes list) \<times> call_state" where
  "summarize_chunks c llm i n_total [] st = (Inr [], st)"
| "summarize_chunks c llm i n_total (chunk # chunks) st =
     (let body = ''Part '' @ itoa (int i + 1) @ '' of '' @ itoa (int n_total) @
                 '' of the earlier transcript.'' @ newline @ newline @ chunk in
      case call_llm c llm (compact_prompt c) body st of
        (Inl e, st) \<Rightarrow> (Inl e, st)
      | (Inr part, st) \<Rightarrow>
          (case summarize_chunks c llm (Suc i) n_total chunks st of
             (Inl e, st) \<Rightarrow> (Inl e, st)
           | (Inr rest, st) \<Rightarrow> (Inr (part # rest), st)))"

definition summarize :: "summarizing_compactor \<Rightarrow> llm_complete \<Rightarrow> message list \<Rightarrow> call_state
    \<Rightarrow> (bytes + bytes) option \<times> call_state" where
  "summarize c llm ms st =
     (let (allow, est) = chunk_bounds c; chunks = transcript_chunks ms allow est in
      case chunks of
        [chunk] \<Rightarrow> (let (r, st) = call_llm c llm (compact_prompt c) chunk st in (Some r, st))
      | _ \<Rightarrow>
          (case summarize_chunks c llm 0 (length chunks) chunks st of
             (Inl e, st) \<Rightarrow> (Some (Inl e), st)
           | (Inr parts, st) \<Rightarrow> fold_rounds c llm max_fold_rounds parts allow est st))"

text \<open>
  \<open>Compact\<close>: the result and the error, \<open>None\<close> for the panic that cannot happen
  (\<open>compact_returns\<close> below).  The last component is the state of the calls it made.
\<close>

definition summary_content :: "nat \<Rightarrow> bytes \<Rightarrow> bytes" where
  "summary_content n summary =
     ''[summary of the '' @ itoa (int n) @
     '' earlier messages in this session, which are no longer shown in full]'' @ newline @ summary"

definition no_compaction :: "message list \<Rightarrow> compact_result" where
  "no_compaction history =
     \<lparr>cr_messages = history, cr_prompt_tokens = 0, cr_completion_tokens = 0,
      cr_summary = [], cr_retained_from = 0\<rparr>"

definition compact :: "summarizing_compactor \<Rightarrow> message list
    \<Rightarrow> (compact_result \<times> bytes option) option \<times> call_state" where
  "compact c history =
     (let (trigger, keep) = bounds c;
          st0 = \<lparr>cs_requests = [], cs_prompt = 0, cs_completion = 0\<rparr> in
      case sc_llm c of
        None \<Rightarrow> (Some (no_compaction history, None), st0)
      | Some llm \<Rightarrow>
          if int (length history) \<le> trigger then (Some (no_compaction history, None), st0)
          else
            let split = safe_split_point history (int (length history) - keep) in
            if split \<le> 0 then (Some (no_compaction history, None), st0)
            else
              let older = take (nat split) history; tail = drop (nat split) history in
              case summarize c llm older st0 of
                (None, st) \<Rightarrow> (None, st)
              | (Some (Inl e), st) \<Rightarrow>
                  (Some ((no_compaction history)\<lparr>cr_prompt_tokens := cs_prompt st,
                      cr_completion_tokens := cs_completion st\<rparr>, Some e), st)
              | (Some (Inr summary), st) \<Rightarrow>
                  let content = summary_content (length older) summary in
                  (Some (\<lparr>cr_messages = mk_message ''user'' content # tail,
                          cr_prompt_tokens = cs_prompt st, cr_completion_tokens = cs_completion st,
                          cr_summary = content, cr_retained_from = split\<rparr>, None), st))"

section \<open>Grouping and folding\<close>

lemma concat_group_loop:
  "concat (group_loop allow est ps groups cur n) = concat groups @ cur @ ps"
  by (induction allow est ps groups cur n rule: group_loop.induct) (simp_all add: Let_def)

lemma group_loop_nonempty:
  "[] \<notin> set groups \<Longrightarrow> [] \<notin> set (group_loop allow est ps groups cur n)"
  by (induction allow est ps groups cur n rule: group_loop.induct) (auto simp: Let_def)

lemma concat_group_parts: "concat (group_parts ps allow est) = ps"
  by (simp add: group_parts_def concat_group_loop)

lemma group_parts_nonempty: "[] \<notin> set (group_parts ps allow est)"
  by (simp add: group_parts_def group_loop_nonempty)

lemma length_le_concat: "[] \<notin> set xss \<Longrightarrow> length xss \<le> length (concat xss)"
proof (induction xss)
  case (Cons xs xss)
  then have "1 \<le> length xs" by (cases xs) auto
  with Cons show ?case by simp
qed simp

lemma length_group_parts: "length (group_parts ps allow est) \<le> length ps"
  using length_le_concat [OF group_parts_nonempty] by (simp add: concat_group_parts)

lemma group_parts_Nil: "group_parts ps allow est = [] \<longleftrightarrow> ps = []"
  using concat_group_parts [of ps allow est] by (auto simp: group_parts_def)

text \<open>A group of several parts stays within the allowance, a frame counted for each.\<close>

definition group_cost :: "token_estimator \<Rightarrow> bytes list \<Rightarrow> int" where
  "group_cost est g = sum_list (map (\<lambda>p. est p + message_frame_tokens) g)"

lemma group_loop_fits:
  "\<forall>g \<in> set groups. length g = 1 \<or> group_cost est g \<le> allow \<Longrightarrow>
   n = group_cost est cur \<Longrightarrow> length cur \<le> 1 \<or> group_cost est cur \<le> allow \<Longrightarrow>
   g \<in> set (group_loop allow est ps groups cur n) \<Longrightarrow> length g = 1 \<or> group_cost est g \<le> allow"
proof (induction allow est ps groups cur n arbitrary: g rule: group_loop.induct)
  case (1 allow est groups cur n)
  then show ?case by (cases cur) (auto split: if_splits)
next
  case (2 allow est p ps groups cur n)
  let ?n = "est p + message_frame_tokens"
  show ?case
  proof (cases "cur \<noteq> [] \<and> n + ?n > allow")
    case True
    moreover have "length cur = 1 \<or> group_cost est cur \<le> allow"
      using True "2.prems"(3) by (cases cur) auto
    ultimately show ?thesis
      using "2.IH"(1) [OF refl True, of g] "2.prems" by (auto simp: Let_def group_cost_def)
  next
    case False
    then have "length (cur @ [p]) \<le> 1 \<or> group_cost est (cur @ [p]) \<le> allow"
      using "2.prems"(2) by (auto simp: group_cost_def)
    with False show ?thesis
      using "2.IH"(2) [OF refl False, of g] "2.prems" by (auto simp: Let_def group_cost_def)
  qed
qed

lemma group_parts_fit:
  "g \<in> set (group_parts ps allow est) \<Longrightarrow> length g = 1 \<or> group_cost est g \<le> allow"
  unfolding group_parts_def by (rule group_loop_fits) (auto simp: group_cost_def)

text \<open>How many requests each stage makes.\<close>

lemma call_llm_requests:
  "call_llm c llm prompt body st = (r, st') \<Longrightarrow> length (cs_requests st') = Suc (length (cs_requests st))"
  by (auto simp: call_llm_def Let_def split: prod.splits option.splits)

lemma merge_groups_spec:
  "merge_groups c llm gs st = (r, st') \<Longrightarrow>
   length (cs_requests st') \<le> length (cs_requests st) + length gs \<and>
   (\<forall>ps. r = Inr ps \<longrightarrow> length ps = length gs)"
proof (induction gs arbitrary: r st st')
  case (Cons g gs)
  obtain r1 st1 where c1: "call_llm c llm (merge_prompt c) (join_parts g) st = (r1, st1)" by fastforce
  obtain r2 st2 where c2: "merge_groups c llm gs st1 = (r2, st2)" by fastforce
  from Cons.prems Cons.IH [OF c2] c1 c2 call_llm_requests [OF c1] show ?case
    by (auto split: sum.splits)
qed auto

lemma summarize_chunks_spec:
  "summarize_chunks c llm i n chunks st = (r, st') \<Longrightarrow>
   length (cs_requests st') \<le> length (cs_requests st) + length chunks \<and>
   (\<forall>ps. r = Inr ps \<longrightarrow> length ps = length chunks)"
proof (induction chunks arbitrary: i r st st')
  case (Cons ch chunks)
  let ?body = "''Part '' @ itoa (int i + 1) @ '' of '' @ itoa (int n) @
                 '' of the earlier transcript.'' @ newline @ newline @ ch"
  obtain r1 st1 where c1: "call_llm c llm (compact_prompt c) ?body st = (r1, st1)" by fastforce
  obtain r2 st2 where c2: "summarize_chunks c llm (Suc i) n chunks st1 = (r2, st2)" by fastforce
  from Cons.prems Cons.IH [OF c2] c1 c2 call_llm_requests [OF c1] show ?case
    by (auto simp: Let_def split: sum.splits)
qed auto

lemma fold_rounds_spec:
  "fold_rounds c llm k ps allow est st = (r, st') \<Longrightarrow> ps \<noteq> [] \<Longrightarrow>
   r \<noteq> None \<and> length (cs_requests st') \<le> length (cs_requests st) + k * length ps"
proof (induction k arbitrary: ps r st st')
  case 0
  then show ?case by (cases ps; cases "tl ps") auto
next
  case (Suc k)
  show ?case
  proof (cases "tl ps = []")
    case True
    with Suc.prems obtain p where "ps = [p]" by (cases ps) auto
    with Suc.prems show ?thesis by auto
  next
    case False
    with Suc.prems(2) obtain p q qs where ps: "ps = p # q # qs" by (cases ps; cases "tl ps") auto
    obtain r1 st1 where m: "merge_groups c llm (group_parts ps allow est) st = (r1, st1)" by fastforce
    note ms = merge_groups_spec [OF m]
    have len: "length (group_parts ps allow est) \<le> length ps" by (rule length_group_parts)
    show ?thesis
    proof (cases r1)
      case (Inl e)
      with Suc.prems m ms len ps show ?thesis by auto
    next
      case (Inr nps)
      then have l: "length nps = length (group_parts ps allow est)" using ms by simp
      then have ne: "nps \<noteq> []" using ps group_parts_Nil by (metis length_0_conv list.distinct(1))
      have f: "fold_rounds c llm k nps allow est st1 = (r, st')"
        using Suc.prems(1) m Inr ps by simp
      have mono: "k * length nps \<le> k * length ps" using l len by (intro mult_le_mono2) simp
      have ih: "r \<noteq> None" "length (cs_requests st') \<le> length (cs_requests st1) + k * length nps"
        using Suc.IH [OF f ne] by auto
      have "length (cs_requests st') \<le> length (cs_requests st) + length ps + k * length ps"
        using ih(2) ms len mono by linarith
      with ih(1) show ?thesis by simp
    qed
  qed
qed

lemma transcript_chunks_nonempty: "transcript_chunks ms allow est \<noteq> []"
  by (simp add: transcript_chunks_def Let_def)

lemma summarize_spec:
  assumes "summarize c llm ms st = (r, st')" and "chunk_bounds c = (allow, est)"
  shows "r \<noteq> None \<and> length (cs_requests st')
           \<le> length (cs_requests st) + 6 * length (transcript_chunks ms allow est)"
proof -
  let ?chunks = "transcript_chunks ms allow est"
  show ?thesis
  proof (cases "tl ?chunks = []")
    case True
    then obtain ch where "?chunks = [ch]" using transcript_chunks_nonempty by (metis list.collapse)
    with assms show ?thesis
      by (auto simp: summarize_def Let_def split: prod.splits dest: call_llm_requests)
  next
    case False
    then obtain p q qs where ch: "?chunks = p # q # qs"
      using transcript_chunks_nonempty by (metis list.collapse)
    obtain r1 st1 where s: "summarize_chunks c llm 0 (length ?chunks) ?chunks st = (r1, st1)" by fastforce
    note ss = summarize_chunks_spec [OF s]
    show ?thesis
    proof (cases r1)
      case (Inl e)
      with assms s ss ch show ?thesis by (auto simp: summarize_def Let_def)
    next
      case (Inr parts)
      with ss ch have ne: "parts \<noteq> []" "length parts = length ?chunks" by auto
      have f: "fold_rounds c llm max_fold_rounds parts allow est st1 = (r, st')"
        using assms s Inr ch by (simp add: summarize_def Let_def)
      from fold_rounds_spec [OF f ne(1)] ss ne show ?thesis by simp
    qed
  qed
qed

section \<open>Chunks\<close>

text \<open>
  When no message needs eliding, the chunks are the renderings of consecutive stretches of
  whole messages, and together they are the transcript.
\<close>

lemma render_message_nonempty: "render_message m \<noteq> []"
  by (simp add: render_message_def Let_def)

lemma render_transcript_simps [simp]:
  "render_transcript [] = []"
  "render_transcript (m # ms) = render_message m @ render_transcript ms"
  "render_transcript (ms @ ns) = render_transcript ms @ render_transcript ns"
  by (simp_all add: render_transcript_def)

lemma render_transcript_Nil: "render_transcript ms = [] \<longleftrightarrow> ms = []"
  by (cases ms) (simp_all add: render_message_nonempty)

lemma chunk_loop_whole:
  assumes "\<forall>m \<in> set ms. est (render_message m) \<le> allow"
    and "chunks = map render_transcript parts" and "cur = render_transcript cur_ms"
  shows "\<exists>parts'. chunk_loop allow est ms chunks cur n = map render_transcript parts'
           \<and> concat parts' = concat parts @ cur_ms @ ms"
  using assms
proof (induction ms arbitrary: chunks parts cur cur_ms n)
  case Nil
  show ?case
  proof (cases "cur_ms = []")
    case True
    with Nil show ?thesis by (intro exI [of _ parts]) (simp add: flush_def)
  next
    case False
    with Nil show ?thesis
      by (intro exI [of _ "parts @ [cur_ms]"]) (simp add: flush_def render_transcript_Nil)
  qed
next
  case (Cons m ms)
  have fits: "\<not> est (render_message m) > allow" using Cons.prems(1) by auto
  have rest: "\<forall>m \<in> set ms. est (render_message m) \<le> allow" using Cons.prems(1) by simp
  show ?case
  proof (cases "n + est (render_message m) > allow \<and> cur \<noteq> []")
    case True
    have "\<exists>parts'. chunk_loop allow est ms (chunks @ [cur]) (render_message m) (est (render_message m))
        = map render_transcript parts' \<and> concat parts' = concat (parts @ [cur_ms]) @ [m] @ ms"
      using Cons.prems by (intro Cons.IH rest) simp_all
    with True fits show ?thesis by (simp add: Let_def flush_def)
  next
    case False
    have "\<exists>parts'. chunk_loop allow est ms chunks (cur @ render_message m) n'
        = map render_transcript parts' \<and> concat parts' = concat parts @ (cur_ms @ [m]) @ ms" for n'
      using Cons.prems by (intro Cons.IH rest) simp_all
    with False fits show ?thesis by (auto simp: Let_def flush_def)
  qed
qed

lemma transcript_chunks_whole:
  assumes "\<forall>m \<in> set ms. est (render_message m) \<le> allow" and "ms \<noteq> []"
  shows "\<exists>parts. transcript_chunks ms allow est = map render_transcript parts \<and> concat parts = ms"
proof -
  obtain parts where p: "chunk_loop allow est ms [] [] 0 = map render_transcript parts"
      "concat parts = ms"
    using chunk_loop_whole [of ms est allow "[]" "[]" "[]" "[]" 0] assms(1) by auto
  with assms(2) have "parts \<noteq> []" by auto
  with p show ?thesis by (auto simp: transcript_chunks_def Let_def)
qed

text \<open>The binary search only ever holds a candidate that fits, or the first one.\<close>

lemma elide_search_fits:
  "est best \<le> max_t \<Longrightarrow> est (elide_search s max_t est lo hi best) \<le> max_t"
proof (induction s max_t est lo hi best rule: elide_search.induct)
  case (1 s max_t est lo hi best)
  then show ?case by (subst elide_search.simps) (simp add: Let_def)
qed

lemma length_nat_text_less: "n < 10 ^ k \<Longrightarrow> 1 \<le> k \<Longrightarrow> length (nat_text n) \<le> k"
proof (induction k arbitrary: n)
  case (Suc k)
  show ?case
  proof (cases "n < 10")
    case True
    then show ?thesis by (subst nat_text.simps) simp
  next
    case False
    with Suc.prems have "k \<noteq> 0" by (cases k) auto
    moreover have "n div 10 < 10 ^ k" using Suc.prems by (simp add: less_mult_imp_div_less)
    ultimately have "length (nat_text (n div 10)) \<le> k" using Suc.IH by simp
    with False show ?thesis by (subst nat_text.simps) simp
  qed
qed simp

text \<open>\<open>len\<close> is a 64-bit \<open>int\<close>, so a string's length has at most 19 digits.\<close>

lemma length_elide_to_0:
  assumes "int (length s) < 2 ^ 63"
  shows "length (elide_to s 0) \<le> 90"
proof -
  have "length s < 10 ^ 19" using assms by simp
  then have "length (nat_text (length s)) \<le> 19" by (rule length_nat_text_less) simp
  then show ?thesis by (simp add: elide_to_def Let_def itoa_def)
qed

lemma elide_middle_fits:
  assumes "int (length s) < 2 ^ 63" and "90 \<le> 4 * max_t"
  shows "estimate_tokens (elide_middle s max_t estimate_tokens) \<le> max_t"
proof -
  have "estimate_tokens (elide_to s 0) \<le> max_t"
    using length_elide_to_0 [OF assms(1)] assms(2) by (simp add: estimate_le_iff)
  then show ?thesis by (simp add: elide_middle_def elide_search_fits)
qed

lemma chunk_loop_fits:
  assumes "\<forall>m \<in> set ms. int (length (render_message m)) < 2 ^ 63" and "90 \<le> 4 * allow"
    and "\<forall>ch \<in> set chunks. estimate_tokens ch \<le> allow"
    and "estimate_tokens cur \<le> n" and "n \<le> allow" and "cur = [] \<longrightarrow> n = 0"
  shows "\<forall>ch \<in> set (chunk_loop allow estimate_tokens ms chunks cur n). estimate_tokens ch \<le> allow"
  using assms
proof (induction ms arbitrary: chunks cur n)
  case Nil
  then show ?case by (auto simp: flush_def)
next
  case (Cons m ms)
  let ?part = "render_message m"
  let ?n = "estimate_tokens ?part"
  have a0: "0 \<le> allow" using Cons.prems(2) by simp
  show ?case
  proof (cases "?n > allow")
    case True
    have e: "estimate_tokens (elide_middle ?part allow estimate_tokens) \<le> allow"
      using Cons.prems by (intro elide_middle_fits) auto
    let ?el = "elide_middle ?part allow estimate_tokens"
    have ih: "\<forall>ch \<in> set (chunk_loop allow estimate_tokens ms (cs @ [?el]) [] 0).
        estimate_tokens ch \<le> allow" if "\<forall>ch \<in> set cs. estimate_tokens ch \<le> allow" for cs
    proof (rule Cons.IH)
      show "\<forall>ch \<in> set (cs @ [?el]). estimate_tokens ch \<le> allow" using that e by simp
    qed (use Cons.prems(1,2) a0 in \<open>simp_all add: estimate_tokens_def\<close>)
    have "estimate_tokens cur \<le> allow" using Cons.prems(4,5) by linarith
    then have "\<forall>ch \<in> set (chunks @ [cur]). estimate_tokens ch \<le> allow"
      using Cons.prems(3) by simp
    from ih [OF this] ih [OF Cons.prems(3)] show ?thesis
      using True Cons.prems(6) by (cases "cur = []") (simp_all add: Let_def flush_def del: set_append)
  next
    case False
    have app: "estimate_tokens (cur @ ?part) \<le> n + ?n"
      using estimate_append [of cur ?part] Cons.prems(4) by simp
    show ?thesis
    proof (cases "n + ?n > allow \<and> cur \<noteq> []")
      case True
      have "\<forall>ch \<in> set (chunk_loop allow estimate_tokens ms (chunks @ [cur]) ?part ?n).
          estimate_tokens ch \<le> allow"
      proof (rule Cons.IH)
        have "estimate_tokens cur \<le> allow" using Cons.prems(4,5) by linarith
        then show "\<forall>ch \<in> set (chunks @ [cur]). estimate_tokens ch \<le> allow"
          using Cons.prems(3) by simp
        show "?n \<le> allow" using False by simp
      qed (use Cons.prems(1,2) in \<open>simp_all add: render_message_nonempty\<close>)
      with True False show ?thesis by (simp add: Let_def flush_def)
    next
      case f: False
      then have sum: "n + ?n \<le> allow" using False Cons.prems(6) by (cases "cur = []") simp_all
      have "\<forall>ch \<in> set (chunk_loop allow estimate_tokens ms chunks (cur @ ?part) (n + ?n)).
          estimate_tokens ch \<le> allow"
        using Cons.prems(1-3) app sum
        by (intro Cons.IH) (simp_all add: render_message_nonempty)
      then show ?thesis using f False Cons.prems(6)
        by (cases "cur = []") (simp_all add: Let_def flush_def)
    qed
  qed
qed

lemma transcript_chunks_fit:
  assumes "\<forall>m \<in> set ms. int (length (render_message m)) < 2 ^ 63" and "90 \<le> 4 * allow"
    and "ch \<in> set (transcript_chunks ms allow estimate_tokens)"
  shows "estimate_tokens ch \<le> allow"
  using chunk_loop_fits [OF assms(1,2), of "[]" "[]" 0] assms
  by (auto simp: transcript_chunks_def Let_def estimate_ceil split: if_splits)

lemma chunk_allowance_floor: "chunk_bounds c = (allow, est) \<Longrightarrow> min_chunk_tokens \<le> allow"
  by (auto simp: chunk_bounds_def Let_def split: if_splits)

section \<open>The cut\<close>

lemma bounds_keep: "bounds c = (trigger, keep) \<Longrightarrow> 0 \<le> keep \<and> keep < trigger \<and> 0 < trigger"
  by (auto simp: bounds_def Let_def split: if_splits)

lemma safe_split_range:
  "0 \<le> safe_split_point h d \<and> safe_split_point h d \<le> int (length h)
    \<and> (0 < d \<longrightarrow> d \<le> int (length h) \<longrightarrow> d - 1 \<le> safe_split_point h d)"
  by (auto simp: safe_split_point_def)

text \<open>Every execution result but a leading one follows a message that is not one.\<close>

definition results_paired :: "message list \<Rightarrow> bool" where
  "results_paired h =
     (\<forall>i < length h. 0 < i \<longrightarrow> is_execution_result (h ! i) \<longrightarrow> \<not> is_execution_result (h ! (i - 1)))"

lemma safe_split_tail:
  assumes "results_paired h" and "0 < safe_split_point h d"
    and "nat (safe_split_point h d) < length h"
  shows "\<not> is_execution_result (h ! nat (safe_split_point h d))"
proof (cases "is_execution_result (h ! nat d) \<and> 0 < d \<and> d < int (length h)")
  case True
  then have "safe_split_point h d = d - 1" by (simp add: safe_split_point_def)
  moreover have "\<not> is_execution_result (h ! (nat d - 1))"
    using assms(1) True by (simp add: results_paired_def nat_less_iff)
  moreover have "nat (d - 1) = nat d - 1" using True by arith
  ultimately show ?thesis by simp
next
  case False
  with assms show ?thesis by (auto simp: safe_split_point_def split: if_splits)
qed

text \<open>What \<open>Compact\<close> can return.\<close>

lemma compact_cases:
  assumes "compact c h = (out, st)"
  obtains (same) "out = Some (no_compaction h, None)" "cs_requests st = []"
  | (failed) r e where "out = Some (r, Some e)" "cr_messages r = h" "cr_summary r = []"
      "cr_prompt_tokens r = cs_prompt st" "cr_completion_tokens r = cs_completion st"
  | (folded) r trigger keep split summary where "out = Some (r, None)" "bounds c = (trigger, keep)"
      "trigger < int (length h)" "split = safe_split_point h (int (length h) - keep)" "0 < split"
      "cr_summary r = summary_content (nat split) summary"
      "cr_messages r = mk_message ''user'' (cr_summary r) # drop (nat split) h"
      "cr_retained_from r = split"
      "cr_prompt_tokens r = cs_prompt st" "cr_completion_tokens r = cs_completion st"
proof -
  obtain trigger keep where b: "bounds c = (trigger, keep)" by fastforce
  let ?split = "safe_split_point h (int (length h) - keep)"
  show thesis
  proof (cases "sc_llm c")
    case None
    with assms b show thesis by (intro same) (auto simp: compact_def Let_def)
  next
    case (Some llm)
    show thesis
    proof (cases "int (length h) \<le> trigger \<or> ?split \<le> 0")
      case True
      with assms b Some show thesis by (intro same) (auto simp: compact_def Let_def split: if_splits)
    next
      case False
      let ?st0 = "\<lparr>cs_requests = [], cs_prompt = 0, cs_completion = 0\<rparr>"
      obtain r st1 where s: "summarize c llm (take (nat ?split) h) ?st0 = (r, st1)" by fastforce
      obtain allow est where cb: "chunk_bounds c = (allow, est)" by fastforce
      have "r \<noteq> None" using summarize_spec [OF s cb] by blast
      then obtain x where r: "r = Some x" by blast
      show thesis
      proof (cases x)
        case (Inl e)
        show thesis using assms b Some False s r Inl
          by (intro failed) (auto simp: compact_def Let_def no_compaction_def)
      next
        case (Inr summary)
        have len: "length (take (nat ?split) h) = nat ?split"
          using safe_split_range [of h "int (length h) - keep"] by (simp add: nat_le_iff)
        show thesis using assms b Some False s r Inr len
          by (intro folded [of _ trigger keep ?split summary]) (auto simp: compact_def Let_def)
      qed
    qed
  qed
qed

lemma compact_returns: "fst (compact c h) \<noteq> None"
  using compact_cases [of c h "fst (compact c h)" "snd (compact c h)"] by fastforce

section \<open>Properties\<close>

text \<open>
  Compaction always returns.  An error leaves the history as it was; otherwise the result is the history itself
  or one summary message in front of a suffix of it, and \<open>RetainedFrom\<close> says where that
  suffix starts.
\<close>

theorem compact_outcome:
  "case compact c h of
     (None, st) \<Rightarrow> False
   | (Some (r, Some e), st) \<Rightarrow> cr_messages r = h \<and> cr_summary r = []
   | (Some (r, None), st) \<Rightarrow>
       (cr_messages r = h \<and> cr_summary r = [] \<and> cs_requests st = [])
       \<or> (\<exists>n. 0 < n \<and> n \<le> length h \<and> cr_retained_from r = int n \<and> cr_summary r \<noteq> []
            \<and> cr_messages r = mk_message ''user'' (cr_summary r) # drop n h)"
proof -
  obtain out st where c: "compact c h = (out, st)" by fastforce
  then show ?thesis
  proof (cases rule: compact_cases)
    case same
    then show ?thesis using c by (simp add: no_compaction_def)
  next
    case (failed r e)
    then show ?thesis using c by simp
  next
    case (folded r trigger keep split summary)
    have "0 < nat split \<and> nat split \<le> length h"
      using folded(4,5) safe_split_range [of h "int (length h) - keep"] by auto
    moreover have "cr_summary r \<noteq> []" by (simp add: folded(6) summary_content_def)
    ultimately show ?thesis using c folded by (auto intro!: exI [of _ "nat split"])
  qed
qed

text \<open>
  C10 The kept tail of a compacted history never starts with the output of a script that was
  folded away, as long as no two results follow each other in the history.
\<close>

theorem compact_keeps_pairs:
  assumes "results_paired h" and "compact c h = (Some (r, None), st)" and "0 < cr_retained_from r"
    and "nat (cr_retained_from r) < length h"
  shows "\<not> is_execution_result (h ! nat (cr_retained_from r))"
  using assms(2)
proof (cases rule: compact_cases)
  case same
  with assms(3) show ?thesis by (simp add: no_compaction_def)
next
  case (failed r' e)
  then show ?thesis by simp
next
  case (folded r' trigger keep split summary)
  then show ?thesis using safe_split_tail [OF assms(1)] assms(4) by auto
qed

text \<open>
  The transcript is cut into chunks at message boundaries only, nothing lost and nothing
  repeated, whenever every message fits one chunk; and no chunk exceeds the allowance under the
  default estimate, even when a single message has to be elided to fit.
\<close>

theorem transcript_chunks_sound:
  assumes "\<forall>m \<in> set ms. int (length (render_message m)) < 2 ^ 63" and "90 \<le> 4 * allow" and "ms \<noteq> []"
  shows "(\<forall>ch \<in> set (transcript_chunks ms allow estimate_tokens). estimate_tokens ch \<le> allow)
    \<and> (if list_all (\<lambda>m. estimate_tokens (render_message m) \<le> allow) ms
       then \<exists>parts. transcript_chunks ms allow estimate_tokens = map render_transcript parts \<and> concat parts = ms
       else True)"
proof
  show "\<forall>ch \<in> set (transcript_chunks ms allow estimate_tokens). estimate_tokens ch \<le> allow"
    using transcript_chunks_fit [OF assms(1,2)] by blast
  show "if list_all (\<lambda>m. estimate_tokens (render_message m) \<le> allow) ms
       then \<exists>parts. transcript_chunks ms allow estimate_tokens = map render_transcript parts \<and> concat parts = ms
       else True"
    using transcript_chunks_whole [of ms estimate_tokens allow] assms(3) by (simp add: list_all_iff)
qed

text \<open>
  A compaction costs at most six calls of the model for every chunk of the transcript it
  folds, and reports the tokens of all of them, also when one of them fails.
\<close>

theorem compact_call_bound:
  "case compact c h of
     (None, st) \<Rightarrow> False
   | (Some (r, err), st) \<Rightarrow>
       length (cs_requests st)
         \<le> 6 * length (transcript_chunks (take (nat (safe_split_point h (int (length h) - snd (bounds c)))) h)
                 (fst (chunk_bounds c)) (snd (chunk_bounds c)))
       \<and> cr_prompt_tokens r = cs_prompt st \<and> cr_completion_tokens r = cs_completion st"
proof -
  obtain trigger keep where b: "bounds c = (trigger, keep)" by fastforce
  obtain allow est where cb: "chunk_bounds c = (allow, est)" by fastforce
  let ?split = "safe_split_point h (int (length h) - keep)"
  let ?st0 = "\<lparr>cs_requests = [], cs_prompt = 0, cs_completion = 0\<rparr>"
  show ?thesis
  proof (cases "sc_llm c = None \<or> int (length h) \<le> trigger \<or> ?split \<le> 0")
    case True
    then show ?thesis
      using b cb by (auto simp: compact_def no_compaction_def Let_def split: option.splits)
  next
    case False
    then obtain llm where llm: "sc_llm c = Some llm" by auto
    obtain res st where s: "summarize c llm (take (nat ?split) h) ?st0 = (res, st)" by fastforce
    from summarize_spec [OF s cb] have "res \<noteq> None"
      "length (cs_requests st) \<le> 6 * length (transcript_chunks (take (nat ?split) h) allow est)" by auto
    then show ?thesis
      using b cb llm s False
      by (auto simp: compact_def Let_def no_compaction_def split: sum.splits)
  qed
qed

definition sample_history :: "message list" where
  "sample_history =
     [mk_message ''user'' ''a'', mk_message ''assistant'' ''b'',
      mk_message ''user'' (execution_result_prefix @ newline @ ''1''), mk_message ''assistant'' ''c'']"

definition sample_summarizer :: summarizing_compactor where
  "sample_summarizer =
     \<lparr>sc_llm = Some (\<lambda>_ _. (\<lparr>resp_content = ''S'', resp_model = [], input_tokens = 9, output_tokens = 1\<rparr>, None)),
      sc_model = [], sc_trigger = 3, sc_keep = 2, sc_prompt = ''p'', sc_merge_prompt = ''m'',
      sc_budget = \<lparr>max_tokens = 0, reserve_tokens = 0, estimate = None\<rparr>\<rparr>"

lemma sample_fold:
  "case compact sample_summarizer sample_history of
     (Some (r, None), st) \<Rightarrow> cr_retained_from r = 1
   | _ \<Rightarrow> False"
  by code_simp

lemma sample_paired: "results_paired sample_history"
  by (simp add: results_paired_def sample_history_def All_less_Suc is_execution_result_def
      execution_result_prefix_def nth_Cons')

theorem compact_keeps_pairs_witness:
  "\<not> is_execution_result (sample_history ! 1)"
proof -
  obtain r st where c: "compact sample_summarizer sample_history = (Some (r, None), st)"
      "cr_retained_from r = 1"
    using sample_fold by (auto split: prod.splits option.splits)
  have "nat (cr_retained_from r) < length sample_history" using c(2) by (simp add: sample_history_def)
  with compact_keeps_pairs [OF sample_paired c(1)] c(2) show ?thesis by simp
qed

theorem transcript_chunks_sound_witness:
  "\<exists>parts. transcript_chunks sample_history 1000 estimate_tokens = map render_transcript parts
     \<and> concat parts = sample_history"
proof -
  have "list_all (\<lambda>m. int (length (render_message m)) < 2 ^ 63) sample_history"
    "list_all (\<lambda>m. estimate_tokens (render_message m) \<le> 1000) sample_history"
    by (code_simp, code_simp)
  moreover have "sample_history \<noteq> []" by (simp add: sample_history_def)
  ultimately show ?thesis
    using transcript_chunks_sound [of sample_history 1000] by (simp add: list_all_iff)
qed

end
