(* ===== verification/Redactor.thy ===== *)
theory Redactor
  imports Go_Strings
begin

text \<open>
  Package \<open>redact\<close> (\<open>redact/redact.go\<close>): an ordered list of secret values with their
  placeholders, applied one after the other.  A nil \<open>*Redactor\<close> is \<open>None\<close>.
\<close>

record secret_entry =
  secret_value :: bytes
  secret_placeholder :: bytes

text \<open>The order of \<open>sort.SliceStable\<close> by decreasing length: a stable insertion.\<close>

fun insert_longest :: "secret_entry \<Rightarrow> secret_entry list \<Rightarrow> secret_entry list" where
  "insert_longest e [] = [e]"
| "insert_longest e (f # fs) =
     (if length (secret_value f) > length (secret_value e) then f # insert_longest e fs else e # f # fs)"

fun sort_longest :: "secret_entry list \<Rightarrow> secret_entry list" where
  "sort_longest [] = []"
| "sort_longest (e # es) = insert_longest e (sort_longest es)"

fun new_entries :: "bytes list \<Rightarrow> bytes list \<Rightarrow> secret_entry list" where
  "new_entries (v # vs) (p # ps) =
     (if v = [] then new_entries vs ps
      else \<lparr>secret_value = v, secret_placeholder = p\<rparr> # new_entries vs ps)"
| "new_entries _ _ = []"

type_synonym redactor = "secret_entry list"

definition new_redactor :: "bytes list \<Rightarrow> bytes list \<Rightarrow> redactor" where
  "new_redactor values placeholders =
     (if length values \<noteq> length placeholders then []
      else sort_longest (new_entries values placeholders))"

text \<open>
  \<open>FromSecrets\<close> ranges over a Go map, whose order is not determined: the argument lists
  the map's entries in the order the run happened to visit them.
\<close>

definition secret_tag :: "bytes \<Rightarrow> bytes" where
  "secret_tag k = ''[redacted:secret.'' @ k @ '']''"

definition from_secrets :: "(bytes \<times> bytes) list \<Rightarrow> redactor option" where
  "from_secrets secrets =
     (if secrets = [] then None
      else Some (new_redactor (map snd secrets)
                   (map (\<lambda>(k, v). secret_tag k) secrets)))"

fun apply_entries :: "secret_entry list \<Rightarrow> bytes \<Rightarrow> bytes" where
  "apply_entries [] s = s"
| "apply_entries (e # es) s = apply_entries es (replace_all (secret_value e) (secret_placeholder e) s)"

definition redact_apply :: "redactor option \<Rightarrow> bytes \<Rightarrow> bytes" where
  "redact_apply r s = (case r of None \<Rightarrow> s | Some es \<Rightarrow> apply_entries es s)"

definition redact_apply_bytes :: "redactor option \<Rightarrow> bytes \<Rightarrow> bytes" where
  "redact_apply_bytes r b = (case r of None \<Rightarrow> b | Some es \<Rightarrow> apply_entries es b)"

section \<open>Construction\<close>

lemma set_insert_longest [simp]: "set (insert_longest e es) = insert e (set es)"
  by (induction es) auto

lemma set_sort_longest [simp]: "set (sort_longest es) = set es"
  by (induction es) auto

lemma sorted_insert_longest:
  "sorted_wrt (\<lambda>a b. length (secret_value a) \<ge> length (secret_value b)) es \<Longrightarrow>
   sorted_wrt (\<lambda>a b. length (secret_value a) \<ge> length (secret_value b)) (insert_longest e es)"
  by (induction es) auto

lemma sorted_sort_longest:
  "sorted_wrt (\<lambda>a b. length (secret_value a) \<ge> length (secret_value b)) (sort_longest es)"
  by (induction es) (auto intro: sorted_insert_longest)

text \<open>The sort is stable: entries of one length keep their order.\<close>

lemma filter_insert_longest:
  "sorted_wrt (\<lambda>a b. length (secret_value a) \<ge> length (secret_value b)) es \<Longrightarrow>
   filter (\<lambda>f. length (secret_value f) = n) (insert_longest e es)
     = (if length (secret_value e) = n then e # filter (\<lambda>f. length (secret_value f) = n) es
        else filter (\<lambda>f. length (secret_value f) = n) es)"
  by (induction es) auto

lemma stable_sort_longest:
  "filter (\<lambda>f. length (secret_value f) = n) (sort_longest es) = filter (\<lambda>f. length (secret_value f) = n) es"
  by (induction es) (simp_all add: filter_insert_longest sorted_sort_longest)

lemma set_new_entries:
  "length vs = length ps \<Longrightarrow>
   set (new_entries vs ps) = (\<lambda>(v, p). \<lparr>secret_value = v, secret_placeholder = p\<rparr>) ` {x \<in> set (zip vs ps). fst x \<noteq> []}"
  by (induction vs ps rule: list_induct2) auto

section \<open>What a replacement leaves behind\<close>

text \<open>
  A value that has neither the first nor the last byte of the placeholder cannot straddle a
  placeholder's edge, so after the replacement it can only occur inside one, and it does not
  when no placeholder contains it.
\<close>

definition foreign :: "bytes \<Rightarrow> bytes \<Rightarrow> bool" where
  "foreign v p = (p \<noteq> [] \<and> hd p \<notin> set v \<and> last p \<notin> set v \<and> \<not> contains v p)"

lemma contains_nil [simp]: "contains v [] \<longleftrightarrow> v = []"
  by (simp add: contains_def)

lemma contains_Cons: "contains v (c # s) \<longleftrightarrow> has_prefix v (c # s) \<or> contains v s"
  by (simp add: contains_def)

lemma contains_take_drop: "take (length v) (drop i s) = v \<Longrightarrow> contains v s"
  unfolding contains_iff by (metis append_take_drop_id)

lemma nth_occurrence:
  "s = u @ v @ w \<Longrightarrow> length u \<le> i \<Longrightarrow> i < length u + length v \<Longrightarrow> s ! i \<in> set v"
  by (auto simp: nth_append)

text \<open>An occurrence in \<open>a @ p @ b\<close> of a value foreign to \<open>p\<close> is in \<open>a\<close> or in \<open>b\<close>.\<close>

lemma foreign_split:
  assumes "foreign v p" and "contains v (a @ p @ b)"
  shows "contains v a \<or> contains v b"
proof -
  obtain u w where uvw: "a @ p @ b = u @ v @ w" using assms(2) by (auto simp: contains_iff)
  let ?s = "a @ p @ b"
  have p: "p \<noteq> []" "hd p \<notin> set v" "last p \<notin> set v" "\<not> contains v p"
    using assms(1) by (auto simp: foreign_def)
  have hd: "?s ! length a = hd p" using p(1) by (simp add: nth_append hd_conv_nth)
  have last: "?s ! (length a + length p - 1) = last p"
    using p(1) by (cases p) (simp_all add: nth_append last_conv_nth)
  have v: "take (length v) (drop (length u) ?s) = v" by (simp add: uvw)
  consider "length u + length v \<le> length a"
    | "length a < length u" "length u + length v \<le> length a + length p - 1"
    | "length a + length p - 1 < length u"
    using nth_occurrence [OF uvw, of "length a"] nth_occurrence [OF uvw, of "length a + length p - 1"]
      hd last p by fastforce
  then show ?thesis
  proof cases
    case 1
    then have "take (length v) (drop (length u) a) = v" using v by simp
    then show ?thesis using contains_take_drop by blast
  next
    case 2
    then have "take (length v) (drop (length u - length a) p) = v" using v by simp
    then show ?thesis using contains_take_drop p(4) by blast
  next
    case 3
    then have "take (length v) (drop (length u - length a - length p) b) = v"
      using v p(1) by (simp add: Suc_le_eq)
    then show ?thesis using contains_take_drop by blast
  qed
qed

text \<open>The untouched stretches between the replaced occurrences.\<close>

fun gaps :: "bytes \<Rightarrow> bytes \<Rightarrow> bytes list" where
  "gaps v [] = [[]]"
| "gaps v (c # cs) =
     (if v \<noteq> [] \<and> has_prefix v (c # cs) then [] # gaps v (drop (length v - 1) cs)
      else (case gaps v cs of g # gs \<Rightarrow> (c # g) # gs | [] \<Rightarrow> []))"

lemma gaps_nonempty: "gaps v s \<noteq> []"
  by (induction v s rule: gaps.induct) (auto split: list.splits)

lemma join_with_Cons: "gs \<noteq> [] \<Longrightarrow> join_with p (g # gs) = g @ p @ join_with p gs"
  by (cases gs) auto

lemma join_with_Cons_hd: "join_with p ((c # g) # gs) = c # join_with p (g # gs)"
  by (cases gs) auto

lemma replace_all_gaps: "replace_all v p s = join_with p (gaps v s)"
proof (induction v s rule: gaps.induct)
  case (2 v c cs)
  then show ?case
    using gaps_nonempty [of v cs] gaps_nonempty [of v "drop (length v - 1) cs"]
    by (auto simp: join_with_Cons join_with_Cons_hd split: list.splits)
qed simp

lemma has_prefix_mono: "has_prefix v a \<Longrightarrow> has_prefix v (a @ b)"
  by (auto simp: has_prefix_iff)

lemma hd_gaps_prefix: "\<exists>r. s = hd (gaps v s) @ r"
proof (induction v s rule: gaps.induct)
  case (2 v c cs)
  then show ?case using gaps_nonempty [of v cs] by (auto split: list.splits)
qed simp

lemma gaps_clean: "v \<noteq> [] \<Longrightarrow> g \<in> set (gaps v s) \<Longrightarrow> \<not> contains v g"
proof (induction v s arbitrary: g rule: gaps.induct)
  case (2 v c cs)
  show ?case
  proof (cases "has_prefix v (c # cs)")
    case True
    with 2 show ?thesis by auto
  next
    case False
    obtain h hs where h: "gaps v cs = h # hs" using gaps_nonempty by (metis list.exhaust)
    have "\<not> has_prefix v (c # h)"
      using False hd_gaps_prefix [of cs v] h has_prefix_mono [of v "c # h"] by auto
    with 2 False h show ?thesis by (auto simp: contains_Cons)
  qed
qed simp

lemma gaps_from_source: "g \<in> set (gaps v s) \<Longrightarrow> contains w g \<Longrightarrow> contains w s"
proof (induction v s arbitrary: g rule: gaps.induct)
  case (2 v c cs)
  show ?case
  proof (cases "v \<noteq> [] \<and> has_prefix v (c # cs)")
    case True
    have sub: "contains w cs" if "contains w (drop n cs)" for n
      using that unfolding contains_iff by (metis append.assoc append_take_drop_id)
    from 2 True sub show ?thesis by (auto simp: contains_Cons)
  next
    case False
    obtain h hs where h: "gaps v cs = h # hs" using gaps_nonempty by (metis list.exhaust)
    have "has_prefix w (c # h) \<Longrightarrow> has_prefix w (c # cs)"
      using hd_gaps_prefix [of cs v] h has_prefix_mono [of w "c # h"] by auto
    moreover have IH: "contains w f \<Longrightarrow> contains w cs" if "f \<in> set (h # hs)" for f
      using "2.IH"(2) False h that by auto
    moreover have "g = c # h \<or> g \<in> set hs" using "2.prems"(1) False h by auto
    ultimately show ?thesis using "2.prems"(2) IH [of h] IH [of g] by (auto simp: contains_Cons)
  qed
qed simp

lemma contains_join_foreign:
  "foreign w p \<Longrightarrow> contains w (join_with p gs) \<Longrightarrow> w \<noteq> [] \<Longrightarrow> \<exists>g \<in> set gs. contains w g"
proof (induction p gs rule: join_with.induct)
  case (3 p x y ys)
  then show ?case using foreign_split [of w p x "join_with p (y # ys)"] by auto
qed auto

lemma foreign_nonempty: "foreign v p \<Longrightarrow> v \<noteq> []"
  by (cases p) (auto simp: foreign_def contains_def)

lemma replace_removes: "foreign v p \<Longrightarrow> \<not> contains v (replace_all v p s)"
  using contains_join_foreign gaps_clean foreign_nonempty
  by (metis replace_all_gaps)

lemma replace_keeps_out: "foreign w p \<Longrightarrow> \<not> contains w s \<Longrightarrow> \<not> contains w (replace_all v p s)"
  using contains_join_foreign gaps_from_source foreign_nonempty
  by (metis replace_all_gaps)

definition placeholders_foreign :: "secret_entry list \<Rightarrow> bool" where
  "placeholders_foreign es = (\<forall>e \<in> set es. \<forall>f \<in> set es. foreign (secret_value e) (secret_placeholder f))"

lemma apply_keeps_out:
  "\<forall>f \<in> set es. foreign w (secret_placeholder f) \<Longrightarrow> \<not> contains w s \<Longrightarrow> \<not> contains w (apply_entries es s)"
  by (induction es arbitrary: s) (auto simp: replace_keeps_out)

lemma apply_removes:
  "\<forall>e \<in> set es. \<forall>f \<in> set es. foreign (secret_value e) (secret_placeholder f) \<Longrightarrow> e \<in> set es \<Longrightarrow>
   \<not> contains (secret_value e) (apply_entries es s)"
proof (induction es arbitrary: s)
  case (Cons f fs)
  show ?case
  proof (cases "e \<in> set fs")
    case True
    with Cons show ?thesis by simp
  next
    case False
    with Cons.prems have "e = f" by simp
    then have "\<not> contains (secret_value e) (replace_all (secret_value f) (secret_placeholder f) s)"
      using Cons.prems replace_removes by auto
    moreover have "\<forall>g \<in> set fs. foreign (secret_value e) (secret_placeholder g)"
      using Cons.prems \<open>e = f\<close> by auto
    ultimately show ?thesis by (simp add: apply_keeps_out)
  qed
qed simp

lemma apply_absent: "\<forall>e \<in> set es. \<not> contains (secret_value e) s \<Longrightarrow> apply_entries es s = s"
  by (induction es) (simp_all add: replace_all_absent)

lemma apply_idem:
  "placeholders_foreign es \<Longrightarrow> apply_entries es (apply_entries es s) = apply_entries es s"
  by (rule apply_absent) (auto simp: placeholders_foreign_def apply_removes)

lemma redact_apply_None [simp]: "redact_apply None s = s" "redact_apply_bytes None s = s"
  by (simp_all add: redact_apply_def redact_apply_bytes_def)

text \<open>A secret without brackets that occurs in no placeholder is foreign to every placeholder.\<close>

lemma foreign_secret:
  assumes "v \<noteq> []" and "CHR ''['' \<notin> set v" and "CHR '']'' \<notin> set v"
    and "\<not> contains v (secret_tag k)"
  shows "foreign v (secret_tag k)"
  using assms by (auto simp: foreign_def secret_tag_def)

lemma set_from_secrets:
  "from_secrets secrets = Some es \<Longrightarrow>
   set es = (\<lambda>(k, v). \<lparr>secret_value = v, secret_placeholder = secret_tag k\<rparr>)
              ` {x \<in> set secrets. snd x \<noteq> []}"
  by (force simp: from_secrets_def new_redactor_def set_new_entries zip_map_map zip_same_conv_map
        split: if_splits)

section \<open>Properties\<close>

text \<open>
  A redactor built from named secrets whose placeholders no secret overlaps removes every
  non-empty secret value from every text, and applying it again changes nothing.
\<close>

theorem redact_removes:
  assumes "from_secrets secrets = Some es" and "placeholders_foreign es"
    and "(k, v) \<in> set secrets" and "v \<noteq> []"
  shows "\<not> contains v (redact_apply (Some es) s)
    \<and> redact_apply (Some es) (redact_apply (Some es) s) = redact_apply (Some es) s"
proof -
  have "\<lparr>secret_value = v, secret_placeholder = secret_tag k\<rparr> \<in> set es"
    using set_from_secrets [OF assms(1)] assms(3,4) by force
  then show ?thesis
    using apply_removes [of es _ s] apply_idem [OF assms(2)] assms(2)
    by (fastforce simp: redact_apply_def placeholders_foreign_def)
qed

theorem redact_removes_witness:
  "\<not> contains ''hunter2'' (redact_apply (Some [\<lparr>secret_value = ''hunter2'', secret_placeholder = secret_tag ''PW''\<rparr>])
     ''the password is hunter2!'')"
proof -
  let ?es = "[\<lparr>secret_value = ''hunter2'', secret_placeholder = secret_tag ''PW''\<rparr>]"
  have f: "from_secrets [(''PW'', ''hunter2'')] = Some ?es"
    by (simp add: from_secrets_def new_redactor_def)
  have "placeholders_foreign ?es"
    unfolding placeholders_foreign_def by (simp, rule foreign_secret) (simp_all add: contains_def secret_tag_def)
  from redact_removes [OF f this, of "''PW''" "''hunter2''"] show ?thesis by simp
qed

text \<open>
  The secrets are tried longest first, those of equal length in the order they were given,
  and a text that contains none of them is left as it is.
\<close>

theorem redact_longest_first:
  "sorted_wrt (\<lambda>e f. length (secret_value f) \<le> length (secret_value e)) (new_redactor vs ps)
   \<and> (if length vs = length ps
      then filter (\<lambda>e. length (secret_value e) = n) (new_redactor vs ps)
             = filter (\<lambda>e. length (secret_value e) = n) (new_entries vs ps)
      else new_redactor vs ps = [])
   \<and> (if \<exists>e \<in> set (new_redactor vs ps). contains (secret_value e) s then True
      else redact_apply (Some (new_redactor vs ps)) s = s)"
  using sorted_sort_longest stable_sort_longest
  by (auto simp: new_redactor_def redact_apply_def apply_absent)

end
