(* ===== verification/Go_Url.thy ===== *)
theory Go_Url
  imports Go_Strings
begin

text \<open>
  The part of Go's packages \<open>net/url\<close> and \<open>net\<close> the modelled code uses: the host name
  of \<open>url.Parse\<close>, and \<open>net.ParseIP\<close> with the address classes.  Parsing follows the standard
  library: fragment, control bytes, scheme, query, authority, user information, host with an
  optional port.  What of an URL only matters to whether it parses (escapes of the path, the
  fragment and the user information) is checked and dropped.
\<close>

section \<open>Searching\<close>

definition char_index :: "char \<Rightarrow> bytes \<Rightarrow> nat option" where
  "char_index c s = (let n = length (takeWhile (\<lambda>x. x \<noteq> c) s) in if n < length s then Some n else None)"

text \<open>\<open>strings.LastIndexByte\<close>.\<close>

definition last_char_index :: "char \<Rightarrow> bytes \<Rightarrow> nat option" where
  "last_char_index c s = map_option (\<lambda>n. length s - 1 - n) (char_index c (rev s))"

lemma char_index_append: "c \<notin> set x \<Longrightarrow> char_index c (x @ c # r) = Some (length x)"
proof -
  assume "c \<notin> set x"
  then have "takeWhile (\<lambda>y. y \<noteq> c) (x @ c # r) = x" by (induction x) auto
  then show ?thesis by (simp add: char_index_def)
qed

lemma char_index_absent: "c \<notin> set s \<Longrightarrow> char_index c s = None"
proof -
  assume "c \<notin> set s"
  then have "takeWhile (\<lambda>x. x \<noteq> c) s = s" by (induction s) auto
  then show ?thesis by (simp only: char_index_def Let_def) simp
qed

lemma last_char_index_append: "c \<notin> set r \<Longrightarrow> last_char_index c (x @ c # r) = Some (length x)"
  using char_index_append [of c "rev r" "rev x"] by (simp add: last_char_index_def)

lemma last_char_index_absent: "c \<notin> set s \<Longrightarrow> last_char_index c s = None"
  by (simp add: last_char_index_def char_index_absent)

text \<open>\<open>strings.Cut\<close> at one byte: the parts before and after its first occurrence.\<close>

definition cut_at :: "char \<Rightarrow> bytes \<Rightarrow> bytes \<times> bytes" where
  "cut_at c s = (takeWhile (\<lambda>x. x \<noteq> c) s, drop 1 (dropWhile (\<lambda>x. x \<noteq> c) s))"

definition has_suffix :: "bytes \<Rightarrow> bytes \<Rightarrow> bool" where
  "has_suffix p s = has_prefix (rev p) (rev s)"

section \<open>Escapes\<close>

definition byte_of :: "char \<Rightarrow> nat" where
  "byte_of c = of_char c"

definition is_alpha :: "char \<Rightarrow> bool" where
  "is_alpha c = (65 \<le> byte_of c \<and> byte_of c \<le> 90 \<or> 97 \<le> byte_of c \<and> byte_of c \<le> 122)"

definition is_hex :: "char \<Rightarrow> bool" where
  "is_hex c = (is_digit c \<or> 65 \<le> byte_of c \<and> byte_of c \<le> 70 \<or> 97 \<le> byte_of c \<and> byte_of c \<le> 102)"

definition unhex :: "char \<Rightarrow> nat" where
  "unhex c = (if is_digit c then byte_of c - 48 else if byte_of c \<le> 70 then byte_of c - 55 else byte_of c - 87)"

datatype escape_mode = Any_text | Host_text | Zone_text

text \<open>The bytes \<open>shouldEscape\<close> lets stand in a host or a zone.\<close>

definition host_char :: "char \<Rightarrow> bool" where
  "host_char c = (is_alpha c \<or> is_digit c \<or> 128 \<le> byte_of c \<or> c \<in> set ''!$&()*+,;=:[]<>-_.~'' \<or> byte_of c \<in> {34, 39})"

fun unescape :: "escape_mode \<Rightarrow> bytes \<Rightarrow> bytes option" where
  "unescape m [] = Some []"
| "unescape m (c # s) =
     (if c = CHR ''%''
      then (case s of
              a # b # r \<Rightarrow>
                if \<not> is_hex a \<or> \<not> is_hex b then None
                else if m = Host_text \<and> unhex a < 8 \<and> \<not> (a = CHR ''2'' \<and> b = CHR ''5'') then None
                else if m = Zone_text \<and> \<not> (a = CHR ''2'' \<and> b = CHR ''5'') \<and> 16 * unhex a + unhex b \<noteq> 32
                     \<and> \<not> host_char (char_of (16 * unhex a + unhex b)) then None
                else map_option (Cons (char_of (16 * unhex a + unhex b))) (unescape m r)
            | _ \<Rightarrow> None)
      else if m \<noteq> Any_text \<and> \<not> host_char c then None
      else map_option (Cons c) (unescape m s))"

section \<open>Hosts\<close>

definition valid_optional_port :: "bytes \<Rightarrow> bool" where
  "valid_optional_port p = (p = [] \<or> hd p = CHR '':'' \<and> list_all is_digit (tl p))"

definition parse_host :: "bytes \<Rightarrow> bytes option" where
  "parse_host h =
     (if char_index (CHR ''['') h = Some 0
      then (case last_char_index (CHR '']'') h of
              None \<Rightarrow> None
            | Some i \<Rightarrow>
                if \<not> valid_optional_port (drop (i + 1) h) then None
                else (case index_of ''%25'' (take i h) of
                        Some z \<Rightarrow>
                          (case (unescape Host_text (take z h), unescape Zone_text (drop z (take i h)),
                                 unescape Host_text (drop i h)) of
                             (Some a, Some b, Some c) \<Rightarrow> Some (a @ b @ c)
                           | _ \<Rightarrow> None)
                      | None \<Rightarrow> unescape Host_text h))
      else (case last_char_index (CHR '':'') h of
              Some i \<Rightarrow> if valid_optional_port (drop i h) then unescape Host_text h else None
            | None \<Rightarrow> unescape Host_text h))"

definition user_char :: "char \<Rightarrow> bool" where
  "user_char c = (is_alpha c \<or> is_digit c \<or> c \<in> set ''-._:~!$&()*+,;=%@'' \<or> byte_of c = 39)"

definition parse_authority :: "bytes \<Rightarrow> bytes option" where
  "parse_authority a =
     (case last_char_index (CHR ''@'') a of
        None \<Rightarrow> parse_host a
      | Some i \<Rightarrow>
          (case parse_host (drop (i + 1) a) of
             None \<Rightarrow> None
           | Some h \<Rightarrow>
               if list_all user_char (take i a) \<and> unescape Any_text (take i a) \<noteq> None then Some h else None))"

text \<open>\<open>getScheme\<close>: \<open>None\<close> is the error of a leading colon.\<close>

fun scheme_from :: "bytes \<Rightarrow> bytes \<Rightarrow> (bytes \<times> bytes) option" where
  "scheme_from acc [] = Some ([], rev acc)"
| "scheme_from acc (c # s) =
     (if is_alpha c then scheme_from (c # acc) s
      else if is_digit c \<or> c \<in> set ''+-.'' then (if acc = [] then Some ([], c # s) else scheme_from (c # acc) s)
      else if c = CHR '':'' then (if acc = [] then None else Some (rev acc, s))
      else Some ([], rev acc @ c # s))"

definition control_byte :: "char \<Rightarrow> bool" where
  "control_byte c = (byte_of c < 32 \<or> byte_of c = 127)"

text \<open>The host, with its port, of a parsed URL; \<open>None\<close> when it does not parse.\<close>

definition parse_url :: "bytes \<Rightarrow> bytes option" where
  "parse_url raw =
     (let (u, frag) = cut_at (CHR ''#'') raw in
      if list_ex control_byte u \<or> unescape Any_text frag = None then None
      else if u = ''*'' then Some []
      else case scheme_from [] u of
             None \<Rightarrow> None
           | Some (scheme, rest) \<Rightarrow>
               let rest = fst (cut_at (CHR ''?'') rest) in
               if \<not> has_prefix ''/'' rest \<and> scheme \<noteq> [] then Some []
               else if \<not> has_prefix ''/'' rest \<and> CHR '':'' \<in> set (fst (cut_at (CHR ''/'') rest)) then None
               else if has_prefix ''//'' rest \<and> (scheme \<noteq> [] \<or> \<not> has_prefix ''///'' rest) then
                 (let (authority, path) = cut_at (CHR ''/'') (drop 2 rest) in
                  case parse_authority authority of
                    None \<Rightarrow> None
                  | Some h \<Rightarrow> if unescape Any_text path = None then None else Some h)
               else if unescape Any_text rest = None then None else Some [])"

text \<open>\<open>URL.Hostname\<close>.\<close>

definition host_name :: "bytes \<Rightarrow> bytes" where
  "host_name h =
     (let h = (case last_char_index (CHR '':'') h of
                 Some i \<Rightarrow> if valid_optional_port (drop i h) then take i h else h
               | None \<Rightarrow> h)
      in if has_prefix ''['' h \<and> has_suffix '']'' h then butlast (tl h) else h)"

section \<open>Addresses\<close>

text \<open>
  \<open>net.ParseIP\<close>: four bytes or eight 16-bit groups.  Decimal bytes have no leading zeros, a
  double colon stands for at least one group, the last 32 bits may be dotted.
\<close>

datatype ip_address = V4 nat nat nat nat | V6 "int list"

definition split_on :: "char \<Rightarrow> bytes \<Rightarrow> bytes list" where
  "split_on c s = foldr (\<lambda>x acc. if x = c then [] # acc else (case acc of [] \<Rightarrow> [[x]] | a # r \<Rightarrow> (x # a) # r)) s [[]]"

lemma split_on_Cons:
  "split_on c [] = [[]]"
  "split_on c (a # s) =
     (if a = c then [] # split_on c s else (a # hd (split_on c s)) # tl (split_on c s))"
  and split_on_nonempty: "split_on c s \<noteq> []"
proof -
  show ne: "split_on c s \<noteq> []" for s by (induction s) (auto simp: split_on_def split: list.splits)
  show "split_on c [] = [[]]" by (simp add: split_on_def)
  show "split_on c (a # s) = (if a = c then [] # split_on c s else (a # hd (split_on c s)) # tl (split_on c s))"
    using ne [of s] by (cases "split_on c s") (simp_all add: split_on_def)
qed

lemma split_on_absent_parts: "x \<in> set (split_on c s) \<Longrightarrow> c \<notin> set x"
proof (induction s arbitrary: x)
  case (Cons a s)
  then show ?case using split_on_nonempty [of c s] by (cases "split_on c s") (auto simp: split_on_Cons split: if_splits)
qed (simp add: split_on_Cons)

lemma split_on_trailing: "split_on c (s @ [c]) = split_on c s @ [[]]"
  by (induction s) (use split_on_nonempty in \<open>auto simp: split_on_Cons\<close>)

lemma split_on_snoc: "c \<notin> set x \<Longrightarrow> split_on c (x @ c # r) = x # split_on c r"
  by (induction x) (auto simp: split_on_Cons)

lemma split_on_whole: "c \<notin> set x \<Longrightarrow> split_on c x = [x]"
  by (induction x) (auto simp: split_on_Cons)

lemma join_split: "join_with [c] (split_on c s) = s"
proof (induction s)
  case (Cons a s)
  then show ?case
    using split_on_nonempty [of c s] by (cases "split_on c s"; cases "tl (split_on c s)") (auto simp: split_on_Cons)
qed (simp add: split_on_Cons)

lemma split_join: "xs \<noteq> [] \<Longrightarrow> \<forall>x \<in> set xs. c \<notin> set x \<Longrightarrow> split_on c (join_with [c] xs) = xs"
  by (induction "[c]" xs rule: join_with.induct) (simp_all add: split_on_snoc split_on_whole)

definition parse_octet :: "bytes \<Rightarrow> nat option" where
  "parse_octet s =
     (if s \<noteq> [] \<and> list_all is_digit s \<and> length s \<le> 3 \<and> (hd s = CHR ''0'' \<longrightarrow> length s = 1) \<and> digits_val s \<le> 255
      then Some (digits_val s) else None)"

definition parse_v4 :: "bytes \<Rightarrow> (nat \<times> nat \<times> nat \<times> nat) option" where
  "parse_v4 s =
     (case map parse_octet (split_on (CHR ''.'') s) of
        [Some a, Some b, Some c, Some d] \<Rightarrow> Some (a, b, c, d)
      | _ \<Rightarrow> None)"

definition parse_group :: "bytes \<Rightarrow> int option" where
  "parse_group s =
     (if s \<noteq> [] \<and> length s \<le> 4 \<and> list_all is_hex s then Some (foldl (\<lambda>n c. 16 * n + int (unhex c)) 0 s) else None)"

text \<open>Groups separated by single colons, the last of which may be a dotted quad.\<close>

definition parse_groups :: "bytes \<Rightarrow> int list option" where
  "parse_groups s =
     (if s = [] then Some []
      else let parts = split_on (CHR '':'') s; gs = map parse_group (butlast parts) in
           case those gs of
             None \<Rightarrow> None
           | Some ns \<Rightarrow>
               (case parse_group (last parts) of
                  Some n \<Rightarrow> Some (ns @ [n])
                | None \<Rightarrow>
                    (case parse_v4 (last parts) of
                       Some (a, b, c, d) \<Rightarrow> Some (ns @ [256 * int a + int b, 256 * int c + int d])
                     | None \<Rightarrow> None)))"

definition parse_v6 :: "bytes \<Rightarrow> int list option" where
  "parse_v6 s =
     (case index_of ''::'' s of
        None \<Rightarrow>
          (case parse_groups s of Some ns \<Rightarrow> if length ns = 8 then Some ns else None | None \<Rightarrow> None)
      | Some i \<Rightarrow>
          (case (parse_groups (take i s), parse_groups (drop (i + 2) s)) of
             (Some ns, Some ms) \<Rightarrow>
               if length ns + length ms < 8 \<and> CHR ''.'' \<notin> set (take i s)
               then Some (ns @ replicate (8 - length ns - length ms) 0 @ ms) else None
           | _ \<Rightarrow> None))"

definition parse_ip :: "bytes \<Rightarrow> ip_address option" where
  "parse_ip s =
     (if CHR '':'' \<in> set s
      then (case parse_v6 s of
              Some ns \<Rightarrow>
                if take 6 ns = [0, 0, 0, 0, 0, 65535]
                then Some (V4 (nat (ns ! 6 div 256)) (nat (ns ! 6 mod 256)) (nat (ns ! 7 div 256)) (nat (ns ! 7 mod 256)))
                else Some (V6 ns)
            | None \<Rightarrow> None)
      else (case parse_v4 s of Some (a, b, c, d) \<Rightarrow> Some (V4 a b c d) | None \<Rightarrow> None))"

fun is_loopback :: "ip_address \<Rightarrow> bool" where
  "is_loopback (V4 a b c d) = (a = 127)"
| "is_loopback (V6 gs) = (gs = [0, 0, 0, 0, 0, 0, 0, 1])"

fun is_unspecified :: "ip_address \<Rightarrow> bool" where
  "is_unspecified (V4 a b c d) = (a = 0 \<and> b = 0 \<and> c = 0 \<and> d = 0)"
| "is_unspecified (V6 gs) = (gs = replicate 8 0)"

text \<open>RFC 1918 and RFC 4193.\<close>

fun is_private :: "ip_address \<Rightarrow> bool" where
  "is_private (V4 a b c d) = (a = 10 \<or> a = 172 \<and> 16 \<le> b \<and> b \<le> 31 \<or> a = 192 \<and> b = 168)"
| "is_private (V6 gs) = (case gs of g # _ \<Rightarrow> g div 512 = 126 | [] \<Rightarrow> False)"

fun is_link_local :: "ip_address \<Rightarrow> bool" where
  "is_link_local (V4 a b c d) = (a = 169 \<and> b = 254 \<or> a = 224 \<and> b = 0 \<and> c = 0)"
| "is_link_local (V6 gs) = (case gs of g # _ \<Rightarrow> g div 64 = 1018 \<or> g div 256 = 255 \<and> g mod 16 = 2 | [] \<Rightarrow> False)"

end
