(* ===== verification/Sandbox_Policy.thy ===== *)
theory Sandbox_Policy
  imports Go_Json Go_Url
begin

text \<open>
  \<open>sandbox/policy.go\<close> and \<open>sandbox/defaultpolicy.go\<close>: the checkers that gate the primitives
  with side effects.
\<close>

text \<open>\<open>sandbox.Event\<close>; a nil payload is \<open>JNull\<close>.\<close>

record sandbox_event =
  se_kind :: bytes
  se_summary :: bytes
  se_detail :: bytes
  se_result :: bytes
  se_payload :: json

record policy_result =
  allowed :: bool
  config_json :: bytes
  reason :: bytes

record default_policy =
  allow_tools :: "bytes list"
  url_allow_prefixes :: "bytes list option"
  allow_commands :: "bytes list"
  allow_private_networks :: bool

text \<open>The zero value of \<open>DefaultPolicy\<close>; a nil slice of prefixes is \<open>None\<close>.\<close>

definition default_policy_zero :: default_policy where
  "default_policy_zero =
     \<lparr>allow_tools = [], url_allow_prefixes = None, allow_commands = [],
      allow_private_networks = False\<rparr>"

type_synonym policy_args = "(bytes \<times> json) list"

datatype policy =
    Allow_all
  | Default_policy default_policy
  | Url_allowlist "bytes list option"
  | Multi_policy "policy list"
  | Custom_policy "bytes \<Rightarrow> policy_args \<Rightarrow> bytes + policy_result"

section \<open>The checkers\<close>

text \<open>A string argument: the zero value when the key is absent or holds something else.\<close>

definition string_arg :: "policy_args \<Rightarrow> bytes \<Rightarrow> bytes" where
  "string_arg args k = (case map_of args k of Some (JStr s) \<Rightarrow> s | _ \<Rightarrow> [])"

definition permit :: policy_result where
  "permit = \<lparr>allowed = True, config_json = [], reason = []\<rparr>"

definition refuse :: "bytes \<Rightarrow> policy_result" where
  "refuse r = \<lparr>allowed = False, config_json = [], reason = r\<rparr>"

text \<open>\<open>json.Marshal(map[string]any{"whitelist": prefixes})\<close>; a nil slice is \<open>null\<close>.\<close>

definition whitelist_config :: "bytes list option \<Rightarrow> bytes" where
  "whitelist_config ps =
     json_marshal (JObj [(''whitelist'', case ps of None \<Rightarrow> JNull | Some l \<Rightarrow> JArr (map JStr l))])"

definition prefixes :: "bytes list option \<Rightarrow> bytes list" where
  "prefixes ps = (case ps of None \<Rightarrow> [] | Some l \<Rightarrow> l)"

text \<open>\<open>%q\<close>: ASCII control bytes are escaped, text outside ASCII is taken to be printable UTF-8.\<close>

definition quote_byte :: "char \<Rightarrow> bytes" where
  "quote_byte c =
     (let n = byte_of c in
      if c = CHR 0x22 \<or> c = CHR 0x5C then [CHR 0x5C, c]
      else if n = 7 then CHR 0x5C # ''a'' else if n = 8 then CHR 0x5C # ''b''
      else if n = 9 then CHR 0x5C # ''t'' else if n = 10 then CHR 0x5C # ''n''
      else if n = 11 then CHR 0x5C # ''v'' else if n = 12 then CHR 0x5C # ''f''
      else if n = 13 then CHR 0x5C # ''r''
      else if n < 32 \<or> n = 127 then CHR 0x5C # ''x'' @ [hex_digit (n div 16), hex_digit (n mod 16)]
      else [c])"

definition quote :: "bytes \<Rightarrow> bytes" where
  "quote s = CHR 0x22 # concat (map quote_byte s) @ [CHR 0x22]"

definition not_listed :: "bytes \<Rightarrow> policy_result" where
  "not_listed url = refuse (''URL '' @ quote url @ '' is not in the allowlist'')"

definition url_tools :: "bytes list" where
  "url_tools = [''fetch'', ''http'', ''_http'', ''browser'']"

definition side_effect_tools :: "bytes list" where
  "side_effect_tools = [''sendEmail'', ''secret'', ''writeFile'', ''editFile'', ''exec'']"

definition url_allowlist_check :: "bytes list option \<Rightarrow> bytes \<Rightarrow> policy_args \<Rightarrow> policy_result" where
  "url_allowlist_check ps tool args =
     (if tool \<notin> set url_tools then permit
      else let url = string_arg args ''url'' in
           if url = [] then permit\<lparr>config_json := whitelist_config ps\<rparr>
           else if list_ex (\<lambda>p. has_prefix p url) (prefixes ps) then permit
           else not_listed url)"

definition is_private_host_url :: "bytes \<Rightarrow> bool" where
  "is_private_host_url raw =
     (case parse_url raw of
        None \<Rightarrow> True
      | Some h \<Rightarrow>
          if host_name h = [] then True
          else let host = to_lower (host_name h) in
               if host = ''localhost'' \<or> has_suffix ''.localhost'' host \<or> has_suffix ''.local'' host
                  \<or> has_suffix ''.internal'' host
               then True
               else case parse_ip host of
                      None \<Rightarrow> False
                    | Some ip \<Rightarrow> is_loopback ip \<or> is_unspecified ip \<or> is_private ip \<or> is_link_local ip)"

definition check_url :: "default_policy \<Rightarrow> policy_args \<Rightarrow> policy_result" where
  "check_url p args =
     (let url = string_arg args ''url'' in
      if url = [] then permit\<lparr>config_json := whitelist_config (url_allow_prefixes p)\<rparr>
      else if list_ex (\<lambda>q. has_prefix q url) (prefixes (url_allow_prefixes p)) then permit
      else if \<not> allow_private_networks p \<and> is_private_host_url url
      then refuse (''URL '' @ quote url @ '' targets a private or internal address, denied by the default sandbox policy'')
      else if prefixes (url_allow_prefixes p) \<noteq> [] then not_listed url
      else permit)"

definition default_denial :: "bytes \<Rightarrow> policy_result" where
  "default_denial tool =
     refuse (tool @ '' is denied by the default sandbox policy '' @ em_dash
           @ '' grant it via DefaultPolicy.AllowTools or install a custom PolicyChecker'')"

definition default_check :: "default_policy \<Rightarrow> bytes \<Rightarrow> policy_args \<Rightarrow> policy_result" where
  "default_check p tool args =
     (if tool \<in> set url_tools then check_url p args
      else if tool = ''exec'' \<and> string_arg args ''command'' \<noteq> []
              \<and> string_arg args ''command'' \<in> set (allow_commands p) then permit
      else if tool \<in> set side_effect_tools \<and> tool \<notin> set (allow_tools p) then default_denial tool
      else permit)"

text \<open>\<open>MultiPolicy.Check\<close> keeps the last configuration in \<open>final\<close>.\<close>

fun check :: "policy \<Rightarrow> bytes \<Rightarrow> policy_args \<Rightarrow> bytes + policy_result"
  and check_all :: "policy list \<Rightarrow> policy_result \<Rightarrow> bytes \<Rightarrow> policy_args \<Rightarrow> bytes + policy_result" where
  "check Allow_all tool args = Inr permit"
| "check (Default_policy p) tool args = Inr (default_check p tool args)"
| "check (Url_allowlist ps) tool args = Inr (url_allowlist_check ps tool args)"
| "check (Custom_policy f) tool args = f tool args"
| "check (Multi_policy cs) tool args = check_all cs permit tool args"
| "check_all [] final tool args = Inr final"
| "check_all (c # cs) final tool args =
     (case check c tool args of
        Inl e \<Rightarrow> Inl e
      | Inr res \<Rightarrow>
          if \<not> allowed res then Inr res
          else check_all cs (if config_json res \<noteq> [] then res else final) tool args)"

text \<open>
  \<open>CheckPolicy\<close> fails open without a checker; \<open>CheckPolicyOrPanic\<close> answers the panic's
  message, after the event that reports a denial: its summary and detail.
\<close>

definition check_policy :: "policy option \<Rightarrow> bytes \<Rightarrow> policy_args \<Rightarrow> bytes + policy_result" where
  "check_policy p tool args = (case p of None \<Rightarrow> Inr permit | Some p \<Rightarrow> check p tool args)"

definition check_policy_or_panic ::
    "policy option \<Rightarrow> bytes \<Rightarrow> policy_args \<Rightarrow> (bytes \<times> bytes) list \<times> (bytes + policy_result)" where
  "check_policy_or_panic p tool args =
     (case check_policy p tool args of
        Inl e \<Rightarrow> ([], Inl (tool @ '': policy check failed: '' @ e))
      | Inr res \<Rightarrow>
          if \<not> allowed res
          then let r = (if reason res = [] then ''denied by policy'' else reason res) in
               ([(tool @ '' blocked by policy'', r)], Inl (tool @ '': '' @ r))
          else ([], Inr res))"

end
