(* ===== verification/Loop_Config.thy ===== *)
theory Loop_Config
  imports Step_History Compaction Redactor Sandbox_Policy
begin

text \<open>
  The types of the loop's contract and its configuration: \<open>loop.go\<close>, \<open>store.go\<close>,
  \<open>events.go\<close>, the \<open>Config\<close> and \<open>New\<close> of \<open>run.go\<close>, and \<open>profile.go\<close>.

  What the loop depends on (the stores, the model, the sandbox, the clock, the context) is a
  record of functions, \<open>world\<close>.  Each takes the interaction history so far, newest effect
  first, so a world can answer differently on every call and may be any stateful system; a
  call the loop makes is appended to that history with the answer it got, when the answer
  matters to the properties.  Tracing spans have no effect on a run and are left out.
\<close>

section \<open>Requests, results, events\<close>

record scope =
  workspace_id :: bytes
  project_id :: bytes

record session =
  sess_id :: bytes
  sess_model :: bytes
  sess_system_prompt :: bytes
  sess_data :: bytes
  sess_message_id :: bytes

record finalize_summary =
  fs_status :: bytes
  fs_prompt_tokens :: int
  fs_completion_tokens :: int
  fs_step_count :: int
  fs_duration_ms :: int
  fs_data_bytes :: int

record run_summary =
  rs_session_id :: bytes
  rs_steps :: int
  rs_prompt_tokens :: int
  rs_completion_tokens :: int
  rs_data_bytes :: int

text \<open>\<open>Args\<close> is a decoded JSON object, nil when absent; \<open>Tokens\<close> is a pair.\<close>

record run_event =
  ev_type :: bytes
  ev_content :: bytes
  ev_tool :: bytes
  ev_args :: "json option"
  ev_summary :: "run_summary option"
  ev_tokens :: "(int \<times> int) option"

definition mk_event :: "bytes \<Rightarrow> bytes \<Rightarrow> run_event" where
  "mk_event t c = \<lparr>ev_type = t, ev_content = c, ev_tool = [], ev_args = None,
                   ev_summary = None, ev_tokens = None\<rparr>"

record run_request =
  rq_session_id :: bytes
  rq_scope :: scope
  rq_user_id :: bytes
  rq_message :: bytes
  rq_context :: bytes
  on_event :: bool

record run_result =
  run_id :: bytes
  final_text :: bytes
  res_steps :: int
  res_status :: bytes
  res_prompt_tokens :: int
  res_completion_tokens :: int
  res_system_prompt :: bytes
  res_data_bytes :: int

definition zero_result :: run_result where
  "zero_result = \<lparr>run_id = [], final_text = [], res_steps = 0, res_status = [],
     res_prompt_tokens = 0, res_completion_tokens = 0, res_system_prompt = [], res_data_bytes = 0\<rparr>"

section \<open>The interaction history and the world\<close>

text \<open>
  An \<open>EExec\<close> holds the code, the \<open>args\<close> it ran with and what came back: the error text,
  or the logs and the return value.  An \<open>EStream\<close> holds the request and the reply.
\<close>

datatype effect =
    EGetSession bytes
  | ELastN bytes int
  | EAppend run_step
  | EEmit run_event
  | EBuild session scope
  | ESetPolicy "policy option"
  | ECompact "message list" "compact_result \<times> bytes option"
  | EStream completion_request "bytes + completion_response"
  | EExec bytes bytes "bytes + bytes \<times> bytes"
  | EUpdateData bytes bytes
  | EFinalize bytes finalize_summary
  | ECleanup

type_synonym trace = "effect list"

record world =
  get_session :: "trace \<Rightarrow> bytes \<Rightarrow> bytes + session"
  last_steps :: "trace \<Rightarrow> bytes \<Rightarrow> int \<Rightarrow> bytes + run_step list"
  append_step :: "trace \<Rightarrow> run_step \<Rightarrow> bytes option"
  update_data :: "trace \<Rightarrow> bytes \<Rightarrow> bytes \<Rightarrow> bytes option"
  finalize_session :: "trace \<Rightarrow> bytes \<Rightarrow> finalize_summary \<Rightarrow> bytes option"
  build_sandbox :: "trace \<Rightarrow> session \<Rightarrow> scope \<Rightarrow> sandbox_event list \<times> bytes option"
  sandbox_prompt :: "trace \<Rightarrow> bytes"
  execute_turn :: "trace \<Rightarrow> bytes \<Rightarrow> bytes \<Rightarrow> sandbox_event list \<times> (bytes + bytes \<times> bytes)"
  take_answer :: "trace \<Rightarrow> bytes option"
  llm_stream :: "trace \<Rightarrow> completion_request \<Rightarrow> bytes list \<times> (bytes + completion_response)"
  ctx_err :: "trace \<Rightarrow> bytes option"
  clock_ms :: "trace \<Rightarrow> int"

section \<open>Configuration\<close>

datatype compactor =
    Summarizing summarizing_compactor
  | Custom_compactor "trace \<Rightarrow> message list \<Rightarrow> compact_result \<times> bytes option"

text \<open>
  \<open>Config\<close>.  The four required dependencies are their presence only, since what they do is
  the \<open>world\<close>; \<open>Now\<close> is the world's clock.  Durations are in nanoseconds.
\<close>

record config =
  has_llm :: bool
  has_sessions :: bool
  has_steps :: bool
  has_builder :: bool
  cfg_policy :: "policy option"
  cfg_model :: bytes
  cfg_max_iterations :: int
  cfg_run_timeout :: int
  cfg_history_window :: int
  cfg_compactor :: "compactor option"
  cfg_budget :: context_budget
  cfg_redactor :: "redactor option"

abbreviation default_max_iterations :: int where "default_max_iterations \<equiv> 20"
abbreviation default_run_timeout :: int where "default_run_timeout \<equiv> 5 * 60 * 1000000000"

text \<open>\<open>New\<close>: a panic is \<open>Inl\<close> its message.\<close>

definition new_loop :: "config \<Rightarrow> bytes + config" where
  "new_loop cfg =
     (if \<not> has_llm cfg then Inl ''agentloop: Config.LLM is required''
      else if \<not> has_sessions cfg then Inl ''agentloop: Config.Sessions is required''
      else if \<not> has_steps cfg then Inl ''agentloop: Config.Steps is required''
      else if \<not> has_builder cfg then Inl ''agentloop: Config.SandboxBuilder is required''
      else
        let cfg = (if cfg_max_iterations cfg \<le> 0
                   then cfg\<lparr>cfg_max_iterations := default_max_iterations\<rparr> else cfg);
            cfg = (if cfg_run_timeout cfg \<le> 0
                   then cfg\<lparr>cfg_run_timeout := default_run_timeout\<rparr> else cfg);
            cfg = (if cfg_history_window cfg \<le> 0
                   then cfg\<lparr>cfg_history_window := default_history_window\<rparr> else cfg)
        in
        if budget_enabled (cfg_budget cfg) \<and> allowance (cfg_budget cfg) \<le> 0
        then Inl ''agentloop: Config.ContextBudget.Reserve leaves no room for the prompt''
        else Inr (case cfg_policy cfg of
                    None \<Rightarrow> cfg\<lparr>cfg_policy := Some (Default_policy default_policy_zero)\<rparr>
                  | Some _ \<Rightarrow> cfg))"

section \<open>Profiles\<close>

abbreviation avg_message_tokens :: int where "avg_message_tokens \<equiv> 250"
abbreviation min_profile_trigger :: int where "min_profile_trigger \<equiv> 12"
abbreviation max_profile_trigger :: int where "max_profile_trigger \<equiv> default_compact_trigger"
abbreviation history_per_trigger :: int where "history_per_trigger \<equiv> 3"
abbreviation min_profile_history :: int where "min_profile_history \<equiv> 24"
abbreviation max_profile_history :: int where "max_profile_history \<equiv> 200"
abbreviation standing_item_divisor :: int where "standing_item_divisor \<equiv> 8"
abbreviation min_standing_bytes :: int where "min_standing_bytes \<equiv> 1024"
abbreviation default_project_inline_bytes :: int where "default_project_inline_bytes \<equiv> 4 * 1024"
abbreviation default_max_log_bytes :: int where "default_max_log_bytes \<equiv> 16 * 1024"

record profile =
  pf_budget :: context_budget
  pf_history_window :: int
  pf_compact_trigger :: int
  pf_compact_keep :: int
  pf_summarize_budget :: context_budget
  pf_max_log_bytes :: int
  pf_project_inline_bytes :: int

definition clamp :: "int \<Rightarrow> int \<Rightarrow> int \<Rightarrow> int" where
  "clamp v lo hi = (if v < lo then lo else if v > hi then hi else v)"

definition zero_budget :: context_budget where
  "zero_budget = \<lparr>max_tokens = 0, reserve_tokens = 0, estimate = None\<rparr>"

definition profile_for :: "int \<Rightarrow> profile" where
  "profile_for context_window =
     (if context_window \<le> 0
      then \<lparr>pf_budget = zero_budget, pf_history_window = 0, pf_compact_trigger = 0,
            pf_compact_keep = 0, pf_summarize_budget = zero_budget, pf_max_log_bytes = 0,
            pf_project_inline_bytes = 0\<rparr>
      else
        let budget = zero_budget\<lparr>max_tokens := context_window\<rparr>;
            allow = allowance budget;
            trigger = clamp (allow div avg_message_tokens) min_profile_trigger max_profile_trigger;
            keep = trigger div 3;
            keep = (if keep < 4 then 4 else keep);
            standing = allow div standing_item_divisor * bytes_per_token
        in \<lparr>pf_budget = budget,
            pf_history_window = clamp (trigger * history_per_trigger) min_profile_history max_profile_history,
            pf_compact_trigger = trigger, pf_compact_keep = keep, pf_summarize_budget = budget,
            pf_max_log_bytes = clamp standing min_standing_bytes default_max_log_bytes,
            pf_project_inline_bytes = clamp standing min_standing_bytes default_project_inline_bytes\<rparr>)"

definition profile_apply :: "profile \<Rightarrow> config \<Rightarrow> config" where
  "profile_apply p cfg =
     (if max_tokens (pf_budget p) \<le> 0 then cfg
      else
        let cfg = cfg\<lparr>cfg_budget := pf_budget p, cfg_history_window := pf_history_window p\<rparr> in
        case cfg_compactor cfg of
          Some (Summarizing sc) \<Rightarrow>
            cfg\<lparr>cfg_compactor := Some (Summarizing
                  (sc\<lparr>sc_trigger := pf_compact_trigger p, sc_keep := pf_compact_keep p,
                      sc_budget := pf_summarize_budget p\<rparr>))\<rparr>
        | _ \<Rightarrow> cfg)"

section \<open>What construction and profiles guarantee\<close>

lemma mk_event_simps [simp]:
  "ev_type (mk_event t c) = t" "ev_content (mk_event t c) = c" "ev_args (mk_event t c) = None"
  "ev_summary (mk_event t c) = None" "ev_tokens (mk_event t c) = None" "ev_tool (mk_event t c) = []"
  by (simp_all add: mk_event_def)

lemma clamp_bounds: "lo \<le> hi \<Longrightarrow> lo \<le> clamp v lo hi \<and> clamp v lo hi \<le> hi"
  by (simp add: clamp_def)

lemma clamp_mono: "v \<le> w \<Longrightarrow> lo \<le> hi \<Longrightarrow> clamp v lo hi \<le> clamp w lo hi"
  by (simp add: clamp_def)

lemma new_loop_cases:
  assumes "new_loop cfg = Inr c"
  shows "0 < cfg_max_iterations c" and "0 < cfg_history_window c" and "0 < cfg_run_timeout c"
    and "budget_enabled (cfg_budget c) \<Longrightarrow> 0 < allowance (cfg_budget c)"
    and "cfg_policy c \<noteq> None" and "cfg_redactor c = cfg_redactor cfg"
    and "cfg_compactor c = cfg_compactor cfg" and "cfg_budget c = cfg_budget cfg"
  using assms by (auto simp: new_loop_def Let_def split: if_splits option.splits)

definition profile_trigger :: "int \<Rightarrow> int" where
  "profile_trigger w = clamp (allowance (zero_budget\<lparr>max_tokens := w\<rparr>) div avg_message_tokens)
     min_profile_trigger max_profile_trigger"

definition profile_standing :: "int \<Rightarrow> int" where
  "profile_standing w =
     allowance (zero_budget\<lparr>max_tokens := w\<rparr>) div standing_item_divisor * bytes_per_token"

lemma profile_fields:
  assumes "0 < w"
  shows "pf_compact_trigger (profile_for w) = profile_trigger w"
    "pf_compact_keep (profile_for w) = max 4 (profile_trigger w div 3)"
    "pf_history_window (profile_for w) =
       clamp (profile_trigger w * history_per_trigger) min_profile_history max_profile_history"
    "pf_max_log_bytes (profile_for w) = clamp (profile_standing w) min_standing_bytes default_max_log_bytes"
    "pf_project_inline_bytes (profile_for w) =
       clamp (profile_standing w) min_standing_bytes default_project_inline_bytes"
    "pf_budget (profile_for w) = zero_budget\<lparr>max_tokens := w\<rparr>"
    "pf_summarize_budget (profile_for w) = zero_budget\<lparr>max_tokens := w\<rparr>"
  using assms by (simp_all add: profile_for_def Let_def profile_trigger_def profile_standing_def max_def)

lemma profile_trigger_range: "12 \<le> profile_trigger w" "profile_trigger w \<le> 60"
  using clamp_bounds [of 12 60] by (simp_all add: profile_trigger_def)

text \<open>Every window gives a configuration that \<open>New\<close> accepts and settings in their ranges.\<close>

lemma profile_ranges:
  assumes "0 < w"
  shows "12 \<le> pf_compact_trigger (profile_for w) \<and> pf_compact_trigger (profile_for w) \<le> 60
    \<and> 4 \<le> pf_compact_keep (profile_for w)
    \<and> pf_compact_keep (profile_for w) < pf_compact_trigger (profile_for w)
    \<and> 24 \<le> pf_history_window (profile_for w) \<and> pf_history_window (profile_for w) \<le> 200
    \<and> pf_compact_trigger (profile_for w) < pf_history_window (profile_for w)
    \<and> 1024 \<le> pf_max_log_bytes (profile_for w) \<and> pf_max_log_bytes (profile_for w) \<le> 16384
    \<and> 1024 \<le> pf_project_inline_bytes (profile_for w)
    \<and> pf_project_inline_bytes (profile_for w) \<le> pf_max_log_bytes (profile_for w)"
proof -
  have "profile_trigger w div 3 < profile_trigger w" "4 \<le> profile_trigger w div 3"
    using profile_trigger_range [of w] by linarith+
  with assms profile_trigger_range [of w] show ?thesis by (simp add: profile_fields) (simp add: clamp_def)
qed

lemma profile_budget: "0 < w \<Longrightarrow> max_tokens (pf_budget (profile_for w)) = w
    \<and> 0 < allowance (pf_budget (profile_for w))"
  using default_allowance_pos [of "zero_budget\<lparr>max_tokens := w\<rparr>"]
  by (simp add: profile_for_def Let_def zero_budget_def)

lemma allowance_window:
  "0 < w \<Longrightarrow> allowance (zero_budget\<lparr>max_tokens := w\<rparr>)
     = w - min (w div 2) (min 4096 (max 512 (w div 8)))"
  by (simp add: allowance_def reserve_def zero_budget_def Let_def min_def max_def)

lemma allowance_mono:
  assumes "0 < v" and "v \<le> w"
  shows "allowance (zero_budget\<lparr>max_tokens := v\<rparr>) \<le> allowance (zero_budget\<lparr>max_tokens := w\<rparr>)"
proof -
  have step: "allowance (zero_budget\<lparr>max_tokens := u\<rparr>) \<le> allowance (zero_budget\<lparr>max_tokens := u + 1\<rparr>)"
    if "0 < u" for u :: int
  proof -
    have "(u + 1) div 2 \<le> u div 2 + 1" "(u + 1) div 8 \<le> u div 8 + 1" "u div 2 \<le> (u + 1) div 2" by linarith+
    with that show ?thesis by (simp add: allowance_window min_def max_def)
  qed
  from assms(2) show ?thesis
    by (rule int_ge_induct) (use step assms in \<open>auto intro: order_trans\<close>)
qed

text \<open>
  A larger context window never gives a smaller setting.
\<close>

theorem profile_mono:
  assumes "0 < v" and "v \<le> w"
  shows "pf_history_window (profile_for v) \<le> pf_history_window (profile_for w)
    \<and> pf_compact_trigger (profile_for v) \<le> pf_compact_trigger (profile_for w)
    \<and> pf_compact_keep (profile_for v) \<le> pf_compact_keep (profile_for w)
    \<and> pf_max_log_bytes (profile_for v) \<le> pf_max_log_bytes (profile_for w)
    \<and> pf_project_inline_bytes (profile_for v) \<le> pf_project_inline_bytes (profile_for w)"
proof -
  let ?a = "\<lambda>u. allowance (zero_budget\<lparr>max_tokens := u\<rparr>)"
  have a: "?a v \<le> ?a w" by (rule allowance_mono [OF assms])
  have "?a v div avg_message_tokens \<le> ?a w div avg_message_tokens" using a by (intro zdiv_mono1) auto
  then have t: "profile_trigger v \<le> profile_trigger w"
    unfolding profile_trigger_def by (intro clamp_mono) auto
  then have k: "profile_trigger v div 3 \<le> profile_trigger w div 3" by (intro zdiv_mono1) auto
  have s: "profile_standing v \<le> profile_standing w"
    using zdiv_mono1 [OF a, of 8] by (simp add: profile_standing_def)
  have "0 < w" using assms by simp
  then show ?thesis
    using assms(1) t k s by (simp add: profile_fields clamp_mono)
qed

text \<open>
  Applying the profile of any window makes the summarizing compactor's effective bounds the
  profile's, gives it the loop's budget, and leaves a history window that compaction can reach.
\<close>

theorem profile_apply_bounds:
  assumes "0 < w" and "cfg_compactor cfg = Some (Summarizing sc)"
  shows "\<exists>sc'. cfg_compactor (profile_apply (profile_for w) cfg) = Some (Summarizing sc')
    \<and> bounds sc' = (pf_compact_trigger (profile_for w), pf_compact_keep (profile_for w))
    \<and> sc_budget sc' = cfg_budget (profile_apply (profile_for w) cfg)
    \<and> fst (bounds sc') < cfg_history_window (profile_apply (profile_for w) cfg)"
proof -
  let ?p = "profile_for w"
  let ?sc = "sc\<lparr>sc_trigger := pf_compact_trigger ?p, sc_keep := pf_compact_keep ?p,
                sc_budget := pf_summarize_budget ?p\<rparr>"
  have *: "cfg_compactor (profile_apply ?p cfg) = Some (Summarizing ?sc)"
      "cfg_budget (profile_apply ?p cfg) = pf_budget ?p"
      "cfg_history_window (profile_apply ?p cfg) = pf_history_window ?p"
    using assms profile_budget [OF assms(1)] by (simp_all add: profile_apply_def Let_def)
  have "bounds ?sc = (pf_compact_trigger ?p, pf_compact_keep ?p)"
    using profile_ranges [OF assms(1)] by (simp add: bounds_def Let_def)
  with * profile_ranges [OF assms(1)] show ?thesis
    by (simp add: profile_fields [OF assms(1)])
qed

theorem profile_mono_witness:
  "pf_compact_trigger (profile_for 4096) \<le> pf_compact_trigger (profile_for 32768)"
  using profile_mono [of 4096 32768] by simp

definition small_config :: config where
  "small_config =
     \<lparr>has_llm = True, has_sessions = True, has_steps = True, has_builder = True, cfg_policy = None,
      cfg_model = [], cfg_max_iterations = 0, cfg_run_timeout = 0, cfg_history_window = 0,
      cfg_compactor = Some (Summarizing
        \<lparr>sc_llm = None, sc_model = [], sc_trigger = 0, sc_keep = 0, sc_prompt = [], sc_merge_prompt = [],
         sc_budget = zero_budget\<rparr>),
      cfg_budget = zero_budget, cfg_redactor = None\<rparr>"

theorem profile_apply_bounds_witness:
  "\<exists>sc. cfg_compactor (profile_apply (profile_for 8192) small_config) = Some (Summarizing sc)
     \<and> fst (bounds sc) < cfg_history_window (profile_apply (profile_for 8192) small_config)"
  using profile_apply_bounds [of 8192 small_config] by (auto simp: small_config_def)

text \<open>
  Construction panics exactly when a required dependency is missing or the budget's reserve
  leaves no room for a prompt; the loop it returns otherwise has positive limits, a policy, and
  everything else as configured.
\<close>

theorem new_loop_spec:
  "case new_loop cfg of
     Inl _ \<Rightarrow> if has_llm cfg \<and> has_sessions cfg \<and> has_steps cfg \<and> has_builder cfg
              then budget_enabled (cfg_budget cfg) \<and> allowance (cfg_budget cfg) \<le> 0 else True
   | Inr c \<Rightarrow>
       has_llm cfg \<and> has_sessions cfg \<and> has_steps cfg \<and> has_builder cfg
       \<and> \<not> (budget_enabled (cfg_budget c) \<and> allowance (cfg_budget c) \<le> 0)
       \<and> 0 < cfg_max_iterations c \<and> 0 < cfg_history_window c \<and> 0 < cfg_run_timeout c
       \<and> cfg_policy c = Some (case cfg_policy cfg of None \<Rightarrow> Default_policy default_policy_zero | Some p \<Rightarrow> p)
       \<and> cfg_max_iterations c = (if cfg_max_iterations cfg \<le> 0 then 20 else cfg_max_iterations cfg)
       \<and> cfg_history_window c = (if cfg_history_window cfg \<le> 0 then 80 else cfg_history_window cfg)
       \<and> cfg_redactor c = cfg_redactor cfg \<and> cfg_compactor c = cfg_compactor cfg
       \<and> cfg_budget c = cfg_budget cfg \<and> cfg_model c = cfg_model cfg"
  by (auto simp: new_loop_def Let_def split: option.splits)

end
