(* ===== verification/Data_Shape.thy ===== *)
theory Data_Shape
  imports Go_Json Llm_Types
begin

text \<open>
  \<open>shape.go\<close>: the elision of stale \<open>run()\<close> bodies from the history, and the structural
  digest of a turn's return value that stands in for the value in the prompt.  The keys of
  a decoded object are already in the order \<open>sort.Strings\<close> gives them.
\<close>

section \<open>Stale code\<close>

definition stale_code_marker :: bytes where
  "stale_code_marker =
     ''[earlier run() omitted '' @ em_dash @
     '' its result is in the message below; its data is in args]''"

text \<open>The loop that leaves \<open>lastAssistant\<close> at the newest assistant message; \<open>None\<close> is -1.\<close>

fun last_assistant :: "nat \<Rightarrow> message list \<Rightarrow> nat option \<Rightarrow> nat option" where
  "last_assistant i [] acc = acc"
| "last_assistant i (m # ms) acc =
     last_assistant (Suc i) ms (if role m = ''assistant'' then Some i else acc)"

fun elide_from :: "nat \<Rightarrow> nat \<Rightarrow> nat \<Rightarrow> message list \<Rightarrow> message list" where
  "elide_from i from_index last_i [] = []"
| "elide_from i from_index last_i (m # ms) =
     (if role m = ''assistant'' \<and> i \<ge> from_index \<and> i \<noteq> last_i
      then mk_message ''assistant'' stale_code_marker else m)
     # elide_from (Suc i) from_index last_i ms"

definition elide_stale_code :: "message list \<Rightarrow> nat \<Rightarrow> message list" where
  "elide_stale_code history from_index =
     (case last_assistant 0 history None of
        None \<Rightarrow> history
      | Some l \<Rightarrow> elide_from 0 from_index l history)"

lemma last_assistant_spec:
  "last_assistant i ms acc = Some l \<Longrightarrow>
     (acc = Some l \<and> (\<forall>m \<in> set ms. role m \<noteq> ''assistant''))
   \<or> (\<exists>pre m post. ms = pre @ m # post \<and> l = i + length pre \<and> role m = ''assistant''
        \<and> (\<forall>m \<in> set post. role m \<noteq> ''assistant''))"
proof (induction i ms acc rule: last_assistant.induct)
  case (2 i m ms acc)
  let ?acc = "if role m = ''assistant'' then Some i else acc"
  from "2.prems" have "last_assistant (Suc i) ms ?acc = Some l" by simp
  from "2.IH" [OF this] show ?case
  proof (elim disjE)
    assume *: "?acc = Some l \<and> (\<forall>m \<in> set ms. role m \<noteq> ''assistant'')"
    show ?thesis
    proof (cases "role m = ''assistant''")
      case True
      with * have "m # ms = [] @ m # ms \<and> l = i + length ([] :: message list)" by simp
      with True * show ?thesis by blast
    next
      case False
      with * show ?thesis by simp
    qed
  next
    assume "\<exists>pre m post. ms = pre @ m # post \<and> l = Suc i + length pre \<and> role m = ''assistant''
        \<and> (\<forall>m \<in> set post. role m \<noteq> ''assistant'')"
    then obtain pre m' post where *: "ms = pre @ m' # post" "l = Suc i + length pre"
        "role m' = ''assistant''" "\<forall>m \<in> set post. role m \<noteq> ''assistant''" by blast
    then have "m # ms = (m # pre) @ m' # post" "l = i + length (m # pre)" by simp_all
    with *(3,4) show ?thesis by blast
  qed
qed simp

lemma last_assistant_None:
  "last_assistant i ms acc = None \<Longrightarrow> acc = None \<and> (\<forall>m \<in> set ms. role m \<noteq> ''assistant'')"
proof (induction i ms acc rule: last_assistant.induct)
  case (2 i m ms acc)
  let ?acc = "if role m = ''assistant'' then Some i else acc"
  from "2.prems" have "last_assistant (Suc i) ms ?acc = None" by simp
  from "2.IH" [OF this] have *: "?acc = None" "\<forall>m \<in> set ms. role m \<noteq> ''assistant''" by blast+
  then show ?case by (cases "role m = ''assistant''") simp_all
qed simp

lemma length_elide_from [simp]: "length (elide_from i f l ms) = length ms"
  by (induction i f l ms rule: elide_from.induct) auto

lemma length_elide [simp]: "length (elide_stale_code h f) = length h"
  by (simp add: elide_stale_code_def split: option.splits)

lemma nth_elide_from:
  "j < length ms \<Longrightarrow> elide_from i f l ms ! j =
     (if role (ms ! j) = ''assistant'' \<and> i + j \<ge> f \<and> i + j \<noteq> l
      then mk_message ''assistant'' stale_code_marker else ms ! j)"
  by (induction i f l ms arbitrary: j rule: elide_from.induct) (auto simp: nth_Cons' Suc_diff_le)

text \<open>What elision leaves: everything but this run's assistant messages before the newest one.\<close>

lemma nth_elide:
  assumes "j < length h"
  shows "elide_stale_code h f ! j =
     (if role (h ! j) = ''assistant'' \<and> f \<le> j \<and> (\<exists>k < length h. j < k \<and> role (h ! k) = ''assistant'')
      then mk_message ''assistant'' stale_code_marker else h ! j)"
proof (cases "last_assistant 0 h None")
  case None
  with last_assistant_None [OF None] assms show ?thesis by (simp add: elide_stale_code_def)
next
  case (Some l)
  from last_assistant_spec [OF Some] obtain pre m post where l: "h = pre @ m # post" "l = length pre"
      "role m = ''assistant''" "\<forall>m \<in> set post. role m \<noteq> ''assistant''" by auto
  have at: "h ! l = m" "l < length h" using l by (simp_all add: nth_append)
  have after: "role (h ! k) \<noteq> ''assistant''" if "l < k" "k < length h" for k
  proof -
    from that l have "h ! k = post ! (k - Suc l)" "k - Suc l < length post"
      by (simp_all add: nth_append nth_Cons')
    with l(4) show ?thesis by simp
  qed
  have "j \<noteq> l \<longleftrightarrow> (\<exists>k < length h. j < k \<and> role (h ! k) = ''assistant'')"
    if "role (h ! j) = ''assistant''"
    using that at l(3) after assms by (metis linorder_neqE_nat)
  with Some assms show ?thesis by (auto simp: elide_stale_code_def nth_elide_from)
qed

section \<open>The digest\<close>

abbreviation shape_max_depth :: nat where "shape_max_depth \<equiv> 4"
abbreviation shape_max_keys :: nat where "shape_max_keys \<equiv> 24"

definition elem_suffix :: "bytes \<Rightarrow> bytes" where
  "elem_suffix s = (if has_prefix ''{'' s \<or> \<not> contains '' '' s then s else ''('' @ s @ '')'')"

function shape_of :: "json \<Rightarrow> nat \<Rightarrow> bytes" where
  "shape_of v depth =
     (case v of
        JObj kvs \<Rightarrow>
          if depth \<ge> shape_max_depth then ''object''
          else
            let truncated = (if length kvs > shape_max_keys then length kvs - shape_max_keys else 0);
                parts = map (\<lambda>(k, w). k @ '': '' @ shape_of w (depth + 1)) (take shape_max_keys kvs);
                parts = (if truncated > 0
                         then parts @ [''/* +'' @ itoa (int truncated) @ '' more keys */''] else parts)
            in ''{ '' @ join_with ''; '' parts @ '' }''
      | JArr [] \<Rightarrow> ''unknown[] /* empty */''
      | JArr (w # ws) \<Rightarrow>
          if depth \<ge> shape_max_depth
          then ''unknown[] /* '' @ itoa (int (length (w # ws))) @ '' items */''
          else elem_suffix (shape_of w (depth + 1)) @ ''[] /* '' @ itoa (int (length (w # ws))) @ '' items */''
      | JStr _ \<Rightarrow> ''string''
      | JNum _ \<Rightarrow> ''number''
      | JBool _ \<Rightarrow> ''boolean''
      | JNull \<Rightarrow> ''null'')"
  by pat_completeness auto
termination
  by (relation "measure (\<lambda>(v, d). shape_max_depth - d)") auto

declare shape_of.simps [simp del]

lemma shape_of_obj:
  "shape_of (JObj kvs) d =
     (if d \<ge> shape_max_depth then ''object''
      else
        let truncated = (if length kvs > shape_max_keys then length kvs - shape_max_keys else 0);
            parts = map (\<lambda>(k, w). k @ '': '' @ shape_of w (d + 1)) (take shape_max_keys kvs);
            parts = (if truncated > 0
                     then parts @ [''/* +'' @ itoa (int truncated) @ '' more keys */''] else parts)
        in ''{ '' @ join_with ''; '' parts @ '' }'')"
  by (subst shape_of.simps) (simp only: json.case)

definition data_shape :: "bytes \<Rightarrow> bytes" where
  "data_shape raw =
     (if raw = [] \<or> raw = ''null'' \<or> raw = ''{}'' then []
      else case json_parse raw of None \<Rightarrow> [] | Some v \<Rightarrow> shape_of v 0)"

text \<open>The value with every scalar replaced: what is left is what a digest may show.\<close>

fun blank :: "json \<Rightarrow> json" where
  "blank JNull = JNull"
| "blank (JBool b) = JBool False"
| "blank (JNum s) = JNum ''0''"
| "blank (JStr s) = JStr []"
| "blank (JArr vs) = JArr (map blank vs)"
| "blank (JObj kvs) = JObj (map (\<lambda>(k, v). (k, blank v)) kvs)"

lemma shape_of_blank: "shape_of (blank v) d = shape_of v d"
proof (induction v d rule: shape_of.induct)
  case (1 v d)
  show ?case
  proof (cases v)
    case (JArr vs)
    then show ?thesis using 1
      by (cases vs) (simp_all, (subst (1 2) shape_of.simps, auto)+)
  next
    case (JObj kvs)
    show ?thesis
    proof (cases "d \<ge> shape_max_depth")
      case True
      then show ?thesis by (simp add: JObj shape_of.simps)
    next
      case False
      have "map (\<lambda>(k, w). k @ '': '' @ shape_of w (d + 1)) (take shape_max_keys (map (\<lambda>(k, v). (k, blank v)) kvs))
        = map (\<lambda>(k, w). k @ '': '' @ shape_of w (d + 1)) (take shape_max_keys kvs)"
        using 1 JObj False by (auto simp: take_map)
      with False show ?thesis by (simp only: JObj blank.simps shape_of_obj length_map)
    qed
  qed (auto simp: shape_of.simps)
qed

lemma data_shape_blank:
  "json_parse raw = Some v \<Longrightarrow> raw \<noteq> ''null'' \<Longrightarrow> raw \<noteq> ''{}'' \<Longrightarrow> raw \<noteq> [] \<Longrightarrow>
   data_shape raw = shape_of (blank v) 0"
  by (simp add: data_shape_def shape_of_blank)

section \<open>Properties\<close>

text \<open>A digest never depends on a value: two documents that differ only in their strings, numbers
  and booleans have the same digest, so nothing of the data reaches the prompt but keys, types
  and array lengths.
\<close>

theorem digest_hides_values:
  assumes "json_parse raw = Some v" and "json_parse raw' = Some v'" and "blank v = blank v'"
    and "raw \<notin> {[], ''null'', ''{}''}" and "raw' \<notin> {[], ''null'', ''{}''}"
  shows "data_shape raw = data_shape raw'"
proof -
  have "data_shape raw = shape_of (blank v) 0" using assms by (intro data_shape_blank) auto
  moreover have "data_shape raw' = shape_of (blank v') 0" using assms by (intro data_shape_blank) auto
  ultimately show ?thesis using assms(3) by simp
qed

theorem digest_hides_values_witness:
  "data_shape ''[1,2]'' = data_shape ''[7,9]''"
proof (rule digest_hides_values)
  show "json_parse ''[1,2]'' = Some (JArr [JNum ''1'', JNum ''2''])" by code_simp
  show "json_parse ''[7,9]'' = Some (JArr [JNum ''7'', JNum ''9''])" by code_simp
qed simp_all

text \<open>
  Elision replaces exactly the assistant messages of this run that are not the newest
  assistant message, one for one; every other message, and so every answer of an earlier run,
  stays as it is.
\<close>

theorem elide_only_stale:
  "elide_stale_code h f =
     map (\<lambda>j. if role (h ! j) = ''assistant'' \<and> f \<le> j
                \<and> (\<exists>k \<in> set [Suc j..<length h]. role (h ! k) = ''assistant'')
              then mk_message ''assistant'' stale_code_marker else h ! j) [0..<length h]"
proof (rule nth_equalityI)
  fix j assume "j < length (elide_stale_code h f)"
  then have j: "j < length h" by simp
  have "(\<exists>k < length h. j < k \<and> role (h ! k) = ''assistant'')
      \<longleftrightarrow> (\<exists>k \<in> set [Suc j..<length h]. role (h ! k) = ''assistant'')" by auto
  then show "elide_stale_code h f ! j = map (\<lambda>j. if role (h ! j) = ''assistant'' \<and> f \<le> j
                \<and> (\<exists>k \<in> set [Suc j..<length h]. role (h ! k) = ''assistant'')
              then mk_message ''assistant'' stale_code_marker else h ! j) [0..<length h] ! j"
    using nth_elide [OF j, of f] j by (simp add: nth_map_upt) blast
qed simp

end
