(* ===== verification/Reply_Parser.thy ===== *)
theory Reply_Parser
  imports Go_Strings
begin

text \<open>
  \<open>parser.go\<close>: what the loop reads out of a model reply.  The two regular expressions are
  modelled by what Go's leftmost-first matching makes of them: \<open>\s\<close> is tab, line feed,
  form feed, carriage return and space; a greedy \<open>\s*\<close> followed by a line feed takes the
  longest run of white space first and gives line feeds back from the right.
\<close>

definition re_space :: "char \<Rightarrow> bool" where
  "re_space c = (c \<in> set [CHR '' '', CHR 0x09, CHR 0x0A, CHR 0x0C, CHR 0x0D])"

section \<open>The fenced block\<close>

text \<open>\<open>(.*?)\n```\<close>: the shortest body that a line feed and a closing fence follow.\<close>

definition fence_close :: bytes where
  "fence_close = newline @ ''```''"

definition fence_body :: "bytes \<Rightarrow> bytes option" where
  "fence_body r = map_option (\<lambda>i. take i r) (index_of fence_close r)"

text \<open>
  \<open>\s*\n(.*?)\n```\<close> on \<open>ws @ rest\<close>, where \<open>ws\<close> is the longest run of white space: the last
  line feed of \<open>ws\<close> that leads to a match.
\<close>

fun fence_after :: "bytes \<Rightarrow> bytes \<Rightarrow> bytes option" where
  "fence_after [] rest = None"
| "fence_after (c # ws) rest =
     (case fence_after ws rest of
        Some b \<Rightarrow> Some b
      | None \<Rightarrow> if c = CHR 0x0A then fence_body (ws @ rest) else None)"

definition fence_tail :: "bytes \<Rightarrow> bytes option" where
  "fence_tail r = fence_after (takeWhile re_space r) (dropWhile re_space r)"

definition js_fence_at :: "bytes \<Rightarrow> bytes option" where
  "js_fence_at s =
     (if has_prefix ''```javascript'' s then fence_tail (drop 13 s)
      else if has_prefix ''```js'' s then fence_tail (drop 5 s)
      else None)"

fun js_fence :: "bytes \<Rightarrow> bytes option" where
  "js_fence [] = None"
| "js_fence (c # cs) = (case js_fence_at (c # cs) of Some b \<Rightarrow> Some b | None \<Rightarrow> js_fence cs)"

definition extract_js_block :: "bytes \<Rightarrow> bytes" where
  "extract_js_block s = (case js_fence s of None \<Rightarrow> [] | Some b \<Rightarrow> trim_space b)"

section \<open>The DONE marker\<close>

text \<open>\<open>\s*\n([\s\S]*)\<close> after the word: everything past the last line feed of the white space.\<close>

fun after_last_newline :: "bytes \<Rightarrow> bytes \<Rightarrow> bytes option" where
  "after_last_newline [] rest = None"
| "after_last_newline (c # ws) rest =
     (case after_last_newline ws rest of
        Some r \<Rightarrow> Some r
      | None \<Rightarrow> if c = CHR 0x0A then Some (ws @ rest) else None)"

definition done_at :: "bytes \<Rightarrow> bytes option" where
  "done_at s =
     (let r = dropWhile re_space s in
      if has_prefix ''DONE'' r
      then after_last_newline (takeWhile re_space (drop 4 r)) (dropWhile re_space (drop 4 r))
      else None)"

text \<open>The leftmost start of a line at which the marker matches.\<close>

fun done_search :: "bool \<Rightarrow> bytes \<Rightarrow> bytes option" where
  "done_search line_start [] = None"
| "done_search line_start (c # cs) =
     (case (if line_start then done_at (c # cs) else None) of
        Some r \<Rightarrow> Some r
      | None \<Rightarrow> done_search (c = CHR 0x0A) cs)"

definition extract_done_marker :: "bytes \<Rightarrow> bool \<times> bytes" where
  "extract_done_marker s =
     (if trim_space s = ''DONE'' then (True, [])
      else case done_search True s of
             None \<Rightarrow> (False, [])
           | Some r \<Rightarrow> (True, trim_space r))"

section \<open>Lemmas\<close>

lemma fence_body_Some: "fence_body r = Some b \<Longrightarrow> \<exists>rest. r = b @ fence_close @ rest"
  by (auto simp: fence_body_def dest!: index_of_Some) (metis append_take_drop_id)

lemma fence_body_first: "fence_body r = Some b \<Longrightarrow> \<not> contains fence_close b"
proof -
  assume "fence_body r = Some b"
  then obtain i where i: "index_of fence_close r = Some i" "b = take i r"
    by (auto simp: fence_body_def)
  have least: "index_of sub s = Some j \<Longrightarrow> sub \<noteq> [] \<Longrightarrow> \<not> contains sub (take j s)" for sub s j
  proof (induction s arbitrary: j)
    case (Cons c cs)
    from Cons.prems
    consider j' where "j = Suc j'" "index_of sub cs = Some j'" "\<not> has_prefix sub (c # cs)"
      | "j = 0" by (auto split: if_splits)
    then show ?case
    proof cases
      case 1
      have "\<not> has_prefix sub (c # take j' cs)"
        using 1(3) by (auto simp: has_prefix_iff) (metis append_Cons append_assoc append_take_drop_id)
      with 1 Cons show ?thesis by (simp add: contains_def)
    next
      case 2
      with Cons.prems show ?thesis by (simp add: contains_def)
    qed
  qed (simp add: contains_def)
  show ?thesis using least [OF i(1)] i(2) by (simp add: fence_close_def)
qed

lemma fence_after_clean: "fence_after ws rest = Some b \<Longrightarrow> \<not> contains fence_close b"
  by (induction ws) (auto split: option.splits if_splits dest: fence_body_first)

lemma js_fence_clean: "js_fence s = Some b \<Longrightarrow> \<not> contains fence_close b"
  by (induction s)
     (auto simp: js_fence_at_def fence_tail_def split: option.splits if_splits dest: fence_after_clean)

lemma contains_mono: "contains v t \<Longrightarrow> s = a @ t @ b \<Longrightarrow> contains v s"
  unfolding contains_iff by (metis append.assoc)

lemma trim_space_split: "\<exists>a b. s = a @ trim_space s @ b"
proof -
  let ?d = "dropWhile is_space s"
  have "s = takeWhile is_space s @ ?d" by simp
  moreover have "?d = trim_space s @ rev (takeWhile is_space (rev ?d))"
    unfolding trim_space_def by (metis rev_append rev_rev_ident takeWhile_dropWhile_id)
  ultimately show ?thesis by metis
qed

lemma re_space_is_space: "re_space c \<Longrightarrow> is_space c"
  by (auto simp: re_space_def is_space_def)

text \<open>The closing fence starts with a line feed and has no other: it cannot straddle its own start.\<close>

lemma index_of_fence_close:
  "\<not> contains fence_close s \<Longrightarrow> index_of fence_close (s @ fence_close @ r) = Some (length s)"
proof (induction s)
  case Nil
  show ?case by (simp add: fence_close_def)
next
  case (Cons c s)
  have "\<not> has_prefix fence_close ((c # s) @ fence_close @ r)"
  proof
    assume p: "has_prefix fence_close ((c # s) @ fence_close @ r)"
    have "\<not> has_prefix fence_close (c # s)" using Cons.prems
      by (auto simp: contains_def split: if_splits)
    with p show False
      unfolding fence_close_def
      by (cases s; cases "tl s"; cases "tl (tl s)") auto
  qed
  moreover have "\<not> contains fence_close s" using Cons.prems
    by (auto simp: contains_def split: if_splits)
  ultimately show ?case using Cons.IH by simp
qed

lemma extract_js_block_props:
  assumes "extract_js_block s = c # cs"
  shows "\<not> contains fence_close (c # cs)" and "\<not> is_space c"
proof -
  obtain b where b: "js_fence s = Some b" "trim_space b = c # cs"
    using assms by (auto simp: extract_js_block_def split: option.splits)
  show "\<not> contains fence_close (c # cs)"
    using js_fence_clean [OF b(1)] contains_mono trim_space_split [of b] b(2) by metis
  show "\<not> is_space c" by (rule trim_space_ends [OF b(2)])
qed


lemma js_fence_fenced:
  assumes "\<not> contains fence_close (c # cs)" and "\<not> is_space c"
  shows "js_fence (''```javascript'' @ newline @ (c # cs) @ fence_close) = Some (c # cs)"
proof -
  have "\<not> re_space c" using assms(2) re_space_is_space by blast
  then have ws: "takeWhile re_space (newline @ (c # cs) @ fence_close) = newline"
      "dropWhile re_space (newline @ (c # cs) @ fence_close) = (c # cs) @ fence_close"
    by (simp_all add: re_space_def)
  have "fence_body ((c # cs) @ fence_close) = Some (c # cs)"
    using index_of_fence_close [OF assms(1), of "[]"] by (simp add: fence_body_def)
  then have "fence_tail (newline @ (c # cs) @ fence_close) = Some (c # cs)"
    unfolding fence_tail_def ws by simp
  then show ?thesis by (simp add: js_fence_at_def)
qed

lemma extract_fenced:
  assumes "extract_js_block s = code" and "code \<noteq> []"
  shows "extract_js_block (''```javascript'' @ newline @ code @ fence_close) = code"
proof -
  obtain c cs where code: "code = c # cs" using assms(2) by (cases code) auto
  have "js_fence (''```javascript'' @ newline @ code @ fence_close) = Some code"
    using js_fence_fenced extract_js_block_props assms(1) code by metis
  moreover have "trim_space code = code"
    using assms trim_space_id by (auto simp: extract_js_block_def split: option.splits)
  ultimately show ?thesis by (simp add: extract_js_block_def)
qed

section \<open>Properties\<close>

text \<open>
  A script that was extracted from a reply survives its replay: fenced the way the history
  replays it, it is extracted again, unchanged.
\<close>

theorem extract_refenced:
  "if extract_js_block s = [] then True
   else extract_js_block (''```javascript'' @ newline @ extract_js_block s @ fence_close) = extract_js_block s"
  using extract_fenced [of s "extract_js_block s"] by simp

text \<open>
  What is extracted never contains a closing fence, and never starts with white space.
\<close>

theorem extract_clean:
  "case extract_js_block s of
     [] \<Rightarrow> True
   | c # cs \<Rightarrow> \<not> contains fence_close (c # cs) \<and> \<not> is_space c"
  using extract_js_block_props [of s] by (auto split: list.splits)

end
