(* ===== verification/Reply_Streamer.thy ===== *)
theory Reply_Streamer
  imports Go_Strings
begin

text \<open>
  \<open>streamer.go\<close>: which chunks of a streamed reply reach the caller as
  \<open>response_chunk\<close> events.  A nil \<open>onEvent\<close> is \<open>handler = False\<close>; every operation
  returns the texts it hands to \<open>onEvent\<close>, in order.
\<close>

section \<open>Model\<close>

datatype stream_mode = Undecided | Js | Final

record response_streamer =
  handler :: bool
  buf :: bytes
  mode :: stream_mode

definition new_response_streamer :: "bool \<Rightarrow> response_streamer" where
  "new_response_streamer h = \<lparr>handler = h, buf = [], mode = Undecided\<rparr>"

definition cut_char :: "char \<Rightarrow> bool" where
  "cut_char c = (c \<in> set [CHR '' '', CHR 0x09, CHR 0x0D, CHR 0x0A])"

definition emit_final :: "response_streamer \<Rightarrow> bytes \<Rightarrow> bytes list" where
  "emit_final s txt = (if txt = [] \<or> \<not> handler s then [] else [txt])"

definition on_chunk :: "response_streamer \<Rightarrow> bytes \<Rightarrow> response_streamer \<times> bytes list" where
  "on_chunk s chunk =
     (let s = s\<lparr>buf := buf s @ chunk\<rparr> in
      case mode s of
        Undecided \<Rightarrow>
          let prefix = dropWhile cut_char (buf s) in
          if has_prefix ''```'' prefix then (s\<lparr>mode := Js\<rparr>, [])
          else if has_prefix (''DONE'' @ newline) prefix
               \<or> has_prefix (''DONE'' @ [CHR 0x0D] @ newline) prefix then
            let s = s\<lparr>mode := Final\<rparr> in
            (case index_of newline prefix of
               Some nl \<Rightarrow>
                 (s, if length prefix > nl + 1 then emit_final s (drop (nl + 1) prefix) else [])
             | None \<Rightarrow> (s, []))
          else if length (buf s) < 32 \<and> \<not> contains newline prefix then (s, [])
          else
            let s = s\<lparr>mode := Final\<rparr> in (s, emit_final s prefix)
      | Final \<Rightarrow> (s, emit_final s chunk)
      | Js \<Rightarrow> (s, []))"

text \<open>The calls of one streamed reply, one per chunk.\<close>

fun on_chunks :: "response_streamer \<Rightarrow> bytes list \<Rightarrow> response_streamer \<times> bytes list" where
  "on_chunks s [] = (s, [])"
| "on_chunks s (c # cs) =
     (let (s', e) = on_chunk s c; (s'', es) = on_chunks s' cs in (s'', e @ es))"

abbreviation streamed :: "bytes list \<Rightarrow> bytes" where
  "streamed chunks \<equiv> concat (snd (on_chunks (new_response_streamer True) chunks))"

section \<open>After the decision\<close>

lemma on_chunks_js: "mode s = Js \<Longrightarrow> snd (on_chunks s cs) = []"
  by (induction cs arbitrary: s) (simp_all add: on_chunk_def Let_def)

lemma on_chunks_final:
  "mode s = Final \<Longrightarrow> handler s \<Longrightarrow> concat (snd (on_chunks s cs)) = concat cs"
  by (induction cs arbitrary: s) (auto simp: on_chunk_def Let_def emit_final_def split_beta)

lemma on_chunks_no_handler: "\<not> handler s \<Longrightarrow> snd (on_chunks s cs) = []"
proof (induction cs arbitrary: s)
  case (Cons c cs)
  have "snd (on_chunk s c) = []" "\<not> handler (fst (on_chunk s c))"
    using Cons.prems
    by (auto simp: on_chunk_def Let_def emit_final_def split: stream_mode.splits option.splits)
  with Cons.IH show ?case by (simp add: split_beta Let_def)
qed simp

section \<open>What is streamed is a tail of the reply\<close>

lemma suffix_dropWhile_drop: "suffix (drop n (dropWhile P xs)) xs"
  by (metis suffix_dropWhile suffix_drop suffix_order.trans)

lemma on_chunk_undecided:
  assumes "mode s = Undecided" "on_chunk s c = (s', e)"
  shows "buf s' = buf s @ c \<and> handler s' = handler s \<and>
     (mode s' = Undecided \<and> e = [] \<or> mode s' = Js \<and> e = []
      \<or> mode s' = Final \<and> suffix (concat e) (buf s'))"
  using assms
  by (auto simp: on_chunk_def Let_def emit_final_def suffix_dropWhile suffix_dropWhile_drop
      split: if_splits option.splits)

lemma on_chunks_suffix:
  "mode s = Undecided \<Longrightarrow> handler s \<Longrightarrow> suffix (concat (snd (on_chunks s cs))) (buf s @ concat cs)"
proof (induction cs arbitrary: s)
  case (Cons c cs)
  obtain s' e where sc: "on_chunk s c = (s', e)" by fastforce
  from on_chunk_undecided [OF Cons.prems(1) sc] consider
      (u) "mode s' = Undecided" "e = []" "buf s' = buf s @ c" "handler s'"
    | (j) "mode s' = Js" "e = []"
    | (f) "mode s' = Final" "suffix (concat e) (buf s @ c)" "handler s'"
    using Cons.prems(2) by auto
  then show ?case
  proof cases
    case u
    with Cons.IH [of s'] sc show ?thesis by (simp add: split_beta Let_def)
  next
    case j
    with on_chunks_js [of s' cs] sc show ?thesis by (simp add: split_beta Let_def)
  next
    case f
    then have "suffix (concat e @ concat cs) ((buf s @ c) @ concat cs)" by (auto simp: suffix_def)
    with f on_chunks_final [of s' cs] sc show ?thesis by (simp add: split_beta Let_def)
  qed
qed simp

lemma streamed_suffix: "suffix (streamed chunks) (concat chunks)"
  using on_chunks_suffix [of "new_response_streamer True" chunks]
  by (simp add: new_response_streamer_def)

section \<open>A fenced reply is never streamed, a marked one streams what follows the marker\<close>

text \<open>What the decision sees of a reply that begins with white space and a fixed head.\<close>

lemma dropWhile_buffered:
  assumes "b @ r = ws @ c0 # t" "\<not> cut_char c0" "list_all cut_char ws"
  obtains (blank) "dropWhile cut_char b = []" "length b \<le> length ws"
    | (into) q where "dropWhile cut_char b = q" "length b = length ws + length q" "q @ r = c0 # t"
proof -
  from assms(1) consider us where "b @ us = ws" | us where "b = ws @ us" "us @ r = c0 # t"
    by (auto simp: append_eq_append_conv2)
  then show ?thesis
  proof cases
    case 1
    then have "list_all cut_char b" "length b \<le> length ws" using assms(3) by auto
    then show ?thesis using blank by (simp add: dropWhile_eq_Nil_conv list_all_iff)
  next
    case 2
    then have "dropWhile cut_char us = us" using assms(2) by (cases us) auto
    with 2 assms(3) have "dropWhile cut_char b = us" by (simp add: takeWhile_dropWhile_all)
    with 2 show ?thesis by (intro into [of us]) auto
  qed
qed

lemma not_contains_newline [simp]:
  "contains newline [] = False"
  "contains newline (c # cs) = (c = CHR 0x0A \<or> contains newline cs)"
  by (auto simp: contains_def)

lemma on_chunk_decides:
  "mode s = Undecided \<Longrightarrow> dropWhile cut_char (buf s @ c) = p \<Longrightarrow> on_chunk s c =
     (let s = s\<lparr>buf := buf s @ c\<rparr> in
      if has_prefix ''```'' p then (s\<lparr>mode := Js\<rparr>, [])
      else if has_prefix (''DONE'' @ newline) p \<or> has_prefix (''DONE'' @ [CHR 0x0D] @ newline) p then
        (s\<lparr>mode := Final\<rparr>,
         case index_of newline p of
           Some nl \<Rightarrow> if length p > nl + 1 then emit_final s (drop (nl + 1) p) else []
         | None \<Rightarrow> [])
      else if length (buf s) < 32 \<and> \<not> contains newline p then (s, [])
      else (s\<lparr>mode := Final\<rparr>, emit_final s p))"
  by (auto simp: on_chunk_def Let_def emit_final_def split: option.splits simp del: append_assoc)

lemma on_chunk_fenced:
  assumes "mode s = Undecided" "buf s @ c @ r = ws @ ''```'' @ t"
    "list_all cut_char ws" "length ws \<le> 29"
  shows "on_chunk s c = (s\<lparr>buf := buf s @ c, mode := Undecided\<rparr>, [])
       \<or> on_chunk s c = (s\<lparr>buf := buf s @ c, mode := Js\<rparr>, [])"
proof -
  have "(buf s @ c) @ r = ws @ CHR ''`'' # ''``'' @ t" "\<not> cut_char CHR ''`''"
    using assms(2) by (simp_all add: cut_char_def)
  then show ?thesis using assms(3)
  proof (cases rule: dropWhile_buffered)
    case blank
    then show ?thesis using on_chunk_decides [OF assms(1) blank(1)] assms(1,4) by simp
  next
    case (into q)
    show ?thesis
    proof (cases "has_prefix ''```'' q")
      case True
      then show ?thesis using on_chunk_decides [OF assms(1) into(1)] by simp
    next
      case False
      with into(3) have "q = [] \<or> q = ''`'' \<or> q = ''``''"
        by (auto simp: Cons_eq_append_conv append_eq_Cons_conv)
      then show ?thesis
        using on_chunk_decides [OF assms(1) into(1)] into(2) assms(1,4) by (elim disjE) simp_all
    qed
  qed
qed

lemma on_chunks_fenced:
  "mode s = Undecided \<Longrightarrow> buf s @ concat cs = ws @ ''```'' @ t \<Longrightarrow> list_all cut_char ws \<Longrightarrow>
     length ws \<le> 29 \<Longrightarrow> snd (on_chunks s cs) = []"
proof (induction cs arbitrary: s)
  case (Cons c cs)
  from Cons.prems(2) have "buf s @ c @ concat cs = ws @ ''```'' @ t" by simp
  from on_chunk_fenced [OF Cons.prems(1) this Cons.prems(3,4)] show ?case
  proof
    assume u: "on_chunk s c = (s\<lparr>buf := buf s @ c, mode := Undecided\<rparr>, [])"
    have "snd (on_chunks (s\<lparr>buf := buf s @ c, mode := Undecided\<rparr>) cs) = []"
      by (rule Cons.IH) (use Cons.prems in simp_all)
    with u show ?thesis by (simp add: split_beta Let_def)
  next
    assume "on_chunk s c = (s\<lparr>buf := buf s @ c, mode := Js\<rparr>, [])"
    then show ?thesis by (simp add: split_beta Let_def on_chunks_js)
  qed
qed simp

lemma on_chunk_marked:
  assumes "mode s = Undecided" "handler s" "buf s @ c @ r = ws @ ''DONE'' @ newline @ t"
    "list_all cut_char ws" "length ws \<le> 27"
  shows "on_chunk s c = (s\<lparr>buf := buf s @ c, mode := Undecided\<rparr>, []) \<and> length (buf s @ c) < length ws + 5
       \<or> (\<exists>e t'. on_chunk s c = (s\<lparr>buf := buf s @ c, mode := Final\<rparr>, e) \<and> t = t' @ r \<and> concat e = t')"
proof -
  have "(buf s @ c) @ r = ws @ CHR ''D'' # ''ONE'' @ newline @ t" "\<not> cut_char CHR ''D''"
    using assms(3) by (simp_all add: cut_char_def)
  then show ?thesis using assms(4)
  proof (cases rule: dropWhile_buffered)
    case blank
    then show ?thesis using on_chunk_decides [OF assms(1) blank(1)] assms(1,5) by simp
  next
    case (into q)
    show ?thesis
    proof (cases "has_prefix (''DONE'' @ newline) q")
      case True
      then obtain t' where "q = ''DONE'' @ newline @ t'" by (auto simp: has_prefix_iff)
      then show ?thesis
        using on_chunk_decides [OF assms(1) into(1)] into(3) assms(2)
        by (auto simp: emit_final_def Let_def)
    next
      case False
      with into(3) have "q = [] \<or> q = ''D'' \<or> q = ''DO'' \<or> q = ''DON'' \<or> q = ''DONE''"
        by (auto simp: Cons_eq_append_conv append_eq_Cons_conv)
      then show ?thesis
        using on_chunk_decides [OF assms(1) into(1)] into(2) assms(1,5) by (elim disjE) simp_all
    qed
  qed
qed

lemma on_chunks_marked:
  "mode s = Undecided \<Longrightarrow> handler s \<Longrightarrow> buf s @ concat cs = ws @ ''DONE'' @ newline @ t \<Longrightarrow>
     list_all cut_char ws \<Longrightarrow> length ws \<le> 27 \<Longrightarrow> length (buf s) < length ws + 5 \<Longrightarrow>
     concat (snd (on_chunks s cs)) = t"
proof (induction cs arbitrary: s)
  case Nil
  then have "length (buf s) = length (ws @ ''DONE'' @ newline @ t)" by simp
  with Nil.prems(6) show ?case by simp
next
  case (Cons c cs)
  from Cons.prems(3) have *: "buf s @ c @ concat cs = ws @ ''DONE'' @ newline @ t" by simp
  from on_chunk_marked [OF Cons.prems(1,2) * Cons.prems(4,5)] show ?case
  proof
    assume u: "on_chunk s c = (s\<lparr>buf := buf s @ c, mode := Undecided\<rparr>, [])
      \<and> length (buf s @ c) < length ws + 5"
    then have "concat (snd (on_chunks (s\<lparr>buf := buf s @ c, mode := Undecided\<rparr>) cs)) = t"
      by (intro Cons.IH) (use Cons.prems in simp_all)
    with u show ?thesis by (simp add: split_beta Let_def)
  next
    assume "\<exists>e t'. on_chunk s c = (s\<lparr>buf := buf s @ c, mode := Final\<rparr>, e) \<and> t = t' @ concat cs \<and> concat e = t'"
    then show ?thesis using Cons.prems(2) on_chunks_final by (auto simp: split_beta Let_def)
  qed
qed

section \<open>Properties\<close>

text \<open>
  However a reply is cut into chunks, what is streamed of it is a tail of the reply, in
  order: the streamer may hold text back at the front but never drops, repeats or reorders it
  afterwards.
\<close>

theorem streamed_tail:
  "suffix (streamed chunks) (concat chunks)"
  by (rule streamed_suffix)

text \<open>
  C11 A reply that opens with a code fence, after at most 29 bytes of white space, is never
  streamed, however it is cut into chunks; the script does not reach the caller as answer text.
\<close>

theorem fenced_reply_silent:
  assumes "concat chunks = ws @ ''```'' @ rest" and "list_all cut_char ws" and "length ws \<le> 29"
  shows "streamed chunks = []"
  using on_chunks_fenced [of "new_response_streamer True" chunks ws rest] assms
  by (simp add: new_response_streamer_def)

theorem fenced_reply_silent_witness:
  "streamed [''  `'', ''``j'', ''s'' @ newline @ ''run()''] = []"
  by (rule fenced_reply_silent [where ws = "''  ''" and rest = "''js'' @ newline @ ''run()''"])
    (simp_all add: cut_char_def)

text \<open>
  A reply that opens with the DONE marker on its own line streams exactly what follows the
  marker's line, however it is cut into chunks, the marker itself included.
\<close>

theorem marked_reply_streams_answer:
  assumes "concat chunks = ws @ ''DONE'' @ newline @ rest" and "list_all cut_char ws" and "length ws \<le> 27"
  shows "streamed chunks = rest"
  using on_chunks_marked [of "new_response_streamer True" chunks ws rest] assms
  by (simp add: new_response_streamer_def)

theorem marked_reply_streams_answer_witness:
  "streamed [''D'', ''ONE'', newline @ ''4'', ''2''] = ''42''"
  by (rule marked_reply_streams_answer [where ws = "[]"]) simp_all

end
