(* ===== verification/Error_Hints.thy ===== *)
theory Error_Hints
  imports Go_Strings
begin

text \<open>
  \<open>errors.go\<close>: what a sandbox error looks like to the model.  The stack frames and wrapper
  prefixes goja adds are cut off (\<open>sanitizeErrorForModel\<close>), and three common failures get a
  retry hint (\<open>retryHintForError\<close>).
\<close>

definition first_line :: "bytes \<Rightarrow> bytes" where
  "first_line msg = (case index_of newline msg of Some i \<Rightarrow> take i msg | None \<Rightarrow> msg)"

definition cut_frames :: "bytes \<Rightarrow> bytes" where
  "cut_frames msg =
     (case index_of '' at '' msg of
        None \<Rightarrow> msg
      | Some i \<Rightarrow>
          let tail = drop i msg in
          if contains ''(native)'' tail \<or> contains ''<eval>'' tail then take i msg else msg)"

definition sanitize_error_for_model :: "bytes \<Rightarrow> bytes" where
  "sanitize_error_for_model raw =
     (let msg = cut_frames (first_line raw);
          msg = trim_prefix ''sandbox: '' (trim_space msg);
          msg = replace_all ''GoError: '' [] msg
      in trim_space msg)"

definition hint_transient :: bytes where
  "hint_transient =
     ''This was a transient timeout, not a problem with your code. The operation may or may not '' @
     ''have completed. Before retrying a write, read the current state back first to check whether it '' @
     ''already succeeded '' @ em_dash @ '' retry only if it did not. Do not repeat it blindly.''"

definition hint_reference :: bytes where
  \<open>hint_reference =
     ''You referenced a function or variable that doesn't exist. All sandbox functions are '' @
     ''GLOBAL '' @ em_dash @ '' no namespace prefix, no this.x. Call help() for the full list of available '' @
     ''primitives, or help("name") for one you're unsure about.''\<close>

definition hint_undefined :: bytes where
  \<open>hint_undefined =
     ''You tried to read a property of an undefined value. Most likely the call's return shape '' @
     ''isn't what you assumed '' @ em_dash @
     '' check its declaration in the system prompt, or call help("name") for it.''\<close>

definition retry_hint_for_error :: "bytes \<Rightarrow> bytes" where
  "retry_hint_for_error err_msg =
     (let lower = to_lower err_msg in
      if contains ''context deadline exceeded'' lower \<or> contains ''context canceled'' lower
         \<or> contains ''timeout'' lower \<or> contains ''timed out'' lower
      then hint_transient
      else if contains ''referenceerror'' lower then hint_reference
      else if contains ''typeerror'' lower \<and> contains ''of undefined'' lower then hint_undefined
      else [])"

section \<open>A sanitized error is one line without a wrapper prefix\<close>

lemma first_line_no_newline: "CHR 0x0A \<notin> set (first_line msg)"
proof (cases "index_of newline msg")
  case None
  then have "\<not> (\<exists>a b. msg = a @ newline @ b)" by (simp add: index_of_None)
  then have "CHR 0x0A \<notin> set msg" by (metis append_Cons append_Nil in_set_conv_decomp)
  then show ?thesis using None by (simp add: first_line_def)
next
  case (Some i)
  have "index_of newline s = Some j \<Longrightarrow> CHR 0x0A \<notin> set (take j s)" for s j
    by (induction s arbitrary: j) (auto split: if_splits)
  with Some show ?thesis by (simp add: first_line_def)
qed

lemma set_cut_frames: "set (cut_frames msg) \<subseteq> set msg"
  by (auto simp: cut_frames_def Let_def dest: in_set_takeD split: option.splits if_splits)

lemma set_trim_prefix: "set (trim_prefix p s) \<subseteq> set s"
  by (auto simp: trim_prefix_def dest: in_set_dropD)

lemma set_replace_all: "set (replace_all old new s) \<subseteq> set s \<union> set new"
proof (induction old new s rule: replace_all.induct)
  case (2 old new c cs)
  have "set (drop (length old - 1) cs) \<subseteq> set cs" by (rule set_drop_subset)
  with 2 show ?case by auto
qed simp

lemma sanitize_single_line: "CHR 0x0A \<notin> set (sanitize_error_for_model raw)"
proof -
  let ?a = "trim_space (cut_frames (first_line raw))"
  have a: "CHR 0x0A \<notin> set ?a"
    using trim_space_set [of "cut_frames (first_line raw)"] set_cut_frames [of "first_line raw"]
      first_line_no_newline [of raw] by blast
  have b: "set (replace_all ''GoError: '' [] (trim_prefix ''sandbox: '' ?a)) \<subseteq> set ?a"
    using set_replace_all [of "''GoError: ''" "[]" "trim_prefix ''sandbox: '' ?a"]
      set_trim_prefix [of "''sandbox: ''" ?a] by auto
  have "set (sanitize_error_for_model raw)
      \<subseteq> set (replace_all ''GoError: '' [] (trim_prefix ''sandbox: '' ?a))"
    unfolding sanitize_error_for_model_def Let_def by (rule trim_space_set)
  with a b show ?thesis by blast
qed

lemma sanitize_length: "length (sanitize_error_for_model raw) \<le> length raw"
proof -
  have fl: "length (first_line raw) \<le> length raw"
    by (simp add: first_line_def split: option.splits)
  have cf: "length (cut_frames m) \<le> length m" for m
    by (simp add: cut_frames_def Let_def split: option.splits)
  have tp: "length (trim_prefix p m) \<le> length m" for p m
    by (simp add: trim_prefix_def)
  have ra: "length (replace_all ''GoError: '' [] m) \<le> length m" for m
    by (rule length_replace_all) simp
  show ?thesis unfolding sanitize_error_for_model_def Let_def
    using fl cf tp ra length_trim_space by (meson order_trans)
qed

section \<open>Properties\<close>

text \<open>
  What the model sees of an error is one line, without the white space around it, and never
  longer than the error: no stack trace reaches the prompt.
\<close>

theorem sanitized_error_line:
  "CHR 0x0A \<notin> set (sanitize_error_for_model raw)
   \<and> length (sanitize_error_for_model raw) \<le> length raw
   \<and> trim_space (sanitize_error_for_model raw) = sanitize_error_for_model raw"
  using sanitize_single_line [of raw] sanitize_length [of raw]
  by (simp add: sanitize_error_for_model_def Let_def trim_space_id)

end
