(* ===== verification/Run_Loop.thy ===== *)
theory Run_Loop
  imports Loop_Config Prompts Data_Shape Reply_Parser Reply_Streamer Error_Hints
begin

text \<open>
  \<open>run.go\<close>: the reasoning loop.  The local variables of \<open>Run\<close> that its closures share
  are the fields of \<open>run_state\<close>; \<open>tr\<close> is the interaction history, newest effect first.
  Every function of the source that the loop calls for its effect takes the state and returns
  it updated.  The iteration limit is the recursion argument of \<open>run_loop\<close>, as in the source.
  An event reaches the caller only when the request has a callback; sandbox events that arrive
  while a sandbox is built or a script runs are emitted right after that call's effect.
\<close>

record run_state =
  tr :: trace
  run_start :: int
  step_idx :: int
  u_prompt :: int
  u_completion :: int
  u_last_prompt :: int
  u_last_completion :: int
  last_final :: bytes
  sys_prompt_captured :: bytes
  data_bytes :: int
  history :: "message list"
  prev_args :: bytes
  empty_retries :: nat

definition init_state :: "world \<Rightarrow> run_state" where
  "init_state w =
     \<lparr>tr = [], run_start = clock_ms w [], step_idx = 0, u_prompt = 0, u_completion = 0,
      u_last_prompt = 0, u_last_completion = 0, last_final = [], sys_prompt_captured = [],
      data_bytes = 0, history = [], prev_args = ''{}'', empty_retries = 0\<rparr>"

definition log_effect :: "effect \<Rightarrow> run_state \<Rightarrow> run_state" where
  "log_effect e s = s\<lparr>tr := e # tr s\<rparr>"

section \<open>Events\<close>

definition redact_args :: "redactor option \<Rightarrow> json option \<Rightarrow> json option" where
  "redact_args r args =
     (case args of
        None \<Rightarrow> None
      | Some v \<Rightarrow>
          (case json_parse (redact_apply_bytes r (json_marshal v)) of
             Some (JObj kvs) \<Rightarrow> Some (JObj kvs)
           | Some JNull \<Rightarrow> None
           | _ \<Rightarrow> Some v))"

definition redact_event :: "redactor option \<Rightarrow> run_event \<Rightarrow> run_event" where
  "redact_event r evt =
     (case r of
        None \<Rightarrow> evt
      | Some _ \<Rightarrow> evt\<lparr>ev_content := redact_apply r (ev_content evt),
                      ev_args := redact_args r (ev_args evt)\<rparr>)"

definition emit :: "config \<Rightarrow> run_request \<Rightarrow> run_event \<Rightarrow> run_state \<Rightarrow> run_state" where
  "emit cfg rq evt s =
     (if on_event rq then log_effect (EEmit (redact_event (cfg_redactor cfg) evt)) s else s)"

definition emit_sandbox_event :: "config \<Rightarrow> run_request \<Rightarrow> sandbox_event \<Rightarrow> run_state \<Rightarrow> run_state" where
  "emit_sandbox_event cfg rq evt s =
     emit cfg rq ((mk_event ''sandbox_event'' (se_summary evt))
        \<lparr>ev_args := Some (JObj
           [(''detail'', JStr (se_detail evt)), (''kind'', JStr (se_kind evt)),
            (''payload'', se_payload evt), (''result'', JStr (se_result evt)),
            (''summary'', JStr (se_summary evt))])\<rparr>) s"

definition emit_sandbox_events :: "config \<Rightarrow> run_request \<Rightarrow> sandbox_event list \<Rightarrow> run_state \<Rightarrow> run_state" where
  "emit_sandbox_events cfg rq evts s = fold (emit_sandbox_event cfg rq) evts s"

section \<open>Steps\<close>

definition mk_step :: "bytes \<Rightarrow> bytes \<Rightarrow> run_step" where
  "mk_step t c = \<lparr>session_id = [], step_index = 0, step_type = t, step_content = c, tool_args = ''{}'',
     duration_ms = 0, step_prompt_tokens = 0, step_completion_tokens = 0, created_at = 0\<rparr>"

definition write_step :: "config \<Rightarrow> world \<Rightarrow> run_request \<Rightarrow> run_step \<Rightarrow> run_state \<Rightarrow> run_state" where
  "write_step cfg w rq step s =
     (let step = step\<lparr>step_index := step_idx s, session_id := rq_session_id rq,
                      created_at := clock_ms w (tr s),
                      step_content := redact_apply (cfg_redactor cfg) (step_content step)\<rparr>;
          result = append_step w (tr s) step;
          s = log_effect (EAppend step) s;
          s = (case result of
                 Some e \<Rightarrow> emit cfg rq (mk_event ''warning'' (''persist step failed: '' @ e)) s
               | None \<Rightarrow> s)
      in s\<lparr>step_idx := i32 (step_idx s + 1)\<rparr>)"

section \<open>The end of a run\<close>

definition finalize :: "config \<Rightarrow> world \<Rightarrow> run_request \<Rightarrow> bytes \<Rightarrow> run_state \<Rightarrow> run_state \<times> run_result" where
  "finalize cfg w rq status s =
     (let summary = \<lparr>fs_status = status, fs_prompt_tokens = u_prompt s,
                     fs_completion_tokens = u_completion s, fs_step_count = step_idx s,
                     fs_duration_ms = i32 (clock_ms w (tr s) - run_start s),
                     fs_data_bytes = data_bytes s\<rparr>;
          result = finalize_session w (tr s) (rq_session_id rq) summary;
          s = log_effect (EFinalize (rq_session_id rq) summary) s;
          s = (case result of
                 Some e \<Rightarrow> emit cfg rq (mk_event ''warning'' (''finalize failed: '' @ e)) s
               | None \<Rightarrow> s)
      in (s, \<lparr>run_id = rq_session_id rq,
              final_text = redact_apply (cfg_redactor cfg) (last_final s),
              res_steps = step_idx s, res_status = status,
              res_prompt_tokens = fs_prompt_tokens summary,
              res_completion_tokens = fs_completion_tokens summary,
              res_system_prompt = sys_prompt_captured s, res_data_bytes = data_bytes s\<rparr>))"

definition emit_done :: "config \<Rightarrow> run_request \<Rightarrow> run_result \<Rightarrow> run_state \<Rightarrow> run_state" where
  "emit_done cfg rq result s =
     emit cfg rq ((mk_event ''done'' [])\<lparr>ev_summary := Some
        \<lparr>rs_session_id = rq_session_id rq, rs_steps = res_steps result,
         rs_prompt_tokens = res_prompt_tokens result,
         rs_completion_tokens = res_completion_tokens result,
         rs_data_bytes = res_data_bytes result\<rparr>\<rparr>) s"

definition respond :: "config \<Rightarrow> world \<Rightarrow> run_request \<Rightarrow> bytes \<Rightarrow> run_state \<Rightarrow> run_state \<times> run_result" where
  "respond cfg w rq txt s =
     (let s = write_step cfg w rq ((mk_step ''response'' txt)
                \<lparr>step_prompt_tokens := u_last_prompt s, step_completion_tokens := u_last_completion s\<rparr>) s;
          s = emit cfg rq ((mk_event ''response'' txt)
                \<lparr>ev_tokens := Some (u_last_prompt s, u_last_completion s)\<rparr>) s;
          s = s\<lparr>last_final := txt\<rparr>;
          (s, result) = finalize cfg w rq ''completed'' s
      in (emit_done cfg rq result s, result))"

section \<open>Compaction and the budget\<close>

definition run_compactor :: "compactor \<Rightarrow> trace \<Rightarrow> message list \<Rightarrow> compact_result \<times> bytes option" where
  "run_compactor c t h =
     (case c of
        Summarizing sc \<Rightarrow> the (fst (compact sc h))
      | Custom_compactor f \<Rightarrow> f t h)"

definition compact_history :: "config \<Rightarrow> world \<Rightarrow> run_request \<Rightarrow> message list \<Rightarrow> int list \<Rightarrow> run_state
    \<Rightarrow> run_state \<times> message list" where
  "compact_history cfg w rq h step_of s =
     (case cfg_compactor cfg of
        None \<Rightarrow> (s, h)
      | Some c \<Rightarrow>
          let n_before = length h;
              (res, err) = run_compactor c (tr s) h;
              s = log_effect (ECompact h (res, err)) s;
              s = s\<lparr>u_prompt := i32 (u_prompt s + cr_prompt_tokens res),
                    u_completion := i32 (u_completion s + cr_completion_tokens res)\<rparr>
          in
          case err of
            Some e \<Rightarrow> (emit cfg rq (mk_event ''warning'' (''history compaction failed: '' @ e)) s, h)
          | None \<Rightarrow>
              if cr_messages res = [] \<and> n_before > 0
              then (emit cfg rq (mk_event ''warning''
                      ''history compaction returned nothing; keeping history'') s, h)
              else
                let (s, persisted) =
                      (if cr_summary res \<noteq> []
                       then case retain_from_step (cr_retained_from res) step_of of
                              None \<Rightarrow> (s, False)
                            | Some retain \<Rightarrow>
                                (write_step cfg w rq ((mk_step step_type_summary (cr_summary res))
                                   \<lparr>tool_args := encode_checkpoint retain\<rparr>) s, True)
                       else (s, False));
                    n_after = length (cr_messages res);
                    s = (if n_after < n_before
                         then emit cfg rq ((mk_event ''compacted'' [])\<lparr>ev_args := Some (JObj
                                [(''messages_after'', JNum (itoa (int n_after))),
                                 (''messages_before'', JNum (itoa (int n_before))),
                                 (''persisted'', JBool persisted)])\<rparr>) s
                         else s)
                in (s, cr_messages res))"

definition over_budget_warning :: "int \<Rightarrow> int \<Rightarrow> bytes" where
  "over_budget_warning tokens allow =
     ''context budget: prompt is ~'' @ itoa tokens @ '' tokens against an allowance of '' @ itoa allow @
     '' with nothing left to drop '' @ em_dash @
     '' the system prompt and current turn alone exceed the window''"

text \<open>\<open>None\<close> is the panic of \<open>fit\<close> on an empty slice.\<close>

definition fit_budget :: "config \<Rightarrow> run_request \<Rightarrow> message list \<Rightarrow> run_state
    \<Rightarrow> (run_state \<times> message list) option" where
  "fit_budget cfg rq messages s =
     (case fit (cfg_budget cfg) messages of
        None \<Rightarrow> None
      | Some f \<Rightarrow>
          if \<not> budget_enabled (cfg_budget cfg) then Some (s, fit_messages f)
          else
            let allow = allowance (cfg_budget cfg);
                s = (if fit_dropped f > 0
                     then emit cfg rq ((mk_event ''budget_trimmed'' [])\<lparr>ev_args := Some (JObj
                            [(''allowance'', JNum (itoa allow)),
                             (''estimated_tokens'', JNum (itoa (fit_tokens f))),
                             (''messages_dropped'', JNum (itoa (fit_dropped f)))])\<rparr>) s
                     else s);
                s = (if fit_over f
                     then emit cfg rq (mk_event ''warning'' (over_budget_warning (fit_tokens f) allow)) s
                     else s)
            in Some (s, fit_messages f))"

section \<open>One turn\<close>

datatype turn_outcome =
    Again
  | Stop run_result "bytes option"
  | Crash

abbreviation max_empty_retries :: nat where "max_empty_retries \<equiv> 2"

definition err_empty_response :: bytes where
  "err_empty_response = ''agentloop: model returned an empty response''"

definition shape_message :: "bytes \<Rightarrow> message" where
  "shape_message shape =
     mk_message ''user'' (''args shape (what run(args) receives this turn):'' @ newline @ shape)"

text \<open>The text a failing script's turn carries back to the model.\<close>

definition failed_content :: "bytes \<Rightarrow> bytes" where
  "failed_content err =
     (let clean = sanitize_error_for_model err;
          content = ''Error: '' @ clean;
          hint = retry_hint_for_error clean;
          content = (if hint \<noteq> [] then content @ newline @ newline @ ''RETRY HINT: '' @ hint else content)
      in content @ newline @ ''(args from the previous turn are preserved '' @ em_dash @ '' fix and retry.)'')"

text \<open>
  The prompt of a turn before the budget: the system prompt, the history with its stale code
  elided, and the digest of the arguments; and the working state it withheld.
\<close>

definition assemble :: "bytes \<Rightarrow> nat \<Rightarrow> run_state \<Rightarrow> run_state \<times> message list" where
  "assemble sys_prompt base_len s =
     (let messages = mk_message ''system'' sys_prompt # elide_stale_code (history s) base_len;
          shape = data_shape (prev_args s) in
      if shape \<noteq> []
      then
        let delta = int (length (prev_args s)) - int (length shape);
            s = (if delta > 0 then s\<lparr>data_bytes := data_bytes s + delta\<rparr> else s)
        in (s, messages @ [shape_message shape])
      else (s, messages))"

text \<open>The call of the model, its chunks forwarded as the streamer lets them.\<close>

definition stream_turn :: "config \<Rightarrow> world \<Rightarrow> run_request \<Rightarrow> bytes \<Rightarrow> message list \<Rightarrow> run_state
    \<Rightarrow> run_state \<times> (bytes + completion_response)" where
  "stream_turn cfg w rq model messages s =
     (let req = \<lparr>req_messages = messages, req_model = model, req_temperature = None,
                 req_max_tokens = completion_cap (cfg_budget cfg)\<rparr>;
          (chunks, result) = llm_stream w (tr s) req;
          s = log_effect (EStream req result) s;
          streamer = new_response_streamer (on_event rq \<and> cfg_redactor cfg = None);
          s = fold (\<lambda>c. log_effect (EEmit (mk_event ''response_chunk'' c))) (snd (on_chunks streamer chunks)) s
      in (s, result))"

text \<open>The call of the sandbox: the new \<open>args\<close>, the text of the result and the blob to persist.\<close>

definition exec_turn :: "config \<Rightarrow> world \<Rightarrow> run_request \<Rightarrow> bytes \<Rightarrow> run_state
    \<Rightarrow> run_state \<times> bytes \<times> bytes" where
  "exec_turn cfg w rq code s =
     (let (evts, out) = execute_turn w (tr s) code (prev_args s);
          s = log_effect (EExec code (prev_args s) out) s;
          s = emit_sandbox_events cfg rq evts s
      in case out of
           Inl err \<Rightarrow> (s, failed_content err, [])
         | Inr (logs, ret) \<Rightarrow> (s\<lparr>prev_args := ret\<rparr>, logs, ret))"

definition persist_data :: "config \<Rightarrow> world \<Rightarrow> run_request \<Rightarrow> bytes \<Rightarrow> run_state \<Rightarrow> run_state" where
  "persist_data cfg w rq blob s =
     (if blob \<noteq> [] \<and> blob \<noteq> ''{}''
      then
        let result = update_data w (tr s) (rq_session_id rq) blob;
            s = log_effect (EUpdateData (rq_session_id rq) blob) s;
            s = (case result of
                   Some e \<Rightarrow> emit cfg rq (mk_event ''warning'' (''data snapshot persist failed: '' @ e)) s
                 | None \<Rightarrow> s)
        in case json_parse blob of
             Some (JObj kvs) \<Rightarrow> emit cfg rq ((mk_event ''data_update'' [])\<lparr>ev_args := Some (JObj kvs)\<rparr>) s
           | _ \<Rightarrow> s
      else s)"

text \<open>The branch of a turn that runs a script.\<close>

definition script_turn :: "config \<Rightarrow> world \<Rightarrow> run_request \<Rightarrow> bytes \<Rightarrow> bytes \<Rightarrow> run_state
    \<Rightarrow> run_state \<times> turn_outcome" where
  "script_turn cfg w rq reply code s =
     (let start = clock_ms w (tr s);
          s = write_step cfg w rq (mk_step ''execute_js'' code) s;
          s = emit cfg rq (mk_event ''execute_js'' code) s;
          (s, content, blob) = exec_turn cfg w rq code s;
          call_prompt = u_last_prompt s;
          call_completion = u_last_completion s;
          s = write_step cfg w rq ((mk_step ''execute_js_result'' content)
                \<lparr>duration_ms := i32 (clock_ms w (tr s) - start),
                 step_prompt_tokens := call_prompt, step_completion_tokens := call_completion\<rparr>) s;
          s = emit cfg rq ((mk_event ''execute_js_result'' content)
                \<lparr>ev_tokens := Some (call_prompt, call_completion)\<rparr>) s;
          s = persist_data cfg w rq blob s
      in case take_answer w (tr s) of
           Some final \<Rightarrow>
             let s = write_step cfg w rq ((mk_step ''response'' final)
                       \<lparr>step_prompt_tokens := call_prompt, step_completion_tokens := call_completion\<rparr>) s;
                 s = emit cfg rq ((mk_event ''response'' final)
                       \<lparr>ev_tokens := Some (call_prompt, call_completion)\<rparr>) s;
                 s = s\<lparr>last_final := final\<rparr>;
                 (s, out) = finalize cfg w rq ''completed'' s;
                 s = emit_done cfg rq out s
             in (s, Stop out None)
         | None \<Rightarrow>
             (s\<lparr>history := history s @ [mk_message ''assistant'' reply,
                  mk_message ''user'' (execution_result_prefix @ newline @ content)]\<rparr>, Again))"

text \<open>An exit through an error step: the step, the event, the final status.\<close>

definition fail_run :: "config \<Rightarrow> world \<Rightarrow> run_request \<Rightarrow> bytes \<Rightarrow> bytes \<Rightarrow> run_state
    \<Rightarrow> run_state \<times> run_result" where
  "fail_run cfg w rq status msg s =
     (let s = write_step cfg w rq (mk_step ''error'' msg) s;
          s = emit cfg rq (mk_event ''error'' msg) s
      in finalize cfg w rq status s)"

definition count_usage :: "completion_response \<Rightarrow> run_state \<Rightarrow> run_state" where
  "count_usage resp s =
     s\<lparr>u_prompt := i32 (u_prompt s + i32 (input_tokens resp)),
       u_completion := i32 (u_completion s + i32 (output_tokens resp)),
       u_last_prompt := i32 (input_tokens resp), u_last_completion := i32 (output_tokens resp)\<rparr>"

text \<open>What a turn does with the reply.\<close>

definition reply_turn :: "config \<Rightarrow> world \<Rightarrow> run_request \<Rightarrow> bytes \<Rightarrow> run_state
    \<Rightarrow> run_state \<times> turn_outcome" where
  "reply_turn cfg w rq reply s =
     (if trim_space reply = [] then
        if empty_retries s < max_empty_retries
        then (emit cfg rq (mk_event ''warning'' ''empty model turn, retrying'')
                (s\<lparr>empty_retries := empty_retries s + 1\<rparr>), Again)
        else
          let (s, out) = fail_run cfg w rq ''error'' err_empty_response s
          in (s, Stop out (Some err_empty_response))
      else
        let (marked, final) = extract_done_marker reply in
        if marked then
          let (s, out) = respond cfg w rq final s in (s, Stop out None)
        else
          let code = extract_js_block reply in
          if code = [] then
            let (s, out) = respond cfg w rq reply s in (s, Stop out None)
          else script_turn cfg w rq reply code s)"

definition run_turn :: "config \<Rightarrow> world \<Rightarrow> run_request \<Rightarrow> bytes \<Rightarrow> bytes \<Rightarrow> nat \<Rightarrow> run_state
    \<Rightarrow> run_state \<times> turn_outcome" where
  "run_turn cfg w rq sys_prompt model base_len s =
     (let (s, messages) = assemble sys_prompt base_len s in
      case fit_budget cfg rq messages s of
        None \<Rightarrow> (s, Crash)
      | Some (s, messages) \<Rightarrow>
          (case stream_turn cfg w rq model messages s of
             (s, Inl err) \<Rightarrow>
               let (s, out) = fail_run cfg w rq ''error'' err s
               in (s, Stop out (Some (''agentloop: llm: '' @ err)))
           | (s, Inr resp) \<Rightarrow> reply_turn cfg w rq (resp_content resp) (count_usage resp s)))"

section \<open>The run\<close>

datatype run_outcome =
    Returned run_result "bytes option"
  | Panicked

definition exceeded_message :: "config \<Rightarrow> bytes" where
  "exceeded_message cfg =
     ''agent exceeded max iterations ('' @ itoa (cfg_max_iterations cfg) @ '') without emitting DONE''"

fun run_loop :: "config \<Rightarrow> world \<Rightarrow> run_request \<Rightarrow> bytes \<Rightarrow> bytes \<Rightarrow> nat \<Rightarrow> nat \<Rightarrow> run_state
    \<Rightarrow> run_state \<times> run_outcome" where
  "run_loop cfg w rq sys_prompt model base_len 0 s =
     (let (s, out) = fail_run cfg w rq ''max_iterations'' (exceeded_message cfg) s
      in (s, Returned out (Some (''agentloop: '' @ exceeded_message cfg))))"
| "run_loop cfg w rq sys_prompt model base_len (Suc n) s =
     (case ctx_err w (tr s) of
        Some e \<Rightarrow>
          let s = emit cfg rq (mk_event ''error'' (''context cancelled: '' @ e)) s;
              (s, out) = finalize cfg w rq ''error'' s
          in (s, Returned out (Some e))
      | None \<Rightarrow>
          (case run_turn cfg w rq sys_prompt model base_len s of
             (s, Again) \<Rightarrow> run_loop cfg w rq sys_prompt model base_len n s
           | (s, Stop out err) \<Rightarrow> (s, Returned out err)
           | (s, Crash) \<Rightarrow> (s, Panicked)))"

text \<open>The part of \<open>Run\<close> that has a sandbox: the prompts, the history, the loop, the cleanup.\<close>

definition run_session :: "config \<Rightarrow> world \<Rightarrow> run_request \<Rightarrow> session \<Rightarrow> run_step list \<Rightarrow> run_state
    \<Rightarrow> run_state \<times> run_outcome" where
  "run_session cfg w rq sess prior s =
     (let s = log_effect (ESetPolicy (cfg_policy cfg)) s;
          sys_prompt = compose_system_prompt (sess_system_prompt sess) (sandbox_prompt w (tr s));
          sys_prompt = (if rq_context rq \<noteq> [] then sys_prompt @ newline @ newline @ rq_context rq
                        else sys_prompt);
          s = s\<lparr>sys_prompt_captured := sys_prompt\<rparr>;
          model = (if sess_model sess = [] then cfg_model cfg else sess_model sess);
          (h, step_of) = rehydrate_history prior (cfg_history_window cfg);
          (s, h) = compact_history cfg w rq h step_of s;
          s = s\<lparr>history := h @ [mk_message ''user'' (rq_message rq)]\<rparr>;
          base_len = length (history s);
          (s, out) = run_loop cfg w rq sys_prompt model base_len (nat (cfg_max_iterations cfg)) s
      in (log_effect ECleanup s, out))"

text \<open>The history read, best effort, and the index the run's steps start from.\<close>

definition load_history :: "config \<Rightarrow> world \<Rightarrow> run_request \<Rightarrow> run_state \<Rightarrow> run_state \<times> run_step list" where
  "load_history cfg w rq s =
     (let got = last_steps w (tr s) (rq_session_id rq) (cfg_history_window cfg);
          s = log_effect (ELastN (rq_session_id rq) (cfg_history_window cfg)) s;
          (s, prior) =
            (case got of
               Inl e \<Rightarrow> (emit cfg rq (mk_event ''warning'' (''history rehydrate failed: '' @ e)) s, [])
             | Inr steps \<Rightarrow> (s, steps))
      in (s\<lparr>step_idx := i32 (int (length prior))\<rparr>, prior))"

text \<open>The part of \<open>Run\<close> from the build of the sandbox on.\<close>

definition run_with_sandbox :: "config \<Rightarrow> world \<Rightarrow> run_request \<Rightarrow> session \<Rightarrow> run_step list \<Rightarrow> run_state
    \<Rightarrow> run_state \<times> run_outcome" where
  "run_with_sandbox cfg w rq sess prior s =
     (let (evts, err) = build_sandbox w (tr s) sess (rq_scope rq);
          s = log_effect (EBuild sess (rq_scope rq)) s;
          s = emit_sandbox_events cfg rq evts s
      in case err of
           Some e \<Rightarrow>
             let (s, out) = finalize cfg w rq ''error'' s
             in (s, Returned out (Some (''agentloop: build sandbox: '' @ e)))
         | None \<Rightarrow> run_session cfg w rq sess prior s)"

definition run :: "config \<Rightarrow> world \<Rightarrow> run_request \<Rightarrow> run_state \<times> run_outcome" where
  "run cfg w rq =
     (let s = init_state w;
          got = get_session w (tr s) (rq_session_id rq);
          s = log_effect (EGetSession (rq_session_id rq)) s in
      case got of
        Inl e \<Rightarrow> (s, Returned zero_result (Some (''agentloop: load session: '' @ e)))
      | Inr sess \<Rightarrow>
          let (s, prior) = load_history cfg w rq s;
              s = write_step cfg w rq (mk_step ''user'' (rq_message rq)) s;
              s = emit cfg rq (mk_event ''user'' (rq_message rq)) s
          in run_with_sandbox cfg w rq sess prior s)"

end
