(* ===== verification/Loop_Protocol.thy ===== *)
theory Loop_Protocol
  imports Run_Loop
begin

text \<open>
  What a run may do, as a step relation over its state, and the refinement that the functions
  of \<open>Run_Loop\<close> only ever take such steps.  \<open>quiet\<close> holds every step but the call of the
  model, which is \<open>calls\<close>; a run ends with \<open>ends\<close>.  Invariants of a run are proved against the
  relation, one rule at a time, and carried to the code by the refinement lemmas.
\<close>

section \<open>The protocol\<close>

definition after_exec :: "bytes + bytes \<times> bytes \<Rightarrow> run_state \<Rightarrow> run_state" where
  "after_exec out s = (case out of Inl _ \<Rightarrow> s | Inr (logs, ret) \<Rightarrow> s\<lparr>prev_args := ret\<rparr>)"

definition after_stream :: "bytes + completion_response \<Rightarrow> run_state \<Rightarrow> run_state" where
  "after_stream out s = (case out of Inl _ \<Rightarrow> s | Inr resp \<Rightarrow> count_usage resp s)"

definition after_compact :: "compact_result \<Rightarrow> run_state \<Rightarrow> run_state" where
  "after_compact r s = s\<lparr>u_prompt := i32 (u_prompt s + cr_prompt_tokens r),
                         u_completion := i32 (u_completion s + cr_completion_tokens r)\<rparr>"

inductive quiet :: "config \<Rightarrow> run_request \<Rightarrow> run_state \<Rightarrow> run_state \<Rightarrow> bool" for cfg rq where
  q_emit: "on_event rq \<Longrightarrow> ev_type e \<notin> {''response_chunk'', ''done''} \<Longrightarrow>
     quiet cfg rq s (log_effect (EEmit (redact_event (cfg_redactor cfg) e)) s)"
| q_chunk: "on_event rq \<Longrightarrow> cfg_redactor cfg = None \<Longrightarrow> c \<noteq> [] \<Longrightarrow>
     quiet cfg rq s (log_effect (EEmit (mk_event ''response_chunk'' c)) s)"
| q_append: "session_id st = rq_session_id rq \<Longrightarrow> step_index st = step_idx s \<Longrightarrow>
     step_content st = redact_apply (cfg_redactor cfg) c \<Longrightarrow>
     quiet cfg rq s ((log_effect (EAppend st) s)\<lparr>step_idx := i32 (step_idx s + 1)\<rparr>)"
| q_exec: "code \<noteq> [] \<Longrightarrow> quiet cfg rq s (after_exec out (log_effect (EExec code (prev_args s) out) s))"
| q_data: "blob \<noteq> [] \<Longrightarrow> quiet cfg rq s (log_effect (EUpdateData (rq_session_id rq) blob) s)"
| q_compact: "quiet cfg rq s (after_compact r (log_effect (ECompact h (r, err)) s))"
| q_policy: "quiet cfg rq s (log_effect (ESetPolicy (cfg_policy cfg)) s)"
| q_build: "quiet cfg rq s (log_effect (EBuild sess (rq_scope rq)) s)"
| q_book: "quiet cfg rq s (s\<lparr>sys_prompt_captured := sp, data_bytes := db, history := h, empty_retries := n\<rparr>)"

inductive calls :: "config \<Rightarrow> run_request \<Rightarrow> run_state \<Rightarrow> run_state \<Rightarrow> bool" for cfg rq where
  c_stream: "fit (cfg_budget cfg) (mk_message ''system'' sp # ms) = Some f \<Longrightarrow>
     req_messages req = fit_messages f \<Longrightarrow> req_max_tokens req = completion_cap (cfg_budget cfg) \<Longrightarrow>
     calls cfg rq s (after_stream out (log_effect (EStream req out) s))"

definition loop_step :: "config \<Rightarrow> run_request \<Rightarrow> run_state \<Rightarrow> run_state \<Rightarrow> bool" where
  "loop_step cfg rq s s' = (quiet cfg rq s s' \<or> calls cfg rq s s')"

abbreviation quiets :: "config \<Rightarrow> run_request \<Rightarrow> run_state \<Rightarrow> run_state \<Rightarrow> bool" where
  "quiets cfg rq \<equiv> (quiet cfg rq)\<^sup>*\<^sup>*"

abbreviation loop_steps :: "config \<Rightarrow> run_request \<Rightarrow> run_state \<Rightarrow> run_state \<Rightarrow> bool" where
  "loop_steps cfg rq \<equiv> (loop_step cfg rq)\<^sup>*\<^sup>*"

text \<open>How a run ends: the final text set, the session finalized, \<open>done\<close> emitted on success.\<close>

definition ends :: "config \<Rightarrow> world \<Rightarrow> run_request \<Rightarrow> bytes \<Rightarrow> bytes \<Rightarrow> run_state \<Rightarrow> run_state
    \<Rightarrow> run_result \<Rightarrow> bool" where
  "ends cfg w rq status final s s' r =
     (let (s2, r2) = finalize cfg w rq status (s\<lparr>last_final := final\<rparr>)
      in r = r2 \<and> s' = (if status = ''completed'' then emit_done cfg rq r2 s2 else s2))"

text \<open>The newest step of a history.\<close>

fun last_step :: "trace \<Rightarrow> run_step option" where
  "last_step [] = None"
| "last_step (EAppend st # t) = Some st"
| "last_step (_ # t) = last_step t"

section \<open>The steps the functions take\<close>

lemma quiets_loop_steps: "quiets cfg rq s s' \<Longrightarrow> loop_steps cfg rq s s'"
  by (induction rule: rtranclp_induct) (auto simp: loop_step_def intro: rtranclp.rtrancl_into_rtrancl)

lemma quiets_trans: "quiets cfg rq a b \<Longrightarrow> quiets cfg rq b c \<Longrightarrow> quiets cfg rq a c"
  by (rule rtranclp_trans)

lemma quiets_step: "quiets cfg rq a b \<Longrightarrow> quiet cfg rq b c \<Longrightarrow> quiets cfg rq a c"
  by (rule rtranclp.rtrancl_into_rtrancl)

lemma emit_quiets:
  "ev_type e \<notin> {''response_chunk'', ''done''} \<Longrightarrow> quiets cfg rq s (emit cfg rq e s)"
  unfolding emit_def using q_emit by (cases "on_event rq") (simp_all add: r_into_rtranclp)

lemma emit_fields [simp]:
  "step_idx (emit cfg rq e s) = step_idx s" "prev_args (emit cfg rq e s) = prev_args s"
  "u_prompt (emit cfg rq e s) = u_prompt s" "u_completion (emit cfg rq e s) = u_completion s"
  "u_last_prompt (emit cfg rq e s) = u_last_prompt s"
  "u_last_completion (emit cfg rq e s) = u_last_completion s"
  "last_final (emit cfg rq e s) = last_final s" "history (emit cfg rq e s) = history s"
  "empty_retries (emit cfg rq e s) = empty_retries s" "data_bytes (emit cfg rq e s) = data_bytes s"
  "run_start (emit cfg rq e s) = run_start s"
  "sys_prompt_captured (emit cfg rq e s) = sys_prompt_captured s"
  by (simp_all add: emit_def log_effect_def)

lemma emit_update:
  "(emit cfg rq e s)\<lparr>step_idx := i\<rparr> = emit cfg rq e (s\<lparr>step_idx := i\<rparr>)"
  "(emit cfg rq e s)\<lparr>prev_args := a\<rparr> = emit cfg rq e (s\<lparr>prev_args := a\<rparr>)"
  by (simp_all add: emit_def log_effect_def)

lemma log_fields [simp]:
  "tr (log_effect e s) = e # tr s" "step_idx (log_effect e s) = step_idx s"
  "prev_args (log_effect e s) = prev_args s" "u_prompt (log_effect e s) = u_prompt s"
  "u_completion (log_effect e s) = u_completion s" "u_last_prompt (log_effect e s) = u_last_prompt s"
  "u_last_completion (log_effect e s) = u_last_completion s" "last_final (log_effect e s) = last_final s"
  "history (log_effect e s) = history s" "empty_retries (log_effect e s) = empty_retries s"
  "data_bytes (log_effect e s) = data_bytes s" "run_start (log_effect e s) = run_start s"
  "sys_prompt_captured (log_effect e s) = sys_prompt_captured s"
  by (simp_all add: log_effect_def)

lemma write_step_quiets: "quiets cfg rq s (write_step cfg w rq st s)"
proof -
  let ?st = "st\<lparr>step_index := step_idx s, session_id := rq_session_id rq,
      created_at := clock_ms w (tr s), step_content := redact_apply (cfg_redactor cfg) (step_content st)\<rparr>"
  let ?s = "(log_effect (EAppend ?st) s)\<lparr>step_idx := i32 (step_idx s + 1)\<rparr>"
  have "quiet cfg rq s ?s" by (rule q_append [where c = "step_content st"]) simp_all
  moreover have "quiets cfg rq ?s (write_step cfg w rq st s)"
    by (auto simp: write_step_def Let_def emit_update emit_quiets split: option.splits)
  ultimately show ?thesis by (rule converse_rtranclp_into_rtranclp)
qed

lemma sandbox_event_quiets: "quiets cfg rq s (emit_sandbox_event cfg rq e s)"
  unfolding emit_sandbox_event_def by (rule emit_quiets) simp

lemma sandbox_events_quiets: "quiets cfg rq s (emit_sandbox_events cfg rq es s)"
  unfolding emit_sandbox_events_def
  by (induction es arbitrary: s) (auto intro: quiets_trans [OF sandbox_event_quiets])

lemma sandbox_events_update:
  "(emit_sandbox_events cfg rq es s)\<lparr>prev_args := a\<rparr> = emit_sandbox_events cfg rq es (s\<lparr>prev_args := a\<rparr>)"
  unfolding emit_sandbox_events_def
  by (induction es arbitrary: s) (simp_all add: emit_sandbox_event_def emit_update)

lemma exec_turn_quiets:
  assumes "exec_turn cfg w rq code s = (s', content, blob)" and "code \<noteq> []"
  shows "quiets cfg rq s s'"
proof -
  obtain evts out where x: "execute_turn w (tr s) code (prev_args s) = (evts, out)" by fastforce
  let ?s = "after_exec out (log_effect (EExec code (prev_args s) out) s)"
  have "s' = emit_sandbox_events cfg rq evts ?s"
    using assms(1) x
    by (auto simp: exec_turn_def Let_def after_exec_def sandbox_events_update split: sum.splits)
  moreover have "quiet cfg rq s ?s" using assms(2) by (rule q_exec)
  ultimately show ?thesis
    using sandbox_events_quiets by (metis converse_rtranclp_into_rtranclp)
qed

lemma persist_data_quiets: "quiets cfg rq s (persist_data cfg w rq blob s)"
proof (cases "blob \<noteq> [] \<and> blob \<noteq> ''{}''")
  case True
  let ?s = "log_effect (EUpdateData (rq_session_id rq) blob) s"
  have 1: "quiets cfg rq s ?s" using True by (simp add: q_data r_into_rtranclp)
  have 2: "quiets cfg rq u (case json_parse blob of
      Some (JObj kvs) \<Rightarrow> emit cfg rq ((mk_event ''data_update'' [])\<lparr>ev_args := Some (JObj kvs)\<rparr>) u
    | _ \<Rightarrow> u)" for u
    by (auto intro: emit_quiets split: option.splits json.splits)
  have 3: "quiets cfg rq ?s (case update_data w (tr s) (rq_session_id rq) blob of
      Some e \<Rightarrow> emit cfg rq (mk_event ''warning'' (''data snapshot persist failed: '' @ e)) ?s
    | None \<Rightarrow> ?s)"
    by (auto intro: emit_quiets split: option.splits)
  show ?thesis
    unfolding persist_data_def Let_def using True quiets_trans [OF quiets_trans [OF 1 3] 2] by simp
next
  case False
  then show ?thesis by (auto simp: persist_data_def)
qed

lemma book_quiet:
  "quiets cfg rq s (s\<lparr>history := h\<rparr>)" "quiets cfg rq s (s\<lparr>empty_retries := n\<rparr>)"
  "quiets cfg rq s (s\<lparr>data_bytes := d\<rparr>)" "quiets cfg rq s (s\<lparr>sys_prompt_captured := p\<rparr>)"
  using q_book [where s = s and sp = "sys_prompt_captured s" and db = "data_bytes s" and h = h and n = "empty_retries s"]
    q_book [where s = s and sp = "sys_prompt_captured s" and db = "data_bytes s" and h = "history s" and n = n]
    q_book [where s = s and sp = "sys_prompt_captured s" and db = d and h = "history s" and n = "empty_retries s"]
    q_book [where s = s and sp = p and db = "data_bytes s" and h = "history s" and n = "empty_retries s"]
  by (simp_all add: r_into_rtranclp)

lemma quiet_last_final: "quiet cfg rq s s' \<Longrightarrow> last_final s' = last_final s"
  by (induction rule: quiet.induct)
    (simp_all add: log_effect_def after_exec_def after_compact_def split: sum.splits)

lemma quiets_last_final: "quiets cfg rq s s' \<Longrightarrow> last_final s' = last_final s"
  by (induction rule: rtranclp_induct) (simp_all add: quiet_last_final)

lemma last_step_emit [simp]: "last_step (tr (emit cfg rq e s)) = last_step (tr s)"
  by (simp add: emit_def)

text \<open>
  A completed run: its last step is a response whose content is the final text, both through
  the redactor.
\<close>

definition responded :: "config \<Rightarrow> bytes \<Rightarrow> run_state \<Rightarrow> bool" where
  "responded cfg final s =
     (\<exists>st. last_step (tr s) = Some st \<and> step_type st = ''response''
         \<and> step_content st = redact_apply (cfg_redactor cfg) final)"

lemma last_step_write_step:
  "last_step (tr (write_step cfg w rq st s)) =
     Some (st\<lparr>step_index := step_idx s, session_id := rq_session_id rq,
              created_at := clock_ms w (tr s),
              step_content := redact_apply (cfg_redactor cfg) (step_content st)\<rparr>)"
  by (simp add: write_step_def Let_def split: option.splits)

lemma write_emit_responds:
  assumes "s1 = emit cfg rq e (write_step cfg w rq st s)"
    and "step_type st = ''response''" and "step_content st = final"
    and "ev_type e = ''response''"
  shows "quiets cfg rq s s1 \<and> responded cfg final s1"
proof
  show "quiets cfg rq s s1"
    unfolding assms(1) by (rule quiets_trans [OF write_step_quiets emit_quiets]) (simp add: assms)
  show "responded cfg final s1" using assms by (simp add: responded_def last_step_write_step)
qed

lemma respond_ends:
  assumes "respond cfg w rq txt s = (s', out)"
  obtains s1 where "quiets cfg rq s s1" "responded cfg txt s1" "ends cfg w rq ''completed'' txt s1 s' out"
proof -
  let ?st = "(mk_step ''response'' txt)
      \<lparr>step_prompt_tokens := u_last_prompt s, step_completion_tokens := u_last_completion s\<rparr>"
  let ?w = "write_step cfg w rq ?st s"
  let ?s1 = "emit cfg rq ((mk_event ''response'' txt)
      \<lparr>ev_tokens := Some (u_last_prompt ?w, u_last_completion ?w)\<rparr>) ?w"
  have "quiets cfg rq s ?s1 \<and> responded cfg txt ?s1"
    by (rule write_emit_responds [OF refl]) (simp_all add: mk_step_def)
  moreover have "ends cfg w rq ''completed'' txt ?s1 s' out"
    using assms by (auto simp: respond_def ends_def Let_def split: prod.splits)
  ultimately show thesis using that by blast
qed

lemma last_final_same: "last_final s = f \<Longrightarrow> s\<lparr>last_final := f\<rparr> = s"
  by (cases s) simp

lemma fail_run_ends:
  assumes "fail_run cfg w rq status msg s = (s', out)" and "status \<noteq> ''completed''"
  obtains s1 where "quiets cfg rq s s1" "ends cfg w rq status (last_final s) s1 s' out"
proof -
  let ?w = "write_step cfg w rq (mk_step ''error'' msg) s"
  let ?s1 = "emit cfg rq (mk_event ''error'' msg) ?w"
  have q: "quiets cfg rq s ?s1"
    by (rule quiets_trans [OF write_step_quiets emit_quiets]) simp
  then have "last_final ?s1 = last_final s" by (rule quiets_last_final)
  then have "?s1\<lparr>last_final := last_final s\<rparr> = ?s1" by (simp only: last_final_same)
  then have "ends cfg w rq status (last_final s) ?s1 s' out"
    using assms by (simp add: fail_run_def ends_def Let_def)
  with q show thesis by (rule that)
qed

lemma script_turn_quiets:
  assumes "script_turn cfg w rq reply code s = (s', o')" and "code \<noteq> []"
  shows "(o' = Again \<and> quiets cfg rq s s')
       \<or> (\<exists>s1 final out. quiets cfg rq s s1 \<and> responded cfg final s1 \<and> o' = Stop out None
            \<and> ends cfg w rq ''completed'' final s1 s' out)"
proof -
  let ?s1 = "emit cfg rq (mk_event ''execute_js'' code) (write_step cfg w rq (mk_step ''execute_js'' code) s)"
  obtain s2 content blob where x: "exec_turn cfg w rq code ?s1 = (s2, content, blob)"
    using prod_cases3 by blast
  let ?st = "(mk_step ''execute_js_result'' content)
      \<lparr>duration_ms := i32 (clock_ms w (tr s2) - clock_ms w (tr s)),
       step_prompt_tokens := u_last_prompt s2, step_completion_tokens := u_last_completion s2\<rparr>"
  let ?s3 = "emit cfg rq ((mk_event ''execute_js_result'' content)
      \<lparr>ev_tokens := Some (u_last_prompt s2, u_last_completion s2)\<rparr>) (write_step cfg w rq ?st s2)"
  let ?s4 = "persist_data cfg w rq blob ?s3"
  have 1: "quiets cfg rq s ?s1"
    by (rule quiets_trans [OF write_step_quiets emit_quiets]) simp
  have 2: "quiets cfg rq ?s1 s2" by (rule exec_turn_quiets [OF x assms(2)])
  have 3: "quiets cfg rq s2 ?s3"
    by (rule quiets_trans [OF write_step_quiets emit_quiets]) simp
  have 4: "quiets cfg rq s ?s4"
    by (rule quiets_trans [OF quiets_trans [OF quiets_trans [OF 1 2] 3] persist_data_quiets])
  show ?thesis
  proof (cases "take_answer w (tr ?s4)")
    case None
    then show ?thesis
      using assms(1) x quiets_trans [OF 4 book_quiet(1)] by (auto simp: script_turn_def Let_def)
  next
    case (Some final)
    let ?s5 = "emit cfg rq ((mk_event ''response'' final)
        \<lparr>ev_tokens := Some (u_last_prompt s2, u_last_completion s2)\<rparr>)
        (write_step cfg w rq ((mk_step ''response'' final)
          \<lparr>step_prompt_tokens := u_last_prompt s2, step_completion_tokens := u_last_completion s2\<rparr>) ?s4)"
    have "quiets cfg rq ?s4 ?s5 \<and> responded cfg final ?s5"
      by (rule write_emit_responds [OF refl]) (simp_all add: mk_step_def)
    then have "quiets cfg rq s ?s5" "responded cfg final ?s5" using quiets_trans [OF 4] by blast+
    moreover obtain out where "o' = Stop out None" "ends cfg w rq ''completed'' final ?s5 s' out"
      using assms(1) x Some by (auto simp: script_turn_def ends_def Let_def split: prod.splits)
    ultimately show ?thesis by blast
  qed
qed

section \<open>The steps of a turn and of a run\<close>

lemma assemble_quiets:
  assumes "assemble sp bl s = (s', ms)"
  shows "quiets cfg rq s s' \<and> (\<exists>ms'. ms = mk_message ''system'' sp # ms')"
  using assms book_quiet(3) by (auto simp: assemble_def Let_def split: if_splits)

lemma fit_budget_quiets:
  assumes "fit_budget cfg rq ms s = Some (s', ms')"
  shows "quiets cfg rq s s' \<and> (\<exists>f. fit (cfg_budget cfg) ms = Some f \<and> ms' = fit_messages f)"
proof -
  obtain f where f: "fit (cfg_budget cfg) ms = Some f"
    using assms by (auto simp: fit_budget_def split: option.splits)
  let ?a = "allowance (cfg_budget cfg)"
  let ?s1 = "if fit_dropped f > 0
     then emit cfg rq ((mk_event ''budget_trimmed'' [])\<lparr>ev_args := Some (JObj
            [(''allowance'', JNum (itoa ?a)), (''estimated_tokens'', JNum (itoa (fit_tokens f))),
             (''messages_dropped'', JNum (itoa (fit_dropped f)))])\<rparr>) s else s"
  have 1: "quiets cfg rq s ?s1" by (simp add: emit_quiets)
  have 2: "quiets cfg rq ?s1 (if fit_over f
     then emit cfg rq (mk_event ''warning'' (over_budget_warning (fit_tokens f) ?a)) ?s1 else ?s1)"
    by (simp add: emit_quiets)
  show ?thesis
    using assms f quiets_trans [OF 1 2] by (auto simp: fit_budget_def Let_def split: if_splits)
qed

lemma fit_budget_None: "ms \<noteq> [] \<Longrightarrow> fit_budget cfg rq ms s \<noteq> None"
  using fit_total [of ms "cfg_budget cfg"]
  by (auto simp: fit_budget_def Let_def split: option.splits if_splits)

lemma streamer_silent: "snd (on_chunks (new_response_streamer False) cs) = []"
  by (rule on_chunks_no_handler) (simp add: new_response_streamer_def)

lemma on_chunk_nonempty: "c \<in> set (snd (on_chunk s ch)) \<Longrightarrow> c \<noteq> []"
  by (auto simp: on_chunk_def emit_final_def Let_def split: stream_mode.splits if_splits option.splits)

lemma on_chunks_nonempty: "c \<in> set (snd (on_chunks s cs)) \<Longrightarrow> c \<noteq> []"
  by (induction cs arbitrary: s) (auto simp: split_beta Let_def dest: on_chunk_nonempty)

lemma chunks_quiets:
  "\<lbrakk>cs \<noteq> [] \<Longrightarrow> on_event rq \<and> cfg_redactor cfg = None; \<forall>c \<in> set cs. c \<noteq> []\<rbrakk> \<Longrightarrow>
   quiets cfg rq s (fold (\<lambda>c. log_effect (EEmit (mk_event ''response_chunk'' c))) cs s)"
proof (induction cs arbitrary: s)
  case (Cons c cs)
  let ?s = "log_effect (EEmit (mk_event ''response_chunk'' c)) s"
  have "quiet cfg rq s ?s" using Cons.prems by (intro q_chunk) auto
  moreover have "quiets cfg rq ?s (fold (\<lambda>c. log_effect (EEmit (mk_event ''response_chunk'' c))) cs ?s)"
    using Cons.prems by (intro Cons.IH) auto
  ultimately show ?case by (simp add: converse_rtranclp_into_rtranclp)
qed simp

lemma count_usage_log: "count_usage r (log_effect e s) = log_effect e (count_usage r s)"
  by (simp add: count_usage_def log_effect_def)

lemma chunks_usage:
  "count_usage r (fold (\<lambda>c. log_effect (EEmit (f c))) cs s)
     = fold (\<lambda>c. log_effect (EEmit (f c))) cs (count_usage r s)"
  by (induction cs arbitrary: s) (simp_all add: count_usage_log)

text \<open>A call of the model, counted, is one step of the protocol and then quiet.\<close>

lemma stream_turn_calls:
  assumes "stream_turn cfg w rq model ms s = (s', out)"
    and "fit (cfg_budget cfg) (mk_message ''system'' sp # ms0) = Some f" and "ms = fit_messages f"
  shows "\<exists>s1. calls cfg rq s s1 \<and> quiets cfg rq s1 (after_stream out s')"
proof -
  let ?req = "\<lparr>req_messages = ms, req_model = model, req_temperature = None,
               req_max_tokens = completion_cap (cfg_budget cfg)\<rparr>"
  obtain chunks where l: "llm_stream w (tr s) ?req = (chunks, out)"
    using assms(1) by (auto simp: stream_turn_def Let_def split: prod.splits)
  let ?cs = "snd (on_chunks (new_response_streamer (on_event rq \<and> cfg_redactor cfg = None)) chunks)"
  let ?emits = "fold (\<lambda>c. log_effect (EEmit (mk_event ''response_chunk'' c))) ?cs"
  let ?s1 = "after_stream out (log_effect (EStream ?req out) s)"
  have "s' = ?emits (log_effect (EStream ?req out) s)"
    using assms(1) l by (simp add: stream_turn_def Let_def)
  then have "after_stream out s' = ?emits ?s1"
    by (simp add: after_stream_def chunks_usage split: sum.splits)
  moreover have "quiets cfg rq ?s1 (?emits ?s1)"
    by (rule chunks_quiets) (use streamer_silent on_chunks_nonempty in \<open>metis snd_conv\<close>)+
  moreover have "calls cfg rq s ?s1"
    by (rule c_stream [OF assms(2)]) (simp_all add: assms(3))
  ultimately show ?thesis by auto
qed

definition verdict :: "config \<Rightarrow> bytes \<Rightarrow> bytes \<Rightarrow> bytes option \<Rightarrow> run_state \<Rightarrow> bool" where
  "verdict cfg status final err s =
     (if err = None then status = ''completed'' \<and> responded cfg final s
      else status = ''error'' \<and> final = [])"

definition concludes :: "config \<Rightarrow> world \<Rightarrow> run_request \<Rightarrow> run_state \<Rightarrow> run_state \<Rightarrow> run_result
    \<Rightarrow> bytes option \<Rightarrow> bool" where
  "concludes cfg w rq s s' out err =
     (\<exists>s1 status final. quiets cfg rq s s1 \<and> ends cfg w rq status final s1 s' out
        \<and> verdict cfg status final err s1)"

lemma concludesI:
  "quiets cfg rq s s1 \<Longrightarrow> ends cfg w rq status final s1 s' out \<Longrightarrow> verdict cfg status final err s1 \<Longrightarrow>
   concludes cfg w rq s s' out err"
  by (auto simp: concludes_def)

lemma fail_run_concludes:
  assumes "fail_run cfg w rq ''error'' msg s = (s', out)" and "last_final s = []"
  shows "concludes cfg w rq s s' out (Some e)"
  using assms(1)
proof (rule fail_run_ends)
  fix s1 assume "quiets cfg rq s s1" "ends cfg w rq ''error'' (last_final s) s1 s' out"
  then show ?thesis by (rule concludesI) (use assms in \<open>auto simp: verdict_def\<close>)
qed simp

lemma respond_concludes:
  assumes "respond cfg w rq txt s = (s', out)"
  shows "concludes cfg w rq s s' out None"
  using assms by (rule respond_ends) (auto intro: concludesI simp: verdict_def)

lemma reply_turn_steps:
  assumes "reply_turn cfg w rq reply s = (s', o')" and "last_final s = []"
  shows "(o' = Again \<and> quiets cfg rq s s') \<or> (\<exists>out err. o' = Stop out err \<and> concludes cfg w rq s s' out err)"
proof (cases "trim_space reply = []")
  case blank: True
  show ?thesis
  proof (cases "empty_retries s < max_empty_retries")
    case True
    have "quiets cfg rq s (emit cfg rq (mk_event ''warning'' ''empty model turn, retrying'')
        (s\<lparr>empty_retries := empty_retries s + 1\<rparr>))"
      by (rule quiets_trans [OF book_quiet(2) emit_quiets]) simp
    with assms(1) blank True show ?thesis by (auto simp: reply_turn_def)
  next
    case False
    obtain s2 out where f: "fail_run cfg w rq ''error'' err_empty_response s = (s2, out)" by fastforce
    have "concludes cfg w rq s s2 out (Some err_empty_response)"
      by (rule fail_run_concludes [OF f assms(2)])
    with assms(1) blank False f show ?thesis by (auto simp: reply_turn_def)
  qed
next
  case False
  obtain marked final where m: "extract_done_marker reply = (marked, final)" by fastforce
  obtain s2 out where r: "respond cfg w rq final s = (s2, out)" by fastforce
  obtain s3 out' where r': "respond cfg w rq reply s = (s3, out')" by fastforce
  show ?thesis
  proof (cases "\<not> marked \<and> extract_js_block reply \<noteq> []")
    case True
    then have "script_turn cfg w rq reply (extract_js_block reply) s = (s', o')"
      using assms(1) False m by (simp add: reply_turn_def Let_def)
    from script_turn_quiets [OF this] True show ?thesis
      using concludesI by (fastforce simp: verdict_def)
  next
    case other: False
    then show ?thesis
      using assms(1) False m r r' respond_concludes [OF r] respond_concludes [OF r']
      by (auto simp: reply_turn_def Let_def split: if_splits)
  qed
qed

lemma after_stream_last_final [simp]: "last_final (after_stream out s) = last_final s"
  by (simp add: after_stream_def count_usage_def split: sum.splits)

lemma calls_last_final: "calls cfg rq s s' \<Longrightarrow> last_final s' = last_final s"
  by (induction rule: calls.induct) simp

lemma concludes_quiets: "quiets cfg rq s s1 \<Longrightarrow> concludes cfg w rq s1 s' out err \<Longrightarrow> concludes cfg w rq s s' out err"
  by (meson concludes_def quiets_trans)

theorem run_turn_steps:
  assumes "run_turn cfg w rq sp model bl s = (s', o')" and "last_final s = []"
  obtains s0 s1 where "quiets cfg rq s s0" "calls cfg rq s0 s1"
    "(o' = Again \<and> quiets cfg rq s1 s') \<or> (\<exists>out err. o' = Stop out err \<and> concludes cfg w rq s1 s' out err)"
proof -
  obtain sa ms where a: "assemble sp bl s = (sa, ms)" by fastforce
  from assemble_quiets [OF a] obtain ms' where
    qa: "quiets cfg rq s sa" "ms = mk_message ''system'' sp # ms'" by blast
  then obtain sb mb where b: "fit_budget cfg rq ms sa = Some (sb, mb)"
    using fit_budget_None [of ms cfg rq sa] by auto
  from fit_budget_quiets [OF b] qa(2) obtain f where
    qb: "quiets cfg rq sa sb" "fit (cfg_budget cfg) (mk_message ''system'' sp # ms') = Some f"
      "mb = fit_messages f" by blast
  obtain sc out where c: "stream_turn cfg w rq model mb sb = (sc, out)" by fastforce
  from stream_turn_calls [OF c qb(2,3)] obtain s1 where
    qc: "calls cfg rq sb s1" "quiets cfg rq s1 (after_stream out sc)" by blast
  have q: "quiets cfg rq s sb" by (rule quiets_trans [OF qa(1) qb(1)])
  have lf: "last_final (after_stream out sc) = []"
    using quiets_last_final [OF q] calls_last_final [OF qc(1)] quiets_last_final [OF qc(2)] assms(2) by simp
  have "(o' = Again \<and> quiets cfg rq s1 s') \<or> (\<exists>out err. o' = Stop out err \<and> concludes cfg w rq s1 s' out err)"
  proof (cases out)
    case (Inl e)
    obtain sd r where d: "fail_run cfg w rq ''error'' e sc = (sd, r)" by fastforce
    have "concludes cfg w rq sc sd r (Some (''agentloop: llm: '' @ e))"
      by (rule fail_run_concludes [OF d]) (use lf Inl in \<open>simp_all add: after_stream_def\<close>)
    then have "concludes cfg w rq s1 sd r (Some (''agentloop: llm: '' @ e))"
      using concludes_quiets [OF qc(2)] Inl by (simp add: after_stream_def)
    then show ?thesis using assms(1) a b c d Inl by (auto simp: run_turn_def)
  next
    case (Inr resp)
    then have "reply_turn cfg w rq (resp_content resp) (after_stream out sc) = (s', o')"
      using assms(1) a b c by (simp add: run_turn_def after_stream_def)
    from reply_turn_steps [OF this lf] show ?thesis
      using quiets_trans [OF qc(2)] concludes_quiets [OF qc(2)] by blast
  qed
  with q qc(1) show thesis by (rule that)
qed

inductive turn_steps :: "config \<Rightarrow> run_request \<Rightarrow> nat \<Rightarrow> run_state \<Rightarrow> run_state \<Rightarrow> bool" for cfg rq where
  turns_0: "quiets cfg rq s s' \<Longrightarrow> turn_steps cfg rq 0 s s'"
| turns_Suc: "quiets cfg rq s a \<Longrightarrow> calls cfg rq a b \<Longrightarrow> turn_steps cfg rq n b s' \<Longrightarrow>
     turn_steps cfg rq (Suc n) s s'"

definition finishes :: "config \<Rightarrow> world \<Rightarrow> run_request \<Rightarrow> nat \<Rightarrow> run_state \<Rightarrow> run_state \<Rightarrow> run_result
    \<Rightarrow> bytes option \<Rightarrow> bool" where
  "finishes cfg w rq n s s' out err =
     (\<exists>k s1 status final. k \<le> n \<and> turn_steps cfg rq k s s1 \<and> ends cfg w rq status final s1 s' out
        \<and> (verdict cfg status final err s1
           \<or> status = ''max_iterations'' \<and> k = n \<and> err \<noteq> None \<and> final = []))"

lemma quiets_turns: "quiets cfg rq s a \<Longrightarrow> turn_steps cfg rq n a s' \<Longrightarrow> turn_steps cfg rq n s s'"
  by (erule turn_steps.cases) (auto intro: turn_steps.intros quiets_trans)

lemma turn_steps_loop_steps: "turn_steps cfg rq n s s' \<Longrightarrow> loop_steps cfg rq s s'"
proof (induction rule: turn_steps.induct)
  case (turns_0 s s')
  then show ?case by (rule quiets_loop_steps)
next
  case (turns_Suc s a b n s')
  have "loop_steps cfg rq a b" using turns_Suc(2) by (auto simp: loop_step_def)
  with quiets_loop_steps [OF turns_Suc(1)] turns_Suc(4) show ?case by (meson rtranclp_trans)
qed

lemma finishes_quiets: "quiets cfg rq s a \<Longrightarrow> finishes cfg w rq n a s' out err \<Longrightarrow> finishes cfg w rq n s s' out err"
  unfolding finishes_def
  by (elim exE conjE, intro exI conjI) (assumption | erule (1) quiets_turns)+

lemma concludes_finishes:
  "concludes cfg w rq s s' out err \<Longrightarrow> finishes cfg w rq n s s' out err"
  unfolding finishes_def concludes_def by (meson turns_0 zero_le)

lemma ends_same:
  "finalize cfg w rq status s = (s', out) \<Longrightarrow> last_final s = final \<Longrightarrow> status \<noteq> ''completed'' \<Longrightarrow>
   ends cfg w rq status final s s' out"
  by (simp add: ends_def last_final_same)

theorem run_loop_finishes:
  assumes "run_loop cfg w rq sp model bl n s = (s', o')" and "last_final s = []"
  shows "\<exists>out err. o' = Returned out err \<and> finishes cfg w rq n s s' out err"
  using assms
proof (induction n arbitrary: s)
  case 0
  obtain s2 out where f: "fail_run cfg w rq ''max_iterations'' (exceeded_message cfg) s = (s2, out)"
    by fastforce
  obtain s1 where s1: "quiets cfg rq s s1" "ends cfg w rq ''max_iterations'' [] s1 s2 out"
    using fail_run_ends [OF f] "0.prems"(2) by auto
  then have "finishes cfg w rq 0 s s2 out (Some e)" for e
    unfolding finishes_def using turns_0 [OF s1(1)] by blast
  then show ?case using "0.prems"(1) f by auto
next
  case (Suc n)
  show ?case
  proof (cases "ctx_err w (tr s)")
    case (Some e)
    let ?s1 = "emit cfg rq (mk_event ''error'' (''context cancelled: '' @ e)) s"
    obtain s2 out where f: "finalize cfg w rq ''error'' ?s1 = (s2, out)" by fastforce
    have q: "quiets cfg rq s ?s1" by (rule emit_quiets) simp
    have "ends cfg w rq ''error'' [] ?s1 s2 out"
      by (rule ends_same [OF f]) (use Suc.prems(2) in simp_all)
    with q have "concludes cfg w rq s s2 out (Some e)" by (rule concludesI) (simp add: verdict_def)
    then show ?thesis using Suc.prems(1) Some f concludes_finishes by fastforce
  next
    case None
    obtain s2 o2 where t: "run_turn cfg w rq sp model bl s = (s2, o2)" by fastforce
    from run_turn_steps [OF t Suc.prems(2)] obtain sa sb where
      q: "quiets cfg rq s sa" "calls cfg rq sa sb" and
      c: "(o2 = Again \<and> quiets cfg rq sb s2) \<or> (\<exists>out err. o2 = Stop out err \<and> concludes cfg w rq sb s2 out err)" .
    have lift: "finishes cfg w rq (Suc n) s s' out err" if "finishes cfg w rq n sb s' out err" for s' out err
      using that turns_Suc [OF q] unfolding finishes_def by (metis Suc_le_mono)
    from c show ?thesis
    proof
      assume again: "o2 = Again \<and> quiets cfg rq sb s2"
      have lf: "last_final s2 = []"
        using again Suc.prems(2) quiets_last_final calls_last_final q by metis
      have "run_loop cfg w rq sp model bl n s2 = (s', o')"
        using Suc.prems(1) None t again by simp
      from Suc.IH [OF this lf] show ?thesis using again finishes_quiets lift by blast
    next
      assume "\<exists>out err. o2 = Stop out err \<and> concludes cfg w rq sb s2 out err"
      then show ?thesis using Suc.prems(1) None t concludes_finishes lift by fastforce
    qed
  qed
qed

definition checkpoint_step :: "config \<Rightarrow> world \<Rightarrow> run_request \<Rightarrow> compact_result \<Rightarrow> int list \<Rightarrow> run_state
    \<Rightarrow> run_state \<times> bool" where
  "checkpoint_step cfg w rq res st s =
     (if cr_summary res \<noteq> []
      then case retain_from_step (cr_retained_from res) st of
             None \<Rightarrow> (s, False)
           | Some retain \<Rightarrow>
               (write_step cfg w rq ((mk_step step_type_summary (cr_summary res))
                  \<lparr>tool_args := encode_checkpoint retain\<rparr>) s, True)
      else (s, False))"

lemma compact_history_Some:
  assumes "cfg_compactor cfg = Some c" and "run_compactor c (tr s) h = (res, err)"
  shows "compact_history cfg w rq h st s =
     (let s = after_compact res (log_effect (ECompact h (res, err)) s) in
      case err of
        Some e \<Rightarrow> (emit cfg rq (mk_event ''warning'' (''history compaction failed: '' @ e)) s, h)
      | None \<Rightarrow>
          if cr_messages res = [] \<and> length h > 0
          then (emit cfg rq (mk_event ''warning''
                  ''history compaction returned nothing; keeping history'') s, h)
          else
            let (s, persisted) = checkpoint_step cfg w rq res st s;
                s = (if length (cr_messages res) < length h
                     then emit cfg rq ((mk_event ''compacted'' [])\<lparr>ev_args := Some (JObj
                            [(''messages_after'', JNum (itoa (int (length (cr_messages res))))),
                             (''messages_before'', JNum (itoa (int (length h)))),
                             (''persisted'', JBool persisted)])\<rparr>) s
                     else s)
            in (s, cr_messages res))"
  unfolding compact_history_def checkpoint_step_def assms Let_def option.case prod.case after_compact_def
  by (cases err) (simp_all only: log_fields option.case)

lemma compact_history_quiets:
  assumes "compact_history cfg w rq h st s = (s', h')"
  shows "quiets cfg rq s s'"
proof (cases "cfg_compactor cfg")
  case None
  then show ?thesis using assms by (simp add: compact_history_def)
next
  case (Some c)
  obtain res err where r: "run_compactor c (tr s) h = (res, err)" by fastforce
  let ?s1 = "after_compact res (log_effect (ECompact h (res, err)) s)"
  have q1: "quiets cfg rq s ?s1" using q_compact by (simp add: r_into_rtranclp)
  have emits: "quiets cfg rq s (emit cfg rq e u)"
    if "quiets cfg rq s u" "ev_type e \<notin> {''response_chunk'', ''done''}" for e u
    by (rule quiets_trans [OF that(1) emit_quiets [OF that(2)]])
  show ?thesis
  proof (cases err)
    case (Some e)
    then show ?thesis
      using assms \<open>cfg_compactor cfg = Some c\<close> r emits [OF q1] by (simp add: compact_history_Some) auto
  next
    case None
    show ?thesis
    proof (cases "cr_messages res = [] \<and> length h > 0")
      case True
      then show ?thesis using assms \<open>cfg_compactor cfg = Some c\<close> r None emits [OF q1]
        by (simp add: compact_history_Some) auto
    next
      case False
      let ?p = "checkpoint_step cfg w rq res st ?s1"
      obtain s2 b where p: "?p = (s2, b)" by fastforce
      have q2: "quiets cfg rq s s2"
        using p q1 quiets_trans [OF q1 write_step_quiets]
        by (auto simp: checkpoint_step_def split: if_splits option.splits)
      show ?thesis
        using assms \<open>cfg_compactor cfg = Some c\<close> r None False p emits [OF q2] q2
        by (simp add: compact_history_Some split: if_splits) auto
    qed
  qed
qed

section \<open>The shape of a run\<close>

text \<open>The state in which a run writes its first step, and the steps it found.\<close>

definition open_state :: "config \<Rightarrow> world \<Rightarrow> run_request \<Rightarrow> run_state" where
  "open_state cfg w rq =
     fst (load_history cfg w rq (log_effect (EGetSession (rq_session_id rq)) (init_state w)))"

definition prior_steps :: "config \<Rightarrow> world \<Rightarrow> run_request \<Rightarrow> run_step list" where
  "prior_steps cfg w rq =
     snd (load_history cfg w rq (log_effect (EGetSession (rq_session_id rq)) (init_state w)))"

definition opened :: "config \<Rightarrow> world \<Rightarrow> run_request \<Rightarrow> run_state" where
  "opened cfg w rq = write_step cfg w rq (mk_step ''user'' (rq_message rq)) (open_state cfg w rq)"

lemma open_state_last_final: "last_final (open_state cfg w rq) = []"
  by (simp add: open_state_def load_history_def Let_def init_state_def split: sum.splits)

lemma opened_last_final: "last_final (opened cfg w rq) = []"
  unfolding opened_def using quiets_last_final [OF write_step_quiets] open_state_last_final by metis

lemma run_session_finishes:
  assumes "run_session cfg w rq sess prior s = (s', o')" and "last_final s = []"
  shows "\<exists>s2 out err. s' = log_effect ECleanup s2 \<and> o' = Returned out err
     \<and> finishes cfg w rq (nat (cfg_max_iterations cfg)) s s2 out err"
proof -
  let ?s1 = "log_effect (ESetPolicy (cfg_policy cfg)) s"
  let ?sp = "compose_system_prompt (sess_system_prompt sess) (sandbox_prompt w (tr ?s1))"
  let ?sp = "if rq_context rq \<noteq> [] then ?sp @ newline @ newline @ rq_context rq else ?sp"
  let ?s2 = "?s1\<lparr>sys_prompt_captured := ?sp\<rparr>"
  obtain h0 step_of where r: "rehydrate_history prior (cfg_history_window cfg) = (h0, step_of)" by fastforce
  obtain s3 h where c: "compact_history cfg w rq h0 step_of ?s2 = (s3, h)" by fastforce
  let ?s4 = "s3\<lparr>history := h @ [mk_message ''user'' (rq_message rq)]\<rparr>"
  let ?model = "if sess_model sess = [] then cfg_model cfg else sess_model sess"
  obtain s5 o5 where l: "run_loop cfg w rq ?sp ?model (length (history ?s4)) (nat (cfg_max_iterations cfg)) ?s4
      = (s5, o5)" by fastforce
  have "quiets cfg rq s ?s1" by (simp add: q_policy r_into_rtranclp)
  then have q: "quiets cfg rq s ?s4"
    using book_quiet(4) [of cfg rq ?s1] compact_history_quiets [OF c] book_quiet(1) [of cfg rq s3]
    by (meson quiets_trans)
  then have "last_final ?s4 = []" using quiets_last_final assms(2) by metis
  from run_loop_finishes [OF l this] obtain out err where
    o5: "o5 = Returned out err" "finishes cfg w rq (nat (cfg_max_iterations cfg)) ?s4 s5 out err" by blast
  have "(s', o') = (log_effect ECleanup s5, o5)"
    using assms(1) r c l by (simp add: run_session_def Let_def)
  with o5 finishes_quiets [OF q] show ?thesis by blast
qed

text \<open>
  A run that loads its session opens with the user's step, keeps to the protocol and finishes;
  it cleans up when it had a sandbox, and without one it never calls the model.
\<close>

theorem run_cases:
  assumes "run cfg w rq = (s', o')"
  obtains (unloaded) e where "get_session w [] (rq_session_id rq) = Inl e"
      "o' = Returned zero_result (Some (''agentloop: load session: '' @ e))"
      "tr s' = [EGetSession (rq_session_id rq)]"
  | (unbuilt) out e where "o' = Returned out (Some e)" "concludes cfg w rq (opened cfg w rq) s' out (Some e)"
  | (finished) s2 out err where "s' = log_effect ECleanup s2" "o' = Returned out err"
      "finishes cfg w rq (nat (cfg_max_iterations cfg)) (opened cfg w rq) s2 out err"
proof (cases "get_session w [] (rq_session_id rq)")
  case (Inl e)
  then show thesis using assms by (intro unloaded) (auto simp: run_def init_state_def)
next
  case (Inr sess)
  let ?s1 = "emit cfg rq (mk_event ''user'' (rq_message rq)) (opened cfg w rq)"
  have init: "tr (init_state w) = []" by (simp add: init_state_def)
  have eq: "run cfg w rq = run_with_sandbox cfg w rq sess (prior_steps cfg w rq) ?s1"
    by (simp add: run_def init Inr opened_def open_state_def prior_steps_def split_beta Let_def)
  obtain evts err where b: "build_sandbox w (tr ?s1) sess (rq_scope rq) = (evts, err)" by fastforce
  let ?s2 = "emit_sandbox_events cfg rq evts (log_effect (EBuild sess (rq_scope rq)) ?s1)"
  have "quiets cfg rq (opened cfg w rq) ?s1" by (rule emit_quiets) simp
  then have q: "quiets cfg rq (opened cfg w rq) ?s2"
    using quiets_trans [OF quiets_step [OF _ q_build] sandbox_events_quiets] by blast
  have lf: "last_final ?s2 = []" using quiets_last_final [OF q] opened_last_final by metis
  show thesis
  proof (cases err)
    case None
    then have "run_session cfg w rq sess (prior_steps cfg w rq) ?s2 = (s', o')"
      using eq assms b by (simp add: run_with_sandbox_def)
    from run_session_finishes [OF this lf] show thesis using finishes_quiets [OF q] finished by blast
  next
    case (Some e)
    obtain s3 out where f: "finalize cfg w rq ''error'' ?s2 = (s3, out)" by fastforce
    have "ends cfg w rq ''error'' [] ?s2 s3 out" by (rule ends_same [OF f lf]) simp
    then have "concludes cfg w rq (opened cfg w rq) s3 out (Some (''agentloop: build sandbox: '' @ e))"
      by (rule concludesI [OF q]) (simp add: verdict_def)
    then show thesis
      using eq assms Some f b by (intro unbuilt) (auto simp: run_with_sandbox_def)
  qed
qed

end
