(* ===== verification/Loop_Invariants.thy ===== *)
theory Loop_Invariants
  imports Loop_Protocol
begin

text \<open>
  What holds of every run, whatever the model, the sandbox, the stores and the clock answer.
  A property of the state that every step of the protocol keeps, or of the effects one by one,
  is an instance of one of the two locales below.
\<close>

section \<open>Invariants of the state\<close>

locale run_invariant =
  fixes cfg :: config and rq :: run_request and I :: "run_state \<Rightarrow> bool"
  assumes quiet_keeps: "quiet cfg rq s s' \<Longrightarrow> I s \<Longrightarrow> I s'"
    and calls_keeps: "calls cfg rq s s' \<Longrightarrow> I s \<Longrightarrow> I s'"
begin

lemma loop_steps_keep: "loop_steps cfg rq s s' \<Longrightarrow> I s \<Longrightarrow> I s'"
  by (induction rule: rtranclp_induct) (auto simp: loop_step_def intro: quiet_keeps calls_keeps)

lemma quiets_keep: "quiets cfg rq s s' \<Longrightarrow> I s \<Longrightarrow> I s'"
  by (rule loop_steps_keep [OF quiets_loop_steps])

lemma emit_keeps: "ev_type e \<notin> {''response_chunk'', ''done''} \<Longrightarrow> I s \<Longrightarrow> I (emit cfg rq e s)"
  by (rule quiets_keep [OF emit_quiets])

lemma write_step_keeps: "I s \<Longrightarrow> I (write_step cfg w rq st s)"
  by (rule quiets_keep [OF write_step_quiets])

lemma finishes_keep:
  assumes "finishes cfg w rq n s s' out err" and "I s"
  obtains s1 status final where "I s1" "ends cfg w rq status final s1 s' out"
  using assms turn_steps_loop_steps loop_steps_keep unfolding finishes_def by metis

lemma concludes_keep:
  assumes "concludes cfg w rq s s' out err" and "I s"
  obtains s1 status final where "I s1" "ends cfg w rq status final s1 s' out"
  using assms quiets_keep unfolding concludes_def by metis

text \<open>Every run that loads its session: the state it is in when it finalizes.\<close>

lemma run_keeps:
  assumes "run cfg w rq = (s', o')" and "get_session w [] (rq_session_id rq) = Inr sess"
    and "I (open_state cfg w rq)"
  obtains s1 s2 status final out err where "I s1" "ends cfg w rq status final s1 s2 out"
    "o' = Returned out err" "s' = s2 \<or> s' = log_effect ECleanup s2"
proof -
  have I: "I (opened cfg w rq)" unfolding opened_def by (rule write_step_keeps [OF assms(3)])
  from assms(1) show thesis
  proof (cases rule: run_cases)
    case (unloaded e)
    with assms(2) show thesis by simp
  next
    case (unbuilt out e)
    with concludes_keep [OF unbuilt(2) I] show thesis using that by metis
  next
    case (finished s2 out err)
    with finishes_keep [OF finished(3) I] show thesis using that by metis
  qed
qed

end

section \<open>Invariants of the effects\<close>

text \<open>The effects a run may only have under a condition of the protocol.\<close>

fun constrained :: "effect \<Rightarrow> bool" where
  "constrained (EEmit _) = True"
| "constrained (EAppend _) = True"
| "constrained (EStream _ _) = True"
| "constrained (EExec _ _ _) = True"
| "constrained _ = False"

locale effect_invariant =
  fixes cfg :: config and rq :: run_request and ok :: "effect \<Rightarrow> bool"
  assumes emit_ok: "on_event rq \<Longrightarrow> ev_type e \<noteq> ''response_chunk'' \<Longrightarrow>
      ok (EEmit (redact_event (cfg_redactor cfg) e))"
    and chunk_ok: "on_event rq \<Longrightarrow> cfg_redactor cfg = None \<Longrightarrow> c \<noteq> [] \<Longrightarrow>
      ok (EEmit (mk_event ''response_chunk'' c))"
    and append_ok: "session_id st = rq_session_id rq \<Longrightarrow>
      step_content st = redact_apply (cfg_redactor cfg) c \<Longrightarrow> ok (EAppend st)"
    and stream_ok: "fit (cfg_budget cfg) (mk_message ''system'' sp # ms) = Some f \<Longrightarrow>
      req_messages req = fit_messages f \<Longrightarrow> req_max_tokens req = completion_cap (cfg_budget cfg) \<Longrightarrow>
      ok (EStream req out)"
    and exec_ok: "code \<noteq> [] \<Longrightarrow> ok (EExec code args res)"
    and other_ok: "\<not> constrained eff \<Longrightarrow> ok eff"
begin

lemma calls_ok: "calls cfg rq s s' \<Longrightarrow> list_all ok (tr s) \<Longrightarrow> list_all ok (tr s')"
  by (induction rule: calls.induct)
    (auto simp: after_stream_def count_usage_def intro: stream_ok split: sum.splits)

lemma quiet_ok: "quiet cfg rq s s' \<Longrightarrow> list_all ok (tr s) \<Longrightarrow> list_all ok (tr s')"
  by (induction rule: quiet.induct)
    (auto simp: after_exec_def after_compact_def intro: emit_ok chunk_ok append_ok exec_ok other_ok
      split: sum.splits)

end

sublocale effect_invariant \<subseteq> run_invariant cfg rq "\<lambda>s. list_all ok (tr s)"
  by unfold_locales (fact quiet_ok, fact calls_ok)

context effect_invariant begin

lemma emit_any_ok:
  "ev_type e \<noteq> ''response_chunk'' \<Longrightarrow> list_all ok (tr s) \<Longrightarrow> list_all ok (tr (emit cfg rq e s))"
  by (simp add: emit_def emit_ok)

lemma finalize_ok:
  "finalize cfg w rq status s = (s', out) \<Longrightarrow> list_all ok (tr s) \<Longrightarrow> list_all ok (tr s')"
  by (auto simp: finalize_def Let_def other_ok intro!: emit_any_ok split: option.splits)

lemma ends_ok: "ends cfg w rq status final s s' out \<Longrightarrow> list_all ok (tr s) \<Longrightarrow> list_all ok (tr s')"
  by (auto simp: ends_def emit_done_def split: prod.splits if_splits intro!: emit_any_ok dest: finalize_ok)

lemma open_state_ok: "list_all ok (tr (open_state cfg w rq))"
  by (auto simp: open_state_def load_history_def init_state_def Let_def other_ok
      intro!: emit_any_ok split: sum.splits)

lemma run_ok: "list_all ok (tr (fst (run cfg w rq)))"
proof (cases "get_session w [] (rq_session_id rq)")
  case (Inl e)
  then show ?thesis by (simp add: run_def init_state_def other_ok)
next
  case (Inr sess)
  obtain s' o' where r: "run cfg w rq = (s', o')" by fastforce
  from run_keeps [OF r Inr open_state_ok] obtain s1 s2 status final out err where
    "list_all ok (tr s1)" "ends cfg w rq status final s1 s2 out" "s' = s2 \<or> s' = log_effect ECleanup s2" .
  then show ?thesis using r ends_ok by (auto simp: other_ok)
qed

end

end
