(* ===== verification/Loop_Properties.thy ===== *)
theory Loop_Properties
  imports Loop_Invariants
begin

text \<open>
  The properties of a run that follow from the invariants: how it ends, what it asks of the
  model, what it persists, what it tells its caller.
\<close>

section \<open>Readings of a history\<close>

text \<open>The persisted steps, oldest first.\<close>

fun appended :: "trace \<Rightarrow> run_step list" where
  "appended [] = []"
| "appended (EAppend st # t) = appended t @ [st]"
| "appended (_ # t) = appended t"

text \<open>The model's replies, and what the run spent on them and on compaction.\<close>

fun model_calls :: "trace \<Rightarrow> nat" where
  "model_calls [] = 0"
| "model_calls (EStream _ _ # t) = Suc (model_calls t)"
| "model_calls (_ # t) = model_calls t"

fun spent_prompt :: "trace \<Rightarrow> int" where
  "spent_prompt [] = 0"
| "spent_prompt (EStream _ (Inr resp) # t) = spent_prompt t + input_tokens resp"
| "spent_prompt (ECompact _ (r, _) # t) = spent_prompt t + cr_prompt_tokens r"
| "spent_prompt (_ # t) = spent_prompt t"

fun spent_completion :: "trace \<Rightarrow> int" where
  "spent_completion [] = 0"
| "spent_completion (EStream _ (Inr resp) # t) = spent_completion t + output_tokens resp"
| "spent_completion (ECompact _ (r, _) # t) = spent_completion t + cr_completion_tokens r"
| "spent_completion (_ # t) = spent_completion t"

text \<open>The value the last successful script returned, which the next one receives.\<close>

fun carried :: "trace \<Rightarrow> bytes" where
  "carried [] = ''{}''"
| "carried (EExec _ _ (Inr (logs, ret)) # t) = ret"
| "carried (_ # t) = carried t"

fun threaded :: "trace \<Rightarrow> bool" where
  "threaded [] = True"
| "threaded (EExec _ args _ # t) = (args = carried t \<and> threaded t)"
| "threaded (_ # t) = threaded t"

fun finals :: "trace \<Rightarrow> (bytes \<times> finalize_summary) list" where
  "finals [] = []"
| "finals (EFinalize i fs # t) = finals t @ [(i, fs)]"
| "finals (_ # t) = finals t"

fun dones :: "trace \<Rightarrow> run_event list" where
  "dones [] = []"
| "dones (EEmit e # t) = (if ev_type e = ''done'' then dones t @ [e] else dones t)"
| "dones (_ # t) = dones t"

fun cleanups :: "trace \<Rightarrow> nat" where
  "cleanups [] = 0"
| "cleanups (ECleanup # t) = Suc (cleanups t)"
| "cleanups (_ # t) = cleanups t"

lemma reading_emit [simp]:
  "appended (tr (emit cfg rq e s)) = appended (tr s)"
  "model_calls (tr (emit cfg rq e s)) = model_calls (tr s)"
  "spent_prompt (tr (emit cfg rq e s)) = spent_prompt (tr s)"
  "spent_completion (tr (emit cfg rq e s)) = spent_completion (tr s)"
  "carried (tr (emit cfg rq e s)) = carried (tr s)"
  "threaded (tr (emit cfg rq e s)) = threaded (tr s)"
  "finals (tr (emit cfg rq e s)) = finals (tr s)"
  "cleanups (tr (emit cfg rq e s)) = cleanups (tr s)"
  by (simp_all add: emit_def)

lemma redact_event_type [simp]: "ev_type (redact_event r e) = ev_type e"
  by (simp add: redact_event_def split: option.splits)

lemma dones_emit [simp]:
  "dones (tr (emit cfg rq e s)) =
     (if on_event rq \<and> ev_type e = ''done'' then dones (tr s) @ [redact_event (cfg_redactor cfg) e]
      else dones (tr s))"
  by (simp add: emit_def)

text \<open>Nothing else than a call of the model changes the count of calls.\<close>

lemma quiet_model_calls: "quiet cfg rq s s' \<Longrightarrow> model_calls (tr s') = model_calls (tr s)"
  by (induction rule: quiet.induct) (auto simp: after_exec_def after_compact_def split: sum.splits)

lemma quiets_model_calls: "quiets cfg rq s s' \<Longrightarrow> model_calls (tr s') = model_calls (tr s)"
  by (induction rule: rtranclp_induct) (auto simp: quiet_model_calls)

lemma calls_model_calls: "calls cfg rq s s' \<Longrightarrow> model_calls (tr s') = Suc (model_calls (tr s))"
  by (induction rule: calls.induct) (auto simp: after_stream_def count_usage_def split: sum.splits)

lemma turn_steps_model_calls: "turn_steps cfg rq n s s' \<Longrightarrow> model_calls (tr s') = model_calls (tr s) + n"
  by (induction rule: turn_steps.induct) (simp_all add: quiets_model_calls calls_model_calls)

text \<open>What the end of a run adds to a history.\<close>

lemma ends_readings:
  assumes "ends cfg w rq status final s s' out"
  shows "appended (tr s') = appended (tr s)" "model_calls (tr s') = model_calls (tr s)"
    "spent_prompt (tr s') = spent_prompt (tr s)" "spent_completion (tr s') = spent_completion (tr s)"
    "threaded (tr s') = threaded (tr s)" "cleanups (tr s') = cleanups (tr s)"
  using assms
  by (auto simp: ends_def finalize_def emit_done_def Let_def split: option.splits if_splits)

lemma ends_result:
  assumes "ends cfg w rq status final s s' out"
  shows "res_status out = status" "final_text out = redact_apply (cfg_redactor cfg) final"
    "res_steps out = step_idx s" "run_id out = rq_session_id rq"
    "res_prompt_tokens out = u_prompt s" "res_completion_tokens out = u_completion s"
  using assms by (auto simp: ends_def finalize_def Let_def split: option.splits if_splits)

lemma ends_finals:
  assumes "ends cfg w rq status final s s' out"
  shows "\<exists>fs. finals (tr s') = finals (tr s) @ [(rq_session_id rq, fs)] \<and> fs_status fs = res_status out
     \<and> fs_step_count fs = res_steps out \<and> fs_prompt_tokens fs = res_prompt_tokens out
     \<and> fs_completion_tokens fs = res_completion_tokens out \<and> fs_data_bytes fs = res_data_bytes out"
  using assms
  by (auto simp: ends_def finalize_def emit_done_def Let_def split: option.splits if_splits)

lemma ends_dones:
  assumes "ends cfg w rq status final s s' out"
  shows "dones (tr s') = dones (tr s) @
     (if on_event rq \<and> status = ''completed''
      then [redact_event (cfg_redactor cfg) ((mk_event ''done'' [])\<lparr>ev_summary := Some
              \<lparr>rs_session_id = rq_session_id rq, rs_steps = res_steps out,
               rs_prompt_tokens = res_prompt_tokens out, rs_completion_tokens = res_completion_tokens out,
               rs_data_bytes = res_data_bytes out\<rparr>\<rparr>)]
      else [])"
  using assms
  by (auto simp: ends_def finalize_def emit_done_def Let_def split: option.splits if_splits)

section \<open>The invariants\<close>

definition indexed :: "int \<Rightarrow> run_state \<Rightarrow> bool" where
  "indexed b s =
     (map step_index (appended (tr s)) = map (\<lambda>k. i32 (b + int k)) [0..<length (appended (tr s))]
      \<and> step_idx s = i32 (b + int (length (appended (tr s)))))"

definition counted :: "run_state \<Rightarrow> bool" where
  "counted s = (u_prompt s = i32 (spent_prompt (tr s)) \<and> u_completion s = i32 (spent_completion (tr s)))"

definition carrying :: "run_state \<Rightarrow> bool" where
  "carrying s = (prev_args s = carried (tr s) \<and> threaded (tr s))"

definition unfinished :: "run_state \<Rightarrow> bool" where
  "unfinished s = (finals (tr s) = [] \<and> dones (tr s) = [] \<and> cleanups (tr s) = 0)"

interpretation indices: run_invariant cfg rq "indexed b" for cfg rq b
proof unfold_locales
  show "quiet cfg rq s s' \<Longrightarrow> indexed b s \<Longrightarrow> indexed b s'" for s s'
    by (induction rule: quiet.induct)
      (auto simp: indexed_def after_exec_def after_compact_def i32_add_left i32_add_right ac_simps split: sum.splits)
  show "calls cfg rq s s' \<Longrightarrow> indexed b s \<Longrightarrow> indexed b s'" for s s'
    by (induction rule: calls.induct)
      (auto simp: indexed_def after_stream_def count_usage_def split: sum.splits)
qed

interpretation usage: run_invariant cfg rq counted for cfg rq
proof unfold_locales
  show "quiet cfg rq s s' \<Longrightarrow> counted s \<Longrightarrow> counted s'" for s s'
    by (induction rule: quiet.induct)
      (auto simp: counted_def after_exec_def after_compact_def i32_add_left i32_add_right split: sum.splits)
  show "calls cfg rq s s' \<Longrightarrow> counted s \<Longrightarrow> counted s'" for s s'
    by (induction rule: calls.induct)
      (auto simp: counted_def after_stream_def count_usage_def i32_add_left i32_add_right split: sum.splits)
qed

interpretation carry: run_invariant cfg rq carrying for cfg rq
proof unfold_locales
  show "quiet cfg rq s s' \<Longrightarrow> carrying s \<Longrightarrow> carrying s'" for s s'
    by (induction rule: quiet.induct)
      (auto simp: carrying_def after_exec_def after_compact_def split: sum.splits)
  show "calls cfg rq s s' \<Longrightarrow> carrying s \<Longrightarrow> carrying s'" for s s'
    by (induction rule: calls.induct)
      (auto simp: carrying_def after_stream_def count_usage_def split: sum.splits)
qed

interpretation open_run: run_invariant cfg rq unfinished for cfg rq
proof unfold_locales
  show "quiet cfg rq s s' \<Longrightarrow> unfinished s \<Longrightarrow> unfinished s'" for s s'
    by (induction rule: quiet.induct)
      (auto simp: unfinished_def after_exec_def after_compact_def split: sum.splits)
  show "calls cfg rq s s' \<Longrightarrow> unfinished s \<Longrightarrow> unfinished s'" for s s'
    by (induction rule: calls.induct)
      (auto simp: unfinished_def after_stream_def count_usage_def split: sum.splits)
qed

lemma appended_open: "appended (tr (open_state cfg w rq)) = []"
  by (simp add: open_state_def load_history_def init_state_def Let_def split: sum.splits)

lemma step_idx_open: "step_idx (open_state cfg w rq) = i32 (int (length (prior_steps cfg w rq)))"
  by (simp add: open_state_def prior_steps_def load_history_def init_state_def Let_def split: sum.splits)

lemma indexed_open: "indexed (int (length (prior_steps cfg w rq))) (open_state cfg w rq)"
  by (simp add: indexed_def appended_open step_idx_open)

lemma open_invariants:
  "counted (open_state cfg w rq)" "carrying (open_state cfg w rq)" "unfinished (open_state cfg w rq)"
  "model_calls (tr (open_state cfg w rq)) = 0"
  by (auto simp: open_state_def load_history_def init_state_def Let_def counted_def carrying_def
      unfinished_def i32_def split: sum.splits)

lemma opened_appended:
  "\<exists>st. appended (tr (opened cfg w rq)) = [st] \<and> step_type st = ''user''
     \<and> step_content st = redact_apply (cfg_redactor cfg) (rq_message rq)"
  by (simp add: opened_def write_step_def appended_open Let_def mk_step_def split: option.splits)

text \<open>Every state of a run keeps its first step.\<close>

definition starts_with :: "run_step \<Rightarrow> run_state \<Rightarrow> bool" where
  "starts_with st s = (\<exists>rest. appended (tr s) = st # rest)"

interpretation first_step: run_invariant cfg rq "starts_with st" for cfg rq st
proof unfold_locales
  show "quiet cfg rq s s' \<Longrightarrow> starts_with st s \<Longrightarrow> starts_with st s'" for s s'
    by (induction rule: quiet.induct)
      (auto simp: starts_with_def after_exec_def after_compact_def split: sum.splits)
  show "calls cfg rq s s' \<Longrightarrow> starts_with st s \<Longrightarrow> starts_with st s'" for s s'
    by (induction rule: calls.induct)
      (auto simp: starts_with_def after_stream_def count_usage_def split: sum.splits)
qed

section \<open>How a run ends\<close>

definition loaded :: "world \<Rightarrow> run_request \<Rightarrow> bool" where
  "loaded w rq = (case get_session w [] (rq_session_id rq) of Inl _ \<Rightarrow> False | Inr _ \<Rightarrow> True)"

text \<open>
  The cases of a run again, with the calls it made counted and the state it finalized from.
\<close>

lemma run_ends:
  assumes "loaded w rq"
  obtains s' s1 s2 k status final out err where "run cfg w rq = (s', Returned out err)"
    "turn_steps cfg rq k (opened cfg w rq) s1" "ends cfg w rq status final s1 s2 out"
    "int k \<le> max 0 (cfg_max_iterations cfg)"
    "s' = s2 \<and> k = 0 \<and> err \<noteq> None \<or> s' = log_effect ECleanup s2"
    "verdict cfg status final err s1
       \<or> status = ''max_iterations'' \<and> k = nat (cfg_max_iterations cfg) \<and> err \<noteq> None \<and> final = []"
proof -
  obtain s' o' where r: "run cfg w rq = (s', o')" by fastforce
  then show thesis
  proof (cases rule: run_cases)
    case (unloaded e)
    then show thesis using assms by (simp add: loaded_def)
  next
    case (unbuilt out e)
    then obtain s1 status final where "quiets cfg rq (opened cfg w rq) s1"
      "ends cfg w rq status final s1 s' out" "verdict cfg status final (Some e) s1"
      by (auto simp: concludes_def)
    then show thesis using r unbuilt(1) by (intro that [of s' out "Some e" 0]) (auto intro: turn_steps.turns_0)
  next
    case (finished s2 out err)
    from finished(3) obtain k s1 status final where "k \<le> nat (cfg_max_iterations cfg)"
      "turn_steps cfg rq k (opened cfg w rq) s1" "ends cfg w rq status final s1 s2 out"
      "verdict cfg status final err s1
         \<or> status = ''max_iterations'' \<and> k = nat (cfg_max_iterations cfg) \<and> err \<noteq> None \<and> final = []"
      unfolding finishes_def by blast
    then show thesis using r finished by (intro that [of s' out err k]) auto
  qed
qed

lemma run_unloaded:
  "\<not> loaded w rq \<Longrightarrow> \<exists>e. run cfg w rq =
     (log_effect (EGetSession (rq_session_id rq)) (init_state w), Returned zero_result (Some e))"
  by (auto simp: loaded_def run_def init_state_def split: sum.splits)

lemma init_readings [simp]: "tr (init_state w) = []"
  by (simp add: init_state_def)

lemma opened_invariants:
  "indexed (int (length (prior_steps cfg w rq))) (opened cfg w rq)" "counted (opened cfg w rq)"
  "carrying (opened cfg w rq)" "unfinished (opened cfg w rq)" "model_calls (tr (opened cfg w rq)) = 0"
proof -
  show "indexed (int (length (prior_steps cfg w rq))) (opened cfg w rq)"
    unfolding opened_def by (rule indices.write_step_keeps [OF indexed_open])
  show "counted (opened cfg w rq)" "carrying (opened cfg w rq)" "unfinished (opened cfg w rq)"
    unfolding opened_def
    by (rule usage.write_step_keeps [OF open_invariants(1)] carry.write_step_keeps [OF open_invariants(2)]
        open_run.write_step_keeps [OF open_invariants(3)])+
  show "model_calls (tr (opened cfg w rq)) = 0"
    unfolding opened_def using quiets_model_calls [OF write_step_quiets] open_invariants(4) by metis
qed

lemma last_step_ends: "ends cfg w rq status final s s' out \<Longrightarrow> last_step (tr s') = last_step (tr s)"
  by (auto simp: ends_def finalize_def emit_done_def Let_def split: option.splits if_splits)

lemma redact_apply_Nil [simp]: "redact_apply r [] = []"
proof -
  have "apply_entries es [] = []" for es by (induction es) simp_all
  then show ?thesis by (simp add: redact_apply_def split: option.splits)
qed

text \<open>How a run ends, as its error and its status tell it.\<close>

lemma run_outcome_aux:
  "case run cfg w rq of
     (s, Panicked) \<Rightarrow> False
   | (s, Returned out None) \<Rightarrow>
       res_status out = ''completed''
       \<and> (\<exists>st. last_step (tr s) = Some st \<and> step_type st = ''response'' \<and> step_content st = final_text out)
   | (s, Returned out (Some e)) \<Rightarrow>
       res_status out \<in> {[], ''error'', ''max_iterations''} \<and> final_text out = []"
proof (cases "loaded w rq")
  case False
  then show ?thesis using run_unloaded [OF False, of cfg] by (auto simp: zero_result_def)
next
  case True
  then show ?thesis
  proof (rule run_ends)
    fix s' s1 s2 k status final out err
    assume r: "run cfg w rq = (s', Returned out err)" and e: "ends cfg w rq status final s1 s2 out"
      and s': "s' = s2 \<and> k = 0 \<and> err \<noteq> None \<or> s' = log_effect ECleanup s2"
      and v: "verdict cfg status final err s1
         \<or> status = ''max_iterations'' \<and> k = nat (cfg_max_iterations cfg) \<and> err \<noteq> None \<and> final = []"
    have "last_step (tr s') = last_step (tr s1)" using s' last_step_ends [OF e] by auto
    then show ?thesis using r v ends_result [OF e]
      by (cases err) (auto simp: verdict_def responded_def)
  qed
qed

text \<open>
  C1 A run always returns, and never panics.  It returns no error exactly when its status is
  completed; then the last step it persisted is a response and the final text is that step's
  content.  With an error the status is error, or max_iterations, or, when not even the session
  could be loaded, empty, and there is no final text.
\<close>

theorem run_outcome:
  "case run cfg w rq of
     (s, Panicked) \<Rightarrow> False
   | (s, Returned out None) \<Rightarrow>
       res_status out = ''completed''
       \<and> (\<exists>st. last_step (tr s) = Some st \<and> step_type st = ''response'' \<and> step_content st = final_text out)
   | (s, Returned out (Some e)) \<Rightarrow>
       res_status out \<in> {[], ''error'', ''max_iterations''} \<and> final_text out = []"
  by (rule run_outcome_aux)

text \<open>
  C5 A run calls the model at most \<open>MaxIterations\<close> times, whatever the model answers, and
  exactly that often when it gives up with the status max_iterations.
\<close>

theorem run_call_bound:
  "case run cfg w rq of (s, outcome) \<Rightarrow>
     int (model_calls (tr s)) \<le> max 0 (cfg_max_iterations cfg)
     \<and> (case outcome of
          Panicked \<Rightarrow> False
        | Returned out err \<Rightarrow>
            if res_status out = ''max_iterations''
            then int (model_calls (tr s)) = max 0 (cfg_max_iterations cfg) else True)"
proof (cases "loaded w rq")
  case False
  then show ?thesis using run_unloaded [OF False, of cfg] by (auto simp: zero_result_def)
next
  case True
  then show ?thesis
  proof (rule run_ends)
    fix s' s1 s2 k status final out err
    assume *: "run cfg w rq = (s', Returned out err)" "turn_steps cfg rq k (opened cfg w rq) s1"
      "ends cfg w rq status final s1 s2 out" "int k \<le> max 0 (cfg_max_iterations cfg)"
      "s' = s2 \<and> k = 0 \<and> err \<noteq> None \<or> s' = log_effect ECleanup s2"
      "verdict cfg status final err s1
         \<or> status = ''max_iterations'' \<and> k = nat (cfg_max_iterations cfg) \<and> err \<noteq> None \<and> final = []"
    have "model_calls (tr s') = k"
      using *(5) ends_readings(2) [OF *(3)] turn_steps_model_calls [OF *(2)] opened_invariants(5) by auto
    then show ?thesis using * ends_result(1) [OF *(3)] by (auto simp: verdict_def split: if_splits)
  qed
qed

text \<open>
  C2 A run that loads its session finalizes it exactly once, with the summary it reports: the
  status, the step count, the token totals and the data measure of the result.  A run that
  cannot load it finalizes nothing and reports the zero result.
\<close>

theorem run_finalizes_once:
  "case run cfg w rq of
     (s, Panicked) \<Rightarrow> False
   | (s, Returned out err) \<Rightarrow>
       if loaded w rq
       then run_id out = rq_session_id rq
            \<and> (\<exists>fs. finals (tr s) = [(rq_session_id rq, fs)] \<and> fs_status fs = res_status out
                \<and> fs_step_count fs = res_steps out \<and> fs_prompt_tokens fs = res_prompt_tokens out
                \<and> fs_completion_tokens fs = res_completion_tokens out \<and> fs_data_bytes fs = res_data_bytes out)
       else finals (tr s) = [] \<and> out = zero_result"
proof (cases "loaded w rq")
  case False
  then show ?thesis using run_unloaded [OF False, of cfg] by auto
next
  case True
  then show ?thesis
  proof (rule run_ends)
    fix s' s1 s2 k status final out err
    assume *: "run cfg w rq = (s', Returned out err)" "turn_steps cfg rq k (opened cfg w rq) s1"
      "ends cfg w rq status final s1 s2 out"
      "s' = s2 \<and> k = 0 \<and> err \<noteq> None \<or> s' = log_effect ECleanup s2"
    have "unfinished s1"
      by (rule open_run.loop_steps_keep [OF turn_steps_loop_steps [OF *(2)] opened_invariants(4)])
    moreover have "finals (tr s') = finals (tr s2)" using *(4) by auto
    ultimately show ?thesis using True * ends_finals [OF *(3)] ends_result(4) [OF *(3)]
      by (auto simp: unfinished_def)
  qed
qed

lemma run_indexed:
  assumes "loaded w rq"
  obtains s' out err st rest where "run cfg w rq = (s', Returned out err)"
    "map step_index (appended (tr s')) =
       map (\<lambda>k. i32 (int (length (prior_steps cfg w rq)) + int k)) [0..<length (appended (tr s'))]"
    "res_steps out = i32 (int (length (prior_steps cfg w rq)) + int (length (appended (tr s'))))"
    "appended (tr s') = st # rest" "step_type st = ''user''"
    "step_content st = redact_apply (cfg_redactor cfg) (rq_message rq)"
  using assms
proof (rule run_ends [where cfg = cfg])
  fix s' s1 s2 k status final out err
  assume *: "run cfg w rq = (s', Returned out err)" "turn_steps cfg rq k (opened cfg w rq) s1"
    "ends cfg w rq status final s1 s2 out"
    "s' = s2 \<and> k = 0 \<and> err \<noteq> None \<or> s' = log_effect ECleanup s2"
  note steps = turn_steps_loop_steps [OF *(2)]
  have ix: "indexed (int (length (prior_steps cfg w rq))) s1"
    by (rule indices.loop_steps_keep [OF steps opened_invariants(1)])
  obtain st where st: "appended (tr (opened cfg w rq)) = [st]" "step_type st = ''user''"
      "step_content st = redact_apply (cfg_redactor cfg) (rq_message rq)"
    using opened_appended by blast
  have "starts_with st s1"
    by (rule first_step.loop_steps_keep [OF steps]) (simp add: starts_with_def st)
  then obtain rest where "appended (tr s1) = st # rest" by (auto simp: starts_with_def)
  moreover have ap: "appended (tr s') = appended (tr s1)" using *(4) ends_readings(1) [OF *(3)] by auto
  ultimately show thesis using ix ends_result(3) [OF *(3)] st *(1)
    by (intro that [of s' out err st rest]) (auto simp: indexed_def)
qed

text \<open>
  C3 The steps a run persists carry consecutive indices from the number of steps it loaded, and
  the first of them is the user's message; the step count it reports is the next free index.
\<close>

theorem run_step_indices:
  "case run cfg w rq of
     (s, Panicked) \<Rightarrow> False
   | (s, Returned out err) \<Rightarrow>
       if loaded w rq
       then (let b = int (length (prior_steps cfg w rq)) in
             map step_index (appended (tr s)) = map (\<lambda>k. i32 (b + int k)) [0..<length (appended (tr s))]
             \<and> res_steps out = i32 (b + int (length (appended (tr s))))
             \<and> (\<exists>st rest. appended (tr s) = st # rest \<and> step_type st = ''user''
                  \<and> step_content st = redact_apply (cfg_redactor cfg) (rq_message rq)))
       else appended (tr s) = []"
proof (cases "loaded w rq")
  case False
  then show ?thesis using run_unloaded [OF False, of cfg] by auto
next
  case True
  then show ?thesis by (rule run_indexed [where cfg = cfg]) (use True in \<open>simp add: Let_def\<close>)
qed

text \<open>
  C4 Every script a run executes receives as \<open>args\<close> exactly what the last script that
  succeeded before it returned, or the empty object when none has: an error, an empty reply or
  a failed persist never loses or replaces the carried value.
\<close>

theorem run_threads_args:
  "threaded (tr (fst (run cfg w rq)))"
proof (cases "loaded w rq")
  case False
  then show ?thesis using run_unloaded [OF False, of cfg] by auto
next
  case True
  then show ?thesis
  proof (rule run_ends)
    fix s' s1 s2 k status final out err
    assume *: "run cfg w rq = (s', Returned out err)" "turn_steps cfg rq k (opened cfg w rq) s1"
      "ends cfg w rq status final s1 s2 out"
      "s' = s2 \<and> k = 0 \<and> err \<noteq> None \<or> s' = log_effect ECleanup s2"
    have "carrying s1"
      by (rule carry.loop_steps_keep [OF turn_steps_loop_steps [OF *(2)] opened_invariants(3)])
    then show ?thesis using * ends_readings(5) [OF *(3)] by (auto simp: carrying_def)
  qed
qed

text \<open>
  The token totals of a run are the sums over every reply the model gave, the empty ones
  included, and over the compactor's calls, failed compactions included, modulo \<open>2^32\<close>.
\<close>

theorem run_counts_tokens:
  "case run cfg w rq of
     (s, Panicked) \<Rightarrow> False
   | (s, Returned out err) \<Rightarrow>
       res_prompt_tokens out = i32 (spent_prompt (tr s))
       \<and> res_completion_tokens out = i32 (spent_completion (tr s))"
proof (cases "loaded w rq")
  case False
  then show ?thesis using run_unloaded [OF False, of cfg] by (auto simp: zero_result_def i32_def)
next
  case True
  then show ?thesis
  proof (rule run_ends)
    fix s' s1 s2 k status final out err
    assume *: "run cfg w rq = (s', Returned out err)" "turn_steps cfg rq k (opened cfg w rq) s1"
      "ends cfg w rq status final s1 s2 out"
      "s' = s2 \<and> k = 0 \<and> err \<noteq> None \<or> s' = log_effect ECleanup s2"
    have "counted s1"
      by (rule usage.loop_steps_keep [OF turn_steps_loop_steps [OF *(2)] opened_invariants(2)])
    then show ?thesis using * ends_readings(3,4) [OF *(3)] ends_result(5,6) [OF *(3)]
      by (auto simp: counted_def)
  qed
qed

text \<open>
  C9 A completed run with a callback emits exactly one \<open>done\<close> event, carrying the totals of
  its result, as its last event; no other run emits one.  The sandbox is
  cleaned up at most once, as the last thing a run does, and always when the model was called.
\<close>

theorem run_done_and_cleanup:
  "case run cfg w rq of
     (s, Panicked) \<Rightarrow> False
   | (s, Returned out err) \<Rightarrow>
       (if on_event rq \<and> err = None
        then (\<exists>e sm. dones (tr s) = [e] \<and> ev_summary e = Some sm \<and> rs_session_id sm = rq_session_id rq
                \<and> rs_steps sm = res_steps out \<and> rs_prompt_tokens sm = res_prompt_tokens out
                \<and> rs_completion_tokens sm = res_completion_tokens out \<and> rs_data_bytes sm = res_data_bytes out
                \<and> take 2 (tr s) = [ECleanup, EEmit e])
        else dones (tr s) = [])
       \<and> (if 0 < model_calls (tr s) then cleanups (tr s) = 1 \<and> hd (tr s) = ECleanup
          else cleanups (tr s) \<le> 1)"
proof (cases "loaded w rq")
  case False
  then show ?thesis using run_unloaded [OF False, of cfg] by auto
next
  case True
  then show ?thesis
  proof (rule run_ends)
    fix s' s1 s2 k status final out err
    assume *: "run cfg w rq = (s', Returned out err)" "turn_steps cfg rq k (opened cfg w rq) s1"
      "ends cfg w rq status final s1 s2 out"
      "s' = s2 \<and> k = 0 \<and> err \<noteq> None \<or> s' = log_effect ECleanup s2"
      "verdict cfg status final err s1
         \<or> status = ''max_iterations'' \<and> k = nat (cfg_max_iterations cfg) \<and> err \<noteq> None \<and> final = []"
    have u: "unfinished s1"
      by (rule open_run.loop_steps_keep [OF turn_steps_loop_steps [OF *(2)] opened_invariants(4)])
    have m: "model_calls (tr s2) = k" "cleanups (tr s2) = 0"
      using ends_readings [OF *(3)] turn_steps_model_calls [OF *(2)] opened_invariants(5) u
      by (auto simp: unfinished_def)
    have st: "status = ''completed'' \<longleftrightarrow> err = None" using *(5) by (auto simp: verdict_def split: if_splits)
    show ?thesis
    proof (cases "on_event rq \<and> err = None")
      case True
      then have s': "s' = log_effect ECleanup s2" using *(4) by auto
      have hd: "\<exists>t. tr s2 = EEmit (redact_event (cfg_redactor cfg) ((mk_event ''done'' [])\<lparr>ev_summary := Some
              \<lparr>rs_session_id = rq_session_id rq, rs_steps = res_steps out,
               rs_prompt_tokens = res_prompt_tokens out, rs_completion_tokens = res_completion_tokens out,
               rs_data_bytes = res_data_bytes out\<rparr>\<rparr>)) # t"
        using *(3) True st by (auto simp: ends_def emit_done_def emit_def split: prod.splits)
      show ?thesis using * s' True st m u hd ends_dones [OF *(3)]
        by (auto simp: unfinished_def redact_event_def split: option.splits)
    next
      case False
      then have "dones (tr s2) = []" using ends_dones [OF *(3)] st u by (auto simp: unfinished_def)
      then show ?thesis using * False m by auto
    qed
  qed
qed

end
