(* ===== verification/Loop_Disclosure.thy ===== *)
theory Loop_Disclosure
  imports Loop_Properties
begin

text \<open>
  What a run lets out: the texts it persists and emits go through the redactor, a redactor
  silences the live stream, and every prompt it sends is held to the budget.
\<close>

section \<open>Redaction\<close>

text \<open>What the redactor promises of one effect.\<close>

definition disclosed :: "redactor option \<Rightarrow> bytes \<Rightarrow> effect \<Rightarrow> bool" where
  "disclosed r v e =
     (case e of
        EEmit ev \<Rightarrow>
          (case r of
             None \<Rightarrow> True
           | Some _ \<Rightarrow> \<not> contains v (ev_content ev) \<and> ev_type ev \<noteq> ''response_chunk'')
      | EAppend st \<Rightarrow> (case r of None \<Rightarrow> True | Some _ \<Rightarrow> \<not> contains v (step_content st))
      | _ \<Rightarrow> True)"

text \<open>A redactor that removes \<open>v\<close> from every text.\<close>

definition removes :: "redactor option \<Rightarrow> bytes \<Rightarrow> bool" where
  "removes r v = (\<forall>s. \<not> contains v (redact_apply r s))"

lemma removes_entry:
  "placeholders_foreign es \<Longrightarrow> e \<in> set es \<Longrightarrow> removes (Some es) (secret_value e)"
  by (simp add: removes_def redact_apply_def placeholders_foreign_def apply_removes)

lemma disclosed_invariant:
  "removes (cfg_redactor cfg) v \<or> cfg_redactor cfg = None \<Longrightarrow>
   effect_invariant cfg rq (disclosed (cfg_redactor cfg) v)"
  by unfold_locales
    (auto simp: disclosed_def removes_def redact_event_def split: option.splits effect.splits
      elim: constrained.elims)

text \<open>
  C6 With a redactor whose placeholders no secret overlaps, no secret value occurs in the
  content of any event a run emits, of any step it persists, or in its final text, whatever the
  model, the scripts and the stores produce; and no reply is streamed live.
\<close>

theorem run_redacts:
  assumes "cfg_redactor cfg = Some es" and "placeholders_foreign es" and "e \<in> set es"
  shows "list_all (disclosed (Some es) (secret_value e)) (tr (fst (run cfg w rq)))
    \<and> (case run cfg w rq of (s, Returned out err) \<Rightarrow> \<not> contains (secret_value e) (final_text out)
       | _ \<Rightarrow> False)"
proof
  have rm: "removes (cfg_redactor cfg) (secret_value e)" using assms removes_entry by simp
  then show "list_all (disclosed (Some es) (secret_value e)) (tr (fst (run cfg w rq)))"
    using effect_invariant.run_ok [OF disclosed_invariant] assms(1) by metis
  show "case run cfg w rq of (s, Returned out err) \<Rightarrow> \<not> contains (secret_value e) (final_text out)
       | _ \<Rightarrow> False"
  proof (cases "loaded w rq")
    case False
    have "\<not> contains (secret_value e) (redact_apply (cfg_redactor cfg) [])"
      using rm unfolding removes_def by blast
    then have "\<not> contains (secret_value e) (final_text zero_result)"
      by (simp add: zero_result_def)
    moreover obtain x err where "run cfg w rq = (x, Returned zero_result err)"
      using run_unloaded [OF False, of cfg] by blast
    ultimately show ?thesis by simp
  next
    case True
    then show ?thesis
    proof (rule run_ends [where cfg = cfg])
      fix s' s1 s2 status final out err
      assume "run cfg w rq = (s', Returned out err)" "ends cfg w rq status final s1 s2 out"
      then show ?thesis using rm ends_result(2) by (simp add: removes_def)
    qed
  qed
qed

section \<open>The budget\<close>

text \<open>
  A prompt that trimming leaves alone whatever it costs: the system prompt with at most one other
  message, or the system prompt, the notice that so many messages were dropped, and one last message.
\<close>

definition untrimmable :: "message list \<Rightarrow> bool" where
  "untrimmable ms =
     (case ms of
        [sys] \<Rightarrow> role sys = ''system''
      | [sys, newest] \<Rightarrow> role sys = ''system''
      | [sys, notice, newest] \<Rightarrow>
          role sys = ''system'' \<and> (\<exists>n \<ge> 1. notice = mk_message ''user'' (budget_drop_marker n))
      | _ \<Rightarrow> False)"

text \<open>A prompt within a budget fits the allowance, or is one of those.\<close>

definition within_budget :: "context_budget \<Rightarrow> message list \<Rightarrow> bool" where
  "within_budget b ms =
     (\<not> budget_enabled b \<or> total_cost (estimator b) ms \<le> allowance b \<or> untrimmable ms)"

definition within_request :: "context_budget \<Rightarrow> effect \<Rightarrow> bool" where
  "within_request b e =
     (case e of
        EStream req _ \<Rightarrow> within_budget b (req_messages req) \<and> req_max_tokens req = completion_cap b
      | _ \<Rightarrow> True)"

lemma fit_within:
  assumes "estimate b = None" and "fit b (mk_message ''system'' sp # ms) = Some f"
  shows "within_budget b (fit_messages f)"
proof (cases "budget_enabled b")
  case True
  have est: "estimator b = estimate_tokens" using assms(1) by (simp add: estimator_def)
  have ne: "mk_message ''system'' sp # ms \<noteq> []" by simp
  from True ne assms(2) show ?thesis
  proof (cases rule: fit_cases)
    case short
    then have "ms = [] \<or> (\<exists>m. ms = [m])" by (cases ms; cases "tl ms") auto
    with short show ?thesis by (auto simp: within_budget_def untrimmable_def mk_message_def)
  next
    case whole
    have "0 \<le> estimate_tokens (budget_drop_marker (int (length (mk_message ''system'' sp # ms))))"
      by (rule estimate_nonneg)
    with whole show ?thesis by (simp add: within_budget_def est)
  next
    case (trimmed k)
    show ?thesis
    proof (cases "fit_over f")
      case False
      have "estimate_tokens (budget_drop_marker (int (k - 1)))
          \<le> estimate_tokens (budget_drop_marker (int (length (mk_message ''system'' sp # ms))))"
        by (rule estimate_mono, rule length_drop_marker_mono) (use trimmed in auto)
      with trimmed False show ?thesis by (simp add: within_budget_def est cost_def)
    next
      case over: True
      have "\<forall>s. 0 \<le> estimator b s" using estimate_nonneg by (simp add: est)
      with over trimmed(9) have k: "k = length (mk_message ''system'' sp # ms) - 1" by blast
      obtain newest where "drop k (mk_message ''system'' sp # ms) = [newest]"
        using k trimmed(1) by (metis append_butlast_last_id append_eq_conv_conj length_butlast list.distinct(1))
      then have "untrimmable (fit_messages f)"
        unfolding trimmed(5) untrimmable_def using trimmed(2)
        by (auto simp: mk_message_def intro!: exI [of _ "int (k - 1)"])
      then show ?thesis by (simp add: within_budget_def)
    qed
  qed
qed (simp add: within_budget_def)

lemma within_invariant:
  "estimate (cfg_budget cfg) = None \<Longrightarrow> effect_invariant cfg rq (within_request (cfg_budget cfg))"
  by unfold_locales
    (auto simp: within_request_def fit_within split: effect.splits elim: constrained.elims)

text \<open>
  C8 With the default estimator, every prompt a run sends to the model fits the allowance of
  its budget, or is down to what trimming never drops: the system prompt with one other message at
  most, or with the notice of how many were dropped and one last message; and every request caps the completion at the reserve exactly when a budget is set.
\<close>

theorem run_within_budget:
  assumes "estimate (cfg_budget cfg) = None"
  shows "list_all (within_request (cfg_budget cfg)) (tr (fst (run cfg w rq)))"
  using effect_invariant.run_ok [OF within_invariant [OF assms]] .

section \<open>Instances\<close>

definition plain_world :: world where
  "plain_world =
     \<lparr>get_session = (\<lambda>_ i. Inr \<lparr>sess_id = i, sess_model = [], sess_system_prompt = [], sess_data = [], sess_message_id = []\<rparr>),
      last_steps = (\<lambda>_ _ _. Inr []), append_step = (\<lambda>_ _. None), update_data = (\<lambda>_ _ _. None),
      finalize_session = (\<lambda>_ _ _. None), build_sandbox = (\<lambda>_ _ _. ([], None)),
      sandbox_prompt = (\<lambda>_. ''api''), execute_turn = (\<lambda>_ _ _. ([], Inr ([], ''{}''))),
      take_answer = (\<lambda>_. None),
      llm_stream = (\<lambda>_ _. ([], Inr \<lparr>resp_content = ''hunter2'', resp_model = [], input_tokens = 5, output_tokens = 1\<rparr>)),
      ctx_err = (\<lambda>_. None), clock_ms = (\<lambda>_. 0)\<rparr>"

definition guarded_config :: config where
  "guarded_config =
     \<lparr>has_llm = True, has_sessions = True, has_steps = True, has_builder = True, cfg_policy = None,
      cfg_model = ''m'', cfg_max_iterations = 3, cfg_run_timeout = 0, cfg_history_window = 80,
      cfg_compactor = None, cfg_budget = zero_budget\<lparr>max_tokens := 8192\<rparr>,
      cfg_redactor = Some [\<lparr>secret_value = ''hunter2'', secret_placeholder = secret_tag ''PW''\<rparr>]\<rparr>"

definition plain_request :: run_request where
  "plain_request =
     \<lparr>rq_session_id = ''s'', rq_scope = \<lparr>workspace_id = [], project_id = []\<rparr>, rq_user_id = [],
      rq_message = ''tell me'', rq_context = [], on_event = True\<rparr>"

lemma guarded_placeholders:
  "placeholders_foreign [\<lparr>secret_value = ''hunter2'', secret_placeholder = secret_tag ''PW''\<rparr>]"
  unfolding placeholders_foreign_def by (simp, rule foreign_secret) (simp_all add: contains_def secret_tag_def)

theorem run_redacts_witness:
  "list_all (disclosed (cfg_redactor guarded_config) ''hunter2'') (tr (fst (run guarded_config plain_world plain_request)))"
  using run_redacts [OF _ guarded_placeholders, of guarded_config
      "\<lparr>secret_value = ''hunter2'', secret_placeholder = secret_tag ''PW''\<rparr>" plain_world plain_request]
  by (simp add: guarded_config_def)

theorem run_within_budget_witness:
  "list_all (within_request (cfg_budget guarded_config)) (tr (fst (run guarded_config plain_world plain_request)))"
  by (rule run_within_budget) (simp add: guarded_config_def zero_budget_def)

end
