(* ===== verification/Loop_Durability.thy ===== *)
theory Loop_Durability
  imports Loop_Properties
begin

text \<open>
  Compaction across runs: the checkpoint one run persists makes the next one replay the
  compacted conversation.
\<close>

section \<open>Replay past a checkpoint\<close>

definition covered_from :: "run_step list \<Rightarrow> int option" where
  "covered_from ss = map_option (\<lambda>(c, r, at). r) (last_checkpoint ss)"

definition replayed :: "run_step list \<Rightarrow> (message \<times> int) list" where
  "replayed ss = filter (retained (covered_from ss)) (turns ss)"

lemma rehydrate_replayed:
  assumes "0 < window" and "int (length ss) \<le> window"
  shows "rehydrate_history ss window =
    (case last_checkpoint ss of
       None \<Rightarrow> (map fst (replayed ss), map snd (replayed ss))
     | Some (c, r, at) \<Rightarrow> (mk_message ''user'' c # map fst (replayed ss), at # map snd (replayed ss)))"
  using assms
  by (auto simp: rehydrate_history_def replayed_def covered_from_def replay_steps_turns Let_def
      split: option.splits)

lemma replayed_sorted: "increasing ss \<Longrightarrow> sorted_wrt (<) (map snd (replayed ss))"
  using turns_increasing by (simp add: replayed_def sorted_wrt_map sorted_wrt_filter)

lemma filter_later:
  assumes "case covered_from ss of None \<Rightarrow> True | Some r0 \<Rightarrow> r0 \<le> r"
  shows "filter (retained (Some r)) (turns ss) = filter (retained (Some r)) (replayed ss)"
  unfolding replayed_def filter_filter
  by (rule filter_cong) (use assms in \<open>auto simp: retained_def split: option.splits\<close>)

lemma replayed_from:
  "m \<in> set (replayed ss) \<Longrightarrow> case covered_from ss of None \<Rightarrow> True | Some r0 \<Rightarrow> r0 \<le> snd m"
  by (auto simp: replayed_def retained_def split: option.splits)

lemma retain_inside:
  assumes "increasing ss" and "j < length (replayed ss)"
  shows "filter (retained (Some (snd (replayed ss ! j)))) (turns ss) = drop j (replayed ss)"
proof -
  have "replayed ss ! j \<in> set (replayed ss)" using assms(2) by simp
  then have "filter (retained (Some (snd (replayed ss ! j)))) (turns ss)
      = filter (retained (Some (snd (replayed ss ! j)))) (replayed ss)"
    by (rule filter_later [OF replayed_from])
  then show ?thesis using filter_from_index [OF replayed_sorted [OF assms(1)] assms(2)] by simp
qed

lemma retain_past_last:
  assumes "increasing ss" and "replayed ss \<noteq> []"
  shows "filter (retained (Some (snd (last (replayed ss)) + 1))) (turns ss) = []"
proof -
  let ?l = "snd (last (replayed ss))"
  have "last (replayed ss) \<in> set (replayed ss)" using assms(2) by simp
  then have "case covered_from ss of None \<Rightarrow> True | Some r0 \<Rightarrow> r0 \<le> ?l + 1"
    using replayed_from by (fastforce split: option.splits)
  then have "filter (retained (Some (?l + 1))) (turns ss) = filter (retained (Some (?l + 1))) (replayed ss)"
    by (rule filter_later)
  moreover have "snd m < ?l + 1" if "m \<in> set (replayed ss)" for m
  proof -
    obtain a where a: "replayed ss = a @ [last (replayed ss)]" using assms(2) by (metis append_butlast_last_id)
    have "sorted_wrt (<) (map snd (a @ [last (replayed ss)]))"
      using replayed_sorted [OF assms(1)] a by metis
    then have "\<forall>m \<in> set a. snd m < ?l" by (simp add: sorted_wrt_append)
    moreover have "m \<in> set a \<or> m = last (replayed ss)" using that a by (metis Un_iff empty_iff insert_iff list.set set_append)
    ultimately show ?thesis by auto
  qed
  ultimately show ?thesis by (simp add: filter_below(1))
qed

text \<open>What a checkpoint names when a compaction kept the messages from \<open>split\<close> on.\<close>

lemma retain_from_step_keeps:
  assumes inc: "increasing prior" and win: "0 < window" "int (length prior) \<le> window"
    and range: "\<forall>s \<in> set prior. 0 \<le> step_index s \<and> step_index s < 2 ^ 31 - 1"
    and earlier: "case last_checkpoint prior of None \<Rightarrow> True | Some (c, r0, at) \<Rightarrow> r0 \<le> at \<and> at < 2 ^ 31 - 1 \<and> 0 \<le> at"
    and reh: "rehydrate_history prior window = (h, step_of)"
    and split: "0 < split" and r: "retain_from_step split step_of = Some r"
  shows "map fst (filter (retained (Some r)) (turns prior)) = drop (nat split) h"
proof -
  let ?R = "replayed prior"
  have idx: "0 \<le> snd m \<and> snd m < 2 ^ 31 - 1" if "m \<in> set ?R" for m
    using that range turn_indices by (fastforce simp: replayed_def)
  have i32: "i32 (x + 1) = x + 1" if "0 \<le> x" "x < 2 ^ 31 - 1" for x using that by (intro i32_id) auto
  have last: "i32 (snd (last ?R) + 1) = snd (last ?R) + 1" if "?R \<noteq> []"
    using idx [of "last ?R"] that by (intro i32) auto
  show ?thesis
  proof (cases "last_checkpoint prior")
    case None
    then have hs: "h = map fst ?R" "step_of = map snd ?R"
      using rehydrate_replayed [OF win] reh by simp_all
    show ?thesis
    proof (cases "split \<ge> int (length ?R)")
      case True
      then have ne: "?R \<noteq> []" and "r = i32 (snd (last ?R) + 1)"
        using r hs split by (auto simp: retain_from_step_def last_conv_nth split: if_splits)
      with last retain_past_last [OF inc ne] True show ?thesis by (simp add: hs)
    next
      case False
      then have "r = snd (?R ! nat split)" "nat split < length ?R"
        using r hs split by (auto simp: retain_from_step_def split: if_splits)
      with retain_inside [OF inc this(2)] show ?thesis by (simp add: hs drop_map)
    qed
  next
    case (Some cp)
    obtain c r0 at where cp: "cp = (c, r0, at)" by (cases cp)
    then have hs: "h = mk_message ''user'' c # map fst ?R" "step_of = at # map snd ?R"
      using rehydrate_replayed [OF win] reh Some by simp_all
    have at: "r0 \<le> at" "0 \<le> at" "at < 2 ^ 31 - 1" using earlier Some cp by auto
    obtain j where j: "nat split = Suc j" using split by (metis Suc_pred zero_less_nat_eq)
    show ?thesis
    proof (cases "split \<ge> int (length step_of)")
      case True
      then have r': "r = i32 (last step_of + 1)"
        using r hs split by (auto simp: retain_from_step_def last_conv_nth split: if_splits)
      have "drop (nat split) h = []" using True hs by simp
      moreover have "filter (retained (Some r)) (turns prior) = []"
      proof (cases "?R = []")
        case True
        then have "r = at + 1" using r' hs i32 at by simp
        then have "filter (retained (Some r)) (turns prior) = filter (retained (Some r)) ?R"
          using at by (intro filter_later) (simp add: covered_from_def Some cp)
        with True show ?thesis by simp
      next
        case False
        then have "r = snd (last ?R) + 1" using r' hs last by (simp add: last_map)
        with retain_past_last [OF inc False] show ?thesis by simp
      qed
      ultimately show ?thesis by simp
    next
      case False
      then have "r = snd (?R ! j)" "j < length ?R"
        using r hs split j by (auto simp: retain_from_step_def split: if_splits)
      with retain_inside [OF inc this(2)] show ?thesis by (simp add: hs drop_map j)
    qed
  qed
qed

lemma last_checkpoint_in:
  "last_checkpoint ss = Some (c, r, at) \<Longrightarrow> at \<in> step_index ` set ss"
proof -
  have "last_checkpoint_rev ss = Some (c, r, at) \<Longrightarrow> at \<in> step_index ` set ss" for ss
    by (induction ss) (auto split: if_splits sum.splits)
  then show "last_checkpoint ss = Some (c, r, at) \<Longrightarrow> ?thesis" by (fastforce simp: last_checkpoint_def)
qed

lemma step_of_in:
  assumes "0 < window" and "int (length ss) \<le> window" and "rehydrate_history ss window = (h, step_of)"
  shows "set step_of \<subseteq> step_index ` set ss"
proof -
  have "snd m \<in> step_index ` set ss" if "m \<in> set (replayed ss)" for m
    using that turn_indices by (auto simp: replayed_def)
  then show ?thesis
    using assms(3) rehydrate_replayed [OF assms(1,2)] last_checkpoint_in
    by (auto split: option.splits)
qed

lemma retain_from_step_le:
  assumes "retain_from_step k step_of = Some r"
    and "\<forall>x \<in> set step_of. 0 \<le> x \<and> x < b" and "b < 2 ^ 31"
  shows "0 \<le> r \<and> r \<le> b"
proof (cases "k \<ge> int (length step_of)")
  case True
  with assms(1) have ne: "step_of \<noteq> []" and r: "r = i32 (last step_of + 1)"
    by (auto simp: retain_from_step_def last_conv_nth split: if_splits)
  have "0 \<le> last step_of \<and> last step_of < b" using assms(2) ne by simp
  with r assms(3) show ?thesis using i32_id [of "last step_of + 1"] by simp
next
  case False
  with assms(1) have "r \<in> set step_of" by (auto simp: retain_from_step_def split: if_splits)
  with assms(2) show ?thesis by force
qed

section \<open>The checkpoint a run writes\<close>

lemma summary_content_visible: "trim_space (summary_content n s) \<noteq> []"
  by (simp add: trim_space_empty_iff summary_content_def is_space_def)

lemma appended_write_step:
  "appended (tr (write_step cfg w rq st s)) = appended (tr s) @
     [st\<lparr>step_index := step_idx s, session_id := rq_session_id rq, created_at := clock_ms w (tr s),
         step_content := redact_apply (cfg_redactor cfg) (step_content st)\<rparr>]"
  by (simp add: write_step_def Let_def split: option.splits)

lemma checkpoint_written:
  assumes comp: "cfg_compactor cfg = Some (Summarizing sc)"
    and run: "compact_history cfg w rq h step_of s = (s', h')"
    and new: "appended (tr s') = appended (tr s) @ [cp]"
  obtains split retain where "0 < split" "retain_from_step split step_of = Some retain"
    "h' = mk_message ''user'' (msg_content (hd h')) # drop (nat split) h"
    "step_type cp = step_type_summary" "tool_args cp = encode_checkpoint retain"
    "step_content cp = redact_apply (cfg_redactor cfg) (msg_content (hd h'))"
    "trim_space (msg_content (hd h')) \<noteq> []" "step_index cp = step_idx s"
proof -
  obtain out st where c: "compact sc h = (out, st)" by fastforce
  obtain res err where r: "run_compactor (Summarizing sc) (tr s) h = (res, err)" by fastforce
  then have out: "out = Some (res, err)"
    using compact_returns [of sc h] c by (auto simp: run_compactor_def)
  let ?s1 = "after_compact res (log_effect (ECompact h (res, err)) s)"
  have tr1: "appended (tr ?s1) = appended (tr s)" by (simp add: after_compact_def)
  note eq = compact_history_Some [OF comp r, of w rq step_of]
  from c show thesis
  proof (cases rule: compact_cases)
    case same
    then have "appended (tr s') = appended (tr s)"
      using run eq out tr1 by (auto simp: no_compaction_def checkpoint_step_def Let_def split: if_splits)
    with new show thesis by simp
  next
    case (failed r' e)
    then have "appended (tr s') = appended (tr s)" using run eq out tr1 by auto
    with new show thesis by simp
  next
    case (folded r' trigger keep split summary)
    then have res: "err = None" "cr_summary res = summary_content (nat split) summary"
        "cr_messages res = mk_message ''user'' (cr_summary res) # drop (nat split) h"
        "cr_retained_from res = split" using out by auto
    have vis: "trim_space (cr_summary res) \<noteq> []" unfolding res(2) by (rule summary_content_visible)
    then have ne: "cr_summary res \<noteq> []" by (auto simp: trim_space_def)
    obtain s2 b where p: "checkpoint_step cfg w rq res step_of ?s1 = (s2, b)" by fastforce
    have h': "h' = cr_messages res" and s': "appended (tr s') = appended (tr s2)"
      using run eq res p by (auto simp: Let_def split: if_splits)
    from h' res(3) have hd: "msg_content (hd h') = cr_summary res" by simp
    show thesis
    proof (cases "retain_from_step split step_of")
      case None
      then have "appended (tr s') = appended (tr s)" using p ne res(4) s' tr1 by (auto simp: checkpoint_step_def)
      with new show thesis by simp
    next
      case (Some retain)
      have "step_idx ?s1 = step_idx s" by (simp add: after_compact_def)
      then show thesis
        using that [OF folded(5) Some] p ne res s' tr1 new h' hd vis Some
        by (auto simp: checkpoint_step_def appended_write_step mk_step_def)
    qed
  qed
qed

lemma turns_user: "step_type u = ''user'' \<Longrightarrow> turns [u] = [(mk_message ''user'' (step_content u), step_index u)]"
  by (simp add: turn_of_def step_to_turn_def)

lemma turns_checkpoint: "step_type c = step_type_summary \<Longrightarrow> turns [c] = []"
  by (simp add: turn_of_summary)

text \<open>
  C7 A compaction survives its run: when a run of the summarizing compactor persisted a
  checkpoint, the next run replays the summary, the messages it kept, the message that
  started the compacting run and whatever that run did afterwards, and nothing else.  The trace
  must fit the window with increasing indices, as it does while a session is shorter than the
  window.
\<close>

theorem compaction_durable:
  assumes comp: "cfg_compactor cfg = Some (Summarizing sc)" and red: "cfg_redactor cfg = None"
    and reh: "rehydrate_history prior window = (h, step_of)"
    and run: "compact_history cfg w rq h step_of s = (s', h')"
    and new: "appended (tr s') = appended (tr s) @ [cp]"
    and user: "step_type user = ''user''"
    and inc: "increasing (prior @ [user, cp] @ later)"
    and win: "0 < window" "int (length (prior @ [user, cp] @ later)) \<le> window"
    and range: "\<forall>t \<in> set (prior @ [user]). 0 \<le> step_index t \<and> step_index t < 2 ^ 31 - 1"
    and earlier: "case last_checkpoint prior of None \<Rightarrow> True | Some (c, r0, at) \<Rightarrow> r0 \<le> at"
    and later: "list_all (\<lambda>t. step_type t \<noteq> step_type_summary) later"
  shows "fst (rehydrate_history (prior @ [user, cp] @ later) window)
    = h' @ [mk_message ''user'' (step_content user)] @ map fst (turns later)"
proof -
  obtain split retain where c: "0 < split" "retain_from_step split step_of = Some retain"
      "h' = mk_message ''user'' (msg_content (hd h')) # drop (nat split) h"
      "step_type cp = step_type_summary" "tool_args cp = encode_checkpoint retain"
      "step_content cp = msg_content (hd h')" "trim_space (msg_content (hd h')) \<noteq> []"
    using checkpoint_written [OF comp run new] red by (metis redact_apply_None(1))
  have wp: "int (length prior) \<le> window" using win by simp
  have incp: "increasing prior" and lt: "\<forall>t \<in> set prior. step_index t < step_index user"
    and gt: "\<forall>t \<in> set later. step_index user < step_index t"
    using inc by (auto simp: increasing_def sorted_wrt_append)
  have mem: "\<forall>x \<in> set step_of. 0 \<le> x \<and> x < step_index user"
    using step_of_in [OF win(1) wp reh] range lt by fastforce
  have b: "0 \<le> retain \<and> retain \<le> step_index user"
    using retain_from_step_le [OF c(2) mem] range by simp
  then have dec: "decode_checkpoint (tool_args cp) = Inr retain"
    unfolding c(5) using range by (intro decode_encode_checkpoint) auto
  have "trim_space (step_content cp) \<noteq> []" using c by simp
  from last_checkpoint_newest [OF c(4) this dec later]
  have cpt: "last_checkpoint (prior @ [user, cp] @ later) = Some (step_content cp, retain, step_index cp)"
    by (metis append.assoc append_Cons append_Nil)
  have earlier': "case last_checkpoint prior of None \<Rightarrow> True
      | Some (c, r0, at) \<Rightarrow> r0 \<le> at \<and> at < 2 ^ 31 - 1 \<and> 0 \<le> at"
    using earlier last_checkpoint_in range by (fastforce split: option.splits)
  have keep: "map fst (filter (retained (Some retain)) (turns prior)) = drop (nat split) h"
    by (rule retain_from_step_keeps [OF incp win(1) wp _ earlier' reh c(1,2)]) (use range in simp)
  have "filter (retained (Some retain)) (turns later) = turns later"
    by (rule filter_below(2)) (use turn_indices gt b in fastforce)
  then have "filter (retained (Some retain)) (turns (prior @ [user] @ [cp] @ later))
      = filter (retained (Some retain)) (turns prior)
        @ [(mk_message ''user'' (step_content user), step_index user)] @ turns later"
    using b unfolding turns_append turns_user [OF user] turns_checkpoint [OF c(4)]
    by (simp add: retained_def)
  moreover have all: "prior @ [user, cp] @ later = prior @ [user] @ [cp] @ later" by simp
  moreover have cov: "covered_from (prior @ [user, cp] @ later) = Some retain"
    unfolding covered_from_def cpt by simp
  ultimately have "map fst (replayed (prior @ [user, cp] @ later))
      = drop (nat split) h @ [mk_message ''user'' (step_content user)] @ map fst (turns later)"
    unfolding replayed_def cov all using keep by (simp del: turns_append turns_simps)
  then show ?thesis
    using rehydrate_replayed [OF win] cpt c(3,6) by simp
qed

section \<open>An instance\<close>

text \<open>A compactor over a model that always answers \<open>S\<close>, on a conversation of three messages.\<close>

definition sample_compactor :: summarizing_compactor where
  "sample_compactor =
     \<lparr>sc_llm = Some (\<lambda>_ _. (\<lparr>resp_content = ''S'', resp_model = [], input_tokens = 9, output_tokens = 1\<rparr>, None)),
      sc_model = [], sc_trigger = 2, sc_keep = 1, sc_prompt = ''p'', sc_merge_prompt = ''m'',
      sc_budget = zero_budget\<rparr>"

definition sample_config :: config where
  "sample_config =
     \<lparr>has_llm = True, has_sessions = True, has_steps = True, has_builder = True, cfg_policy = None,
      cfg_model = ''m'', cfg_max_iterations = 3, cfg_run_timeout = 0, cfg_history_window = 80,
      cfg_compactor = Some (Summarizing sample_compactor), cfg_budget = zero_budget, cfg_redactor = None\<rparr>"

definition sample_world :: world where
  "sample_world =
     \<lparr>get_session = (\<lambda>_ i. Inr \<lparr>sess_id = i, sess_model = [], sess_system_prompt = [], sess_data = [], sess_message_id = []\<rparr>),
      last_steps = (\<lambda>_ _ _. Inr []), append_step = (\<lambda>_ _. None), update_data = (\<lambda>_ _ _. None),
      finalize_session = (\<lambda>_ _ _. None), build_sandbox = (\<lambda>_ _ _. ([], None)),
      sandbox_prompt = (\<lambda>_. ''api''), execute_turn = (\<lambda>_ _ _. ([], Inr ([], ''{}''))),
      take_answer = (\<lambda>_. None),
      llm_stream = (\<lambda>_ _. ([''hi''], Inr \<lparr>resp_content = ''hi'', resp_model = [], input_tokens = 5, output_tokens = 1\<rparr>)),
      ctx_err = (\<lambda>_. None), clock_ms = (\<lambda>t. int (length t))\<rparr>"

definition sample_request :: run_request where
  "sample_request =
     \<lparr>rq_session_id = ''s'', rq_scope = \<lparr>workspace_id = [], project_id = []\<rparr>, rq_user_id = [],
      rq_message = ''go on'', rq_context = [], on_event = True\<rparr>"

definition sample_prior :: "run_step list" where
  "sample_prior =
     [(mk_step ''user'' ''a'')\<lparr>step_index := 0\<rparr>, (mk_step ''response'' ''b'')\<lparr>step_index := 1\<rparr>,
      (mk_step ''user'' ''c'')\<lparr>step_index := 2\<rparr>]"

definition sample_user :: run_step where
  "sample_user = (mk_step ''user'' ''go on'')\<lparr>step_index := 3\<rparr>"

definition sample_state :: run_state where
  "sample_state = (init_state sample_world)\<lparr>step_idx := 4\<rparr>"

lemma sample_rehydrate:
  "rehydrate_history sample_prior 80 =
     ([mk_message ''user'' ''a'', mk_message ''assistant'' ''b'', mk_message ''user'' ''c''], [0, 1, 2])"
  by code_simp

definition sample_checkpoint :: run_step where
  "sample_checkpoint =
     \<lparr>session_id = ''s'', step_index = 4, step_type = step_type_summary,
      step_content = summary_content 2 ''S'', tool_args = encode_checkpoint 2, duration_ms = 0,
      step_prompt_tokens = 0, step_completion_tokens = 0, created_at = 1\<rparr>"

definition sample_compaction :: "run_state \<times> message list" where
  "sample_compaction = compact_history sample_config sample_world sample_request
     [mk_message ''user'' ''a'', mk_message ''assistant'' ''b'', mk_message ''user'' ''c''] [0, 1, 2] sample_state"

lemma sample_compaction_writes: "appended (tr (fst sample_compaction)) = [sample_checkpoint]"
  by code_simp

lemma sample_trace:
  "increasing (sample_prior @ [sample_user, sample_checkpoint] @ [])"
  "list_all (\<lambda>t. 0 \<le> step_index t \<and> step_index t < 2 ^ 31 - 1) (sample_prior @ [sample_user])"
  "last_checkpoint sample_prior = None" "step_type sample_user = ''user''"
  by (unfold increasing_def, code_simp+)

theorem compaction_durable_witness:
  "fst (rehydrate_history (sample_prior @ [sample_user, sample_checkpoint] @ []) 80)
     = snd sample_compaction @ [mk_message ''user'' (step_content sample_user)] @ map fst (turns [])"
  by (rule compaction_durable [where sc = sample_compactor and cfg = sample_config and w = sample_world
        and rq = sample_request and s = sample_state and s' = "fst sample_compaction", OF _ _ sample_rehydrate])
    (use sample_trace sample_compaction_writes in
      \<open>simp_all add: sample_config_def sample_compaction_def list_all_iff sample_state_def sample_prior_def\<close>)

end
