(* ===== verification/Loop_Retries.thy ===== *)
theory Loop_Retries
  imports Loop_Properties
begin

text \<open>
  The bound on empty replies: a run accepts two of them and gives up on the third.
\<close>

fun blanks :: "trace \<Rightarrow> nat" where
  "blanks [] = 0"
| "blanks (EStream _ (Inr resp) # t) = (if trim_space (resp_content resp) = [] then Suc (blanks t) else blanks t)"
| "blanks (_ # t) = blanks t"

lemma quiet_blanks: "quiet cfg rq s s' \<Longrightarrow> blanks (tr s') = blanks (tr s)"
  by (induction rule: quiet.induct) (auto simp: after_exec_def after_compact_def split: sum.splits)

lemma quiets_blanks: "quiets cfg rq s s' \<Longrightarrow> blanks (tr s') = blanks (tr s)"
  by (induction rule: rtranclp_induct) (auto simp: quiet_blanks)

lemma blanks_emit [simp]: "blanks (tr (emit cfg rq e s)) = blanks (tr s)"
  by (simp add: emit_def)

lemma ends_blanks: "ends cfg w rq status final s s' out \<Longrightarrow> blanks (tr s') = blanks (tr s)"
  by (auto simp: ends_def finalize_def emit_done_def Let_def split: option.splits if_splits)

lemma concludes_blanks: "concludes cfg w rq s s' out err \<Longrightarrow> blanks (tr s') = blanks (tr s)"
  using quiets_blanks ends_blanks unfolding concludes_def by metis

section \<open>The retry counter\<close>

lemma retries_frame [simp]:
  "empty_retries (write_step cfg w rq st s) = empty_retries s"
  "empty_retries (emit_sandbox_events cfg rq es s) = empty_retries s"
  "empty_retries (persist_data cfg w rq blob s) = empty_retries s"
  "empty_retries (count_usage r s) = empty_retries s"
proof -
  show "empty_retries (write_step cfg w rq st s) = empty_retries s"
    by (simp add: write_step_def Let_def split: option.splits)
  show "empty_retries (emit_sandbox_events cfg rq es s) = empty_retries s"
    unfolding emit_sandbox_events_def
    by (induction es arbitrary: s) (simp_all add: emit_sandbox_event_def)
  show "empty_retries (persist_data cfg w rq blob s) = empty_retries s"
    by (simp add: persist_data_def Let_def split: option.splits json.splits)
qed (simp add: count_usage_def)

lemma retries_exec: "exec_turn cfg w rq code s = (s', c, b) \<Longrightarrow> empty_retries s' = empty_retries s"
  by (auto simp: exec_turn_def Let_def split: prod.splits sum.splits)

lemma retries_script: "script_turn cfg w rq reply code s = (s', Again) \<Longrightarrow> empty_retries s' = empty_retries s"
  by (auto simp: script_turn_def Let_def dest!: retries_exec split: prod.splits option.splits)

lemma retries_assemble: "assemble sp bl s = (s', ms) \<Longrightarrow> empty_retries s' = empty_retries s"
  by (auto simp: assemble_def Let_def split: if_splits)

lemma retries_fit: "fit_budget cfg rq ms s = Some (s', ms') \<Longrightarrow> empty_retries s' = empty_retries s"
  by (auto simp: fit_budget_def Let_def split: option.splits if_splits)

lemma retries_stream:
  assumes "stream_turn cfg w rq model ms s = (s', out)"
  shows "empty_retries s' = empty_retries s \<and> last_final s' = last_final s
    \<and> blanks (tr s') = blanks (tr s) +
        (case out of Inl _ \<Rightarrow> 0 | Inr resp \<Rightarrow> if trim_space (resp_content resp) = [] then 1 else 0)"
proof -
  let ?emits = "\<lambda>cs. fold (\<lambda>c. log_effect (EEmit (mk_event ''response_chunk'' c))) cs"
  have f: "empty_retries (?emits cs s) = empty_retries s \<and> last_final (?emits cs s) = last_final s
      \<and> blanks (tr (?emits cs s)) = blanks (tr s)" for cs s
    by (induction cs arbitrary: s) simp_all
  show ?thesis using assms by (auto simp: stream_turn_def Let_def f split: prod.splits sum.splits)
qed

lemma reply_blanks:
  assumes "reply_turn cfg w rq reply s = (s', o')" and "last_final s = []"
  shows "blanks (tr s') = blanks (tr s)
    \<and> (o' = Again \<longrightarrow> empty_retries s' = (if trim_space reply = [] then empty_retries s + 1 else empty_retries s)
                      \<and> (trim_space reply = [] \<longrightarrow> empty_retries s < 2))
    \<and> (\<forall>out err. o' = Stop out err \<longrightarrow> trim_space reply = [] \<longrightarrow>
          err = Some err_empty_response \<and> empty_retries s \<ge> 2)"
proof (intro conjI)
  show "blanks (tr s') = blanks (tr s)"
    using reply_turn_steps [OF assms] quiets_blanks concludes_blanks by metis
  show "o' = Again \<longrightarrow> empty_retries s' = (if trim_space reply = [] then empty_retries s + 1 else empty_retries s)
      \<and> (trim_space reply = [] \<longrightarrow> empty_retries s < 2)"
    using assms(1)
    by (auto simp: reply_turn_def Let_def dest: retries_script split: if_splits prod.splits)
  show "\<forall>out err. o' = Stop out err \<longrightarrow> trim_space reply = [] \<longrightarrow>
      err = Some err_empty_response \<and> empty_retries s \<ge> 2"
    using assms(1) by (auto simp: reply_turn_def Let_def split: if_splits prod.splits)
qed

definition retrying :: "run_state \<Rightarrow> bool" where
  "retrying s = (blanks (tr s) = empty_retries s \<and> empty_retries s \<le> 2 \<and> last_final s = [])"

definition gave_up :: "run_state \<Rightarrow> bytes option \<Rightarrow> bool" where
  "gave_up s err = (blanks (tr s) \<le> 2 \<or> blanks (tr s) = 3 \<and> err = Some err_empty_response)"

lemma turn_blanks:
  assumes "run_turn cfg w rq sp model bl s = (s', o')" and "retrying s"
  shows "(o' = Again \<longrightarrow> retrying s') \<and> (\<forall>out err. o' = Stop out err \<longrightarrow> gave_up s' err)"
proof -
  have lf: "last_final s = []" using assms(2) by (simp add: retrying_def)
  obtain sa ms where a: "assemble sp bl s = (sa, ms)" by fastforce
  from assemble_quiets [OF a] obtain ms' where
    qa: "quiets cfg rq s sa" "ms = mk_message ''system'' sp # ms'" by blast
  then obtain sb mb where b: "fit_budget cfg rq ms sa = Some (sb, mb)"
    using fit_budget_None [of ms cfg rq sa] by auto
  from fit_budget_quiets [OF b] have qb: "quiets cfg rq sa sb" by blast
  obtain sc out where c: "stream_turn cfg w rq model mb sb = (sc, out)" by fastforce
  have sb: "blanks (tr sb) = empty_retries sb" "empty_retries sb \<le> 2"
    using assms(2) quiets_blanks [OF qa(1)] quiets_blanks [OF qb] retries_assemble [OF a] retries_fit [OF b]
    by (simp_all add: retrying_def)
  note sc = retries_stream [OF c]
  have lfc: "last_final (after_stream out sc) = []"
    using lf quiets_last_final [OF quiets_trans [OF qa(1) qb]] sc by simp
  show ?thesis
  proof (cases out)
    case (Inl e)
    obtain sd r where d: "fail_run cfg w rq ''error'' e sc = (sd, r)" by fastforce
    have "blanks (tr sd) = blanks (tr sc)"
      using concludes_blanks [OF fail_run_concludes [OF d]] lfc Inl by (simp add: after_stream_def)
    then show ?thesis using assms(1) a b c d Inl sb sc by (auto simp: run_turn_def gave_up_def)
  next
    case (Inr resp)
    then have r: "reply_turn cfg w rq (resp_content resp) (after_stream out sc) = (s', o')"
      using assms(1) a b c by (simp add: run_turn_def after_stream_def)
    have f: "blanks (tr (after_stream out sc)) = blanks (tr sc)"
        "empty_retries (after_stream out sc) = empty_retries sb"
      using sc Inr by (simp_all add: after_stream_def count_usage_def)
    have lf': "last_final s' = []" if "o' = Again"
      using reply_turn_steps [OF r lfc] quiets_last_final lfc that by fastforce
    show ?thesis using reply_blanks [OF r lfc] f sb sc Inr lf'
      by (auto simp: retrying_def gave_up_def split: if_splits)
  qed
qed

lemma loop_blanks:
  assumes "run_loop cfg w rq sp model bl n s = (s', Returned out err)" and "retrying s"
  shows "gave_up s' err"
  using assms
proof (induction n arbitrary: s)
  case 0
  obtain s2 r where f: "fail_run cfg w rq ''max_iterations'' (exceeded_message cfg) s = (s2, r)" by fastforce
  obtain s1 where "quiets cfg rq s s1" "ends cfg w rq ''max_iterations'' (last_final s) s1 s2 r"
    by (rule fail_run_ends [OF f]) auto
  then have "blanks (tr s2) = blanks (tr s)" using quiets_blanks ends_blanks by metis
  then show ?case using 0 f by (auto simp: gave_up_def retrying_def)
next
  case (Suc n)
  show ?case
  proof (cases "ctx_err w (tr s)")
    case (Some e)
    have "blanks (tr (fst (finalize cfg w rq status u))) = blanks (tr u)" for status u
      by (simp add: finalize_def Let_def split: option.splits)
    then show ?thesis using Suc.prems Some
      by (auto simp: gave_up_def retrying_def split: prod.splits) (metis blanks_emit fst_conv)+
  next
    case None
    obtain s2 o2 where t: "run_turn cfg w rq sp model bl s = (s2, o2)" by fastforce
    from turn_blanks [OF t Suc.prems(2)] show ?thesis
      using Suc.prems(1) None t Suc.IH [of s2] by (cases o2) auto
  qed
qed

lemma opened_retrying: "retrying (opened cfg w rq)"
proof -
  have "blanks (tr (open_state cfg w rq)) = 0 \<and> empty_retries (open_state cfg w rq) = 0"
    by (simp add: open_state_def load_history_def init_state_def Let_def split: sum.splits)
  then show ?thesis
    using quiets_blanks [OF write_step_quiets [where s = "open_state cfg w rq" and w = w and cfg = cfg and rq = rq]]
      opened_last_final [of cfg w rq]
    by (simp add: opened_def retrying_def)
qed

lemma session_blanks:
  assumes "run_session cfg w rq sess prior s = (s', Returned out err)" and "retrying s"
  shows "gave_up s' err"
proof -
  let ?s1 = "log_effect (ESetPolicy (cfg_policy cfg)) s"
  let ?sp = "compose_system_prompt (sess_system_prompt sess) (sandbox_prompt w (tr ?s1))"
  let ?sp = "if rq_context rq \<noteq> [] then ?sp @ newline @ newline @ rq_context rq else ?sp"
  let ?s2 = "?s1\<lparr>sys_prompt_captured := ?sp\<rparr>"
  obtain h0 step_of where r: "rehydrate_history prior (cfg_history_window cfg) = (h0, step_of)" by fastforce
  obtain s3 h where c: "compact_history cfg w rq h0 step_of ?s2 = (s3, h)" by fastforce
  let ?s4 = "s3\<lparr>history := h @ [mk_message ''user'' (rq_message rq)]\<rparr>"
  let ?model = "if sess_model sess = [] then cfg_model cfg else sess_model sess"
  have "empty_retries s3 = empty_retries ?s2"
    using c by (auto simp: compact_history_def Let_def split: option.splits if_splits prod.splits)
  moreover have "blanks (tr s3) = blanks (tr ?s2)" "last_final s3 = last_final ?s2"
    using compact_history_quiets [OF c] quiets_blanks quiets_last_final by metis+
  ultimately have "retrying ?s4" using assms(2) by (simp add: retrying_def)
  moreover obtain s5 where "run_loop cfg w rq ?sp ?model (length (history ?s4)) (nat (cfg_max_iterations cfg)) ?s4
      = (s5, Returned out err)" "s' = log_effect ECleanup s5"
    using assms(1) r c by (simp add: run_session_def Let_def split: prod.splits)
  ultimately have "gave_up s5 err" using loop_blanks by blast
  then show ?thesis by (simp add: gave_up_def \<open>s' = log_effect ECleanup s5\<close>)
qed

text \<open>
  A run survives at most two empty replies of the model; the third one ends it with
  \<open>ErrEmptyResponse\<close>, so that an empty reply is never reported as an answer.
\<close>

theorem run_empty_replies:
  "case run cfg w rq of
     (s, Panicked) \<Rightarrow> False
   | (s, Returned out err) \<Rightarrow>
       blanks (tr s) \<le> 2 \<or> blanks (tr s) = 3 \<and> err = Some err_empty_response"
proof (cases "get_session w [] (rq_session_id rq)")
  case (Inl e)
  then show ?thesis by (simp add: run_def init_state_def)
next
  case (Inr sess)
  let ?s1 = "emit cfg rq (mk_event ''user'' (rq_message rq)) (opened cfg w rq)"
  obtain evts err where b: "build_sandbox w (tr ?s1) sess (rq_scope rq) = (evts, err)" by fastforce
  let ?s2 = "emit_sandbox_events cfg rq evts (log_effect (EBuild sess (rq_scope rq)) ?s1)"
  have eq: "run cfg w rq = run_with_sandbox cfg w rq sess (prior_steps cfg w rq) ?s1"
    by (simp add: run_def init_state_def Inr opened_def open_state_def prior_steps_def split_beta Let_def)
  have q: "quiets cfg rq (opened cfg w rq) ?s2"
    by (rule quiets_trans [OF quiets_step [OF emit_quiets q_build] sandbox_events_quiets]) simp
  then have s2: "retrying ?s2"
    using opened_retrying [of cfg w rq] quiets_blanks [OF q] quiets_last_final [OF q] by (simp add: retrying_def)
  show ?thesis
  proof (cases err)
    case None
    obtain s' o' where r: "run_session cfg w rq sess (prior_steps cfg w rq) ?s2 = (s', o')" by fastforce
    have "last_final ?s2 = []" using s2 by (simp add: retrying_def)
    from run_session_finishes [OF r this] obtain out e where o': "o' = Returned out e" by blast
    from session_blanks [OF r [unfolded o'] s2] show ?thesis
      using eq b None r o' by (simp add: run_with_sandbox_def gave_up_def)
  next
    case (Some e)
    have "blanks (tr (fst (finalize cfg w rq status u))) = blanks (tr u)" for status u
      by (simp add: finalize_def Let_def split: option.splits)
    then have "blanks (tr (fst (finalize cfg w rq ''error'' ?s2))) \<le> 2"
      using s2 by (simp add: retrying_def)
    then show ?thesis using eq b Some by (auto simp: run_with_sandbox_def split: prod.splits)
  qed
qed

end
