(* ===== verification/Go_Time.thy ===== *)
theory Go_Time
  imports Go_Strings
begin

text \<open>
  The part of Go's package \<open>time\<close> the stores use.  An instant is its Unix time in
  milliseconds, the resolution the loop reads durations at; \<open>zero_time\<close> is the zero
  \<open>time.Time\<close>, midnight of January 1 of year 1.  \<open>time_text\<close> is
  \<open>t.UTC().Format(time.RFC3339Nano)\<close> for years from 0 to 9999: the proleptic Gregorian date,
  the time of day, and the fraction of the second without trailing zeros.
\<close>

definition zero_time :: int where
  "zero_time = - 62135596800000"

definition pad_digits :: "nat \<Rightarrow> int \<Rightarrow> bytes" where
  "pad_digits w n = (let s = itoa n in replicate (w - length s) (CHR ''0'') @ s)"

text \<open>Year, month and day of a day number, counted from 1970-01-01 (day of era, year of era).\<close>

definition civil_date :: "int \<Rightarrow> int \<times> int \<times> int" where
  "civil_date days =
     (let z = days + 719468;
          doe = z mod 146097;
          yoe = (doe - doe div 1460 + doe div 36524 - doe div 146096) div 365;
          doy = doe - (365 * yoe + yoe div 4 - yoe div 100);
          mp = (5 * doy + 2) div 153;
          d = doy - (153 * mp + 2) div 5 + 1;
          m = (if mp < 10 then mp + 3 else mp - 9);
          y = yoe + 400 * (z div 146097)
      in (if m \<le> 2 then y + 1 else y, m, d))"

text \<open>The fraction \<open>.999999999\<close>: no trailing zeros, nothing at all when it is zero.\<close>

definition fraction_text :: "int \<Rightarrow> bytes" where
  "fraction_text ms =
     (if ms = 0 then []
      else CHR ''.'' # rev (dropWhile (\<lambda>c. c = CHR ''0'') (rev (pad_digits 3 ms))))"

definition seconds_text :: "int \<Rightarrow> bytes" where
  "seconds_text secs =
     (let (y, m, d) = civil_date (secs div 86400); s = secs mod 86400 in
      pad_digits 4 y @ ''-'' @ pad_digits 2 m @ ''-'' @ pad_digits 2 d @ ''T'' @
      pad_digits 2 (s div 3600) @ '':'' @ pad_digits 2 (s div 60 mod 60) @ '':'' @ pad_digits 2 (s mod 60))"

definition time_text :: "int \<Rightarrow> bytes" where
  "time_text t = seconds_text (t div 1000) @ fraction_text (t mod 1000) @ ''Z''"

end
