(* ===== verification/Store_Contract.thy ===== *)
theory Store_Contract
  imports Loop_Config Go_Time
begin

text \<open>
  What the loop relies on of its stores: the interfaces \<open>StepStore\<close> and \<open>SessionStore\<close> of
  \<open>store.go\<close> with the guarantees their documentation and the harnesses of
  \<open>agentlooptest/contract.go\<close> and \<open>agentlooptest/session_contract.go\<close> state.  A store is
  free to stamp the creation time of a step that has none; everything else of a step survives.  Every lemma below holds of every store that keeps the contract; the stores
  of the repository are shown to in \<open>Mem_Stores\<close> and \<open>Sql_Store\<close>.
\<close>

section \<open>Steps\<close>

text \<open>A step but for the time it was created.\<close>

definition untimed :: "run_step \<Rightarrow> run_step" where
  "untimed x = x\<lparr>created_at := zero_time\<rparr>"

lemma untimed_fields [simp]:
  "session_id (untimed x) = session_id x" "step_index (untimed x) = step_index x"
  "step_type (untimed x) = step_type x" "step_content (untimed x) = step_content x"
  "tool_args (untimed x) = tool_args x" "untimed (untimed x) = untimed x"
  by (simp_all add: untimed_def)

lemma untimed_session: "untimed y = untimed x \<Longrightarrow> session_id y = session_id x"
  by (metis untimed_fields(1))

text \<open>What the loop replays does not depend on the times.\<close>

lemma step_to_turn_untimed [simp]: "step_to_turn (untimed x) = step_to_turn x"
  by (simp add: step_to_turn_def)

lemma last_checkpoint_rev_untimed [simp]: "last_checkpoint_rev (map untimed xs) = last_checkpoint_rev xs"
  by (induction xs) (auto split: sum.splits)

lemma replay_steps_untimed [simp]: "replay_steps r (map untimed xs) = replay_steps r xs"
  by (induction xs) (auto split: option.splits)

lemma last_n_map: "last_n n (map f xs) = map f (last_n n xs)"
  by (simp add: last_n_def drop_map)

lemma rehydrate_untimed: "rehydrate_history (map untimed xs) window = rehydrate_history xs window"
  by (simp add: rehydrate_history_def Let_def last_n_map last_checkpoint_def rev_map split: option.split)

locale step_store =
  fixes fresh :: 'st and inv :: "'st \<Rightarrow> bool"
    and add :: "'st \<Rightarrow> run_step \<Rightarrow> 'st" and recent :: "'st \<Rightarrow> bytes \<Rightarrow> int \<Rightarrow> run_step list"
  assumes inv_fresh: "inv fresh"
    and inv_add: "inv st \<Longrightarrow> inv (add st x)"
    and recent_fresh: "recent fresh i n = []"
    and recent_add: "inv st \<Longrightarrow> \<exists>y. untimed y = untimed x \<and> (created_at x \<noteq> zero_time \<longrightarrow> y = x)
      \<and> (\<forall>i. recent (add st x) i 0 = (if session_id x = i then recent st i 0 @ [y] else recent st i 0))"
    and recent_window: "inv st \<Longrightarrow> recent st i n =
      (if n \<le> 0 then recent st i 0 else last_n (nat n) (recent st i 0))"
begin

lemma inv_adds: "inv st \<Longrightarrow> inv (foldl add st xs)"
  by (induction xs arbitrary: st) (auto simp: inv_add)

lemma recent_add_untimed:
  "inv st \<Longrightarrow> map untimed (recent (add st x) i 0) =
     map untimed (recent st i 0) @ (if session_id x = i then [untimed x] else [])"
  using recent_add [of st x] by auto

text \<open>A session's trace is exactly what was appended to it, in order.\<close>

lemma recent_adds:
  "inv st \<Longrightarrow> map untimed (recent (foldl add st xs) i 0)
     = map untimed (recent st i 0) @ map untimed (filter (\<lambda>x. session_id x = i) xs)"
  by (induction xs arbitrary: st) (auto simp: recent_add_untimed inv_add)

lemma recent_adds_timed:
  "inv st \<Longrightarrow> \<forall>x \<in> set xs. created_at x \<noteq> zero_time \<Longrightarrow>
     recent (foldl add st xs) i 0 = recent st i 0 @ filter (\<lambda>x. session_id x = i) xs"
proof (induction xs arbitrary: st)
  case (Cons x xs)
  then show ?case using recent_add [OF Cons.prems(1), of x] by (auto simp: inv_add)
qed simp

text \<open>Sessions are isolated.\<close>

lemma recent_other:
  assumes "inv st" and "\<forall>x \<in> set xs. session_id x \<noteq> i"
  shows "recent (foldl add st xs) i n = recent st i n"
  using assms
proof (induction xs arbitrary: st)
  case (Cons x xs)
  then have "recent (add st x) i 0 = recent st i 0" using recent_add [OF Cons.prems(1), of x] by auto
  then have "recent (add st x) i n = recent st i n"
    using recent_window [OF inv_add [OF Cons.prems(1)], of x i n] recent_window [OF Cons.prems(1), of i n] by simp
  then show ?case using Cons by (simp add: inv_add)
qed simp

lemma recent_length: "inv st \<Longrightarrow> 0 < n \<Longrightarrow> int (length (recent st i n)) = min n (int (length (recent st i 0)))"
  by (subst recent_window) auto

lemma recent_suffix: "inv st \<Longrightarrow> suffix (recent st i n) (recent st i 0)"
  by (subst recent_window) (simp_all add: suffix_last_n)

end

section \<open>Sessions\<close>

definition zero_session :: session where
  "zero_session = \<lparr>sess_id = [], sess_model = [], sess_system_prompt = [], sess_data = [], sess_message_id = []\<rparr>"

lemma zero_session_data [simp]: "sess_data zero_session = []"
  by (simp add: zero_session_def)

locale session_store =
  fixes fresh_s :: 'st and inv_s :: "'st \<Rightarrow> bool"
    and lookup :: "'st \<Rightarrow> bytes \<Rightarrow> session" and present :: "'st \<Rightarrow> bytes \<Rightarrow> bool"
    and put_data :: "'st \<Rightarrow> bytes \<Rightarrow> bytes \<Rightarrow> 'st" and put_final :: "'st \<Rightarrow> bytes \<Rightarrow> finalize_summary \<Rightarrow> 'st"
  assumes inv_fresh_s: "inv_s fresh_s"
    and inv_put_data: "inv_s st \<Longrightarrow> inv_s (put_data st i d)"
    and inv_put_final: "inv_s st \<Longrightarrow> inv_s (put_final st i f)"
    and absent_fresh: "\<not> present fresh_s i"
    and absent_zero: "inv_s st \<Longrightarrow> \<not> present st i \<Longrightarrow> lookup st i = zero_session"
    and present_put: "inv_s st \<Longrightarrow> present (put_data st i d) j \<longleftrightarrow> i = j \<or> present st j"
    and lookup_put: "inv_s st \<Longrightarrow> lookup (put_data st i d) j =
      (if i = j then (lookup st j)\<lparr>sess_id := i, sess_data := d\<rparr> else lookup st j)"
    and final_keeps: "inv_s st \<Longrightarrow> sess_data (lookup (put_final st i f) j) = sess_data (lookup st j)"
    and final_others: "inv_s st \<Longrightarrow> i \<noteq> j \<Longrightarrow> lookup (put_final st i f) j = lookup st j"
begin

lemma lookup_fresh: "lookup fresh_s i = zero_session"
  by (simp add: absent_zero absent_fresh inv_fresh_s)

text \<open>Working memory survives the end of a run: the last snapshot written is the one read.\<close>

lemma data_survives_final:
  "inv_s st \<Longrightarrow> sess_data (lookup (put_final (put_data st i d) i f) i) = d"
  by (simp add: final_keeps inv_put_data lookup_put)

lemma put_data_twice: "inv_s st \<Longrightarrow> lookup (put_data (put_data st i d) i e) j = lookup (put_data st i e) j"
  by (simp add: lookup_put inv_put_data)

end

section \<open>Both in one state\<close>

text \<open>
  A deployment hands the loop one store of each kind.  When they share their state, writing to
  the one does not disturb what the other answers.
\<close>

datatype store_op =
    Add_step run_step
  | Put_data bytes bytes
  | Put_final bytes finalize_summary

locale loop_store = step_store fresh inv add recent
    + session_store fresh inv lookup present put_data put_final
  for fresh :: 'st and inv add recent lookup present put_data put_final +
  assumes add_keeps_data: "inv st \<Longrightarrow> sess_data (lookup (add st x) i) = sess_data (lookup st i)"
    and put_keeps_steps: "inv st \<Longrightarrow> recent (put_data st i d) j n = recent st j n"
    and final_keeps_steps: "inv st \<Longrightarrow> recent (put_final st i f) j n = recent st j n"
begin

definition perform :: "'st \<Rightarrow> store_op \<Rightarrow> 'st" where
  "perform st a = (case a of Add_step x \<Rightarrow> add st x | Put_data i d \<Rightarrow> put_data st i d
     | Put_final i f \<Rightarrow> put_final st i f)"

end

text \<open>What a sequence of operations leaves behind: the reference the stores are compared with.\<close>

fun trace_of :: "bytes \<Rightarrow> store_op list \<Rightarrow> run_step list" where
  "trace_of i [] = []"
| "trace_of i (Add_step x # ops) = (if session_id x = i then x # trace_of i ops else trace_of i ops)"
| "trace_of i (_ # ops) = trace_of i ops"

definition latest_data :: "bytes \<Rightarrow> bytes \<Rightarrow> store_op list \<Rightarrow> bytes" where
  "latest_data i d ops =
     foldl (\<lambda>d a. case a of Put_data j e \<Rightarrow> if i = j then e else d | _ \<Rightarrow> d) d ops"

context loop_store begin

lemma inv_perform: "inv st \<Longrightarrow> inv (perform st a)"
  by (simp add: perform_def inv_add inv_put_data inv_put_final split: store_op.split)

lemma inv_performs: "inv st \<Longrightarrow> inv (foldl perform st ops)"
  by (induction ops arbitrary: st) (auto simp: inv_perform)

lemma recent_performs:
  "inv st \<Longrightarrow> map untimed (recent (foldl perform st ops) i 0)
     = map untimed (recent st i 0) @ map untimed (trace_of i ops)"
proof (induction ops arbitrary: st)
  case (Cons a ops)
  then show ?case
    by (cases a) (auto simp: perform_def recent_add_untimed put_keeps_steps final_keeps_steps inv_add
        inv_put_data inv_put_final)
qed simp

lemma data_performs:
  "inv st \<Longrightarrow> sess_data (lookup (foldl perform st ops) i) = latest_data i (sess_data (lookup st i)) ops"
proof (induction ops arbitrary: st)
  case (Cons a ops)
  then show ?case
    by (cases a) (auto simp: perform_def add_keeps_data lookup_put final_keeps latest_data_def inv_add
        inv_put_data inv_put_final)
qed (simp add: latest_data_def)

text \<open>So after the same operations every store gives the loop the same history and memory.\<close>

lemma observed:
  "map untimed (recent (foldl perform fresh ops) i n)
     = map untimed (if n \<le> 0 then trace_of i ops else last_n (nat n) (trace_of i ops))"
  "sess_data (lookup (foldl perform fresh ops) i) = latest_data i [] ops"
  using recent_performs [OF inv_fresh, of ops i] recent_window [OF inv_performs [OF inv_fresh], of ops i n]
    data_performs [OF inv_fresh, of ops i]
  by (auto simp: recent_fresh lookup_fresh zero_session_def simp flip: last_n_map)

end

end
