(* ===== verification/Sql_Store.thy ===== *)
theory Sql_Store
  imports Store_Contract "HOL-Library.Product_Lexorder"
begin

text \<open>
  \<open>agentloopsql\<close> (\<open>sqlite.go\<close>, \<open>sessions.go\<close>, \<open>grants.go\<close>): both stores over the tables of
  one SQLite database.  A table is the list of its rows; the statements are written out as
  what SQLite documents of them: an insert that meets a conflict on the primary key updates
  that row, text is compared byte by byte, a negative \<open>LIMIT\<close> is none, an \<open>AUTOINCREMENT\<close>
  key was never used before, a transaction that is rolled back leaves no trace.  A time column
  holds the text of an instant and is read back as that instant, so it is kept as the instant
  and compared through \<open>time_text\<close>.  The driver may refuse any statement: \<open>refuses k\<close> is its
  error for the \<open>k\<close>-th statement of a call.  The store's clock is read at most twice in a
  call; \<open>reads k\<close> is the \<open>k\<close>-th reading.  The connection setup of \<open>Open\<close> (the DSN, the
  write-ahead log pragma) has no effect on what a call answers and is left out.
\<close>

section \<open>The tables\<close>

record session_row =
  row_id :: bytes
  row_model :: bytes
  row_system_prompt :: bytes
  row_data :: "bytes option"
  row_message_id :: bytes
  row_created_at :: int
  row_updated_at :: int
  row_status :: bytes
  row_prompt_tokens :: int
  row_completion_tokens :: int
  row_step_count :: int
  row_duration_ms :: int
  row_data_bytes :: int

record step_row =
  step_key :: nat
  row_step :: run_step

record grant_row =
  grant_session :: bytes
  grant_prompt :: bytes
  granted_at :: int

record database =
  db_sessions :: "session_row list"
  db_steps :: "step_row list"
  db_next_key :: nat
  db_grants :: "grant_row list"

definition empty_db :: database where
  "empty_db = \<lparr>db_sessions = [], db_steps = [], db_next_key = 1, db_grants = []\<rparr>"

record connection =
  refuses :: "nat \<Rightarrow> bytes option"
  reads :: "nat \<Rightarrow> int"

datatype sql_error = Db_error bytes | No_session bytes

text \<open>The columns an \<open>INSERT INTO sessions (id, created_at, updated_at)\<close> leaves at their defaults.\<close>

definition new_row :: "bytes \<Rightarrow> int \<Rightarrow> session_row" where
  "new_row i now =
     \<lparr>row_id = i, row_model = [], row_system_prompt = [], row_data = None, row_message_id = [],
      row_created_at = now, row_updated_at = now, row_status = [], row_prompt_tokens = 0,
      row_completion_tokens = 0, row_step_count = 0, row_duration_ms = 0, row_data_bytes = 0\<rparr>"

text \<open>\<open>INSERT \<dots> ON CONFLICT(id) DO UPDATE\<close>.\<close>

fun upsert :: "session_row \<Rightarrow> (session_row \<Rightarrow> session_row) \<Rightarrow> session_row list \<Rightarrow> session_row list" where
  "upsert new upd [] = [new]"
| "upsert new upd (r # rs) = (if row_id r = row_id new then upd r # rs else r # upsert new upd rs)"

text \<open>\<open>LIMIT ?\<close>.\<close>

definition limit :: "int \<Rightarrow> 'a list \<Rightarrow> 'a list" where
  "limit n xs = (if n < 0 then xs else take (nat n) xs)"

section \<open>SessionStore\<close>

definition find_session :: "database \<Rightarrow> bytes \<Rightarrow> session_row option" where
  "find_session db i = find (\<lambda>r. row_id r = i) (db_sessions db)"

definition sql_get :: "connection \<Rightarrow> database \<Rightarrow> bytes \<Rightarrow> sql_error + session" where
  "sql_get c db i =
     (case refuses c 0 of
        Some e \<Rightarrow> Inl (Db_error (''agentloopsql: get session '' @ i @ '': '' @ e))
      | None \<Rightarrow>
          (case find_session db i of
             None \<Rightarrow> Inr zero_session
           | Some r \<Rightarrow> Inr \<lparr>sess_id = row_id r, sess_model = row_model r,
                            sess_system_prompt = row_system_prompt r,
                            sess_data = (case row_data r of None \<Rightarrow> [] | Some d \<Rightarrow> d),
                            sess_message_id = row_message_id r\<rparr>))"

definition sql_exists :: "connection \<Rightarrow> database \<Rightarrow> bytes \<Rightarrow> sql_error + bool" where
  "sql_exists c db i =
     (case refuses c 0 of
        Some e \<Rightarrow> Inl (Db_error (''agentloopsql: session exists '' @ i @ '': '' @ e))
      | None \<Rightarrow> Inr (find_session db i \<noteq> None))"

definition sql_update_data ::
    "connection \<Rightarrow> database \<Rightarrow> bytes \<Rightarrow> bytes \<Rightarrow> database \<times> sql_error option" where
  "sql_update_data c db i snap =
     (case refuses c 0 of
        Some e \<Rightarrow> (db, Some (Db_error (''agentloopsql: update session data '' @ i @ '': '' @ e)))
      | None \<Rightarrow>
          let now = reads c 0 in
          (db\<lparr>db_sessions := upsert ((new_row i now)\<lparr>row_data := Some snap\<rparr>)
                 (\<lambda>r. r\<lparr>row_data := Some snap, row_updated_at := now\<rparr>) (db_sessions db)\<rparr>, None))"

definition summary_columns :: "finalize_summary \<Rightarrow> session_row \<Rightarrow> session_row" where
  "summary_columns summary r =
     r\<lparr>row_status := fs_status summary, row_prompt_tokens := fs_prompt_tokens summary,
       row_completion_tokens := fs_completion_tokens summary, row_step_count := fs_step_count summary,
       row_duration_ms := fs_duration_ms summary, row_data_bytes := fs_data_bytes summary\<rparr>"

definition sql_finalize ::
    "connection \<Rightarrow> database \<Rightarrow> bytes \<Rightarrow> finalize_summary \<Rightarrow> database \<times> sql_error option" where
  "sql_finalize c db i summary =
     (case refuses c 0 of
        Some e \<Rightarrow> (db, Some (Db_error (''agentloopsql: finalize session '' @ i @ '': '' @ e)))
      | None \<Rightarrow>
          let now = reads c 0 in
          (db\<lparr>db_sessions := upsert (summary_columns summary (new_row i now))
                 (\<lambda>r. summary_columns summary (r\<lparr>row_updated_at := now\<rparr>)) (db_sessions db)\<rparr>, None))"

section \<open>StepStore\<close>

text \<open>
  Statement 0 begins the transaction, 1 touches the session, 2 inserts the step, 3 commits;
  whatever fails before the commit is rolled back by the deferred \<open>Rollback\<close>.  That a commit the
  driver refuses leaves nothing behind is an assumption on the driver, which sqlite meets.
\<close>

definition sql_append :: "connection \<Rightarrow> database \<Rightarrow> run_step \<Rightarrow> database \<times> sql_error option" where
  "sql_append c db step =
     (let stamped = created_at step = zero_time;
          created = (if stamped then reads c 0 else created_at step);
          now = (if stamped then reads c 1 else reads c 0)
      in
      case refuses c 0 of
        Some e \<Rightarrow> (db, Some (Db_error (''agentloopsql: append step: '' @ e)))
      | None \<Rightarrow>
     (case refuses c 1 of
        Some e \<Rightarrow> (db, Some (Db_error (''agentloopsql: touch session '' @ session_id step @ '': '' @ e)))
      | None \<Rightarrow>
        let tx = db\<lparr>db_sessions := upsert (new_row (session_id step) now)
                      (\<lambda>r. r\<lparr>row_updated_at := now\<rparr>) (db_sessions db)\<rparr> in
     (case refuses c 2 of
        Some e \<Rightarrow> (db, Some (Db_error (''agentloopsql: append step: '' @ e)))
      | None \<Rightarrow>
        let tx = tx\<lparr>db_steps := db_steps tx @
                      [\<lparr>step_key = db_next_key tx, row_step = step\<lparr>created_at := created\<rparr>\<rparr>],
                    db_next_key := Suc (db_next_key tx)\<rparr> in
     (case refuses c 3 of
        Some e \<Rightarrow> (db, Some (Db_error e))
      | None \<Rightarrow> (tx, None)))))"

text \<open>\<open>reverse\<close>, in place on the slice.\<close>

function reverse_from :: "nat \<Rightarrow> nat \<Rightarrow> 'a list \<Rightarrow> 'a list" where
  "reverse_from i j xs =
     (if i < j then reverse_from (i + 1) (j - 1) (xs[i := xs ! j, j := xs ! i]) else xs)"
  by pat_completeness auto
termination by (relation "measure (\<lambda>(i, j, xs). j - i)") auto

declare reverse_from.simps [simp del]

definition reverse_steps :: "run_step list \<Rightarrow> run_step list" where
  "reverse_steps xs = (if xs = [] then [] else reverse_from 0 (length xs - 1) xs)"

definition session_steps :: "database \<Rightarrow> bytes \<Rightarrow> step_row list" where
  "session_steps db i = sort_key step_key (filter (\<lambda>r. session_id (row_step r) = i) (db_steps db))"

definition sql_last_n :: "connection \<Rightarrow> database \<Rightarrow> bytes \<Rightarrow> int \<Rightarrow> sql_error + run_step list" where
  "sql_last_n c db i n =
     (let n = (if n \<le> 0 then - 1 else n) in
      case refuses c 0 of
        Some e \<Rightarrow> Inl (Db_error (''agentloopsql: last steps for '' @ i @ '': '' @ e))
      | None \<Rightarrow> Inr (reverse_steps (map row_step (limit n (rev (session_steps db i))))))"

definition sql_steps :: "connection \<Rightarrow> database \<Rightarrow> bytes \<Rightarrow> sql_error + run_step list" where
  "sql_steps c db i =
     (case refuses c 0 of
        Some e \<Rightarrow> Inl (Db_error (''agentloopsql: steps for '' @ i @ '': '' @ e))
      | None \<Rightarrow> Inr (map row_step (session_steps db i)))"

section \<open>Listing and deleting\<close>

record session_info =
  info_id :: bytes
  info_model :: bytes
  info_status :: bytes
  info_steps :: int
  info_tokens :: "int \<times> int"
  info_created_at :: int
  info_updated_at :: int
  info_opening :: bytes

definition opening_message :: "database \<Rightarrow> bytes \<Rightarrow> bytes" where
  "opening_message db i =
     (case filter (\<lambda>r. step_type (row_step r) = ''user'') (session_steps db i) of
        [] \<Rightarrow> [] | r # _ \<Rightarrow> step_content (row_step r))"

text \<open>\<open>ORDER BY updated_at DESC, id DESC\<close>; ids are unique, so there are no ties.\<close>

definition by_recency :: "database \<Rightarrow> session_row list" where
  "by_recency db = rev (sort_key (\<lambda>r. (time_text (row_updated_at r), row_id r)) (db_sessions db))"

definition sql_list :: "connection \<Rightarrow> database \<Rightarrow> int \<Rightarrow> sql_error + session_info list" where
  "sql_list c db n =
     (let n = (if n \<le> 0 then - 1 else n) in
      case refuses c 0 of
        Some e \<Rightarrow> Inl (Db_error (''agentloopsql: list sessions: '' @ e))
      | None \<Rightarrow> Inr (map (\<lambda>r.
          \<lparr>info_id = row_id r, info_model = row_model r, info_status = row_status r,
           info_steps = row_step_count r, info_tokens = (row_prompt_tokens r, row_completion_tokens r),
           info_created_at = row_created_at r, info_updated_at = row_updated_at r,
           info_opening = opening_message db (row_id r)\<rparr>) (limit n (by_recency db))))"

definition sql_most_recent :: "connection \<Rightarrow> database \<Rightarrow> sql_error + bytes" where
  "sql_most_recent c db =
     (case refuses c 0 of
        Some e \<Rightarrow> Inl (Db_error (''agentloopsql: most recent session: '' @ e))
      | None \<Rightarrow>
          (case limit 1 (by_recency db) of [] \<Rightarrow> Inl (No_session []) | r # _ \<Rightarrow> Inr (row_id r)))"

text \<open>
  Statement 0 begins, 1 to 3 delete from the three tables, 4 commits (\<open>RowsAffected\<close> does not
  fail with this driver).  A session that is not there is reported after the commit.
\<close>

definition sql_delete :: "connection \<Rightarrow> database \<Rightarrow> bytes \<Rightarrow> database \<times> sql_error option" where
  "sql_delete c db i =
     (let failed = (\<lambda>what e. (db, Some (Db_error (''agentloopsql: delete '' @ what @ i @ '': '' @ e)))) in
      case refuses c 0 of
        Some e \<Rightarrow> failed ''session '' e
      | None \<Rightarrow>
     (case refuses c 1 of
        Some e \<Rightarrow> failed ''session '' e
      | None \<Rightarrow>
        let removed = length (filter (\<lambda>r. row_id r = i) (db_sessions db));
            tx = db\<lparr>db_sessions := filter (\<lambda>r. row_id r \<noteq> i) (db_sessions db)\<rparr> in
     (case refuses c 2 of
        Some e \<Rightarrow> failed ''steps for '' e
      | None \<Rightarrow>
        let tx = tx\<lparr>db_steps := filter (\<lambda>r. session_id (row_step r) \<noteq> i) (db_steps tx)\<rparr> in
     (case refuses c 3 of
        Some e \<Rightarrow> failed ''grants for '' e
      | None \<Rightarrow>
        let tx = tx\<lparr>db_grants := filter (\<lambda>g. grant_session g \<noteq> i) (db_grants tx)\<rparr> in
     (case refuses c 4 of
        Some e \<Rightarrow> failed ''session '' e
      | None \<Rightarrow> (tx, if removed = 0 then Some (No_session i) else None))))))"

section \<open>Grants\<close>

fun upsert_grant :: "grant_row \<Rightarrow> grant_row list \<Rightarrow> grant_row list" where
  "upsert_grant g [] = [g]"
| "upsert_grant g (h # gs) =
     (if grant_session h = grant_session g \<and> grant_prompt h = grant_prompt g
      then h\<lparr>granted_at := granted_at g\<rparr> # gs else h # upsert_grant g gs)"

definition sql_grant :: "connection \<Rightarrow> database \<Rightarrow> bytes \<Rightarrow> bytes \<Rightarrow> database \<times> sql_error option" where
  "sql_grant c db i prompt =
     (case refuses c 0 of
        Some e \<Rightarrow> (db, Some (Db_error (''agentloopsql: record grant for '' @ i @ '': '' @ e)))
      | None \<Rightarrow>
          (db\<lparr>db_grants := upsert_grant
                \<lparr>grant_session = i, grant_prompt = prompt, granted_at = reads c 0\<rparr> (db_grants db)\<rparr>, None))"

definition sql_is_granted :: "connection \<Rightarrow> database \<Rightarrow> bytes \<Rightarrow> bytes \<Rightarrow> sql_error + bool" where
  "sql_is_granted c db i prompt =
     (case refuses c 0 of
        Some e \<Rightarrow> Inl (Db_error (''agentloopsql: read grant for '' @ i @ '': '' @ e))
      | None \<Rightarrow> Inr (list_ex (\<lambda>g. grant_session g = i \<and> grant_prompt g = prompt) (db_grants db)))"

definition sql_grants :: "connection \<Rightarrow> database \<Rightarrow> bytes \<Rightarrow> sql_error + bytes list" where
  "sql_grants c db i =
     (case refuses c 0 of
        Some e \<Rightarrow> Inl (Db_error (''agentloopsql: list grants for '' @ i @ '': '' @ e))
      | None \<Rightarrow> Inr (map grant_prompt (sort_key (\<lambda>g. (time_text (granted_at g), grant_prompt g))
                   (filter (\<lambda>g. grant_session g = i) (db_grants db)))))"

definition sql_revoke :: "connection \<Rightarrow> database \<Rightarrow> bytes \<Rightarrow> database \<times> sql_error option" where
  "sql_revoke c db i =
     (case refuses c 0 of
        Some e \<Rightarrow> (db, Some (Db_error (''agentloopsql: revoke grants for '' @ i @ '': '' @ e)))
      | None \<Rightarrow> (db\<lparr>db_grants := filter (\<lambda>g. grant_session g \<noteq> i) (db_grants db)\<rparr>, None))"

end
