(* ===== verification/Mem_Stores.thy ===== *)
theory Mem_Stores
  imports Store_Contract
begin

text \<open>
  \<open>agentloopmem/stores.go\<close>: the map-backed stores.  The mutex makes every method one step,
  so each is a function of the maps.  A missing key reads as the zero value, as in Go; a nil
  slice of bytes and an empty one are not told apart.
\<close>

section \<open>SessionStore\<close>

record mem_sessions =
  ms_sessions :: "bytes \<rightharpoonup> session"
  ms_snapshots :: "bytes \<rightharpoonup> bytes"
  ms_finals :: "bytes \<rightharpoonup> finalize_summary"

definition new_mem_sessions :: mem_sessions where
  "new_mem_sessions = \<lparr>ms_sessions = Map.empty, ms_snapshots = Map.empty, ms_finals = Map.empty\<rparr>"

definition mem_put :: "mem_sessions \<Rightarrow> session \<Rightarrow> mem_sessions" where
  "mem_put s sess = s\<lparr>ms_sessions := (ms_sessions s)(sess_id sess \<mapsto> sess)\<rparr>"

definition mem_get :: "mem_sessions \<Rightarrow> bytes \<Rightarrow> session" where
  "mem_get s i = (case ms_sessions s i of Some sess \<Rightarrow> sess | None \<Rightarrow> zero_session)"

definition mem_exists :: "mem_sessions \<Rightarrow> bytes \<Rightarrow> bool" where
  "mem_exists s i = (ms_sessions s i \<noteq> None)"

definition mem_update_data :: "mem_sessions \<Rightarrow> bytes \<Rightarrow> bytes \<Rightarrow> mem_sessions" where
  "mem_update_data s i snap =
     (let s = s\<lparr>ms_snapshots := (ms_snapshots s)(i \<mapsto> snap)\<rparr>;
          sess = (mem_get s i)\<lparr>sess_id := i, sess_data := snap\<rparr>
      in s\<lparr>ms_sessions := (ms_sessions s)(i \<mapsto> sess)\<rparr>)"

definition mem_snapshot :: "mem_sessions \<Rightarrow> bytes \<Rightarrow> bytes" where
  "mem_snapshot s i = (case ms_snapshots s i of Some d \<Rightarrow> d | None \<Rightarrow> [])"

definition mem_finalize :: "mem_sessions \<Rightarrow> bytes \<Rightarrow> finalize_summary \<Rightarrow> mem_sessions" where
  "mem_finalize s i summary = s\<lparr>ms_finals := (ms_finals s)(i \<mapsto> summary)\<rparr>"

definition mem_final :: "mem_sessions \<Rightarrow> bytes \<Rightarrow> finalize_summary option" where
  "mem_final s i = ms_finals s i"

section \<open>StepStore\<close>

type_synonym mem_steps = "bytes \<rightharpoonup> run_step list"

definition mem_rows :: "mem_steps \<Rightarrow> bytes \<Rightarrow> run_step list" where
  "mem_rows s i = (case s i of Some rows \<Rightarrow> rows | None \<Rightarrow> [])"

definition mem_append :: "mem_steps \<Rightarrow> run_step \<Rightarrow> mem_steps" where
  "mem_append s step = s(session_id step \<mapsto> mem_rows s (session_id step) @ [step])"

definition mem_last_n :: "mem_steps \<Rightarrow> bytes \<Rightarrow> int \<Rightarrow> run_step list" where
  "mem_last_n s i n =
     (let rows = mem_rows s i in
      if n \<le> 0 \<or> int (length rows) \<le> n then rows else last_n (nat n) rows)"

definition mem_all :: "mem_steps \<Rightarrow> bytes \<Rightarrow> run_step list" where
  "mem_all s i = mem_rows s i"

section \<open>The contract\<close>

lemma mem_rows_append:
  "mem_rows (mem_append s x) i = (if session_id x = i then mem_rows s i @ [x] else mem_rows s i)"
  by (simp add: mem_rows_def mem_append_def)

lemma mem_last_n_window:
  "mem_last_n s i n = (if n \<le> 0 then mem_rows s i else last_n (nat n) (mem_rows s i))"
  by (auto simp: mem_last_n_def Let_def last_n_all)

interpretation mem_steps: step_store Map.empty "\<lambda>_. True" mem_append mem_last_n
  by unfold_locales (simp_all add: mem_last_n_window mem_rows_append, simp add: mem_rows_def last_n_def)

lemma mem_get_simps:
  "mem_get (mem_update_data s i d) j =
     (if i = j then (mem_get s j)\<lparr>sess_id := i, sess_data := d\<rparr> else mem_get s j)"
  "mem_get (mem_finalize s i f) j = mem_get s j"
  "mem_exists (mem_update_data s i d) j \<longleftrightarrow> i = j \<or> mem_exists s j"
  "mem_exists (mem_finalize s i f) j \<longleftrightarrow> mem_exists s j"
  "\<not> mem_exists s j \<Longrightarrow> mem_get s j = zero_session"
  by (auto simp: mem_get_def mem_update_data_def mem_finalize_def mem_exists_def Let_def)

interpretation mem_sessions: session_store new_mem_sessions "\<lambda>_. True" mem_get mem_exists
    mem_update_data mem_finalize
  by unfold_locales (simp_all add: mem_get_simps, simp add: new_mem_sessions_def mem_exists_def)

text \<open>The pair of both, as a deployment hands it to the loop.\<close>

interpretation mem: loop_store "(Map.empty, new_mem_sessions)" "\<lambda>_. True"
    "\<lambda>s x. (mem_append (fst s) x, snd s)" "\<lambda>s. mem_last_n (fst s)"
    "\<lambda>s. mem_get (snd s)" "\<lambda>s. mem_exists (snd s)"
    "\<lambda>s i d. (fst s, mem_update_data (snd s) i d)" "\<lambda>s i f. (fst s, mem_finalize (snd s) i f)"
  by unfold_locales
    (simp_all add: mem_get_simps mem_last_n_window mem_rows_append,
     simp_all add: mem_rows_def last_n_def mem_sessions.absent_fresh)

text \<open>A snapshot is also what the session holds, once one has been written.\<close>

definition mirrored :: "mem_sessions \<Rightarrow> bool" where
  "mirrored s = (\<forall>i d. ms_snapshots s i = Some d \<longrightarrow> sess_data (mem_get s i) = d)"

lemma mirrored_keeps:
  "mirrored new_mem_sessions" "mirrored s \<Longrightarrow> mirrored (mem_update_data s i d)"
  "mirrored s \<Longrightarrow> mirrored (mem_finalize s i f)"
  by (auto simp: mirrored_def new_mem_sessions_def mem_get_simps mem_update_data_def mem_finalize_def
      mem_get_def Let_def)

end
