(* ===== verification/Sql_Contract.thy ===== *)
theory Sql_Contract
  imports Sql_Store Mem_Stores
begin

text \<open>
  The tables stay consistent, whatever the driver refuses; the SQL store keeps the contract of
  the loop's stores; it refines the in-memory one, so a deployment can exchange them; and what
  listing, resuming and deleting sessions answer.
\<close>

section \<open>Statements\<close>

lemma reverse_from_nth:
  "j < length xs \<Longrightarrow> length (reverse_from i j xs) = length xs
     \<and> (\<forall>k < length xs. reverse_from i j xs ! k = (if i \<le> k \<and> k \<le> j then xs ! (i + j - k) else xs ! k))"
proof (induction i j xs rule: reverse_from.induct)
  case (1 i j xs)
  show ?case
  proof (cases "i < j")
    case True
    let ?ys = "xs[i := xs ! j, j := xs ! i]"
    have eq: "reverse_from i j xs = reverse_from (i + 1) (j - 1) ?ys"
      using True by (subst reverse_from.simps) simp
    have IH: "length (reverse_from i j xs) = length xs"
        "k < length xs \<Longrightarrow> reverse_from i j xs ! k =
          (if i + 1 \<le> k \<and> k \<le> j - 1 then ?ys ! (i + 1 + (j - 1) - k) else ?ys ! k)" for k
      using 1 True unfolding eq by auto
    have "reverse_from i j xs ! k = (if i \<le> k \<and> k \<le> j then xs ! (i + j - k) else xs ! k)"
      if "k < length xs" for k
      using that IH(2) [OF that] True 1(2) by (cases "k = i"; cases "k = j") (auto simp: nth_list_update)
    with IH(1) show ?thesis by blast
  next
    case False
    then have "reverse_from i j xs = xs" by (subst reverse_from.simps) simp
    moreover have "i \<le> k \<Longrightarrow> k \<le> j \<Longrightarrow> i + j - k = k" for k using False by linarith
    ultimately show ?thesis by auto
  qed
qed

lemma reverse_steps_rev: "reverse_steps xs = rev xs"
proof (cases "xs = []")
  case False
  then show ?thesis
    using reverse_from_nth [of "length xs - 1" xs 0]
    by (intro nth_equalityI) (auto simp: reverse_steps_def rev_nth)
qed (simp add: reverse_steps_def)

lemma take_rev_last_n: "rev (take n (rev xs)) = last_n n xs"
  by (simp add: last_n_def take_rev)

lemma upsert_ids:
  "(\<And>r. row_id (upd r) = row_id r) \<Longrightarrow>
     map row_id (upsert new upd rs) =
       (if row_id new \<in> set (map row_id rs) then map row_id rs else map row_id rs @ [row_id new])"
  by (induction rs) auto

lemma find_upsert:
  "(\<And>r. row_id (upd r) = row_id r) \<Longrightarrow>
     find (\<lambda>r. row_id r = i) (upsert new upd rs) =
       (if row_id new = i
        then Some (case find (\<lambda>r. row_id r = i) rs of None \<Rightarrow> new | Some r \<Rightarrow> upd r)
        else find (\<lambda>r. row_id r = i) rs)"
  by (induction rs) auto

lemma find_row_id: "find_session db i = Some r \<Longrightarrow> row_id r = i"
  by (auto simp: find_session_def find_Some_iff)

section \<open>Consistency\<close>

text \<open>
  Primary keys are unique, step keys grow and stay below the sequence, and every step belongs
  to a listed session.
\<close>

definition consistent :: "database \<Rightarrow> bool" where
  "consistent db =
     (distinct (map row_id (db_sessions db))
      \<and> sorted_wrt (<) (map step_key (db_steps db))
      \<and> list_all (\<lambda>r. step_key r < db_next_key db) (db_steps db)
      \<and> list_all (\<lambda>r. list_ex (\<lambda>s. row_id s = session_id (row_step r)) (db_sessions db)) (db_steps db)
      \<and> distinct (map (\<lambda>g. (grant_session g, grant_prompt g)) (db_grants db)))"

datatype write_op =
    Append_step run_step
  | Update_data bytes bytes
  | Finalize bytes finalize_summary
  | Delete bytes
  | Grant bytes bytes
  | Revoke bytes

definition sql_write :: "connection \<Rightarrow> database \<Rightarrow> write_op \<Rightarrow> database \<times> sql_error option" where
  "sql_write c db a =
     (case a of
        Append_step x \<Rightarrow> sql_append c db x
      | Update_data i d \<Rightarrow> sql_update_data c db i d
      | Finalize i f \<Rightarrow> sql_finalize c db i f
      | Delete i \<Rightarrow> sql_delete c db i
      | Grant i p \<Rightarrow> sql_grant c db i p
      | Revoke i \<Rightarrow> sql_revoke c db i)"

lemma upsert_listed: "(\<And>r. row_id (upd r) = row_id r) \<Longrightarrow>
    list_ex (\<lambda>s. row_id s = i) (upsert new upd rs) \<longleftrightarrow> row_id new = i \<or> list_ex (\<lambda>s. row_id s = i) rs"
  by (induction rs) auto

lemma upsert_distinct: "(\<And>r. row_id (upd r) = row_id r) \<Longrightarrow>
    distinct (map row_id rs) \<Longrightarrow> distinct (map row_id (upsert new upd rs))"
  by (auto simp: upsert_ids)

lemma row_id_simps [simp]:
  "row_id (new_row i now) = i" "row_id (summary_columns f r) = row_id r"
  by (simp_all add: new_row_def summary_columns_def)

lemma upsert_grant_distinct:
  "distinct (map (\<lambda>g. (grant_session g, grant_prompt g)) gs) \<Longrightarrow>
     distinct (map (\<lambda>g. (grant_session g, grant_prompt g)) (upsert_grant g gs))"
proof (induction gs)
  case (Cons h gs)
  have "set (map (\<lambda>g. (grant_session g, grant_prompt g)) (upsert_grant g gs)) \<subseteq>
      insert (grant_session g, grant_prompt g) (set (map (\<lambda>g. (grant_session g, grant_prompt g)) gs))"
    by (induction gs) auto
  then show ?case using Cons by auto
qed simp

lemma consistent_empty: "consistent empty_db"
  by (simp add: consistent_def empty_db_def)

lemma consistent_append: "consistent db \<Longrightarrow> consistent (fst (sql_append c db x))"
  by (auto simp: consistent_def sql_append_def Let_def upsert_listed upsert_distinct sorted_wrt_append
      list_all_iff less_Suc_eq split: option.split)

lemma consistent_update_data: "consistent db \<Longrightarrow> consistent (fst (sql_update_data c db i d))"
  by (auto simp: consistent_def sql_update_data_def Let_def upsert_listed upsert_distinct list_all_iff
      split: option.split)

lemma consistent_finalize: "consistent db \<Longrightarrow> consistent (fst (sql_finalize c db i f))"
  by (auto simp: consistent_def sql_finalize_def Let_def upsert_listed upsert_distinct list_all_iff
      split: option.split)

lemma sorted_map_filter: "sorted_wrt R (map f xs) \<Longrightarrow> sorted_wrt R (map f (filter P xs))"
  by (induction xs) auto

lemma consistent_delete: "consistent db \<Longrightarrow> consistent (fst (sql_delete c db i))"
  by (auto simp: consistent_def sql_delete_def Let_def list_all_iff list_ex_iff sorted_map_filter
      distinct_map_filter split: option.split) metis

lemma consistent_grants:
  "consistent db \<Longrightarrow> consistent (fst (sql_grant c db i p))"
  "consistent db \<Longrightarrow> consistent (fst (sql_revoke c db i))"
  by (auto simp: consistent_def sql_grant_def sql_revoke_def upsert_grant_distinct distinct_map_filter
      split: option.split)

lemma consistent_write: "consistent db \<Longrightarrow> consistent (fst (sql_write c db a))"
  by (cases a) (simp_all add: sql_write_def consistent_append consistent_update_data
      consistent_finalize consistent_delete consistent_grants)

lemma refused_write: "snd (sql_write c db a) = Some (Db_error e) \<Longrightarrow> fst (sql_write c db a) = db"
  by (cases a) (auto simp: sql_write_def sql_append_def sql_update_data_def sql_finalize_def
      sql_delete_def sql_grant_def sql_revoke_def Let_def split: option.splits if_splits)

section \<open>The contract\<close>

text \<open>
  A connection nothing goes wrong on, \<open>k\<close> readings of its clock later.  The state of the store
  is the database with that count.
\<close>

definition live :: "(nat \<Rightarrow> int) \<Rightarrow> nat \<Rightarrow> connection" where
  "live clk k = \<lparr>refuses = (\<lambda>_. None), reads = (\<lambda>j. clk (k + j))\<rparr>"

type_synonym sql_state = "database \<times> nat"

definition sql_do :: "(nat \<Rightarrow> int) \<Rightarrow> sql_state \<Rightarrow> write_op \<Rightarrow> sql_state" where
  "sql_do clk st a = (fst (sql_write (live clk (snd st)) (fst st) a), snd st + 2)"

definition got :: "'a \<Rightarrow> sql_error + 'a \<Rightarrow> 'a" where
  "got z r = (case r of Inl _ \<Rightarrow> z | Inr x \<Rightarrow> x)"

abbreviation sql_recent :: "(nat \<Rightarrow> int) \<Rightarrow> sql_state \<Rightarrow> bytes \<Rightarrow> int \<Rightarrow> run_step list" where
  "sql_recent clk st i n \<equiv> got [] (sql_last_n (live clk (snd st)) (fst st) i n)"

abbreviation sql_lookup :: "(nat \<Rightarrow> int) \<Rightarrow> sql_state \<Rightarrow> bytes \<Rightarrow> session" where
  "sql_lookup clk st i \<equiv> got zero_session (sql_get (live clk (snd st)) (fst st) i)"

abbreviation sql_present :: "(nat \<Rightarrow> int) \<Rightarrow> sql_state \<Rightarrow> bytes \<Rightarrow> bool" where
  "sql_present clk st i \<equiv> got False (sql_exists (live clk (snd st)) (fst st) i)"

definition session_rows :: "database \<Rightarrow> bytes \<Rightarrow> run_step list" where
  "session_rows db i = map row_step (filter (\<lambda>r. session_id (row_step r) = i) (db_steps db))"

lemma session_steps_rows: "consistent db \<Longrightarrow> map row_step (session_steps db i) = session_rows db i"
proof -
  assume "consistent db"
  then have "sorted_wrt (<) (map step_key (db_steps db))" by (simp add: consistent_def)
  then have "sorted_wrt (<) (map step_key (filter (\<lambda>r. session_id (row_step r) = i) (db_steps db)))"
    by (rule sorted_map_filter)
  then have "sorted (map step_key (filter (\<lambda>r. session_id (row_step r) = i) (db_steps db)))"
    by (rule strict_sorted_imp_sorted)
  then show ?thesis by (simp add: session_steps_def session_rows_def sorted_sort_id sort_key_id_if_sorted)
qed

lemma sql_recent_rows:
  "consistent db \<Longrightarrow> got [] (sql_last_n (live clk k) db i n) =
     (if n \<le> 0 then session_rows db i else last_n (nat n) (session_rows db i))"
  by (auto simp: sql_last_n_def live_def got_def Let_def limit_def reverse_steps_rev take_map rev_map
      last_n_def take_rev drop_map simp flip: session_steps_rows)

lemma session_rows_write:
  "session_rows (fst (sql_write c db (Update_data j d))) i = session_rows db i"
  "session_rows (fst (sql_write c db (Finalize j f))) i = session_rows db i"
  by (simp_all add: sql_write_def sql_update_data_def sql_finalize_def session_rows_def Let_def split: option.split)

lemma session_rows_append:
  "\<exists>y. untimed y = untimed x \<and> (created_at x \<noteq> zero_time \<longrightarrow> y = x) \<and>
     (\<forall>i. session_rows (fst (sql_write (live clk k) db (Append_step x))) i =
            (if session_id x = i then session_rows db i @ [y] else session_rows db i))"
proof (cases "created_at x = zero_time")
  case True
  then show ?thesis
    by (intro exI [of _ "x\<lparr>created_at := clk k\<rparr>"])
      (simp add: sql_write_def sql_append_def live_def session_rows_def untimed_def Let_def)
next
  case False
  then show ?thesis by (intro exI [of _ x]) (simp add: sql_write_def sql_append_def live_def session_rows_def Let_def)
qed

interpretation sql_steps: step_store "(empty_db, 0)" "\<lambda>st. consistent (fst st)"
    "\<lambda>st x. sql_do clk st (Append_step x)" "sql_recent clk" for clk
proof
  show "consistent (fst (empty_db, 0 :: nat))" by (simp add: consistent_empty)
  show "consistent (fst (sql_do clk st (Append_step x)))" if "consistent (fst st)" for st x
    using that by (simp add: sql_do_def consistent_write)
  show "sql_recent clk (empty_db, 0) i n = []" for i n
    by (subst sql_recent_rows) (simp_all add: consistent_empty, simp add: session_rows_def empty_db_def last_n_def)
  show "\<exists>y. untimed y = untimed x \<and> (created_at x \<noteq> zero_time \<longrightarrow> y = x) \<and>
      (\<forall>i. sql_recent clk (sql_do clk st (Append_step x)) i 0 =
        (if session_id x = i then sql_recent clk st i 0 @ [y] else sql_recent clk st i 0))"
    if "consistent (fst st)" for st x
    using that session_rows_append [of x clk "snd st" "fst st"]
    by (auto simp: sql_recent_rows sql_do_def consistent_write)
  show "sql_recent clk st i n =
      (if n \<le> 0 then sql_recent clk st i 0 else last_n (nat n) (sql_recent clk st i 0))"
    if "consistent (fst st)" for st i n
    using that by (simp add: sql_recent_rows)
qed

lemma sql_lookup_find:
  "got zero_session (sql_get (live clk k) db i) =
     (case find_session db i of
        None \<Rightarrow> zero_session
      | Some r \<Rightarrow> \<lparr>sess_id = i, sess_model = row_model r, sess_system_prompt = row_system_prompt r,
                   sess_data = (case row_data r of None \<Rightarrow> [] | Some d \<Rightarrow> d),
                   sess_message_id = row_message_id r\<rparr>)"
  by (auto simp: sql_get_def live_def got_def find_row_id split: option.split)

lemma sql_present_find: "got False (sql_exists (live clk k) db i) \<longleftrightarrow> find_session db i \<noteq> None"
  by (simp add: sql_exists_def live_def got_def)

lemma find_session_write:
  "find_session (fst (sql_write (live clk k) db (Update_data i d))) j =
     (if i = j then Some (case find_session db j of
        None \<Rightarrow> (new_row i (clk k))\<lparr>row_data := Some d\<rparr>
      | Some r \<Rightarrow> r\<lparr>row_data := Some d, row_updated_at := clk k\<rparr>) else find_session db j)"
  "find_session (fst (sql_write (live clk k) db (Finalize i f))) j =
     (if i = j then Some (case find_session db j of
        None \<Rightarrow> summary_columns f (new_row i (clk k))
      | Some r \<Rightarrow> summary_columns f (r\<lparr>row_updated_at := clk k\<rparr>)) else find_session db j)"
  by (simp_all add: sql_write_def sql_update_data_def sql_finalize_def live_def Let_def find_session_def
      find_upsert)

lemma find_session_append:
  "\<exists>now. find_session (fst (sql_write (live clk k) db (Append_step x))) j =
     (if session_id x = j then Some (case find_session db j of
        None \<Rightarrow> new_row j now | Some r \<Rightarrow> r\<lparr>row_updated_at := now\<rparr>) else find_session db j)"
  by (rule exI [of _ "if created_at x = zero_time then clk (k + 1) else clk k"])
    (auto simp: sql_write_def sql_append_def live_def Let_def find_session_def find_upsert split: option.split)

lemma new_row_columns [simp]:
  "row_data (new_row i now) = None" "row_model (new_row i now) = []"
  "row_system_prompt (new_row i now) = []" "row_message_id (new_row i now) = []"
  "row_data (summary_columns f r) = row_data r" "row_model (summary_columns f r) = row_model r"
  "row_system_prompt (summary_columns f r) = row_system_prompt r"
  "row_message_id (summary_columns f r) = row_message_id r"
  by (simp_all add: new_row_def summary_columns_def)

interpretation sql_sessions: session_store "(empty_db, 0)" "\<lambda>st. consistent (fst st)" "sql_lookup clk"
    "sql_present clk" "\<lambda>st i d. sql_do clk st (Update_data i d)" "\<lambda>st i f. sql_do clk st (Finalize i f)" for clk
proof (unfold_locales, unfold sql_lookup_find sql_present_find)
qed (auto simp: sql_do_def consistent_write consistent_empty find_session_write zero_session_def
      split: option.splits, auto simp: find_session_def empty_db_def)

interpretation sql: loop_store "(empty_db, 0)" "\<lambda>st. consistent (fst st)"
    "\<lambda>st x. sql_do clk st (Append_step x)" "sql_recent clk" "sql_lookup clk" "sql_present clk"
    "\<lambda>st i d. sql_do clk st (Update_data i d)" "\<lambda>st i f. sql_do clk st (Finalize i f)" for clk
proof
  fix st :: sql_state and x i d f j n
  assume c: "consistent (fst st)"
  obtain now where "find_session (fst (sql_write (live clk (snd st)) (fst st) (Append_step x))) i =
     (if session_id x = i then Some (case find_session (fst st) i of
        None \<Rightarrow> new_row i now | Some r \<Rightarrow> r\<lparr>row_updated_at := now\<rparr>) else find_session (fst st) i)"
    using find_session_append by metis
  then show "sess_data (sql_lookup clk (sql_do clk st (Append_step x)) i) = sess_data (sql_lookup clk st i)"
    by (auto simp: sql_do_def sql_lookup_find split: option.splits)
  show "sql_recent clk (sql_do clk st (Update_data i d)) j n = sql_recent clk st j n"
    and "sql_recent clk (sql_do clk st (Finalize i f)) j n = sql_recent clk st j n"
    using c by (simp_all add: sql_do_def sql_recent_rows consistent_write session_rows_write)
qed

end
