(* ===== verification/Store_Properties.thy ===== *)
theory Store_Properties
  imports Sql_Contract Loop_Durability "HOL-Library.Multiset"
begin

text \<open>
  What the stores promise, as properties: the two agree, the tables stay consistent when the
  driver fails, a deleted session is gone, and a run that persists its trace in a store is
  continued by the next one.
\<close>

section \<open>The stores agree\<close>

definition mem_perform :: "mem_steps \<times> mem_sessions \<Rightarrow> store_op \<Rightarrow> mem_steps \<times> mem_sessions" where
  "mem_perform st a =
     (case a of
        Add_step x \<Rightarrow> (mem_append (fst st) x, snd st)
      | Put_data i d \<Rightarrow> (fst st, mem_update_data (snd st) i d)
      | Put_final i f \<Rightarrow> (fst st, mem_finalize (snd st) i f))"

definition sql_perform :: "(nat \<Rightarrow> int) \<Rightarrow> sql_state \<Rightarrow> store_op \<Rightarrow> sql_state" where
  "sql_perform clk st a =
     (case a of
        Add_step x \<Rightarrow> sql_do clk st (Append_step x)
      | Put_data i d \<Rightarrow> sql_do clk st (Update_data i d)
      | Put_final i f \<Rightarrow> sql_do clk st (Finalize i f))"

lemma mem_perform_contract: "mem_perform = mem.perform"
  by (intro ext) (simp add: mem_perform_def mem.perform_def)

lemma sql_perform_contract: "sql_perform clk = sql.perform clk"
  by (intro ext) (simp add: sql_perform_def sql.perform_def)

text \<open>
  C12 The SQL store and the in-memory store are interchangeable: after the same writes, in any
  order, they answer every history window with the same rows, times of creation apart, the same
  replayed conversation, and the same working memory.
\<close>

theorem stores_agree:
  fixes ops :: "store_op list" and clk :: "nat \<Rightarrow> int"
  defines "m \<equiv> foldl mem_perform (Map.empty, new_mem_sessions) ops"
    and "q \<equiv> foldl (sql_perform clk) (empty_db, 0) ops"
  shows "map untimed (mem_last_n (fst m) i n) = map untimed (sql_recent clk q i n)
    \<and> rehydrate_history (mem_last_n (fst m) i n) w = rehydrate_history (sql_recent clk q i n) w
    \<and> sess_data (mem_get (snd m) i) = sess_data (sql_lookup clk q i)"
proof -
  have m: "map untimed (mem_last_n (fst m) i n) = map untimed (if n \<le> 0 then trace_of i ops else last_n (nat n) (trace_of i ops))"
      "sess_data (mem_get (snd m) i) = latest_data i [] ops"
    unfolding m_def mem_perform_contract by (rule mem.observed)+
  have q: "map untimed (sql_recent clk q i n) = map untimed (if n \<le> 0 then trace_of i ops else last_n (nat n) (trace_of i ops))"
      "sess_data (sql_lookup clk q i) = latest_data i [] ops"
    unfolding q_def sql_perform_contract by (rule sql.observed)+
  show ?thesis using m q by (metis rehydrate_untimed)
qed

section \<open>Failures\<close>

lemma consistent_writes: "consistent d \<Longrightarrow> consistent (foldl (\<lambda>db (c, a). fst (sql_write c db a)) d ops)"
  by (induction ops arbitrary: d) (auto simp: consistent_write)

text \<open>
  C13 Whatever sequence of writes is made and whichever of their statements the driver refuses,
  the tables stay consistent: unique keys, growing step keys, every step in a session that is
  listed.  A write that reports a failure of the database has changed nothing.
\<close>

theorem sql_writes_atomic:
  fixes ops :: "(connection \<times> write_op) list"
  defines "db \<equiv> foldl (\<lambda>db (c, a). fst (sql_write c db a)) empty_db ops"
  shows "consistent db \<and> (case sql_write c db a of (db', Some (Db_error e)) \<Rightarrow> db' = db | _ \<Rightarrow> True)"
proof
  show "consistent db" unfolding db_def by (rule consistent_writes [OF consistent_empty])
  show "case sql_write c db a of (db', Some (Db_error e)) \<Rightarrow> db' = db | _ \<Rightarrow> True"
    using refused_write [of c db a] by (auto split: prod.split option.split sql_error.split)
qed

section \<open>The SQL store refines the maps\<close>

text \<open>
  The map a database stands for, and what a write does to it: an append adds the step, with a
  creation time when it has none, and a delete forgets the session.
\<close>

definition abs_steps :: "database \<Rightarrow> mem_steps" where
  "abs_steps db = (\<lambda>i. if session_rows db i = [] then None else Some (session_rows db i))"

definition stamp :: "connection \<Rightarrow> run_step \<Rightarrow> run_step" where
  "stamp c x = (if created_at x = zero_time then x\<lparr>created_at := reads c 0\<rparr> else x)"

definition abs_write :: "connection \<Rightarrow> mem_steps \<Rightarrow> write_op \<Rightarrow> mem_steps" where
  "abs_write c s a =
     (case a of Append_step x \<Rightarrow> mem_append s (stamp c x) | Delete i \<Rightarrow> s(i := None) | _ \<Rightarrow> s)"

definition refused :: "sql_error option \<Rightarrow> bool" where
  "refused out = (case out of Some (Db_error e) \<Rightarrow> True | _ \<Rightarrow> False)"

lemma mem_rows_abs [simp]: "mem_rows (abs_steps db) i = session_rows db i"
  by (simp add: mem_rows_def abs_steps_def)

lemma session_rows_append_any:
  "snd (sql_append c db x) = None \<Longrightarrow> session_rows (fst (sql_append c db x)) i =
     (if session_id x = i then session_rows db i @ [stamp c x] else session_rows db i)"
  by (auto simp: sql_append_def session_rows_def stamp_def Let_def split: option.splits)

lemma session_rows_delete:
  "\<not> refused (snd (sql_delete c db i)) \<Longrightarrow>
     session_rows (fst (sql_delete c db i)) j = (if i = j then [] else session_rows db j)"
  by (auto simp: sql_delete_def session_rows_def refused_def Let_def filter_empty_conv
      split: option.splits if_splits intro!: arg_cong [where f = "map row_step"] filter_cong)

lemma session_rows_grants:
  "session_rows (fst (sql_write c db (Grant j p))) i = session_rows db i"
  "session_rows (fst (sql_write c db (Revoke j))) i = session_rows db i"
  by (simp_all add: sql_write_def sql_grant_def sql_revoke_def session_rows_def split: option.split)

lemma append_refused: "refused (snd (sql_append c db x)) \<longleftrightarrow> snd (sql_append c db x) \<noteq> None"
  by (auto simp: sql_append_def refused_def Let_def split: option.split)

lemma abs_steps_write:
  "abs_steps (fst (sql_write c db a)) =
     (if refused (snd (sql_write c db a)) then abs_steps db else abs_write c (abs_steps db) a)"
proof (cases "refused (snd (sql_write c db a))")
  case True
  then show ?thesis using refused_write [of c db a] by (auto simp: refused_def split: option.splits sql_error.splits)
next
  case False
  have eq: "abs_steps db' = abs_steps db" if "\<And>i. session_rows db' i = session_rows db i" for db'
    using that by (auto simp: fun_eq_iff abs_steps_def)
  show ?thesis
  proof (cases a)
    case (Append_step x)
    then have "snd (sql_append c db x) = None" using False by (simp add: sql_write_def append_refused)
    moreover have "session_id (stamp c x) = session_id x" by (simp add: stamp_def)
    ultimately show ?thesis using Append_step False
      by (auto simp: fun_eq_iff abs_steps_def abs_write_def sql_write_def session_rows_append_any mem_append_def mem_rows_def)
  next
    case (Delete i)
    then show ?thesis using False
      by (auto simp: fun_eq_iff abs_steps_def abs_write_def sql_write_def session_rows_delete)
  next
    case (Update_data i d)
    then show ?thesis using False eq [OF session_rows_write(1)] by (simp add: abs_write_def)
  next
    case (Finalize i f)
    then show ?thesis using False eq [OF session_rows_write(2)] by (simp add: abs_write_def)
  next
    case (Grant i p)
    then show ?thesis using False eq [OF session_rows_grants(1)] by (simp add: abs_write_def)
  next
    case (Revoke i)
    then show ?thesis using False eq [OF session_rows_grants(2)] by (simp add: abs_write_def)
  qed
qed

lemma sql_reads:
  assumes "consistent db" and "refuses c 0 = None"
  shows "sql_last_n c db i n = Inr (mem_last_n (abs_steps db) i n)"
    and "sql_steps c db i = Inr (mem_all (abs_steps db) i)"
proof -
  show "sql_steps c db i = Inr (mem_all (abs_steps db) i)"
    using assms by (simp add: sql_steps_def mem_all_def session_steps_rows)
  have "map row_step (limit m (rev (session_steps db i))) = rev (if m < 0 then session_rows db i else last_n (nat m) (session_rows db i))" for m
    by (simp add: limit_def last_n_def take_rev rev_map drop_map take_map flip: session_steps_rows [OF assms(1)])
  then show "sql_last_n c db i n = Inr (mem_last_n (abs_steps db) i n)"
    using assms(2) by (auto simp: sql_last_n_def Let_def reverse_steps_rev mem_last_n_window)
qed

text \<open>
  C15 The step tables refine the in-memory map: in every database writes lead to, whichever of
  them were refused, a write takes the map the database stands for to what the in-memory store
  makes of it, or to itself when it is refused, and both reading methods answer what the
  in-memory store answers on that map.
\<close>

theorem sql_refines_mem:
  fixes ops :: "(connection \<times> write_op) list"
  defines "db \<equiv> foldl (\<lambda>db (c, a). fst (sql_write c db a)) empty_db ops"
  shows "abs_steps (fst (sql_write c db a)) =
      (if refused (snd (sql_write c db a)) then abs_steps db else abs_write c (abs_steps db) a)
    \<and> (if refuses c 0 = None
       then sql_last_n c db i n = Inr (mem_last_n (abs_steps db) i n)
         \<and> sql_steps c db i = Inr (mem_all (abs_steps db) i)
       else refused (snd (sql_write c db a)))"
proof -
  have "consistent db" unfolding db_def by (rule consistent_writes [OF consistent_empty])
  moreover have "refuses c 0 \<noteq> None \<Longrightarrow> refused (snd (sql_write c db a))"
    by (cases a) (auto simp: refused_def sql_write_def sql_append_def sql_update_data_def sql_finalize_def
        sql_delete_def sql_grant_def sql_revoke_def Let_def)
  ultimately show ?thesis using abs_steps_write [of c db a] sql_reads [where db = db and c = c and i = i] by auto
qed

section \<open>Deletion and listing\<close>

lemma delete_removes:
  assumes "sql_delete c db i = (db', out)" and "case out of Some (Db_error e) \<Rightarrow> False | _ \<Rightarrow> True"
  shows "db_sessions db' = filter (\<lambda>r. row_id r \<noteq> i) (db_sessions db)"
    "db_steps db' = filter (\<lambda>r. session_id (row_step r) \<noteq> i) (db_steps db)"
    "db_grants db' = filter (\<lambda>g. grant_session g \<noteq> i) (db_grants db)"
    "out = (if find_session db i = None then Some (No_session i) else None)"
  using assms
  by (auto simp: sql_delete_def Let_def find_session_def find_None_iff filter_empty_conv
      split: option.splits if_splits)

lemma find_filter: "find P (filter Q xs) = find (\<lambda>x. P x \<and> Q x) xs"
  by (induction xs) auto

lemma find_never: "find (\<lambda>x. P x \<and> \<not> P x) xs = None"
  by (simp add: find_None_iff)

lemma find_implied: "(\<And>x. P x \<Longrightarrow> Q x) \<Longrightarrow> find (\<lambda>x. P x \<and> Q x) xs = find P xs"
  by (induction xs) auto

text \<open>
  A delete that the database does not refuse leaves nothing of the session behind, its steps
  and the approvals given in it included, so a session that reuses the id starts afresh; other
  sessions read as before; and it reports a session that was not there.
\<close>

theorem delete_forgets:
  assumes "sql_delete c db i = (db', out)" and "case out of Some (Db_error e) \<Rightarrow> False | _ \<Rightarrow> True"
    and "refuses c' 0 = None"
  shows "sql_get c' db' i = Inr zero_session \<and> sql_exists c' db' i = Inr False
    \<and> sql_last_n c' db' i n = Inr [] \<and> sql_is_granted c' db' i p = Inr False
    \<and> (if j = i then True
       else sql_get c' db' j = sql_get c' db j \<and> sql_last_n c' db' j n = sql_last_n c' db j n
         \<and> sql_is_granted c' db' j p = sql_is_granted c' db j p)
    \<and> (out = None \<longleftrightarrow> sql_exists c' db i = Inr True)"
proof -
  note d = delete_removes [OF assms(1,2)]
  have find: "find_session db' i = None" "j \<noteq> i \<Longrightarrow> find_session db' j = find_session db j"
    unfolding find_session_def d find_filter by (rule find_never, rule find_implied) auto
  have steps: "session_steps db' i = []" "j \<noteq> i \<Longrightarrow> session_steps db' j = session_steps db j"
    by (simp_all add: session_steps_def d) (metis (mono_tags, lifting))
  have grants: "\<not> list_ex (\<lambda>g. grant_session g = i \<and> grant_prompt g = p) (db_grants db')"
      "j \<noteq> i \<Longrightarrow> list_ex (\<lambda>g. grant_session g = j \<and> grant_prompt g = p) (db_grants db')
         = list_ex (\<lambda>g. grant_session g = j \<and> grant_prompt g = p) (db_grants db)"
    by (auto simp: list_ex_iff d)
  show ?thesis using assms(3) find steps grants d(4)
    by (auto simp: sql_get_def sql_exists_def sql_last_n_def sql_is_granted_def Let_def limit_def
        reverse_steps_def)
qed

definition sample_step :: "bytes \<Rightarrow> run_step" where
  "sample_step i = (mk_step ''user'' ''hello'')\<lparr>session_id := i, created_at := 5\<rparr>"

definition sample_db :: database where
  "sample_db = foldl (\<lambda>db a. fst (sql_write (live int 0) db a)) empty_db
     [Append_step (sample_step ''a''), Grant ''a'' ''ok?'', Append_step (sample_step ''b'')]"

theorem delete_forgets_witness:
  "sql_get (live int 9) (fst (sql_delete (live int 0) sample_db ''a'')) ''a'' = Inr zero_session"
  using delete_forgets [of "live int 0" sample_db "''a''" "fst (sql_delete (live int 0) sample_db ''a'')"
      None "live int 9" 0 "''ok?''" "''b''"]
  by (simp add: sample_db_def live_def sql_write_def sql_append_def sql_grant_def sql_delete_def Let_def
      sample_step_def mk_step_def empty_db_def zero_time_def)

text \<open>Listing: a sorted permutation of the sessions, of which the first is the most recent.\<close>

lemma by_recency_sorted:
  "mset (by_recency db) = mset (db_sessions db)"
  "sorted_wrt (\<lambda>a b. (time_text (row_updated_at b), row_id b) \<le> (time_text (row_updated_at a), row_id a))
     (by_recency db)"
proof -
  show "mset (by_recency db) = mset (db_sessions db)" by (simp add: by_recency_def)
  have "sorted (map (\<lambda>r. (time_text (row_updated_at r), row_id r))
      (sort_key (\<lambda>r. (time_text (row_updated_at r), row_id r)) (db_sessions db)))"
    by (rule sorted_sort_key)
  then show "sorted_wrt (\<lambda>a b. (time_text (row_updated_at b), row_id b) \<le> (time_text (row_updated_at a), row_id a))
     (by_recency db)"
    by (simp add: by_recency_def sorted_wrt_rev sorted_map)
qed

lemma most_recent_listed:
  assumes "refuses c 0 = None"
  shows "sql_most_recent c db =
    (case sql_list c db 0 of Inr (x # _) \<Rightarrow> Inr (info_id x) | _ \<Rightarrow> Inl (No_session []))"
  using assms by (cases "by_recency db") (simp_all add: sql_most_recent_def sql_list_def limit_def)

text \<open>
  The comparison is on text without trailing zeros, which is not the order of time within one
  second: a session touched 20 ms after another can be listed below it.
\<close>

definition bare_row :: "bytes \<times> int \<Rightarrow> session_row" where
  "bare_row x = new_row (fst x) (snd x)"

theorem most_recent_is_older:
  "sql_most_recent (live int 0)
     (empty_db\<lparr>db_sessions := map bare_row [(''first'', 1767225600100), (''second'', 1767225600120)]\<rparr>)
   = Inr ''first''"
proof -
  have "time_text 1767225600120 < time_text 1767225600100" by code_simp
  then have "\<not> time_text 1767225600100 < time_text 1767225600120"
      "\<not> time_text 1767225600100 \<le> time_text 1767225600120" by auto
  then show ?thesis
    by (simp add: sql_most_recent_def live_def by_recency_def limit_def bare_row_def new_row_def)
qed

section \<open>A run over a store\<close>

text \<open>
  A world whose step store is \<open>st\<close>: it holds what the run has appended so far.
\<close>

definition over_store ::
    "('st \<Rightarrow> run_step \<Rightarrow> 'st) \<Rightarrow> ('st \<Rightarrow> bytes \<Rightarrow> int \<Rightarrow> run_step list) \<Rightarrow> 'st \<Rightarrow> world \<Rightarrow> world" where
  "over_store add recent st w =
     w\<lparr>last_steps := (\<lambda>t i n. Inr (recent (foldl add st (appended t)) i n)), append_step := (\<lambda>_ _. None)\<rparr>"

definition own_step :: "run_request \<Rightarrow> effect \<Rightarrow> bool" where
  "own_step rq e = (case e of EAppend x \<Rightarrow> session_id x = rq_session_id rq | _ \<Rightarrow> True)"

interpretation own_steps: effect_invariant cfg rq "own_step rq" for cfg rq
  by unfold_locales (auto simp: own_step_def split: effect.splits)

lemma appended_own: "list_all (own_step rq) t \<Longrightarrow> x \<in> set (appended t) \<Longrightarrow> session_id x = rq_session_id rq"
  by (induction t rule: appended.induct) (auto simp: own_step_def)

lemma run_appends_own: "x \<in> set (appended (tr (fst (run cfg w rq)))) \<Longrightarrow> session_id x = rq_session_id rq"
  using appended_own own_steps.run_ok by blast

lemma prior_over_store:
  "prior_steps cfg (over_store add recent st w) rq = recent st (rq_session_id rq) (cfg_history_window cfg)"
  by (simp add: prior_steps_def load_history_def over_store_def Let_def)

context step_store begin

text \<open>What a run leaves in the store, for its session and for the others.\<close>

lemma run_stored:
  assumes "inv st" and "t = tr (fst (run cfg w rq))"
  shows "map untimed (recent (foldl add st (appended t)) (rq_session_id rq) 0)
      = map untimed (recent st (rq_session_id rq) 0 @ appended t)"
    and "i \<noteq> rq_session_id rq \<Longrightarrow> recent (foldl add st (appended t)) i n = recent st i n"
proof -
  have own: "\<forall>x \<in> set (appended t). session_id x = rq_session_id rq"
    using run_appends_own assms(2) by blast
  then have "filter (\<lambda>x. session_id x = rq_session_id rq) (appended t) = appended t" by simp
  then show "map untimed (recent (foldl add st (appended t)) (rq_session_id rq) 0)
      = map untimed (recent st (rq_session_id rq) 0 @ appended t)"
    using recent_adds [OF assms(1)] by simp
  show "recent (foldl add st (appended t)) i n = recent st i n" if "i \<noteq> rq_session_id rq"
    by (rule recent_other [OF assms(1)]) (use own that in blast)
qed

lemma next_run_loads:
  assumes "inv st" and "t = tr (fst (run cfg w rq))" and "rq_session_id rq' = rq_session_id rq"
  shows "map untimed (prior_steps cfg' (over_store add recent (foldl add st (appended t)) w') rq')
    = (let rows = map untimed (recent st (rq_session_id rq) 0 @ appended t) in
       if cfg_history_window cfg' \<le> 0 then rows else last_n (nat (cfg_history_window cfg')) rows)"
proof -
  let ?st = "foldl add st (appended t)" and ?n = "cfg_history_window cfg'"
  have "map untimed (recent ?st (rq_session_id rq) ?n) =
      (let rows = map untimed (recent ?st (rq_session_id rq) 0) in
       if ?n \<le> 0 then rows else last_n (nat ?n) rows)"
    by (subst recent_window [OF inv_adds [OF assms(1)]]) (simp add: Let_def last_n_map)
  then show ?thesis by (simp only: prior_over_store assms(3) run_stored(1) [OF assms(1,2)])
qed

end

text \<open>
  C14 A run over the SQL store is continued by the next run of its session: that run loads the
  last \<open>HistoryWindow\<close> rows of the trace so far followed by everything the first run
  persisted, times of creation apart, and gives its first step the number of rows it loaded as
  index.  Other sessions load what they would have loaded before.
\<close>

theorem run_continues:
  fixes ops :: "store_op list" and clk :: "nat \<Rightarrow> int" and cfg cfg' :: config and w w' :: world and rq :: run_request
  defines "add \<equiv> \<lambda>st x. sql_do clk st (Append_step x)"
    and "st \<equiv> foldl (sql_perform clk) (empty_db, 0) ops"
    and "n \<equiv> cfg_history_window cfg'"
  defines "t \<equiv> appended (tr (fst (run cfg (over_store add (sql_recent clk) st w) rq)))"
  defines "next_world \<equiv> over_store add (sql_recent clk) (foldl add st t) w'"
  defines "rows \<equiv> map untimed (sql_recent clk st (rq_session_id rq) 0 @ t)"
  shows "map untimed (prior_steps cfg' next_world (rq\<lparr>rq_message := m\<rparr>)) = (if n \<le> 0 then rows else last_n (nat n) rows)
    \<and> (if loaded next_world (rq\<lparr>rq_message := m\<rparr>)
       then step_index (hd (appended (tr (fst (run cfg' next_world (rq\<lparr>rq_message := m\<rparr>))))))
              = i32 (if n \<le> 0 then int (length rows) else min n (int (length rows)))
       else True)
    \<and> (if i = rq_session_id rq then True
       else prior_steps cfg' next_world (rq\<lparr>rq_session_id := i\<rparr>)
              = prior_steps cfg' (over_store add (sql_recent clk) st w') (rq\<lparr>rq_session_id := i\<rparr>))"
proof -
  have inv: "consistent (fst st)"
    unfolding st_def sql_perform_contract by (rule sql.inv_performs [OF sql_steps.inv_fresh])
  let ?rq = "rq\<lparr>rq_message := m\<rparr>"
  have loads: "map untimed (prior_steps cfg' next_world ?rq) = (if n \<le> 0 then rows else last_n (nat n) rows)"
    using sql_steps.next_run_loads [OF inv refl, where rq = rq and rq' = ?rq]
    unfolding next_world_def t_def add_def rows_def n_def by (simp add: Let_def)
  have "length (prior_steps cfg' next_world ?rq) = length (if n \<le> 0 then rows else last_n (nat n) rows)"
    using arg_cong [OF loads, of length] by simp
  then have "int (length (prior_steps cfg' next_world ?rq)) = (if n \<le> 0 then int (length rows) else min n (int (length rows)))"
    by auto
  moreover have "step_index (hd (appended (tr (fst (run cfg' next_world ?rq)))))
      = i32 (int (length (prior_steps cfg' next_world ?rq)))" if "loaded next_world ?rq"
    using that by (rule run_indexed [where cfg = cfg']) (simp add: upt_rec)
  moreover have "prior_steps cfg' next_world (rq\<lparr>rq_session_id := i\<rparr>)
      = prior_steps cfg' (over_store add (sql_recent clk) st w') (rq\<lparr>rq_session_id := i\<rparr>)"
    if "i \<noteq> rq_session_id rq"
    using sql_steps.run_stored(2) [OF inv refl that]
    unfolding prior_over_store next_world_def t_def add_def by simp
  ultimately show ?thesis using loads by simp
qed

text \<open>
  So the indices of a session repeat once it holds more rows than the window: with rows 0 to
  \<open>n\<close> and a window of \<open>n\<close>, the next run numbers its first step \<open>n\<close> again.
\<close>

theorem indices_repeat:
  assumes "map step_index (mem_all st (rq_session_id rq)) = map int [0..<Suc n]"
    and "cfg_history_window cfg = int n" "0 < n" "int n < 2 ^ 31"
    and "loaded (over_store mem_append mem_last_n st w) rq"
  shows "step_index (hd (appended (tr (fst (run cfg (over_store mem_append mem_last_n st w) rq)))))
     \<in> set (map step_index (mem_all st (rq_session_id rq)))"
proof -
  have "length (mem_all st (rq_session_id rq)) = Suc n"
    using assms(1) by (metis length_map length_upt diff_zero)
  then have "length (prior_steps cfg (over_store mem_append mem_last_n st w) rq) = n"
    using assms(2,3) by (simp add: prior_over_store mem_last_n_window mem_all_def)
  moreover have "i32 (int n) = int n" using assms(4) by (simp add: i32_id)
  ultimately have "step_index (hd (appended (tr (fst (run cfg (over_store mem_append mem_last_n st w) rq))))) = int n"
    using assms(5) by - (rule run_indexed [where cfg = cfg], auto simp: upt_rec)
  then show ?thesis unfolding assms(1) by simp
qed

end
