(* ===== verification/Policy_Properties.thy ===== *)
theory Policy_Properties
  imports Sandbox_Policy
begin

text \<open>
  What the policies let through.  An address literal in an URL is recognised whatever its port
  and path, so the default policy keeps scripts out of private networks; a chain of policies
  allows only what each of them allows.
\<close>

section \<open>Reading an URL back\<close>

lemma cut_at_append: "c \<notin> set x \<Longrightarrow> cut_at c (x @ c # r) = (x, r)"
  by (induction x) (auto simp: cut_at_def)

lemma cut_at_absent: "c \<notin> set s \<Longrightarrow> cut_at c s = (s, [])"
  by (induction s) (auto simp: cut_at_def)

lemma unescape_plain:
  "CHR ''%'' \<notin> set s \<Longrightarrow> m = Any_text \<or> list_all host_char s \<Longrightarrow> unescape m s = Some s"
  by (induction m s rule: unescape.induct) auto

section \<open>Dotted addresses\<close>

definition dotted :: "nat \<Rightarrow> nat \<Rightarrow> nat \<Rightarrow> nat \<Rightarrow> bytes" where
  "dotted a b c d = nat_text a @ CHR ''.'' # nat_text b @ CHR ''.'' # nat_text c @ CHR ''.'' # nat_text d"

lemma digit_range: "is_digit c \<longleftrightarrow> c \<in> set ''0123456789''"
proof
  assume "is_digit c"
  define n where "n = (of_char c :: nat)"
  from \<open>is_digit c\<close> have "48 \<le> n" "n \<le> 57" by (simp_all add: is_digit_def n_def)
  then have "n = 48 \<or> n = 49 \<or> n = 50 \<or> n = 51 \<or> n = 52 \<or> n = 53 \<or> n = 54 \<or> n = 55 \<or> n = 56 \<or> n = 57"
    by presburger
  then have "n \<in> set [48, 49, 50, 51, 52, 53, 54, 55, 56, 57]" by auto
  then have "(of_char c :: nat) \<in> set [48, 49, 50, 51, 52, 53, 54, 55, 56, 57]" unfolding n_def .
  moreover have "list_all (\<lambda>n :: nat. char_of n \<in> set ''0123456789'') [48, 49, 50, 51, 52, 53, 54, 55, 56, 57]"
    by code_simp
  ultimately have "char_of (of_char c :: nat) \<in> set ''0123456789''" unfolding list_all_iff by blast
  then show "c \<in> set ''0123456789''" unfolding char_of_char .
qed (auto simp: is_digit_def)

lemma digits_set: "list_all is_digit s \<Longrightarrow> set s \<subseteq> set ''0123456789''"
  by (auto simp: list_all_iff digit_range)

lemma octet_length: "n \<le> 255 \<Longrightarrow> length (nat_text n) \<le> 3"
proof -
  assume "n \<le> 255"
  then have "length (nat_text n) \<le> length (nat_text 255)" by (rule length_nat_text_mono)
  also have "length (nat_text 255) = 3" by code_simp
  finally show ?thesis .
qed

lemma octet_no_zero: "hd (nat_text n) = CHR ''0'' \<Longrightarrow> length (nat_text n) = 1"
  using nat_text_no_leading_zero [of n] by (cases "n = 0") (auto simp: nat_text.simps)

lemma parse_octet_text: "n \<le> 255 \<Longrightarrow> parse_octet (nat_text n) = Some n"
  using octet_length [of n] octet_no_zero [of n]
  by (simp add: parse_octet_def nat_text_digits nat_text_nonempty digits_val_nat_text)

lemma nat_text_chars: "set (nat_text n) \<subseteq> set ''0123456789''"
  by (rule digits_set [OF nat_text_digits])

lemma nat_text_no_dot [simp]: "CHR ''.'' \<notin> set (nat_text n)"
  using nat_text_chars by fastforce

lemma parse_v4_dotted:
  "a \<le> 255 \<Longrightarrow> b \<le> 255 \<Longrightarrow> c \<le> 255 \<Longrightarrow> d \<le> 255 \<Longrightarrow> parse_v4 (dotted a b c d) = Some (a, b, c, d)"
  by (simp add: parse_v4_def dotted_def split_on_snoc split_on_whole parse_octet_text)

lemma dotted_chars: "set (dotted a b c d) \<subseteq> set ''.0123456789''"
  using nat_text_chars by (fastforce simp: dotted_def)

lemma parse_ip_dotted:
  "a \<le> 255 \<Longrightarrow> b \<le> 255 \<Longrightarrow> c \<le> 255 \<Longrightarrow> d \<le> 255 \<Longrightarrow> parse_ip (dotted a b c d) = Some (V4 a b c d)"
proof -
  have "CHR '':'' \<notin> set (dotted a b c d)" using dotted_chars by fastforce
  then show "a \<le> 255 \<Longrightarrow> b \<le> 255 \<Longrightarrow> c \<le> 255 \<Longrightarrow> d \<le> 255 \<Longrightarrow> ?thesis"
    by (simp add: parse_ip_def parse_v4_dotted)
qed

section \<open>Private addresses\<close>

lemma literal_all: "list_all P xs \<Longrightarrow> set h \<subseteq> set xs \<Longrightarrow> \<forall>c \<in> set h. P c"
  by (auto simp: list_all_iff)

lemma literal_all3:
  "list_all P xs \<Longrightarrow> set u \<subseteq> set xs \<union> A \<union> B \<Longrightarrow> \<forall>c \<in> A. P c \<Longrightarrow> \<forall>c \<in> B. P c \<Longrightarrow> \<forall>c \<in> set u. P c"
  by (auto simp: list_all_iff)

text \<open>A byte an URL's path may carry as it stands.\<close>

definition path_char :: "char \<Rightarrow> bool" where
  "path_char c = (is_alpha c \<or> is_digit c \<or> c \<in> set ''/-_.~!$&()*+,;=:@'')"

lemma netloc_chars:
  "c \<in> set '':.0123456789'' \<Longrightarrow> host_char c \<and> \<not> control_byte c \<and>
     c \<noteq> CHR ''%'' \<and> c \<noteq> CHR ''#'' \<and> c \<noteq> CHR ''?'' \<and> c \<noteq> CHR ''/'' \<and> c \<noteq> CHR ''@'' \<and> c \<noteq> CHR ''[''"
proof -
  have "list_all (\<lambda>c. host_char c \<and> \<not> control_byte c \<and>
     c \<noteq> CHR ''%'' \<and> c \<noteq> CHR ''#'' \<and> c \<noteq> CHR ''?'' \<and> c \<noteq> CHR ''/'' \<and> c \<noteq> CHR ''@'' \<and> c \<noteq> CHR ''['')
     '':.0123456789''" by code_simp
  then show "c \<in> set '':.0123456789'' \<Longrightarrow> ?thesis" unfolding list_all_iff by blast
qed

lemma path_char_fields:
  assumes "path_char c"
  shows "\<not> control_byte c" "c \<noteq> CHR ''%''" "c \<noteq> CHR ''#''" "c \<noteq> CHR ''?''"
proof -
  have "\<not> path_char (CHR ''%'')" "\<not> path_char (CHR ''#'')" "\<not> path_char (CHR ''?'')" by code_simp+
  then show "c \<noteq> CHR ''%''" "c \<noteq> CHR ''#''" "c \<noteq> CHR ''?''" using assms by metis+
  have "list_all (\<lambda>c. \<not> control_byte c) ''/-_.~!$&()*+,;=:@''" by code_simp
  moreover have "is_alpha c \<or> is_digit c \<Longrightarrow> \<not> control_byte c"
    by (simp add: is_alpha_def is_digit_def control_byte_def byte_of_def) linarith
  ultimately show "\<not> control_byte c" using assms unfolding path_char_def list_all_iff by blast
qed

definition port_text :: "bytes \<Rightarrow> bytes" where
  "port_text port = (if port = [] then [] else CHR '':'' # port)"

lemma netloc_set:
  assumes "set h \<subseteq> set ''.0123456789''" "list_all is_digit port"
  shows "set (h @ port_text port) \<subseteq> set '':.0123456789''" "CHR '':'' \<notin> set h" "CHR '':'' \<notin> set port"
proof -
  have sub: "set ''.0123456789'' \<subseteq> set '':.0123456789''" "set ''0123456789'' \<subseteq> set ''.0123456789''"
    "CHR '':'' \<in> set '':.0123456789''" "CHR '':'' \<notin> set ''.0123456789''" by code_simp+
  note p = digits_set [OF assms(2)]
  have "set (port_text port) \<subseteq> insert (CHR '':'') (set port)" by (simp add: port_text_def)
  then show "set (h @ port_text port) \<subseteq> set '':.0123456789''" using assms(1) p sub(1,2,3) unfolding set_append by blast
  show "CHR '':'' \<notin> set h" "CHR '':'' \<notin> set port" using assms(1) p sub(2,4) by blast+
qed

lemma host_port:
  assumes "set h \<subseteq> set ''.0123456789''" "h \<noteq> []" "list_all is_digit port"
  shows "parse_host (h @ port_text port) = Some (h @ port_text port)"
    and "host_name (h @ port_text port) = h"
    and "parse_authority (h @ port_text port) = Some (h @ port_text port)"
proof -
  let ?a = "h @ port_text port"
  have chars: "set ?a \<subseteq> set '':.0123456789''"
    by (rule netloc_set [OF assms(1,3)])
  note colon = netloc_set(2,3) [OF assms(1,3)]
  have none: "CHR ''@'' \<notin> set ?a" "CHR ''['' \<notin> set ?a" "CHR ''%'' \<notin> set ?a"
    using chars netloc_chars by blast+
  have "\<forall>c \<in> set ?a. host_char c" using chars netloc_chars by blast
  then have un: "unescape Host_text ?a = Some ?a"
    using none(3) unfolding list_all_iff [symmetric] by (intro unescape_plain) simp_all
  have lci: "last_char_index (CHR '':'') ?a = (if port = [] then None else Some (length h))"
    using colon last_char_index_append [of "CHR '':''" port h] by (auto simp: port_text_def last_char_index_absent)
  have vop: "valid_optional_port (CHR '':'' # port)" using assms(3) by (simp add: valid_optional_port_def)
  show ph: "parse_host ?a = Some ?a"
    unfolding parse_host_def char_index_absent [OF none(2)] lci un
    using vop by (simp add: port_text_def)
  have "hd h \<in> set '':.0123456789''" using chars hd_in_set [OF assms(2)] unfolding set_append by blast
  then have "hd h \<noteq> CHR ''[''" using netloc_chars by blast
  then have nb: "\<not> has_prefix ''['' h" using assms(2) by (cases h) auto
  show "host_name ?a = h"
    unfolding host_name_def lci using vop nb by (simp add: port_text_def)
  show "parse_authority ?a = Some ?a"
    unfolding parse_authority_def last_char_index_absent [OF none(1)] ph by simp
qed

definition http_url :: "bytes \<Rightarrow> bytes \<Rightarrow> bytes \<Rightarrow> bytes" where
  "http_url h port path = ''http://'' @ h @ port_text port @ CHR ''/'' # path"

lemma parse_http_url:
  assumes "set h \<subseteq> set ''.0123456789''" "h \<noteq> []" "list_all is_digit port" "list_all path_char path"
  shows "parse_url (http_url h port path) = Some (h @ port_text port)"
proof -
  let ?a = "h @ port_text port" and ?u = "http_url h port path"
  have ch: "set ?a \<subseteq> set '':.0123456789''"
    by (rule netloc_set [OF assms(1,3)])
  have pc: "\<forall>c \<in> set path. \<not> control_byte c \<and> c \<noteq> CHR ''%'' \<and> c \<noteq> CHR ''#'' \<and> c \<noteq> CHR ''?''"
  proof
    fix c assume "c \<in> set path"
    then have "path_char c" using assms(4) unfolding list_all_iff by blast
    from path_char_fields [OF this]
    show "\<not> control_byte c \<and> c \<noteq> CHR ''%'' \<and> c \<noteq> CHR ''#'' \<and> c \<noteq> CHR ''?''" by (intro conjI)
  qed
  have slash: "CHR ''/'' \<notin> set ?a" and clean: "CHR ''#'' \<notin> set ?a" "CHR ''?'' \<notin> set ?a"
    "\<forall>c \<in> set ?a. \<not> control_byte c"
    using netloc_chars [OF subsetD [OF ch]] by blast+
  have "CHR ''/'' \<in> set ''http://''" by code_simp
  then have parts: "set ?u \<subseteq> set ''http://'' \<union> set ?a \<union> set path"
    unfolding http_url_def set_append list.set(2) [of "CHR ''/''" path] by blast
  have "list_all (\<lambda>c. \<not> control_byte c \<and> c \<noteq> CHR ''#'') ''http://''" by code_simp
  then have u: "\<forall>c \<in> set ?u. \<not> control_byte c \<and> c \<noteq> CHR ''#''"
    by (rule literal_all3 [OF _ parts]) (use clean pc in metis)+
  have hash: "CHR ''#'' \<notin> set ?u" using u by metis
  have ctl: "\<not> list_ex control_byte ?u" using u unfolding list_ex_iff by metis
  have quest: "CHR ''?'' \<notin> set (''//'' @ ?a @ CHR ''/'' # path)" using clean(2) pc by auto
  have scheme: "scheme_from [] ?u = Some (''http'', ''//'' @ ?a @ CHR ''/'' # path)"
    by (simp add: http_url_def is_alpha_def is_digit_def byte_of_def)
  have path: "unescape Any_text path = Some path" using pc by (intro unescape_plain) auto
  have "\<not> ?u = ''*''" by (simp add: http_url_def)
  then show ?thesis
    using ctl path cut_at_append [OF slash, of path] host_port(3) [OF assms(1-3)]
    unfolding parse_url_def cut_at_absent [OF hash] Let_def prod.case scheme option.case
      cut_at_absent [OF quest] fst_conv
    by simp
qed

lemma digit_end: "set h \<subseteq> set ''.0123456789'' \<Longrightarrow> h \<noteq> [] \<Longrightarrow> \<not> has_suffix ''.localhost'' h
    \<and> \<not> has_suffix ''.local'' h \<and> \<not> has_suffix ''.internal'' h \<and> h \<noteq> ''localhost''"
proof -
  assume h0: "set h \<subseteq> set ''.0123456789''" "h \<noteq> []"
  have "list_all (\<lambda>x. x \<noteq> CHR ''t'' \<and> x \<noteq> CHR ''l'') ''.0123456789''" by code_simp
  from literal_all [OF this h0(1)] have x: "last h \<noteq> CHR ''t'' \<and> last h \<noteq> CHR ''l''"
    by (rule bspec) (rule last_in_set [OF h0(2)])
  have h: "rev h = last h # rev (butlast h)" using \<open>h \<noteq> []\<close> by (metis append_butlast_last_id rev_eq_Cons_iff rev_rev_ident)
  have "h \<noteq> ''localhost''" using x by force
  then show ?thesis using x by (auto simp: has_suffix_def h)
qed

lemma to_lower_digits: "set h \<subseteq> set ''.0123456789'' \<Longrightarrow> to_lower h = h"
proof -
  assume "set h \<subseteq> set ''.0123456789''"
  moreover have "list_all (\<lambda>c. \<not> (65 \<le> (of_char c :: nat) \<and> (of_char c :: nat) \<le> 90)) ''.0123456789''"
    by code_simp
  ultimately have "\<forall>c \<in> set h. \<not> (65 \<le> (of_char c :: nat) \<and> (of_char c :: nat) \<le> 90)"
    by (rule literal_all [rotated])
  then show ?thesis by (unfold to_lower_def, intro map_idI) auto
qed

text \<open>
  C19 Under the default policy, fetch, the HTTP module and the browser reach an IPv4 literal,
  whatever its port and path, exactly when a grant of the URL, a grant of private networks, or
  the address itself allows it: loopback, unspecified, private and link-local addresses are
  refused unless listed, and with an allowlist every unlisted address is.
\<close>

theorem private_ip_denied:
  assumes "a \<le> 255" "b \<le> 255" "c \<le> 255" "d \<le> 255" "list_all is_digit port" "list_all path_char path"
    and "tool \<in> set url_tools"
  defines "url \<equiv> http_url (dotted a b c d) port path"
  shows "allowed (default_check p tool [(''url'', JStr url)]) \<longleftrightarrow>
     list_ex (\<lambda>q. has_prefix q url) (prefixes (url_allow_prefixes p))
     \<or> prefixes (url_allow_prefixes p) = [] \<and> (allow_private_networks p
         \<or> a \<noteq> 127 \<and> a \<noteq> 10 \<and> (a, b, c, d) \<noteq> (0, 0, 0, 0) \<and> (a, b) \<noteq> (192, 168) \<and> (a, b) \<noteq> (169, 254)
           \<and> \<not> (a = 172 \<and> 16 \<le> b \<and> b \<le> 31) \<and> (a, b, c) \<noteq> (224, 0, 0))"
proof -
  let ?h = "dotted a b c d"
  have h: "set ?h \<subseteq> set ''.0123456789''" "?h \<noteq> []" using dotted_chars by (auto simp: dotted_def)
  have "parse_url url = Some (?h @ port_text port)"
    unfolding url_def by (rule parse_http_url [OF h assms(5,6)])
  moreover note host_port(2) [OF h assms(5)] to_lower_digits [OF h(1)] digit_end [OF h]
    parse_ip_dotted [OF assms(1-4)]
  ultimately have "is_private_host_url url = (a = 127 \<or> a = 0 \<and> b = 0 \<and> c = 0 \<and> d = 0
      \<or> (a = 10 \<or> a = 172 \<and> 16 \<le> b \<and> b \<le> 31 \<or> a = 192 \<and> b = 168) \<or> (a = 169 \<and> b = 254 \<or> a = 224 \<and> b = 0 \<and> c = 0))"
    using h(2) by (simp add: is_private_host_url_def Let_def)
  moreover have "string_arg [(''url'', JStr url)] ''url'' = url" "url \<noteq> []"
    by (simp_all add: string_arg_def url_def http_url_def)
  ultimately show ?thesis using assms(7)
    by (auto simp: default_check_def check_url_def Let_def permit_def refuse_def not_listed_def)
qed

theorem private_ip_denied_witness:
  "\<not> allowed (default_check default_policy_zero ''fetch'' [(''url'', JStr (http_url (dotted 127 0 0 1) ''80'' ''x''))])"
proof -
  have "list_all is_digit ''80''" "list_all path_char ''x''" "''fetch'' \<in> set url_tools" by code_simp+
  from private_ip_denied [OF _ _ _ _ this, of 127 0 0 1 default_policy_zero] show ?thesis
    by (simp add: default_policy_zero_def prefixes_def)
qed

text \<open>
  The comparison with \<open>localhost\<close> and the internal suffixes is on the text: a host name with the
  final dot of a fully qualified name passes, although it resolves to the same host.
\<close>

theorem trailing_dot_allowed:
  "allowed (default_check default_policy_zero ''fetch'' [(''url'', JStr ''http://localhost./'')])"
  "\<not> allowed (default_check default_policy_zero ''fetch'' [(''url'', JStr ''http://localhost/'')])"
  by code_simp+

section \<open>Chains\<close>

definition refusal :: "bytes + policy_result \<Rightarrow> bool" where
  "refusal r = (case r of Inl _ \<Rightarrow> True | Inr res \<Rightarrow> \<not> allowed res)"

definition granted :: "bytes + policy_result \<Rightarrow> policy_result" where
  "granted r = (case r of Inl _ \<Rightarrow> permit | Inr res \<Rightarrow> res)"

lemma check_all_chain:
  "check_all cs final tool args =
     (let rs = map (\<lambda>c. check c tool args) cs in
      case find refusal rs of
        Some r \<Rightarrow> r
      | None \<Rightarrow> Inr (case find (\<lambda>r. config_json r \<noteq> []) (rev (map granted rs)) of
                        None \<Rightarrow> final | Some r \<Rightarrow> r))"
proof (induction cs arbitrary: final)
  case (Cons c cs)
  have snoc: "(case find P (xs @ [x]) of None \<Rightarrow> y | Some r \<Rightarrow> r) =
      (case find P xs of None \<Rightarrow> if P x then x else y | Some r \<Rightarrow> r)" for P xs x and y :: policy_result
    by (induction xs) auto
  show ?case
    by (cases "check c tool args")
      (simp_all add: Cons.IH refusal_def granted_def Let_def snoc cong: option.case_cong)
qed simp

text \<open>
  A chain of policies answers with the first refusal of its parts, error or denial; when
  every part allows the call, so does the chain, with the configuration of the last part that
  has one.
\<close>

theorem multi_policy_chain:
  "check (Multi_policy cs) tool args =
     (let rs = map (\<lambda>c. check c tool args) cs in
      case find refusal rs of
        Some r \<Rightarrow> r
      | None \<Rightarrow> Inr (case find (\<lambda>r. config_json r \<noteq> []) (rev (map granted rs)) of
                        None \<Rightarrow> permit | Some r \<Rightarrow> r))"
  using check_all_chain [of cs permit] by simp

end
