(* ===== verification/Sandbox_Pool.thy ===== *)
theory Sandbox_Pool
  imports Go_Prelude "HOL-Library.Multiset"
begin

text \<open>
  \<open>pool/pool.go\<close> and \<open>pool/context.go\<close>: one long-lived sandbox per session, shared by the
  runs of that session one after the other.  The pool's state is the map of entries, the
  entries themselves and, for every goroutine, where it is in the call it makes.  What happens
  under the pool's mutex is one step, and so is what a goroutine does alone on an entry whose
  lock it holds; everything else interleaves, which \<open>pool_step\<close> describes one step at a time.
  A run is known by its goroutine, so \<open>en_ctx\<close> and \<open>en_event\<close> are the goroutine whose context
  the entry's swappable context forwards to, and whose callback the sandbox reports to.  The
  delegate is not the pool's code: it either builds a sandbox or fails.  The map is iterated in
  any order, as in Go.
\<close>

section \<open>State\<close>

record entry =
  en_session :: bytes
  en_ctx :: nat
  en_event :: nat
  en_owner :: "nat option"
  en_cleanups :: nat
  en_last_used :: int

text \<open>
  Where a goroutine is: in \<open>Build\<close> (looking up, waiting to check out, calling the delegate,
  storing what it built, discarding it after losing a race, or back in its run with the
  sandbox), in one of the evicting calls, or outside the pool.
\<close>

datatype pc =
    Outside
  | Lookup bytes
  | Checkout bytes nat
  | Delegating bytes
  | Storing bytes nat
  | Discarding bytes nat nat
  | In_run bytes nat
  | Evicting "nat list"
  | Cleaning nat "nat list"

record pool =
  pl_entries :: "(bytes \<times> nat) list"
  pl_heap :: "nat \<Rightarrow> entry"
  pl_next :: nat
  pl_pc :: "nat \<Rightarrow> pc"
  pl_now :: int

definition blank_entry :: entry where
  "blank_entry = \<lparr>en_session = [], en_ctx = 0, en_event = 0, en_owner = None, en_cleanups = 0,
     en_last_used = 0\<rparr>"

definition new_pool :: "int \<Rightarrow> pool" where
  "new_pool now = \<lparr>pl_entries = [], pl_heap = (\<lambda>_. blank_entry), pl_next = 0, pl_pc = (\<lambda>_. Outside),
     pl_now = now\<rparr>"

definition default_idle_timeout :: int where
  "default_idle_timeout = 30 * 60 * 1000000000"

definition idle_timeout :: "int \<Rightarrow> int" where
  "idle_timeout opt = (if opt \<le> 0 then default_idle_timeout else opt)"

section \<open>Operations\<close>

definition goto :: "nat \<Rightarrow> pc \<Rightarrow> pool \<Rightarrow> pool" where
  "goto t c p = p\<lparr>pl_pc := (pl_pc p)(t := c)\<rparr>"

definition put_entry :: "nat \<Rightarrow> entry \<Rightarrow> pool \<Rightarrow> pool" where
  "put_entry e x p = p\<lparr>pl_heap := (pl_heap p)(e := x)\<rparr>"

definition idle_for :: "pool \<Rightarrow> nat \<Rightarrow> int" where
  "idle_for p e = pl_now p - en_last_used (pl_heap p e)"

text \<open>\<open>lookup\<close>, and what \<open>Build\<close> does with its answer.\<close>

definition lookup_entry :: "nat \<Rightarrow> bytes \<Rightarrow> pool \<Rightarrow> pool" where
  "lookup_entry t s p =
     (case map_of (pl_entries p) s of
        Some e \<Rightarrow> goto t (Checkout s e) p
      | None \<Rightarrow> goto t (Delegating s) p)"

text \<open>\<open>checkout\<close>, once the entry's lock is free.\<close>

definition checkout :: "nat \<Rightarrow> bytes \<Rightarrow> nat \<Rightarrow> pool \<Rightarrow> pool" where
  "checkout t s e p =
     goto t (In_run s e) (put_entry e
       ((pl_heap p e)\<lparr>en_owner := Some t, en_last_used := pl_now p, en_ctx := t, en_event := t\<rparr>) p)"

text \<open>The delegate's sandbox becomes an entry, locked and touched, that nobody else knows.\<close>

definition built :: "nat \<Rightarrow> bytes \<Rightarrow> pool \<Rightarrow> pool" where
  "built t s p =
     (let e = pl_next p in
      goto t (Storing s e) (put_entry e
        \<lparr>en_session = s, en_ctx = t, en_event = t, en_owner = Some t, en_cleanups = 0,
         en_last_used = pl_now p\<rparr> p)\<lparr>pl_next := Suc e\<rparr>)"

definition store :: "nat \<Rightarrow> bytes \<Rightarrow> nat \<Rightarrow> pool \<Rightarrow> pool" where
  "store t s e p =
     (case map_of (pl_entries p) s of
        Some existing \<Rightarrow> goto t (Discarding s e existing) p
      | None \<Rightarrow> goto t (In_run s e) (p\<lparr>pl_entries := (s, e) # pl_entries p\<rparr>))"

definition clean :: "nat \<Rightarrow> pool \<Rightarrow> pool" where
  "clean e p = put_entry e ((pl_heap p e)\<lparr>en_cleanups := Suc (en_cleanups (pl_heap p e))\<rparr>) p"

definition unlock :: "nat \<Rightarrow> pool \<Rightarrow> pool" where
  "unlock e p = put_entry e ((pl_heap p e)\<lparr>en_owner := None\<rparr>) p"

definition discard :: "nat \<Rightarrow> bytes \<Rightarrow> nat \<Rightarrow> nat \<Rightarrow> pool \<Rightarrow> pool" where
  "discard t s e existing p = goto t (Checkout s existing) (clean e p)"

definition release :: "nat \<Rightarrow> nat \<Rightarrow> pool \<Rightarrow> pool" where
  "release t e p = goto t Outside (unlock e p)"

text \<open>\<open>Evict\<close>, \<open>EvictIdle\<close> and \<open>Close\<close> first take entries out of the map.\<close>

definition take_one :: "nat \<Rightarrow> bytes \<Rightarrow> pool \<Rightarrow> pool" where
  "take_one t s p =
     goto t (Evicting (map snd (filter (\<lambda>x. fst x = s) (pl_entries p))))
       (p\<lparr>pl_entries := filter (\<lambda>x. fst x \<noteq> s) (pl_entries p)\<rparr>)"

definition idle_entries :: "int \<Rightarrow> pool \<Rightarrow> nat list" where
  "idle_entries timeout p = map snd (filter (\<lambda>x. timeout < idle_for p (snd x)) (pl_entries p))"

definition take_idle :: "nat \<Rightarrow> int \<Rightarrow> nat list \<Rightarrow> pool \<Rightarrow> pool" where
  "take_idle t timeout es p =
     goto t (Evicting es)
       (p\<lparr>pl_entries := filter (\<lambda>x. \<not> timeout < idle_for p (snd x)) (pl_entries p)\<rparr>)"

definition take_all :: "nat \<Rightarrow> nat list \<Rightarrow> pool \<Rightarrow> pool" where
  "take_all t es p = goto t (Evicting es) (p\<lparr>pl_entries := []\<rparr>)"

text \<open>\<open>evict\<close>: lock when free, clean up, unlock.\<close>

definition evict_lock :: "nat \<Rightarrow> nat \<Rightarrow> nat list \<Rightarrow> pool \<Rightarrow> pool" where
  "evict_lock t e es p = goto t (Cleaning e es) (put_entry e ((pl_heap p e)\<lparr>en_owner := Some t\<rparr>) p)"

definition evict_clean :: "nat \<Rightarrow> nat \<Rightarrow> nat list \<Rightarrow> pool \<Rightarrow> pool" where
  "evict_clean t e es p = goto t (Evicting es) (unlock e (clean e p))"

section \<open>The interleavings\<close>

inductive pool_step :: "int \<Rightarrow> pool \<Rightarrow> pool \<Rightarrow> bool" for timeout :: int where
  call_build: "pl_pc p t = Outside \<Longrightarrow> pool_step timeout p (goto t (Lookup s) p)"
| lookup: "pl_pc p t = Lookup s \<Longrightarrow> pool_step timeout p (lookup_entry t s p)"
| checkout: "pl_pc p t = Checkout s e \<Longrightarrow> en_owner (pl_heap p e) = None \<Longrightarrow>
    pool_step timeout p (checkout t s e p)"
| delegate_fails: "pl_pc p t = Delegating s \<Longrightarrow> pool_step timeout p (goto t Outside p)"
| delegate_builds: "pl_pc p t = Delegating s \<Longrightarrow> pool_step timeout p (built t s p)"
| store: "pl_pc p t = Storing s e \<Longrightarrow> pool_step timeout p (store t s e p)"
| discard: "pl_pc p t = Discarding s e x \<Longrightarrow> pool_step timeout p (discard t s e x p)"
| release: "pl_pc p t = In_run s e \<Longrightarrow> pool_step timeout p (release t e p)"
| call_evict: "pl_pc p t = Outside \<Longrightarrow> pool_step timeout p (take_one t s p)"
| call_evict_idle: "pl_pc p t = Outside \<Longrightarrow> mset es = mset (idle_entries timeout p) \<Longrightarrow>
    pool_step timeout p (take_idle t timeout es p)"
| call_close: "pl_pc p t = Outside \<Longrightarrow> mset es = mset (map snd (pl_entries p)) \<Longrightarrow>
    pool_step timeout p (take_all t es p)"
| evict_lock: "pl_pc p t = Evicting (e # es) \<Longrightarrow> en_owner (pl_heap p e) = None \<Longrightarrow>
    pool_step timeout p (evict_lock t e es p)"
| evict_clean: "pl_pc p t = Cleaning e es \<Longrightarrow> pool_step timeout p (evict_clean t e es p)"
| evicted: "pl_pc p t = Evicting [] \<Longrightarrow> pool_step timeout p (goto t Outside p)"
| tick: "0 \<le> d \<Longrightarrow> pool_step timeout p (p\<lparr>pl_now := pl_now p + d\<rparr>)"

definition pool_reaches :: "int \<Rightarrow> pool \<Rightarrow> bool" where
  "pool_reaches timeout p = (\<exists>now. (pool_step timeout)\<^sup>*\<^sup>* (new_pool now) p)"

end
