(* ===== verification/Pool_Safety.thy ===== *)
theory Pool_Safety
  imports Sandbox_Pool
begin

text \<open>
  What the pool guarantees in every interleaving: a run holds its sandbox alone, the sandbox is
  its session's, and its context and callback are the run's; every sandbox built is cleaned up
  at most once, never while a run holds it, and until then someone is responsible for it.
\<close>

section \<open>The invariant\<close>

text \<open>The entries a goroutine will put into the map or clean up, and the one it has locked.\<close>

fun pending :: "pc \<Rightarrow> nat list" where
  "pending (Storing s e) = [e]"
| "pending (Discarding s e x) = [e]"
| "pending (Evicting es) = es"
| "pending (Cleaning e es) = e # es"
| "pending _ = []"

fun locks :: "pc \<Rightarrow> nat option" where
  "locks (Storing s e) = Some e"
| "locks (Discarding s e x) = Some e"
| "locks (In_run s e) = Some e"
| "locks (Cleaning e es) = Some e"
| "locks _ = None"

text \<open>What a goroutine knows of the entry it waits for or holds.\<close>

fun knows :: "pool \<Rightarrow> nat \<Rightarrow> pc \<Rightarrow> bool" where
  "knows p t (Checkout s e) = (e < pl_next p \<and> en_session (pl_heap p e) = s)"
| "knows p t (Storing s e) = (e < pl_next p \<and> en_session (pl_heap p e) = s
     \<and> en_ctx (pl_heap p e) = t \<and> en_event (pl_heap p e) = t)"
| "knows p t (In_run s e) = (e < pl_next p \<and> en_session (pl_heap p e) = s
     \<and> en_ctx (pl_heap p e) = t \<and> en_event (pl_heap p e) = t)"
| "knows p t (Discarding s e x) = (x < pl_next p \<and> en_session (pl_heap p x) = s)"
| "knows p t _ = True"

definition mapped :: "pool \<Rightarrow> nat set" where
  "mapped p = snd ` set (pl_entries p)"

definition entries_ok :: "pool \<Rightarrow> bool" where
  "entries_ok p =
     (distinct (map fst (pl_entries p)) \<and> distinct (map snd (pl_entries p))
      \<and> (\<forall>(s, e) \<in> set (pl_entries p). e < pl_next p \<and> en_session (pl_heap p e) = s \<and> en_cleanups (pl_heap p e) = 0))"

definition threads_ok :: "pool \<Rightarrow> bool" where
  "threads_ok p =
     (\<forall>t. knows p t (pl_pc p t) \<and> (\<forall>e. locks (pl_pc p t) = Some e \<longrightarrow> en_owner (pl_heap p e) = Some t))"

definition pending_ok :: "pool \<Rightarrow> bool" where
  "pending_ok p =
     (\<forall>t. distinct (pending (pl_pc p t))
        \<and> (\<forall>e \<in> set (pending (pl_pc p t)). e < pl_next p \<and> en_cleanups (pl_heap p e) = 0 \<and> e \<notin> mapped p
             \<and> (\<forall>t'. e \<in> set (pending (pl_pc p t')) \<longrightarrow> t' = t)))"

definition accounted :: "pool \<Rightarrow> bool" where
  "accounted p =
     (\<forall>e < pl_next p. en_cleanups (pl_heap p e) \<le> 1
        \<and> (en_cleanups (pl_heap p e) = 1 \<or> e \<in> mapped p \<or> (\<exists>t. e \<in> set (pending (pl_pc p t)))))"

definition pool_inv :: "pool \<Rightarrow> bool" where
  "pool_inv p = (entries_ok p \<and> threads_ok p \<and> pending_ok p \<and> accounted p)"

lemmas inv_parts = entries_ok_def threads_ok_def pending_ok_def accounted_def mapped_def

lemma accounted_entry:
  assumes "accounted p" "k < pl_next p" "en_cleanups (pl_heap p' k) = en_cleanups (pl_heap p k)"
    and "k \<in> mapped p \<Longrightarrow> k \<in> M" and "\<And>u. k \<in> set (pending (pl_pc p u)) \<Longrightarrow> k \<in> set (pending (pl_pc p' u))"
  shows "en_cleanups (pl_heap p' k) \<le> 1 \<and>
     (en_cleanups (pl_heap p' k) = 1 \<or> k \<in> M \<or> (\<exists>u. k \<in> set (pending (pl_pc p' u))))"
  using assms unfolding accounted_def by metis

lemma goto_simps [simp]:
  "pl_entries (goto t c p) = pl_entries p" "pl_heap (goto t c p) = pl_heap p"
  "pl_next (goto t c p) = pl_next p" "pl_pc (goto t c p) = (pl_pc p)(t := c)" "pl_now (goto t c p) = pl_now p"
  by (simp_all add: goto_def)

lemma put_entry_simps [simp]:
  "pl_entries (put_entry e x p) = pl_entries p" "pl_heap (put_entry e x p) = (pl_heap p)(e := x)"
  "pl_next (put_entry e x p) = pl_next p" "pl_pc (put_entry e x p) = pl_pc p" "pl_now (put_entry e x p) = pl_now p"
  by (simp_all add: put_entry_def)

text \<open>Only these parts of a pool matter to what a goroutine knows.\<close>

lemma knows_cong:
  "knows p t c \<Longrightarrow> pl_next p \<le> pl_next p' \<Longrightarrow>
   (\<And>e. e < pl_next p \<Longrightarrow> en_session (pl_heap p' e) = en_session (pl_heap p e)) \<Longrightarrow>
   (\<And>e. locks c = Some e \<Longrightarrow> e < pl_next p \<Longrightarrow> en_ctx (pl_heap p' e) = en_ctx (pl_heap p e)
      \<and> en_event (pl_heap p' e) = en_event (pl_heap p e)) \<Longrightarrow> knows p' t c"
  by (cases c) (auto intro: less_le_trans)

lemma new_pool_inv: "pool_inv (new_pool now)"
  by (simp add: pool_inv_def inv_parts new_pool_def)

lemma inv_goto_plain:
  "pool_inv p \<Longrightarrow> pending c = pending (pl_pc p t) \<Longrightarrow> locks c = None \<Longrightarrow> knows p t c \<Longrightarrow> pool_inv (goto t c p)"
  unfolding pool_inv_def
proof (intro conjI)
  assume *: "entries_ok p \<and> threads_ok p \<and> pending_ok p \<and> accounted p" "pending c = pending (pl_pc p t)"
    "locks c = None" "knows p t c"
  have pend: "pending ((pl_pc (goto t c p)) u) = pending (pl_pc p u)" for u using *(2) by simp
  have m: "mapped (goto t c p) = mapped p" by (simp add: mapped_def)
  show "entries_ok (goto t c p)" using * by (simp add: entries_ok_def)
  show "pending_ok (goto t c p)" using * unfolding pending_ok_def pend m by simp
  show "accounted (goto t c p)" using * unfolding accounted_def pend m by simp
  have "knows (goto t c p) u d = knows p u d" for u d by (cases d) simp_all
  then show "threads_ok (goto t c p)" using * by (simp add: threads_ok_def)
qed

section \<open>Every step keeps it\<close>

lemma inv_lookup: "pool_inv p \<Longrightarrow> pl_pc p t = Lookup s \<Longrightarrow> pool_inv (lookup_entry t s p)"
proof -
  assume inv: "pool_inv p" "pl_pc p t = Lookup s"
  show ?thesis
  proof (cases "map_of (pl_entries p) s")
    case None
    then show ?thesis using inv by (simp add: lookup_entry_def inv_goto_plain)
  next
    case (Some e)
    then have "(s, e) \<in> set (pl_entries p)" by (rule map_of_SomeD)
    then have "knows p t (Checkout s e)" using inv by (auto simp: pool_inv_def entries_ok_def)
    then show ?thesis using inv Some by (simp add: lookup_entry_def inv_goto_plain)
  qed
qed

text \<open>Changing an entry nobody else has locked, but for its session and its count of cleanups.\<close>

lemma inv_relock:
  assumes inv: "pool_inv p" and "e < pl_next p" "en_owner (pl_heap p e) \<in> {None, Some t}"
    and "en_session x = en_session (pl_heap p e)" "en_cleanups x = en_cleanups (pl_heap p e)"
    and "pending c = pending (pl_pc p t)" "locks c = None \<or> locks c = Some e" "locks c = Some e \<Longrightarrow> en_owner x = Some t"
    and "knows (put_entry e x p) t c"
  shows "pool_inv (goto t c (put_entry e x p))"
proof -
  let ?p = "goto t c (put_entry e x p)"
  have pend: "pending (pl_pc ?p u) = pending (pl_pc p u)" for u using assms(6) by simp
  have m: "mapped ?p = mapped p" by (simp add: mapped_def)
  have cl: "en_cleanups (pl_heap ?p k) = en_cleanups (pl_heap p k)" for k using assms(5) by simp
  have ses: "en_session (pl_heap ?p k) = en_session (pl_heap p k)" for k using assms(4) by simp
  have "entries_ok ?p" using inv cl ses unfolding pool_inv_def entries_ok_def by simp
  moreover have "pending_ok ?p" using inv cl unfolding pool_inv_def pending_ok_def pend m by simp
  moreover have "accounted ?p" using inv cl unfolding pool_inv_def accounted_def pend m by simp
  moreover have "threads_ok ?p"
    unfolding threads_ok_def
  proof (intro allI conjI impI)
    fix u
    have free: "locks (pl_pc p u) = Some e \<Longrightarrow> u = t" using inv assms(3) by (auto simp: pool_inv_def threads_ok_def)
    have cong: "knows (put_entry e x p) u d \<Longrightarrow> knows ?p u d" for d by (cases d) simp_all
    show "knows ?p u (pl_pc ?p u)"
    proof (cases "u = t")
      case True
      then show ?thesis using cong assms(9) by simp
    next
      case False
      have "knows p u (pl_pc p u)" using inv by (simp add: pool_inv_def threads_ok_def)
      then have "knows (put_entry e x p) u (pl_pc p u)"
        by (rule knows_cong) (use False free assms(4) in auto)
      then show ?thesis using False cong by simp
    qed
    fix k assume "locks (pl_pc ?p u) = Some k"
    then show "en_owner (pl_heap ?p k) = Some u"
      using inv free assms(7,8) by (cases "u = t") (auto simp: pool_inv_def threads_ok_def)
  qed
  ultimately show ?thesis by (simp add: pool_inv_def)
qed

lemma inv_checkout:
  assumes "pool_inv p" "pl_pc p t = Checkout s e" "en_owner (pl_heap p e) = None"
  shows "pool_inv (checkout t s e p)"
proof -
  have "knows p t (Checkout s e)" using assms(1,2) by (metis pool_inv_def threads_ok_def)
  then show ?thesis using assms unfolding checkout_def by (intro inv_relock) simp_all
qed

lemma inv_release: "pool_inv p \<Longrightarrow> pl_pc p t = In_run s e \<Longrightarrow> pool_inv (release t e p)"
proof -
  assume inv: "pool_inv p" "pl_pc p t = In_run s e"
  then have "knows p t (In_run s e)" "en_owner (pl_heap p e) = Some t"
    by (metis pool_inv_def threads_ok_def, simp add: pool_inv_def threads_ok_def)
  then show ?thesis using inv unfolding release_def unlock_def by (intro inv_relock) simp_all
qed

lemma inv_evict_lock:
  "pool_inv p \<Longrightarrow> pl_pc p t = Evicting (e # es) \<Longrightarrow> en_owner (pl_heap p e) = None \<Longrightarrow>
   pool_inv (evict_lock t e es p)"
proof -
  assume inv: "pool_inv p" "pl_pc p t = Evicting (e # es)" "en_owner (pl_heap p e) = None"
  then have "e < pl_next p" by (simp add: pool_inv_def pending_ok_def) (metis list.set_intros(1) pending.simps(3))
  then show ?thesis using inv unfolding evict_lock_def by (intro inv_relock) simp_all
qed

text \<open>Cleaning up an entry one is responsible for, and being done with it.\<close>

lemma inv_clean:
  assumes inv: "pool_inv p" and "pending (pl_pc p t) = e # pending c" "locks (pl_pc p t) = Some e"
    and "locks c = None" "knows p t c"
    and "x = (pl_heap p e)\<lparr>en_cleanups := Suc (en_cleanups (pl_heap p e)), en_owner := ow\<rparr>"
  shows "pool_inv (goto t c (put_entry e x p))"
proof -
  let ?p = "goto t c (put_entry e x p)"
  have m: "mapped ?p = mapped p" by (simp add: mapped_def)
  have e: "e < pl_next p" "en_cleanups (pl_heap p e) = 0" "e \<notin> mapped p" "distinct (e # pending c)"
    "\<And>u. e \<in> set (pending (pl_pc p u)) \<Longrightarrow> u = t"
    using inv assms(2) unfolding pool_inv_def pending_ok_def by (metis list.set_intros(1))+
  have own: "locks (pl_pc p u) = Some e \<Longrightarrow> u = t" for u
    using inv assms(3) unfolding pool_inv_def threads_ok_def by (metis option.inject)
  have "entries_ok ?p" using inv e(3) unfolding pool_inv_def entries_ok_def mapped_def by (auto simp: assms(6)) force+
  moreover have "pending_ok ?p"
    unfolding pending_ok_def m
  proof (intro allI conjI ballI impI)
    fix u
    have sub: "set (pending (pl_pc ?p v)) \<subseteq> set (pending (pl_pc p v)) - {e}" for v
      using e(4,5) assms(2) by (cases "v = t") auto
    show "distinct (pending (pl_pc ?p u))"
      using inv e(4) by (cases "u = t") (auto simp: pool_inv_def pending_ok_def)
    fix k assume k: "k \<in> set (pending (pl_pc ?p u))"
    then have k': "k \<in> set (pending (pl_pc p u))" "k \<noteq> e" using sub by blast+
    show "k < pl_next ?p" "en_cleanups (pl_heap ?p k) = 0" "k \<notin> mapped p"
      using inv k' by (auto simp: pool_inv_def pending_ok_def)
    fix v assume "k \<in> set (pending (pl_pc ?p v))"
    then show "v = u" using inv k' sub unfolding pool_inv_def pending_ok_def by blast
  qed
  moreover have "accounted ?p"
    unfolding accounted_def m
  proof (intro allI impI)
    fix k assume k: "k < pl_next ?p"
    have "k \<noteq> e \<Longrightarrow> k \<in> set (pending (pl_pc p u)) \<Longrightarrow> k \<in> set (pending (pl_pc ?p u))" for u
      using assms(2) by (cases "u = t") auto
    then show "en_cleanups (pl_heap ?p k) \<le> 1 \<and>
        (en_cleanups (pl_heap ?p k) = 1 \<or> k \<in> mapped p \<or> (\<exists>u. k \<in> set (pending (pl_pc ?p u))))"
      using inv k e(2) unfolding pool_inv_def accounted_def assms(6)
      by (cases "k = e") (simp, metis fun_upd_other goto_simps(2,3) put_entry_simps(2,3))
  qed
  moreover have "threads_ok ?p"
    unfolding threads_ok_def
  proof (intro allI conjI impI)
    fix u
    have cong: "knows p u d \<Longrightarrow> knows ?p u d" for d
      by (rule knows_cong) (auto simp: assms(6))
    show "knows ?p u (pl_pc ?p u)"
      using inv assms(5) cong by (cases "u = t") (auto simp: pool_inv_def threads_ok_def)
    fix k assume "locks (pl_pc ?p u) = Some k"
    then show "en_owner (pl_heap ?p k) = Some u"
      using inv own assms(4) by (cases "u = t") (auto simp: pool_inv_def threads_ok_def)
  qed
  ultimately show ?thesis by (simp add: pool_inv_def)
qed

lemma inv_evict_clean: "pool_inv p \<Longrightarrow> pl_pc p t = Cleaning e es \<Longrightarrow> pool_inv (evict_clean t e es p)"
proof -
  assume inv: "pool_inv p" "pl_pc p t = Cleaning e es"
  have "evict_clean t e es p = goto t (Evicting es) (put_entry e ((pl_heap p e)
      \<lparr>en_cleanups := Suc (en_cleanups (pl_heap p e)), en_owner := None\<rparr>) p)"
    by (simp add: evict_clean_def unlock_def clean_def put_entry_def)
  then show ?thesis using inv_clean [OF inv(1), of t e "Evicting es" _ None] inv(2) by simp
qed

lemma inv_discard: "pool_inv p \<Longrightarrow> pl_pc p t = Discarding s e x \<Longrightarrow> pool_inv (discard t s e x p)"
proof -
  assume inv: "pool_inv p" "pl_pc p t = Discarding s e x"
  then have "knows p t (Discarding s e x)" by (metis pool_inv_def threads_ok_def)
  then show ?thesis
    unfolding discard_def clean_def
    using inv_clean [OF inv(1), of t e "Checkout s x" _ "en_owner (pl_heap p e)"] inv(2) by simp
qed

lemma inv_built: "pool_inv p \<Longrightarrow> pl_pc p t = Delegating s \<Longrightarrow> pool_inv (built t s p)"
proof -
  assume inv: "pool_inv p" "pl_pc p t = Delegating s"
  let ?e = "pl_next p" and ?p = "built t s p"
  have old: "k < pl_next p" if "k \<in> set (pending (pl_pc p u))" for k u
    using inv that by (auto simp: pool_inv_def pending_ok_def)
  have mold: "k < pl_next p" if "k \<in> mapped p" for k
    using inv that by (auto simp: pool_inv_def entries_ok_def mapped_def)
  have m: "mapped ?p = mapped p" by (simp add: mapped_def built_def Let_def)
  have parts: "pl_next ?p = Suc ?e" "pl_pc ?p = (pl_pc p)(t := Storing s ?e)" "pl_entries ?p = pl_entries p"
    "pl_heap ?p = (pl_heap p)(?e := \<lparr>en_session = s, en_ctx = t, en_event = t, en_owner = Some t,
        en_cleanups = 0, en_last_used = pl_now p\<rparr>)"
    by (simp_all add: built_def Let_def)
  have "entries_ok ?p" using inv by (auto simp: pool_inv_def entries_ok_def parts)
  moreover have "pending_ok ?p"
    unfolding pending_ok_def m
  proof (intro allI conjI ballI impI)
    fix u
    have own: "pending (pl_pc ?p v) = (if v = t then [?e] else pending (pl_pc p v))" for v by (simp add: parts)
    show "distinct (pending (pl_pc ?p u))" using inv by (simp add: own pool_inv_def pending_ok_def)
    fix k assume k: "k \<in> set (pending (pl_pc ?p u))"
    show "k < pl_next ?p" "en_cleanups (pl_heap ?p k) = 0" "k \<notin> mapped p"
      using inv k old [of k u] mold [of k]
      by (cases "u = t"; auto simp: own parts pool_inv_def pending_ok_def less_SucI)+
    fix v assume "k \<in> set (pending (pl_pc ?p v))"
    then show "v = u" using inv k old [of ?e] unfolding own pool_inv_def pending_ok_def
      by (auto split: if_splits)
  qed
  moreover have "accounted ?p"
    unfolding accounted_def m
  proof (intro allI impI)
    fix k assume k: "k < pl_next ?p"
    have "k \<in> set (pending (pl_pc p u)) \<Longrightarrow> k \<in> set (pending (pl_pc ?p u))" for u
      using inv(2) by (auto simp: parts)
    then show "en_cleanups (pl_heap ?p k) \<le> 1 \<and>
        (en_cleanups (pl_heap ?p k) = 1 \<or> k \<in> mapped p \<or> (\<exists>u. k \<in> set (pending (pl_pc ?p u))))"
      using inv k by (cases "k = ?e")
        (force simp: parts, intro accounted_entry [of p], simp_all add: pool_inv_def parts less_Suc_eq)
  qed
  moreover have "threads_ok ?p"
    unfolding threads_ok_def
  proof (intro allI conjI impI)
    fix u
    have ku: "knows p u (pl_pc p u)" using inv by (simp add: pool_inv_def threads_ok_def)
    have lold: "locks (pl_pc p u) = Some k \<Longrightarrow> k < pl_next p" for k
      using ku old [of k u] by (cases "pl_pc p u") auto
    have "knows ?p u (pl_pc p u)" by (rule knows_cong [OF ku]) (auto simp: parts)
    then show "knows ?p u (pl_pc ?p u)" by (simp add: parts)
    fix k assume "locks (pl_pc ?p u) = Some k"
    then show "en_owner (pl_heap ?p k) = Some u"
      using inv lold by (cases "u = t") (auto simp: pool_inv_def threads_ok_def parts)
  qed
  ultimately show ?thesis by (simp add: pool_inv_def)
qed

lemma knows_entries [simp]: "knows (p\<lparr>pl_entries := es\<rparr>) t c = knows p t c"
  by (cases c) simp_all

lemma inv_store: "pool_inv p \<Longrightarrow> pl_pc p t = Storing s e \<Longrightarrow> pool_inv (store t s e p)"
proof -
  assume inv: "pool_inv p" "pl_pc p t = Storing s e"
  then have ks: "knows p t (Storing s e)" "en_owner (pl_heap p e) = Some t"
    by (metis pool_inv_def threads_ok_def, simp add: pool_inv_def threads_ok_def)
  show ?thesis
  proof (cases "map_of (pl_entries p) s")
    case (Some x)
    then have x: "x < pl_next p" "en_session (pl_heap p x) = s"
      using inv(1) map_of_SomeD [OF Some] by (auto simp: pool_inv_def entries_ok_def)
    have same: "put_entry e (pl_heap p e) p = p" by (simp add: put_entry_def)
    then show ?thesis
      using inv_relock [OF inv(1), of e t "pl_heap p e" "Discarding s e x"] ks x inv(2) Some
      by (simp add: store_def same)
  next
    case None
    let ?p = "goto t (In_run s e) (p\<lparr>pl_entries := (s, e) # pl_entries p\<rparr>)"
    have fresh: "s \<notin> fst ` set (pl_entries p)" using None by (simp add: map_of_eq_None_iff)
    have e: "e \<notin> mapped p" "en_cleanups (pl_heap p e) = 0" "\<And>u. e \<in> set (pending (pl_pc p u)) \<Longrightarrow> u = t"
      using inv by (auto simp: pool_inv_def pending_ok_def) (metis inv(2) list.set_intros(1) pending.simps(1))+
    have m: "mapped ?p = insert e (mapped p)" by (simp add: mapped_def)
    have kn: "knows ?p u c = knows p u c" for u c by (cases c) simp_all
    have "entries_ok ?p" using inv ks e fresh by (auto simp: pool_inv_def entries_ok_def mapped_def)
    moreover have "pending_ok ?p" using inv e unfolding pool_inv_def pending_ok_def m by auto
    moreover have "threads_ok ?p" using inv ks unfolding pool_inv_def threads_ok_def kn by auto
    moreover have "accounted ?p"
      unfolding accounted_def m
    proof (intro allI impI)
      fix k assume k: "k < pl_next ?p"
      have "k \<noteq> e \<Longrightarrow> k \<in> set (pending (pl_pc p u)) \<Longrightarrow> k \<in> set (pending (pl_pc ?p u))" for u
        using inv(2) by (cases "u = t") auto
      then show "en_cleanups (pl_heap ?p k) \<le> 1 \<and>
          (en_cleanups (pl_heap ?p k) = 1 \<or> k \<in> insert e (mapped p) \<or> (\<exists>u. k \<in> set (pending (pl_pc ?p u))))"
        using inv k e(2) by (cases "k = e") (simp, intro accounted_entry [of p], simp_all add: pool_inv_def)
    qed
    ultimately show ?thesis using None by (simp add: store_def pool_inv_def)
  qed
qed

lemma inv_take:
  assumes inv: "pool_inv p" and "pl_pc p t = Outside"
    and es: "mset es = mset (map snd (filter (\<lambda>x. \<not> Q x) (pl_entries p)))"
  shows "pool_inv (goto t (Evicting es) (p\<lparr>pl_entries := filter Q (pl_entries p)\<rparr>))"
proof -
  let ?p = "goto t (Evicting es) (p\<lparr>pl_entries := filter Q (pl_entries p)\<rparr>)"
  have eo: "distinct (map snd (pl_entries p))" "distinct (map fst (pl_entries p))"
    using inv by (auto simp: pool_inv_def entries_ok_def)
  have set: "set es = snd ` {x \<in> set (pl_entries p). \<not> Q x}"
    using arg_cong [OF es, of set_mset] by simp
  have m: "mapped p = mapped ?p \<union> set es" by (auto simp: mapped_def set)
  have dist: "distinct es" by (rule iffD2 [OF mset_eq_imp_distinct_iff [OF es]]) (rule distinct_map_filter [OF eo(1)])
  have disj: "k \<notin> mapped ?p" if "k \<in> set es" for k
    using that eo(1) by (auto simp: set mapped_def distinct_map dest: inj_onD)
  have cleanm: "k < pl_next p \<and> en_cleanups (pl_heap p k) = 0" if "k \<in> mapped p" for k
    using inv that by (auto simp: pool_inv_def entries_ok_def mapped_def)
  have sep: "k \<in> mapped p \<Longrightarrow> k \<notin> set (pending (pl_pc p u))" for k u
    using inv by (auto simp: pool_inv_def pending_ok_def)
  have own: "pending (pl_pc ?p u) = (if u = t then es else pending (pl_pc p u))" for u by simp
  have "entries_ok ?p"
    using inv by (auto simp: pool_inv_def entries_ok_def distinct_map_filter)
  moreover have "threads_ok ?p"
  proof -
    have "knows ?p u c = knows p u c" for u c by (cases c) simp_all
    then show ?thesis using inv unfolding pool_inv_def threads_ok_def by simp
  qed
  moreover have "pending_ok ?p"
    unfolding pending_ok_def
  proof (intro allI conjI ballI impI)
    fix u
    show "distinct (pending (pl_pc ?p u))" using inv dist by (simp add: own pool_inv_def pending_ok_def)
    fix k assume k: "k \<in> set (pending (pl_pc ?p u))"
    show "k < pl_next ?p" "en_cleanups (pl_heap ?p k) = 0" "k \<notin> mapped ?p"
      using inv k cleanm [of k] disj [of k] m
      by (cases "u = t"; auto simp: own pool_inv_def pending_ok_def)+
    fix v assume v: "k \<in> set (pending (pl_pc ?p v))"
    have "k \<in> set (pending (pl_pc p u)) \<Longrightarrow> k \<in> set (pending (pl_pc p v)) \<Longrightarrow> v = u"
      using inv unfolding pool_inv_def pending_ok_def by blast
    then show "v = u" using k v sep m unfolding own by (auto split: if_splits)
  qed
  moreover have "accounted ?p"
    unfolding accounted_def
  proof (intro allI impI)
    fix k assume "k < pl_next ?p"
    then have "en_cleanups (pl_heap p k) \<le> 1
        \<and> (en_cleanups (pl_heap p k) = 1 \<or> k \<in> mapped p \<or> (\<exists>u. k \<in> set (pending (pl_pc p u))))"
      using inv by (auto simp: pool_inv_def accounted_def)
    moreover have "k \<in> set (pending (pl_pc p u)) \<Longrightarrow> k \<in> set (pending (pl_pc ?p u))" for u
      using assms(2) by (cases "u = t") auto
    moreover have "k \<in> set es \<Longrightarrow> k \<in> set (pending (pl_pc ?p t))" by simp
    ultimately show "en_cleanups (pl_heap ?p k) \<le> 1 \<and>
        (en_cleanups (pl_heap ?p k) = 1 \<or> k \<in> mapped ?p \<or> (\<exists>u. k \<in> set (pending (pl_pc ?p u))))"
      unfolding m by (metis Un_iff goto_simps(2) pool.select_convs(2) pool.surjective pool.update_convs(1))
  qed
  ultimately show ?thesis by (simp add: pool_inv_def)
qed

lemma inv_tick: "pool_inv p \<Longrightarrow> pool_inv (p\<lparr>pl_now := n\<rparr>)"
proof -
  have "knows (p\<lparr>pl_now := n\<rparr>) u c = knows p u c" for u c by (cases c) simp_all
  then show "pool_inv p \<Longrightarrow> ?thesis" by (simp add: pool_inv_def inv_parts)
qed

theorem pool_step_inv: "pool_step timeout p p' \<Longrightarrow> pool_inv p \<Longrightarrow> pool_inv p'"
proof (induction rule: pool_step.induct)
  case (call_evict_idle p t es)
  then have "mset es = mset (map snd (filter (\<lambda>x. \<not> \<not> timeout < idle_for p (snd x)) (pl_entries p)))"
    by (simp add: idle_entries_def)
  then show ?case unfolding take_idle_def by (intro inv_take call_evict_idle)
next
  case (call_close p t es)
  then have "mset es = mset (map snd (filter (\<lambda>x. \<not> False) (pl_entries p)))" by simp
  from inv_take [OF call_close(3,1) this] show ?case by (simp add: take_all_def)
next
  case (call_evict p t s)
  then show ?case unfolding take_one_def by (intro inv_take) simp_all
next
  case (call_build p t s)
  then show ?case by (intro inv_goto_plain) simp_all
next
  case (delegate_fails p t s)
  then show ?case by (intro inv_goto_plain) simp_all
next
  case (evicted p t)
  then show ?case by (intro inv_goto_plain) simp_all
qed (simp_all add: inv_lookup inv_checkout inv_built inv_store inv_discard inv_release inv_evict_lock
    inv_evict_clean inv_tick)

lemma pool_reaches_inv: "pool_reaches timeout p \<Longrightarrow> pool_inv p"
proof -
  have "(pool_step timeout)\<^sup>*\<^sup>* a p \<Longrightarrow> pool_inv a \<Longrightarrow> pool_inv p" for a
    by (induction rule: rtranclp_induct) (auto intro: pool_step_inv)
  then show "pool_reaches timeout p \<Longrightarrow> ?thesis" unfolding pool_reaches_def using new_pool_inv by blast
qed

section \<open>The guarantees\<close>

lemma cleanups_step:
  assumes "pool_step timeout p p'" "e < pl_next p" "en_cleanups (pl_heap p' e) \<noteq> en_cleanups (pl_heap p e)"
  shows "\<exists>u. locks (pl_pc p u) = Some e \<and> pl_pc p' u \<noteq> pl_pc p u"
  using assms
proof (induction rule: pool_step.induct)
  case (discard p t s e' x)
  then show ?case by (intro exI [of _ t]) (auto simp: discard_def clean_def split: if_splits)
next
  case (evict_clean p t e' es)
  then show ?case by (intro exI [of _ t]) (auto simp: evict_clean_def clean_def unlock_def split: if_splits)
qed (auto simp: lookup_entry_def checkout_def built_def store_def release_def unlock_def take_one_def
    take_idle_def take_all_def evict_lock_def Let_def split: option.splits if_splits)

text \<open>
  C16 In every interleaving of builds, runs, evictions, sweeps and closes, a run that has a
  sandbox of the pool has it alone: no other goroutine holds its lock; it is a sandbox of the
  run's own session, its swappable context forwards to the run's context, it reports to the
  run's callback; and no step of anyone tears it down while the run keeps it.
\<close>

theorem pool_exclusive:
  assumes "pool_reaches timeout p" and "pl_pc p t = In_run s e"
  shows "en_session (pl_heap p e) = s \<and> en_ctx (pl_heap p e) = t \<and> en_event (pl_heap p e) = t
    \<and> (\<forall>u. locks (pl_pc p u) = Some e \<longrightarrow> u = t)
    \<and> (\<forall>p'. pool_step timeout p p' \<and> pl_pc p' t = In_run s e
          \<longrightarrow> en_cleanups (pl_heap p' e) = en_cleanups (pl_heap p e))"
proof -
  have inv: "pool_inv p" by (rule pool_reaches_inv [OF assms(1)])
  then have k: "knows p t (In_run s e)" using assms(2) by (metis pool_inv_def threads_ok_def)
  have "locks (pl_pc p t) = Some e" using assms(2) by simp
  then have alone: "\<forall>u. locks (pl_pc p u) = Some e \<longrightarrow> u = t"
    using inv unfolding pool_inv_def threads_ok_def by (metis option.inject)
  show ?thesis using k alone cleanups_step [of timeout p _ e] assms(2) by auto metis
qed

text \<open>
  C17 Every sandbox the delegate built is cleaned up at most once, and until it is, it is not
  lost: it is in the pool under its session's id, or exactly one goroutine is about to put it
  there or to clean it up.
\<close>

theorem pool_cleanup_once:
  assumes "pool_reaches timeout p" and "e < pl_next p"
  shows "en_cleanups (pl_heap p e) \<le> 1
    \<and> (if en_cleanups (pl_heap p e) = 1 then True
       else (en_session (pl_heap p e), e) \<in> set (pl_entries p)
          \<or> (\<exists>!t. e \<in> set (pending (pl_pc p t))))"
proof -
  have inv: "pool_inv p" by (rule pool_reaches_inv [OF assms(1)])
  have "e \<in> mapped p \<Longrightarrow> (en_session (pl_heap p e), e) \<in> set (pl_entries p)"
    using inv by (auto simp: pool_inv_def entries_ok_def mapped_def)
  moreover have "e \<in> set (pending (pl_pc p t)) \<Longrightarrow> \<exists>!t. e \<in> set (pending (pl_pc p t))" for t
    using inv unfolding pool_inv_def pending_ok_def by blast
  ultimately show ?thesis
    using inv assms(2) unfolding pool_inv_def accounted_def by auto
qed

text \<open>
  A schedule: goroutine 0 builds the session's sandbox and finishes its run, goroutine 1 looks
  it up, goroutine 2 evicts it before goroutine 1 has locked it.
\<close>

definition race :: "bytes \<Rightarrow> pool list" where
  "race s =
     (let p1 = goto 0 (Lookup s) (new_pool 0); p2 = lookup_entry 0 s p1; p3 = built 0 s p2;
          p4 = store 0 s 0 p3; p5 = release 0 0 p4; p6 = goto 1 (Lookup s) p5; p7 = lookup_entry 1 s p6;
          p8 = take_one 2 s p7; p9 = evict_lock 2 0 [] p8; p10 = evict_clean 2 0 [] p9;
          p11 = checkout 1 s 0 p10
      in [p1, p2, p3, p4, p5, p6, p7, p8, p9, p10, p11])"

lemmas pool_ops = goto_def put_entry_def lookup_entry_def built_def store_def release_def unlock_def
  clean_def take_one_def evict_lock_def evict_clean_def checkout_def new_pool_def blank_entry_def Let_def

lemma race_steps: "list_all (\<lambda>(p, p'). pool_step timeout p p') (zip (new_pool 0 # race s) (race s))"
  unfolding race_def Let_def zip_Cons_Cons zip.simps(1) list.pred_inject prod.case
  by (intro conjI pool_step.call_build pool_step.lookup pool_step.delegate_builds pool_step.store
      pool_step.release pool_step.call_evict pool_step.evict_lock pool_step.evict_clean pool_step.checkout)
    (simp_all add: pool_ops)

lemma chain_reaches: "list_all (\<lambda>(p, p'). R p p') (zip (p # ps) ps) \<Longrightarrow> ps \<noteq> [] \<Longrightarrow> R\<^sup>*\<^sup>* p (last ps)"
proof (induction ps arbitrary: p)
  case (Cons q ps)
  then show ?case by (cases ps) (auto intro: converse_rtranclp_into_rtranclp)
qed simp

text \<open>
  The guarantee ends before the checkout: a run that has looked its sandbox up and waits for the
  lock is handed one that has been torn down meanwhile.
\<close>

theorem pool_use_after_cleanup:
  "\<exists>p. pool_reaches timeout p \<and> pl_pc p 1 = In_run s 0 \<and> en_cleanups (pl_heap p 0) = 1
     \<and> map_of (pl_entries p) s = None"
proof (intro exI conjI)
  show "pool_reaches timeout (last (race s))"
    unfolding pool_reaches_def using chain_reaches [OF race_steps] by (auto simp: race_def Let_def)
  show "pl_pc (last (race s)) 1 = In_run s 0" "en_cleanups (pl_heap (last (race s)) 0) = 1"
    "map_of (pl_entries (last (race s))) s = None"
    by (simp_all add: race_def pool_ops)
qed

theorem pool_exclusive_witness:
  "en_ctx (pl_heap (last (race ''a'')) 0) = 1"
proof -
  have "pool_reaches 5 (last (race ''a''))"
    unfolding pool_reaches_def using chain_reaches [OF race_steps] by (auto simp: race_def Let_def)
  moreover have "pl_pc (last (race ''a'')) 1 = In_run ''a'' 0" by (simp add: race_def pool_ops)
  ultimately show ?thesis using pool_exclusive by blast
qed

theorem pool_cleanup_once_witness: "en_cleanups (pl_heap (last (race ''a'')) 0) \<le> 1"
proof -
  have "pool_reaches 5 (last (race ''a''))"
    unfolding pool_reaches_def using chain_reaches [OF race_steps] by (auto simp: race_def Let_def)
  moreover have "0 < pl_next (last (race ''a''))" by (simp add: race_def pool_ops)
  ultimately show ?thesis using pool_cleanup_once by blast
qed

end
