(* ===== verification/Script_Source.thy ===== *)
theory Script_Source
  imports Go_Url
begin

text \<open>
  The text work of \<open>sandbox/sandbox.go\<close>: the automatic \<open>return\<close> in front of a script's last
  expression, the scan for a semicolon that separates statements, and the cap on log output.
\<close>

section \<open>Semicolons\<close>

text \<open>\<open>endOfString\<close>: what follows the quote that closes a literal, if one does.\<close>

fun after_string :: "char \<Rightarrow> bytes \<Rightarrow> bytes option" where
  "after_string q [] = None"
| "after_string q (c # s) =
     (if c = CHR 0x5C then (case s of [] \<Rightarrow> None | _ # r \<Rightarrow> after_string q r)
      else if c = q then Some s else after_string q s)"

lemma after_string_shorter: "after_string q s = Some r \<Longrightarrow> length r < length s"
  by (induction q s arbitrary: r rule: after_string.induct) (auto split: if_splits list.splits, fastforce+)

definition quotes :: "char list" where
  "quotes = [CHR 0x27, CHR 0x22, CHR 0x60]"

function (sequential) semicolon_at :: "nat \<Rightarrow> bytes \<Rightarrow> bool" where
  "semicolon_at depth [] = False"
| "semicolon_at depth (c # s) =
     (if c \<in> set quotes
      then (case after_string c s of None \<Rightarrow> True | Some r \<Rightarrow> semicolon_at depth r)
      else if c = CHR ''/''
      then (case s of
              [] \<Rightarrow> False
            | x # r \<Rightarrow>
                if x = CHR ''/'' then False
                else if x = CHR ''*''
                then (case index_of ''*/'' r of None \<Rightarrow> True | Some n \<Rightarrow> semicolon_at depth (drop (n + 2) r))
                else semicolon_at depth s)
      else if c \<in> set ''([{'' then semicolon_at (depth + 1) s
      else if c \<in> set '')]}'' then semicolon_at (depth - 1) s
      else if c = CHR '';'' \<and> depth = 0 then True
      else semicolon_at depth s)"
  by pat_completeness auto
termination
  by (relation "measure (\<lambda>(d, s). length s)") (auto dest: after_string_shorter)

definition has_top_level_semicolon :: "bytes \<Rightarrow> bool" where
  "has_top_level_semicolon line = semicolon_at 0 line"

section \<open>The automatic return\<close>

definition trim_right :: "char list \<Rightarrow> bytes \<Rightarrow> bytes" where
  "trim_right chars s = rev (dropWhile (\<lambda>c. c \<in> set chars) (rev s))"

definition statement_prefixes :: "bytes list" where
  "statement_prefixes =
     [''return '', ''return;'', ''var '', ''let '', ''const '', ''if '', ''if('', ''for '', ''for('',
      ''while '', ''while('', ''do '', ''do{'', ''switch '', ''switch('', ''try '', ''try{'',
      ''function '', ''class '', ''throw '', ''break'', ''continue'', ''else '', ''else{'',
      ''finally '', ''finally{'', ''case '', ''default:'']"

definition is_statement :: "bytes \<Rightarrow> bool" where
  "is_statement line =
     (has_top_level_semicolon (trim_right [CHR '';'', CHR '' '', CHR 0x09] line)
      \<or> list_ex (\<lambda>p. has_prefix p line) statement_prefixes
      \<or> line \<noteq> [] \<and> hd line \<in> set ''})]'')"

text \<open>The loop of \<open>autoReturn\<close> runs from the last line up: the argument is reversed.\<close>

fun return_last :: "bytes list \<Rightarrow> bytes list" where
  "return_last [] = []"
| "return_last (l # ls) =
     (let trimmed = trim_space l in
      if trimmed = [] \<or> has_prefix ''//'' trimmed then l # return_last ls
      else if is_statement trimmed then l # ls
      else (''return '' @ trimmed) # ls)"

definition source_lines :: "bytes \<Rightarrow> bytes list" where
  "source_lines code = split_on (CHR 0x0A) code"

definition auto_return :: "bytes \<Rightarrow> bytes" where
  "auto_return code = join_with [CHR 0x0A] (rev (return_last (rev (source_lines code))))"

definition wrap_iife :: "bytes \<Rightarrow> bytes" where
  "wrap_iife code = ''(function(){'' @ [CHR 0x0A] @ auto_return code @ [CHR 0x0A] @ ''})()''"

section \<open>The log cap\<close>

abbreviation default_log_cap :: int where "default_log_cap \<equiv> 16 * 1024"

definition omission_notice :: "int \<Rightarrow> bytes" where
  "omission_notice n =
     [CHR 0x0A] @ ''... ('' @ itoa n @ '' bytes of log output omitted '' @ em_dash
     @ '' log selectively, or return data instead) ...'' @ [CHR 0x0A]"

definition truncate_logs :: "bytes \<Rightarrow> int \<Rightarrow> bytes" where
  "truncate_logs out cap =
     (let cap = (if cap = 0 then default_log_cap else cap) in
      if cap < 0 \<or> int (length out) \<le> cap then out
      else let head = cap * 3 div 4; tail = cap - head in
           take (nat head) out @ omission_notice (int (length out) - cap)
           @ drop (length out - nat tail) out)"

section \<open>What they do\<close>

text \<open>
  Source text as it nests: plain characters, string literals, bracketed groups, and the
  semicolons in between.
\<close>

datatype fragment = Plain char | Literal char bytes | Group char "fragment list" char | Semi

fun render :: "fragment \<Rightarrow> bytes" and render_all :: "fragment list \<Rightarrow> bytes" where
  "render (Plain c) = [c]"
| "render (Literal q body) = q # body @ [q]"
| "render (Group a fs b) = a # render_all fs @ [b]"
| "render Semi = '';''"
| "render_all [] = []"
| "render_all (f # fs) = render f @ render_all fs"

fun proper :: "fragment \<Rightarrow> bool" and all_proper :: "fragment list \<Rightarrow> bool" where
  "proper (Plain c) = (c \<notin> set quotes \<and> c \<notin> set ''/([{)]};'')"
| "proper (Literal q body) = (q \<in> set quotes \<and> q \<notin> set body \<and> CHR 0x5C \<notin> set body)"
| "proper (Group a fs b) = (a \<in> set ''([{'' \<and> b \<in> set '')]}'' \<and> all_proper fs)"
| "proper Semi = True"
| "all_proper [] = True"
| "all_proper (f # fs) = (proper f \<and> all_proper fs)"

lemma after_string_literal:
  "q \<noteq> CHR 0x5C \<Longrightarrow> q \<notin> set body \<Longrightarrow> CHR 0x5C \<notin> set body \<Longrightarrow> after_string q (body @ q # r) = Some r"
  by (induction body) auto

declare semicolon_at.simps(2) [simp del]

lemma quotes_other:
  "q \<in> set quotes \<Longrightarrow> q \<noteq> CHR 0x5C"
  "a \<in> set ''([{'' \<Longrightarrow> a \<notin> set quotes \<and> a \<noteq> CHR ''/''"
  "b \<in> set '')]}'' \<Longrightarrow> b \<notin> set quotes \<and> b \<noteq> CHR ''/'' \<and> b \<notin> set ''([{''"
  by (auto simp: quotes_def)

lemma semicolon_step:
  "c \<in> set quotes \<Longrightarrow> semicolon_at d (c # s) = (case after_string c s of None \<Rightarrow> True | Some r \<Rightarrow> semicolon_at d r)"
  "a \<in> set ''([{'' \<Longrightarrow> semicolon_at d (a # s) = semicolon_at (d + 1) s"
  "b \<in> set '')]}'' \<Longrightarrow> semicolon_at d (b # s) = semicolon_at (d - 1) s"
  "c \<notin> set quotes \<Longrightarrow> c \<notin> set ''/([{)]};'' \<Longrightarrow> semicolon_at d (c # s) = semicolon_at d s"
  "semicolon_at d (CHR '';'' # s) = (d = 0 \<or> semicolon_at d s)"
  using quotes_other [of a] quotes_other [of b] by (simp_all add: quotes_def semicolon_at.simps(2))

lemma semicolon_render:
  "proper f \<Longrightarrow> semicolon_at d (render f @ r) = (f = Semi \<and> d = 0 \<or> semicolon_at d r)"
  "all_proper fs \<Longrightarrow> semicolon_at d (render_all fs @ r) = (Semi \<in> set fs \<and> d = 0 \<or> semicolon_at d r)"
proof (induction f and fs arbitrary: d r and d r rule: proper_all_proper.induct)
  case (1 c)
  then show ?case by (simp add: semicolon_step(4))
next
  case (2 q body)
  then show ?case by (simp add: semicolon_step(1) after_string_literal quotes_other(1))
next
  case (3 a fs b)
  then have p: "a \<in> set ''([{''" "b \<in> set '')]}''" "all_proper fs" by simp_all
  have "semicolon_at d (render (Group a fs b) @ r) = semicolon_at (d + 1) (render_all fs @ b # r)"
    using semicolon_step(2) [OF p(1)] by simp
  also have "\<dots> = semicolon_at (d + 1) (b # r)" by (subst 3(1) [OF p(3)]) simp
  also have "\<dots> = semicolon_at d r" by (subst semicolon_step(3) [OF p(2)]) simp
  finally show ?case by simp
next
  case 4
  then show ?case by (simp add: semicolon_step(5))
next
  case 5
  then show ?case by simp
next
  case (6 f fs)
  then show ?case by auto
qed

text \<open>
  On a line of well nested source the scan finds exactly a semicolon that stands outside
  every bracket and string literal, however deeply the brackets nest and whatever the literals
  hold.
\<close>

theorem semicolon_nested:
  assumes "all_proper fs"
  shows "has_top_level_semicolon (render_all fs) \<longleftrightarrow> Semi \<in> set fs"
  using semicolon_render(2) [OF assms, of 0 "[]"] by (simp add: has_top_level_semicolon_def)

theorem semicolon_nested_witness:
  "has_top_level_semicolon ''f({;}, ';')'' \<longleftrightarrow> False"
proof -
  have "all_proper [Plain (CHR ''f''), Group (CHR ''('') [Group (CHR ''{'') [Semi] (CHR ''}''),
      Plain (CHR '',''), Plain (CHR '' ''), Literal (CHR 0x27) '';''] (CHR '')'')]" by code_simp
  from semicolon_nested [OF this] show ?thesis by simp
qed

text \<open>
  The automatic return changes at most one line of a script, the last that is neither blank nor
  a comment, and only when it is an expression: what it puts in front is \<open>return\<close>.
\<close>

lemma return_last_cases:
  "return_last ls = ls \<or> (\<exists>a l b. ls = a @ l # b \<and> return_last ls = a @ (''return '' @ trim_space l) # b
     \<and> \<not> is_statement (trim_space l) \<and> list_all (\<lambda>x. trim_space x = [] \<or> has_prefix ''//'' (trim_space x)) a)"
proof (induction ls)
  case (Cons x ls)
  show ?case
  proof (cases "trim_space x = [] \<or> has_prefix ''//'' (trim_space x)")
    case blank: True
    show ?thesis
      using Cons
    proof
      assume "return_last ls = ls"
      then show ?thesis using blank by (simp add: Let_def)
    next
      assume "\<exists>a l b. ls = a @ l # b \<and> return_last ls = a @ (''return '' @ trim_space l) # b
        \<and> \<not> is_statement (trim_space l) \<and> list_all (\<lambda>x. trim_space x = [] \<or> has_prefix ''//'' (trim_space x)) a"
      then obtain a l b where *: "ls = a @ l # b" "return_last ls = a @ (''return '' @ trim_space l) # b"
        "\<not> is_statement (trim_space l)" "list_all (\<lambda>x. trim_space x = [] \<or> has_prefix ''//'' (trim_space x)) a"
        by blast
      then show ?thesis
        using blank by (intro disjI2 exI [of _ "x # a"] exI [of _ l] exI [of _ b]) (simp add: Let_def)
    qed
  next
    case False
    show ?thesis
    proof (cases "is_statement (trim_space x)")
      case True
      then show ?thesis using False by (simp add: Let_def)
    next
      case expression: False
      then have "return_last (x # ls) = [] @ (''return '' @ trim_space x) # ls" using False by (simp add: Let_def)
      then show ?thesis using expression by (intro disjI2 exI [of _ "[]"] exI [of _ x] exI [of _ ls]) simp
    qed
  qed
qed simp

text \<open>
  The log a turn hands to the model is the script's own output when that is within the cap,
  and otherwise the first three quarters and the last quarter of the cap around a notice that
  counts what is missing: nothing but the notice is added, and the tail is never lost.
\<close>

theorem truncate_logs_keeps_ends:
  "let n = (if cap = 0 then default_log_cap else cap); out' = truncate_logs out cap in
     if n < 0 \<or> int (length out) \<le> n then out' = out
     else (\<exists>h t. out' = h @ omission_notice (int (length out) - n) @ t \<and> prefix h out \<and> suffix t out
            \<and> int (length h) = n * 3 div 4 \<and> int (length h) + int (length t) = n)"
proof (cases "(if cap = 0 then default_log_cap else cap) < 0
    \<or> int (length out) \<le> (if cap = 0 then default_log_cap else cap)")
  case True
  then show ?thesis by (simp add: truncate_logs_def Let_def)
next
  case False
  define n where "n = (if cap = 0 then default_log_cap else cap)"
  have n: "0 \<le> n" "n < int (length out)" using False by (auto simp: n_def)
  let ?h = "take (nat (n * 3 div 4)) out" and ?t = "drop (length out - nat (n - n * 3 div 4)) out"
  have "truncate_logs out cap = ?h @ omission_notice (int (length out) - n) @ ?t"
    using False unfolding truncate_logs_def n_def [symmetric] Let_def by simp
  moreover have "prefix ?h out" "suffix ?t out" by (simp_all add: take_is_prefix suffix_drop)
  moreover have "int (length ?h) = n * 3 div 4" using n by auto
  moreover have "int (length ?h) + int (length ?t) = n" using n by auto
  ultimately have "\<exists>h t. truncate_logs out cap = h @ omission_notice (int (length out) - n) @ t
      \<and> prefix h out \<and> suffix t out \<and> int (length h) = n * 3 div 4 \<and> int (length h) + int (length t) = n"
    by (intro exI [of _ ?h] exI [of _ ?t] conjI)
  then show ?thesis using n unfolding n_def [symmetric] Let_def by simp
qed

text \<open>
  The automatic return leaves a script as it is or changes one line of it: the last that is
  neither blank nor a comment, when that line is an expression, gets a \<open>return\<close> in front.
\<close>

theorem auto_return_one_line:
  "source_lines (auto_return code) = source_lines code
   \<or> (\<exists>a l b. source_lines code = a @ l # b \<and> source_lines (auto_return code) = a @ (''return '' @ trim_space l) # b
        \<and> \<not> is_statement (trim_space l)
        \<and> list_all (\<lambda>x. trim_space x = [] \<or> has_prefix ''//'' (trim_space x)) b)"
proof -
  let ?ls = "rev (source_lines code)"
  have lines: "\<forall>x \<in> set ?ls. CHR 0x0A \<notin> set x" by (auto simp: source_lines_def dest: split_on_absent_parts)
  have keep: "\<forall>x \<in> set (return_last ls). CHR 0x0A \<notin> set x" if "\<forall>x \<in> set ls. CHR 0x0A \<notin> set x" for ls
    using that
  proof (induction ls)
    case (Cons x ls)
    then have "CHR 0x0A \<notin> set (''return '' @ trim_space x)" using trim_space_set [of x] by auto
    then show ?case using Cons by (auto simp: Let_def)
  qed simp
  have "return_last ls \<noteq> []" if "ls \<noteq> []" for ls using that by (cases ls) (auto simp: Let_def)
  then have "rev (return_last ?ls) \<noteq> []" using split_on_nonempty [of "CHR 0x0A" code] by (simp add: source_lines_def)
  then have "source_lines (auto_return code) = rev (return_last ?ls)"
    using split_join [of "rev (return_last ?ls)" "CHR 0x0A"] keep [OF lines]
    unfolding auto_return_def source_lines_def by simp
  moreover note return_last_cases [of ?ls]
  ultimately show ?thesis
  proof (elim disjE exE conjE, goal_cases)
    case 1
    then show ?case by simp
  next
    case (2 a l b)
    then have "source_lines code = rev b @ l # rev a" by (metis rev_append rev_rev_ident append_Cons append_Nil append_assoc rev.simps(2))
    then show ?case using 2 by (intro disjI2 exI [of _ "rev b"] exI [of _ l] exI [of _ "rev a"]) simp
  qed
qed

end
