(* ===== verification/Sandbox_Core.thy ===== *)
theory Sandbox_Core
  imports Sandbox_Policy Script_Source "HOL-Library.AList"
begin

text \<open>
  \<open>sandbox/sandbox.go\<close>, \<open>console.go\<close>, \<open>pack.go\<close>, \<open>pack_help.go\<close> and
  \<open>pack_skills.go\<close>: the sandbox around the script engine.  The engine (package goja) is a
  parameter: given the source it runs and the arguments of the turn, it behaves as a
  \<open>script\<close>, a tree of the calls it makes to host functions and of what it does to
  \<open>globalThis\<close>, each continued with what came back, a value or a thrown error.  So every
  statement here holds of whatever the model writes.  A script assigns to global variables,
  defines properties with attributes of its own, deletes, enumerates and inspects them, and may
  forbid new ones.  \<open>go_hidden\<close> holds what else it can leave behind in the engine: properties of
  the built-in objects, keys that are symbols, the declarations of the global scope.  Accessor
  properties are left out.  A value is the JSON it exports to;
  \<open>undefined\<close> is \<open>None\<close>.  The functions of a pack are parameters as well, given the calls
  made to them before; \<open>parseUrl\<close> is one of them here.  The wall-clock limit interrupts the
  engine, which then raises.
\<close>

type_synonym js = "json option"

datatype console_call =
    Log | Warn | Error_line | Trace | Soft_assert | Table | Count | Count_reset | Time | Time_end
  | Group_open | Group_end

datatype host_call =
    Console console_call
  | Text_call
  | Assert_call
  | Answer_call
  | Help_call
  | Skill_list
  | Skill_get
  | Pack_call bytes

text \<open>A property of \<open>globalThis\<close>, with the attributes ECMAScript gives it.\<close>

record global_property =
  gp_value :: js
  gp_writable :: bool
  gp_enumerable :: bool
  gp_configurable :: bool

record global_object =
  go_properties :: "(bytes \<times> global_property) list"
  go_extensible :: bool
  go_hidden :: "(bytes \<times> js) list"

text \<open>
  The operations on \<open>globalThis\<close> say whether they were carried out: one that was not is ignored,
  or throws in strict code and in \<open>defineProperty\<close>.
\<close>

datatype script =
    Finish js
  | Raise bytes
  | Host_panic bytes
  | Perform host_call "js list" "bytes + js \<Rightarrow> script"
  | Set_global bytes js "bool \<Rightarrow> script"
  | Get_global bytes "global_property option \<Rightarrow> script"
  | Define_global bytes global_property "bool \<Rightarrow> script"
  | Delete_global bytes "bool \<Rightarrow> script"
  | Global_names "bytes list \<Rightarrow> script"
  | Prevent_extensions script
  | Set_hidden bytes js script
  | Get_hidden bytes "js \<Rightarrow> script"

record pack =
  pk_name :: bytes
  pk_description :: bytes
  pk_skill_type :: bytes
  pk_prompt :: bytes
  pk_help :: "(bytes \<times> bytes) list"
  pk_functions :: "(bytes \<times> (policy option \<Rightarrow> js list list \<Rightarrow> js list \<Rightarrow> sandbox_event list \<times> (bytes + js))) list"
  pk_skills :: "(bytes \<times> bytes \<times> bytes) list option"

record log_entry =
  le_message :: bytes
  le_time :: int

text \<open>
  \<open>sb_events\<close> is what the callback has received, \<open>sb_calls\<close> the earlier calls of each pack
  function, \<open>sb_globals\<close> the object \<open>globalThis\<close>.
\<close>

record sandbox =
  sb_logs :: "log_entry list"
  sb_help :: "(bytes \<times> bytes) list"
  sb_packs :: "pack list"
  sb_max_log :: int
  sb_on_event :: bool
  sb_events :: "sandbox_event list"
  sb_policy :: "policy option"
  sb_answered :: bool
  sb_answer_text :: bytes
  sb_counts :: "(bytes \<times> int) list"
  sb_timers :: "(bytes \<times> int) list"
  sb_group :: nat
  sb_base_keys :: "bytes list"
  sb_globals :: global_object
  sb_calls :: "(bytes \<times> js list list) list"
  sb_clock :: "nat \<Rightarrow> int"
  sb_ticks :: nat

section \<open>The global object\<close>

definition plain_property :: "js \<Rightarrow> global_property" where
  "plain_property v = \<lparr>gp_value = v, gp_writable = True, gp_enumerable = True, gp_configurable = True\<rparr>"

definition put_property :: "bytes \<Rightarrow> global_property \<Rightarrow> global_object \<Rightarrow> global_object" where
  "put_property k p g = g\<lparr>go_properties := AList.update k p (go_properties g)\<rparr>"

text \<open>\<open>globalThis.k = v\<close>, which is also what \<open>Runtime.Set\<close> does.\<close>

definition assign_global :: "bytes \<Rightarrow> js \<Rightarrow> global_object \<Rightarrow> global_object \<times> bool" where
  "assign_global k v g =
     (case map_of (go_properties g) k of
        None \<Rightarrow> if go_extensible g then (put_property k (plain_property v) g, True) else (g, False)
      | Some q \<Rightarrow> if gp_writable q then (put_property k (q\<lparr>gp_value := v\<rparr>) g, True) else (g, False))"

text \<open>\<open>Object.defineProperty\<close> with every attribute given.\<close>

definition define_global :: "bytes \<Rightarrow> global_property \<Rightarrow> global_object \<Rightarrow> global_object \<times> bool" where
  "define_global k p g =
     (case map_of (go_properties g) k of
        None \<Rightarrow> if go_extensible g then (put_property k p g, True) else (g, False)
      | Some q \<Rightarrow>
          if gp_configurable q then (put_property k p g, True)
          else if gp_configurable p \<or> gp_enumerable p \<noteq> gp_enumerable q then (g, False)
          else if gp_writable q then (put_property k p g, True)
          else (g, \<not> gp_writable p \<and> gp_value p = gp_value q))"

definition delete_global :: "bytes \<Rightarrow> global_object \<Rightarrow> global_object \<times> bool" where
  "delete_global k g =
     (case map_of (go_properties g) k of
        None \<Rightarrow> (g, True)
      | Some q \<Rightarrow>
          if gp_configurable q then (g\<lparr>go_properties := AList.delete k (go_properties g)\<rparr>, True) else (g, False))"

text \<open>\<open>Keys\<close> lists the enumerable keys.\<close>

definition global_keys :: "global_object \<Rightarrow> bytes list" where
  "global_keys g = map fst (filter (\<lambda>(k, p). gp_enumerable p) (go_properties g))"

text \<open>What a fresh engine has: the standard names, none of them enumerable, three of them fixed.\<close>

definition fixed_names :: "bytes list" where
  "fixed_names = [''NaN'', ''Infinity'', ''undefined'']"

definition builtin_names :: "bytes list" where
  "builtin_names =
     fixed_names @
     [''globalThis'', ''Object'', ''Function'', ''Array'', ''String'', ''Number'', ''Boolean'', ''Symbol'', ''Date'',
      ''RegExp'', ''Math'', ''JSON'', ''Reflect'', ''Proxy'', ''Promise'', ''Map'', ''Set'', ''WeakMap'', ''WeakSet'',
      ''ArrayBuffer'', ''DataView'', ''Error'', ''TypeError'', ''RangeError'', ''SyntaxError'', ''ReferenceError'',
      ''EvalError'', ''URIError'', ''eval'', ''isNaN'', ''isFinite'', ''parseInt'', ''parseFloat'', ''encodeURI'',
      ''encodeURIComponent'', ''decodeURI'', ''decodeURIComponent'', ''escape'', ''unescape'']"

definition builtin_globals :: global_object where
  "builtin_globals =
     \<lparr>go_properties = map (\<lambda>k. (k, \<lparr>gp_value = None, gp_writable = k \<notin> set fixed_names, gp_enumerable = False,
                                    gp_configurable = k \<notin> set fixed_names\<rparr>)) builtin_names,
      go_extensible = True, go_hidden = []\<rparr>"

section \<open>Values as text\<close>

text \<open>\<open>argStrings\<close>: what \<open>Export\<close> gives nil for prints as undefined.\<close>

fun arg_text :: "js \<Rightarrow> bytes" where
  "arg_text None = ''undefined''"
| "arg_text (Some JNull) = ''undefined''"
| "arg_text (Some (JStr s)) = s"
| "arg_text (Some v) = json_marshal v"

text \<open>JavaScript's conversion to a string, as \<open>Value.String\<close> does it.\<close>

fun js_string :: "json \<Rightarrow> bytes" and js_elems :: "json list \<Rightarrow> bytes list" where
  "js_string JNull = ''null''"
| "js_string (JBool b) = (if b then ''true'' else ''false'')"
| "js_string (JNum s) = s"
| "js_string (JStr s) = s"
| "js_string (JArr vs) = join_with '','' (js_elems vs)"
| "js_string (JObj kvs) = ''[object Object]''"
| "js_elems [] = []"
| "js_elems (v # vs) = (if v = JNull then [] else js_string v) # js_elems vs"

definition value_string :: "js \<Rightarrow> bytes" where
  "value_string v = (case v of None \<Rightarrow> ''undefined'' | Some j \<Rightarrow> js_string j)"

text \<open>\<open>Argument(i)\<close> is undefined past the end.\<close>

definition argument :: "js list \<Rightarrow> nat \<Rightarrow> js" where
  "argument args i = (if i < length args then args ! i else None)"

fun truthy :: "js \<Rightarrow> bool" where
  "truthy None = False"
| "truthy (Some JNull) = False"
| "truthy (Some (JBool b)) = b"
| "truthy (Some (JNum s)) = (s \<notin> {''0'', ''-0''})"
| "truthy (Some (JStr s)) = (s \<noteq> [])"
| "truthy (Some v) = True"

text \<open>\<open>formatValue\<close>; a number prints as its text.\<close>

fun format_value :: "js \<Rightarrow> bytes" where
  "format_value None = []"
| "format_value (Some JNull) = []"
| "format_value (Some (JStr s)) = s"
| "format_value (Some (JNum s)) = s"
| "format_value (Some v) = json_marshal v"

text \<open>\<open>exportJSON\<close>: nothing for undefined and null.\<close>

fun export_json :: "js \<Rightarrow> bytes" where
  "export_json None = []"
| "export_json (Some JNull) = []"
| "export_json (Some v) = json_marshal v"

section \<open>Events\<close>

definition mk_sandbox_event :: "bytes \<Rightarrow> bytes \<Rightarrow> bytes \<Rightarrow> bytes \<Rightarrow> sandbox_event" where
  "mk_sandbox_event k s d r =
     \<lparr>se_kind = k, se_summary = s, se_detail = d, se_result = r, se_payload = JNull\<rparr>"

definition send :: "sandbox_event \<Rightarrow> sandbox \<Rightarrow> sandbox" where
  "send e sb = (if sb_on_event sb then sb\<lparr>sb_events := sb_events sb @ [e]\<rparr> else sb)"

section \<open>The console\<close>

definition read_clock :: "sandbox \<Rightarrow> int \<times> sandbox" where
  "read_clock sb = (sb_clock sb (sb_ticks sb), sb\<lparr>sb_ticks := Suc (sb_ticks sb)\<rparr>)"

definition emit_console :: "bytes \<Rightarrow> bytes list \<Rightarrow> sandbox \<Rightarrow> sandbox" where
  "emit_console level parts sb =
     (let msg = join_with '' '' parts;
          msg = (if level \<noteq> [] then ''['' @ level @ ''] '' @ msg else msg);
          msg = (if 0 < sb_group sb then concat (replicate (sb_group sb) ''  '') @ msg else msg);
          (now, sb) = read_clock sb;
          sb = sb\<lparr>sb_logs := sb_logs sb @ [\<lparr>le_message = msg, le_time = now\<rparr>]\<rparr>
      in send (mk_sandbox_event ''log'' msg [] []) sb)"

definition console_label :: "js list \<Rightarrow> bytes \<Rightarrow> bytes" where
  "console_label args def =
     (if args \<noteq> [] \<and> value_string (hd args) \<noteq> [] then value_string (hd args) else def)"

text \<open>A table's columns, cells and lines.\<close>

definition table_cell :: "json \<Rightarrow> bytes" where
  "table_cell v = (case v of JStr s \<Rightarrow> s | _ \<Rightarrow> json_marshal v)"

definition row_keys :: "json \<Rightarrow> bytes list" where
  "row_keys r = (case r of JObj kvs \<Rightarrow> map fst kvs | _ \<Rightarrow> [])"

definition is_scalar :: "json \<Rightarrow> bool" where
  "is_scalar r = (case r of JObj _ \<Rightarrow> False | _ \<Rightarrow> True)"

definition row_cell :: "json \<Rightarrow> bytes \<Rightarrow> bytes" where
  "row_cell r k = (case r of JObj kvs \<Rightarrow> (case map_of kvs k of Some v \<Rightarrow> table_cell v | None \<Rightarrow> []) | _ \<Rightarrow> [])"

definition rune_count :: "bytes \<Rightarrow> nat" where
  "rune_count s = length (filter (\<lambda>c. byte_of c div 64 \<noteq> 2) s)"

definition pad_right :: "nat \<Rightarrow> bytes \<Rightarrow> bytes" where
  "pad_right w s = s @ replicate (w - rune_count s) (CHR '' '')"

definition column_widths :: "bytes list list \<Rightarrow> nat list" where
  "column_widths ls = map (\<lambda>j. foldl max 0 (map (\<lambda>l. length (l ! j)) ls)) [0..<length (hd ls)]"

definition table_line :: "nat list \<Rightarrow> bytes list \<Rightarrow> bytes" where
  "table_line ws l = join_with '' | '' (map (\<lambda>(w, c). pad_right w c) (zip ws l)) @ [CHR 0x0A]"

definition table_rule :: "nat list \<Rightarrow> bytes" where
  "table_rule ws = join_with ''-+-'' (map (\<lambda>w. replicate w (CHR ''-'')) ws) @ [CHR 0x0A]"

definition table_text :: "json list \<Rightarrow> bytes" where
  "table_text rows =
     (let cols = sort (remdups (concat (map row_keys rows))) in
      trim_right [CHR 0x0A]
        (if list_ex is_scalar rows \<or> cols = []
         then concat (map (\<lambda>(i, r). itoa (int i) @ '' | '' @ table_cell r @ [CHR 0x0A]) (enumerate 0 rows))
         else let ls = (''(index)'' # cols)
                       # map (\<lambda>(i, r). itoa (int i) # map (row_cell r) cols) (enumerate 0 rows);
                  ws = column_widths ls
              in table_line ws (hd ls) @ table_rule ws @ concat (map (table_line ws) (tl ls))))"

definition console_table :: "js \<Rightarrow> bytes" where
  "console_table v =
     (case v of
        Some (JArr rows) \<Rightarrow> table_text rows
      | Some (JObj kvs) \<Rightarrow> table_text [JObj kvs]
      | Some j \<Rightarrow> json_marshal j
      | None \<Rightarrow> ''null'')"

definition default_label :: bytes where
  "default_label = ''default''"

fun console :: "console_call \<Rightarrow> js list \<Rightarrow> sandbox \<Rightarrow> sandbox" where
  "console Log args sb = emit_console [] (map arg_text args) sb"
| "console Warn args sb = emit_console ''warn'' (map arg_text args) sb"
| "console Error_line args sb = emit_console ''error'' (map arg_text args) sb"
| "console Trace args sb = emit_console ''trace'' (map arg_text args) sb"
| "console Soft_assert args sb =
     (if args \<noteq> [] \<and> truthy (hd args) then sb
      else emit_console ''error'' (''Assertion failed:'' # map arg_text (tl args)) sb)"
| "console Table args sb = emit_console [] [console_table (argument args 0)] sb"
| "console Count args sb =
     (let l = console_label args default_label;
          n = (case map_of (sb_counts sb) l of None \<Rightarrow> 1 | Some n \<Rightarrow> n + 1)
      in emit_console [] [l @ '': '' @ itoa n] (sb\<lparr>sb_counts := AList.update l n (sb_counts sb)\<rparr>))"
| "console Count_reset args sb =
     sb\<lparr>sb_counts := AList.delete (console_label args default_label) (sb_counts sb)\<rparr>"
| "console Time args sb =
     (let (now, sb) = read_clock sb
      in sb\<lparr>sb_timers := AList.update (console_label args default_label) now (sb_timers sb)\<rparr>)"
| "console Time_end args sb =
     (let l = console_label args default_label in
      case map_of (sb_timers sb) l of
        None \<Rightarrow> sb
      | Some t0 \<Rightarrow>
          let (now, sb) = read_clock sb;
              sb = emit_console [] [l @ '': '' @ itoa (now - t0) @ ''ms''] sb
          in sb\<lparr>sb_timers := AList.delete l (sb_timers sb)\<rparr>)"
| "console Group_open args sb =
     (let sb = (if args \<noteq> [] then emit_console [] (map arg_text args) sb else sb)
      in sb\<lparr>sb_group := Suc (sb_group sb)\<rparr>)"
| "console Group_end args sb = sb\<lparr>sb_group := sb_group sb - 1\<rparr>"

end
