(* ===== verification/Sandbox_Turn.thy ===== *)
theory Sandbox_Turn
  imports Sandbox_Core
begin

text \<open>
  A turn in the sandbox: its construction from packs, the host functions scripts call, the
  reset of \<open>globalThis\<close>, \<open>ExecuteTurn\<close> and \<open>Execute\<close>, the help system and the system
  prompt (\<open>sandbox/sandbox.go\<close>, \<open>pack_help.go\<close>, \<open>pack_skills.go\<close>).
\<close>

definition ellipsis :: bytes where
  "ellipsis = [CHR 0xE2, CHR 0x80, CHR 0xA6]"

section \<open>Construction\<close>

definition core_declarations :: bytes where
  \<open>core_declarations =
     concat [
       ''// --- Core ---'', newline, ''// You implement: function run(args) { ... } '', em_dash,
       '' one per turn. Everything below is provided by the sandbox.'', newline, newline,
       ''/** Deliver the final result and END the run '', em_dash,
       '' pass a string (your answer, as markdown) or a JSON value (structured data). Call it '',
       ''once, when you have the answer; nothing after it runs in a new turn. This is how you '',
       ''finish. */'', newline, ''declare function answer(result: string | object): void;'', newline,
       ''/** Output to console. Objects are JSON-serialized. */'', newline,
       ''declare function log(...args: any[]): void;'', newline,
       ''/** Assert an invariant. If cond is falsy, throws with message '', em_dash,
       '' surfacing as an error you see next turn, so you can fix it. Guard your inputs and '',
       ''results: assert(args.caps, "caps missing"), assert(rows.length, "no rows"). A loud '',
       ''failure you can recover from beats a silent wrong answer. */'', newline,
       ''declare function assert(cond: any, message?: string): void;'', newline,
       ''/** Join arguments with newlines. */'', newline,
       ''declare function text(...lines: string[]): string;'', newline,
       ''/** Parse an absolute URL string. Returns null for relative URLs or invalid input. Use '',
       ''instead of new URL() which is not available. */'', newline,
       ''declare function parseUrl(url: string): { href: string; protocol: string; hostname: '',
       ''string; port: string; pathname: string; search: string; hash: string } | null;'', newline,
       ''/** List all primitives; help(name) for details. */'', newline,
       ''declare function help(name?: string): string;'', newline,
       ''/** Standard console for debugging '', em_dash, '' every method'', [CHR 0x27],
       ''s output is visible to YOU next turn (same channel as log). */'', newline,
       ''declare const console: {'', newline,
       ''  log(...args: any[]): void; info(...args: any[]): void; debug(...args: any[]): void;'',
       newline, ''  warn(...args: any[]): void; error(...args: any[]): void; dir(obj: any): void; '',
       ''trace(...args: any[]): void;'', newline, ''  /** Logs "Assertion failed: '', ellipsis,
       ''" if cond is falsy and CONTINUES (does not throw). Use the global assert() when you '',
       ''want to STOP and self-correct. */'', newline, ''  assert(cond: any, ...msg: any[]): void;'',
       newline, ''  /** Print an array of objects (or one object) as a fixed-width table '', em_dash,
       '' the fastest way to eyeball query/extraction rows. */'', newline,
       ''  table(rows: object[] | object): void;'', newline,
       ''  count(label?: string): void; countReset(label?: string): void;'', newline,
       ''  /** Wall-clock timing in ms between time(label) and timeEnd(label). */'', newline,
       ''  time(label?: string): void; timeEnd(label?: string): void;'', newline,
       ''  group(label?: string): void; groupCollapsed(label?: string): void; groupEnd(): void;'',
       newline, ''};'']\<close>

definition core_help :: "(bytes \<times> bytes) list" where
  \<open>core_help =
     [(''log'', concat [
        ''log(...args) '', em_dash, '' Output to console. Objects are JSON-serialized.'']),
      (''assert'', concat [
        ''assert(cond, message?) '', em_dash,
        '' throw if cond is falsy; the message surfaces as an error next turn so you can '',
        ''self-correct. Guard inputs/results instead of computing on bad data.'']),
      (''console'', concat [
        ''console.{log,info,debug,warn,error,dir,trace,assert,table,count,countReset,time,timeEnd,'',
        ''group,groupEnd} '', em_dash,
        '' standard debugging console; output is visible next turn. console.table(rows) prints '',
        ''objects as a text table; console.assert logs (does not throw).'']),
      (''text'', concat [
        ''text(...lines) '', em_dash,
        '' Join arguments with newlines. Useful for building multiline strings.'']),
      (''parseUrl'', concat [
        ''parseUrl(url) '', em_dash,
        '' Parse an absolute URL string. Returns {href, protocol, hostname, port, pathname, '',
        ''search, hash} or null for relative URLs/invalid input.''])]\<close>

definition discovery_declarations :: bytes where
  \<open>discovery_declarations =
     concat [
       ''// --- Discovery ---'', newline, newline,
       ''interface SkillInfo { name: string; description: string; type: "pack" | "module" | '',
       ''"prompt" | "webhook" }'', newline, ''/** List all available skills. */'', newline,
       ''declare function skillList(): SkillInfo[];'', newline,
       ''/** Get detailed docs for a skill. Call before using unfamiliar skills. */'', newline,
       ''declare function skillGet(name: string): string;'']\<close>

definition add_help :: "(bytes \<times> bytes) list \<Rightarrow> sandbox \<Rightarrow> sandbox" where
  "add_help entries sb = sb\<lparr>sb_help := fold (\<lambda>(n, h). AList.update n h) entries (sb_help sb)\<rparr>"

definition core_keys :: "bytes list" where
  "core_keys = [''log'', ''print'', ''console'', ''text'', ''assert'', ''answer'', ''parseUrl'']"

definition bare_sandbox :: "(nat \<Rightarrow> int) \<Rightarrow> sandbox" where
  "bare_sandbox clk =
     \<lparr>sb_logs = [], sb_help = [], sb_packs = [], sb_max_log = 0, sb_on_event = False, sb_events = [],
      sb_policy = None, sb_answered = False, sb_answer_text = [], sb_counts = [], sb_timers = [],
      sb_group = 0, sb_base_keys = [], sb_globals = builtin_globals, sb_calls = [], sb_clock = clk, sb_ticks = 0\<rparr>"

definition register_pack :: "pack \<Rightarrow> sandbox \<Rightarrow> sandbox" where
  "register_pack p sb =
     (let sb = sb\<lparr>sb_globals := fold (\<lambda>(f, _). fst \<circ> assign_global f None) (pk_functions p) (sb_globals sb)\<rparr>;
          sb = add_help (pk_help p) sb
      in sb\<lparr>sb_packs := sb_packs sb @ [p]\<rparr>)"

definition new_sandbox :: "(nat \<Rightarrow> int) \<Rightarrow> pack list \<Rightarrow> sandbox" where
  "new_sandbox clk packs =
     (let sb = (bare_sandbox clk)\<lparr>sb_globals := fold (\<lambda>k. fst \<circ> assign_global k None) core_keys builtin_globals\<rparr>;
          sb = add_help core_help sb;
          sb = fold register_pack packs sb
      in sb\<lparr>sb_base_keys := global_keys (sb_globals sb)\<rparr>)"

text \<open>Every key that \<open>Keys\<close> lists and that was not there at the start is deleted, if it lets itself be.\<close>

definition reset_globals :: "sandbox \<Rightarrow> sandbox" where
  "reset_globals sb =
     (if sb_base_keys sb = [] then sb
      else sb\<lparr>sb_globals :=
             fold (\<lambda>k g. if k \<in> set (sb_base_keys sb) then g else fst (delete_global k g))
               (global_keys (sb_globals sb)) (sb_globals sb)\<rparr>)"

section \<open>Help, skills, prompt\<close>

definition help_entry :: "sandbox \<Rightarrow> bytes \<Rightarrow> bytes option" where
  "help_entry sb name = map_of (sb_help sb) name"

definition help_entries :: "sandbox \<Rightarrow> (bytes \<times> bytes) list" where
  "help_entries sb = sort_key fst (sb_help sb)"

definition help_line :: "bytes \<times> bytes \<Rightarrow> bytes" where
  "help_line e =
     (let (n, d) = e; l = (case index_of newline d of Some i \<Rightarrow> if 0 < i then take i d else d | None \<Rightarrow> d)
      in ''  '' @ n @ '' '' @ em_dash @ '' '' @ l)"

definition help_overview :: "sandbox \<Rightarrow> bytes" where
  "help_overview sb =
     join_with newline ([''Available primitives:'', []] @ map help_line (help_entries sb)
       @ [[], ''Call help(name) for detailed help on a specific primitive.''])"

definition help_call :: "js list \<Rightarrow> sandbox \<Rightarrow> bytes" where
  "help_call args sb =
     (if args \<noteq> [] \<and> hd args \<noteq> None
      then let name = value_string (hd args) in
           case help_entry sb name of
             Some d \<Rightarrow> d
           | None \<Rightarrow> ''Unknown primitive: '' @ name @ ''. Call help() for a full list.''
      else help_overview sb)"

text \<open>The skills the discovery pack was built with: name, description, type.\<close>

definition known_skills :: "sandbox \<Rightarrow> (bytes \<times> bytes \<times> bytes) list" where
  "known_skills sb = concat (map (\<lambda>p. case pk_skills p of Some ss \<Rightarrow> ss | None \<Rightarrow> []) (sb_packs sb))"

definition skill_list :: "sandbox \<Rightarrow> js" where
  "skill_list sb = Some (JArr (map (\<lambda>(n, d, t).
     JObj [(''description'', JStr d), (''name'', JStr n), (''type'', JStr t)]) (known_skills sb)))"

definition skill_get :: "js list \<Rightarrow> sandbox \<Rightarrow> bytes + js" where
  "skill_get args sb =
     (let name = value_string (argument args 0) in
      if name = [] then Inl ''skillGet: name is required''
      else case help_entry sb name of
             Some d \<Rightarrow> Inr (Some (JStr d))
           | None \<Rightarrow>
               (case map_of (rev (map (\<lambda>(n, d, _). (n, d)) (known_skills sb))) name of
                  Some d \<Rightarrow> Inr (Some (JStr d))
                | None \<Rightarrow> Inr (Some (JStr (''Skill '' @ quote name
                            @ '' not found. Call skillList() to see available skills.'')))))"

text \<open>
  The two packs of the sandbox itself.  Their functions are the host calls above; here they only
  name the keys they occupy on \<open>globalThis\<close>.
\<close>

definition discovery_pack :: "(bytes \<times> bytes \<times> bytes) list \<Rightarrow> pack" where
  "discovery_pack skills =
     \<lparr>pk_name = ''skills'', pk_description = ''Skill discovery'', pk_skill_type = [],
      pk_prompt = discovery_declarations,
      pk_help = [(''skillList'', ''skillList() '' @ em_dash
                    @ '' List all available skills. Returns [{name, description, type}].''),
                 (''skillGet'', ''skillGet(name) '' @ em_dash
                    @ '' Get detailed help for a skill. Returns description string.'')],
      pk_functions = [(''skillList'', \<lambda>_ _ _. ([], Inr None)), (''skillGet'', \<lambda>_ _ _. ([], Inr None))],
      pk_skills = Some skills\<rparr>"

definition help_pack :: pack where
  "help_pack =
     \<lparr>pk_name = ''help'', pk_description = ''Primitive discovery'', pk_skill_type = [], pk_prompt = [],
      pk_help = [(''help'', ''help(name?) '' @ em_dash
                    @ '' Show available primitives. Call with a name for details.'')],
      pk_functions = [(''help'', \<lambda>_ _ _. ([], Inr None))], pk_skills = None\<rparr>"

definition system_prompt :: "sandbox \<Rightarrow> bytes" where
  "system_prompt sb =
     (let prompted = filter (\<lambda>p. pk_prompt p \<noteq> []) (sb_packs sb);
          prose = map pk_prompt (filter (\<lambda>p. pk_name p = ''context'') prompted);
          dts = core_declarations # map pk_prompt (filter (\<lambda>p. pk_name p \<noteq> ''context'') prompted);
          blank = newline @ newline
      in ''```typescript'' @ newline @ join_with blank dts @ newline @ ''```''
         @ (if prose \<noteq> [] then blank @ join_with blank prose else []))"

section \<open>Host functions\<close>

definition assert_message :: "js list \<Rightarrow> bytes" where
  "assert_message args =
     (let m = trim_space (value_string (argument args 1)) in
      if 1 < length args \<and> m \<noteq> [] then ''assertion failed: '' @ m else ''assertion failed'')"

definition answer_call :: "js list \<Rightarrow> sandbox \<Rightarrow> sandbox" where
  "answer_call args sb =
     (if args = [] then sb
      else let out = format_value (hd args) in
           send (mk_sandbox_event ''answer'' ''answer'' [] out)
             (sb\<lparr>sb_answered := True, sb_answer_text := out\<rparr>))"

definition pack_call :: "bytes \<Rightarrow> js list \<Rightarrow> sandbox \<Rightarrow> sandbox \<times> (bytes + js)" where
  "pack_call f args sb =
     (case map_of (concat (map pk_functions (rev (sb_packs sb)))) f of
        None \<Rightarrow> (sb, Inl (f @ '' is not defined''))
      | Some g \<Rightarrow>
          let calls = (case map_of (sb_calls sb) f of Some cs \<Rightarrow> cs | None \<Rightarrow> []);
              (evts, r) = g (sb_policy sb) calls args
          in (fold send evts (sb\<lparr>sb_calls := AList.update f (args # calls) (sb_calls sb)\<rparr>), r))"

fun host_function :: "host_call \<Rightarrow> js list \<Rightarrow> sandbox \<Rightarrow> sandbox \<times> (bytes + js)" where
  "host_function (Console c) args sb = (console c args sb, Inr None)"
| "host_function Text_call args sb = (sb, Inr (Some (JStr (join_with newline (map value_string args)))))"
| "host_function Assert_call args sb =
     (sb, if truthy (argument args 0) then Inr None else Inl (assert_message args))"
| "host_function Answer_call args sb = (answer_call args sb, Inr None)"
| "host_function Help_call args sb = (sb, Inr (Some (JStr (help_call args sb))))"
| "host_function Skill_list args sb = (sb, Inr (skill_list sb))"
| "host_function Skill_get args sb = (sb, skill_get args sb)"
| "host_function (Pack_call f) args sb = pack_call f args sb"

datatype script_end = Value js | Thrown bytes | Panic bytes

primrec run_script :: "script \<Rightarrow> sandbox \<Rightarrow> sandbox \<times> script_end" where
  "run_script (Finish v) sb = (sb, Value v)"
| "run_script (Raise e) sb = (sb, Thrown e)"
| "run_script (Host_panic e) sb = (sb, Panic e)"
| "run_script (Perform h args k) sb =
     (case host_function h args sb of (sb', r) \<Rightarrow> run_script (k r) sb')"
| "run_script (Set_global x v k) sb =
     (case assign_global x v (sb_globals sb) of (g, ok) \<Rightarrow> run_script (k ok) (sb\<lparr>sb_globals := g\<rparr>))"
| "run_script (Get_global x k) sb = run_script (k (map_of (go_properties (sb_globals sb)) x)) sb"
| "run_script (Define_global x p k) sb =
     (case define_global x p (sb_globals sb) of (g, ok) \<Rightarrow> run_script (k ok) (sb\<lparr>sb_globals := g\<rparr>))"
| "run_script (Delete_global x k) sb =
     (case delete_global x (sb_globals sb) of (g, ok) \<Rightarrow> run_script (k ok) (sb\<lparr>sb_globals := g\<rparr>))"
| "run_script (Global_names k) sb = run_script (k (map fst (go_properties (sb_globals sb)))) sb"
| "run_script (Prevent_extensions s) sb =
     run_script s (sb\<lparr>sb_globals := (sb_globals sb)\<lparr>go_extensible := False\<rparr>\<rparr>)"
| "run_script (Set_hidden x v s) sb =
     run_script s (sb\<lparr>sb_globals := (sb_globals sb)\<lparr>go_hidden := AList.update x v (go_hidden (sb_globals sb))\<rparr>\<rparr>)"
| "run_script (Get_hidden x k) sb =
     run_script (k (case map_of (go_hidden (sb_globals sb)) x of Some v \<Rightarrow> v | None \<Rightarrow> None)) sb"

section \<open>Turns\<close>

definition joined_logs :: "sandbox \<Rightarrow> bytes" where
  "joined_logs sb =
     (if sb_logs sb = [] then []
      else truncate_logs (join_with newline (map le_message (sb_logs sb))) (sb_max_log sb))"

definition begin_turn :: "bytes \<Rightarrow> sandbox \<Rightarrow> sandbox" where
  "begin_turn code sb =
     send (mk_sandbox_event ''script'' ''execute'' code [])
       (reset_globals (sb\<lparr>sb_logs := [], sb_answered := False, sb_answer_text := []\<rparr>))"

definition turn_args :: "bytes \<Rightarrow> json" where
  "turn_args args =
     (if args = [] \<or> args = ''null'' then JObj []
      else case json_parse args of Some v \<Rightarrow> v | None \<Rightarrow> JObj [])"

definition turn_source :: "bytes \<Rightarrow> bytes" where
  \<open>turn_source code =
     concat [''(function(){'', newline, code, newline, ''if (typeof run === '', [CHR 0x27], ''function'',
       [CHR 0x27], '') { return run(args); }'', newline, ''})()'']\<close>

definition panic_error :: "bytes \<Rightarrow> bytes" where
  "panic_error r = ''sandbox: recovered from pack panic: '' @ r"

text \<open>
  \<open>ExecuteTurn\<close>: the logs, the return value and the error.  The arguments are assigned as a
  global variable, and an assignment that does not happen goes unnoticed.
\<close>

definition execute_turn ::
    "(bytes \<Rightarrow> script) \<Rightarrow> bytes \<Rightarrow> bytes \<Rightarrow> sandbox \<Rightarrow> sandbox \<times> bytes \<times> bytes \<times> bytes option" where
  "execute_turn engine code args sb =
     (let sb = begin_turn code sb;
          sb = sb\<lparr>sb_globals := fst (assign_global ''args'' (Some (turn_args args)) (sb_globals sb))\<rparr>
      in case run_script (engine (turn_source code)) sb of
           (sb, Thrown e) \<Rightarrow>
             let sb = send (mk_sandbox_event ''error'' ''script error'' e []) sb
             in (sb, joined_logs sb, [], Some e)
         | (sb, Panic r) \<Rightarrow>
             (send (mk_sandbox_event ''error'' ''pack panic'' r []) sb, [], [], Some (panic_error r))
         | (sb, Value v) \<Rightarrow>
             let logs = joined_logs sb
             in (send (mk_sandbox_event ''script_result'' ''result'' [] logs) sb, logs, export_json v, None))"

definition max_output_len :: nat where
  "max_output_len = 4000"

definition truncate_output :: "bytes \<Rightarrow> bytes" where
  "truncate_output out =
     (if length out > max_output_len
      then take max_output_len out @ newline @ ''... (truncated, '' @ itoa (int (length out)) @ '' chars total)''
      else out)"

text \<open>\<open>Execute\<close>: the value of the last expression, or the logs when it has none.\<close>

definition execute :: "(bytes \<Rightarrow> script) \<Rightarrow> bytes \<Rightarrow> sandbox \<Rightarrow> sandbox \<times> (bytes + bytes)" where
  "execute engine code sb =
     (let sb = begin_turn code sb in
      case run_script (engine (wrap_iife code)) sb of
        (sb, Thrown e) \<Rightarrow> (send (mk_sandbox_event ''error'' ''script error'' e []) sb, Inl e)
      | (sb, Panic r) \<Rightarrow> (send (mk_sandbox_event ''error'' ''pack panic'' r []) sb, Inl (panic_error r))
      | (sb, Value v) \<Rightarrow>
          let out = (if v = None \<or> v = Some JNull
                     then join_with newline (map le_message (sb_logs sb))
                     else truncate_output (format_value v))
          in (send (mk_sandbox_event ''script_result'' ''result'' [] out) sb, Inr out))"

definition take_answer_of :: "sandbox \<Rightarrow> bytes \<times> bool" where
  "take_answer_of sb = (sb_answer_text sb, sb_answered sb)"

end
