(* ===== verification/Sandbox_Properties.thy ===== *)
theory Sandbox_Properties
  imports Sandbox_Turn
begin

text \<open>
  What one turn leaves to the next, and what it shows the model.  The events a sandbox has sent
  never influence a script (\<open>shift\<close>), so turns can be compared from sandboxes with different
  pasts.
\<close>

section \<open>Events are write-only\<close>

definition shift :: "sandbox_event list \<Rightarrow> sandbox \<Rightarrow> sandbox" where
  "shift es sb = sb\<lparr>sb_events := es @ sb_events sb\<rparr>"

lemma shift_fields [simp]:
  "sb_logs (shift es sb) = sb_logs sb" "sb_help (shift es sb) = sb_help sb" "sb_packs (shift es sb) = sb_packs sb"
  "sb_max_log (shift es sb) = sb_max_log sb" "sb_on_event (shift es sb) = sb_on_event sb"
  "sb_events (shift es sb) = es @ sb_events sb" "sb_policy (shift es sb) = sb_policy sb"
  "sb_answered (shift es sb) = sb_answered sb" "sb_answer_text (shift es sb) = sb_answer_text sb"
  "sb_counts (shift es sb) = sb_counts sb" "sb_timers (shift es sb) = sb_timers sb"
  "sb_group (shift es sb) = sb_group sb" "sb_base_keys (shift es sb) = sb_base_keys sb"
  "sb_globals (shift es sb) = sb_globals sb" "sb_calls (shift es sb) = sb_calls sb"
  "sb_clock (shift es sb) = sb_clock sb" "sb_ticks (shift es sb) = sb_ticks sb"
  by (simp_all add: shift_def)

lemma shift_updates:
  "(shift es sb)\<lparr>sb_logs := l\<rparr> = shift es (sb\<lparr>sb_logs := l\<rparr>)"
  "(shift es sb)\<lparr>sb_counts := n\<rparr> = shift es (sb\<lparr>sb_counts := n\<rparr>)"
  "(shift es sb)\<lparr>sb_timers := n\<rparr> = shift es (sb\<lparr>sb_timers := n\<rparr>)"
  "(shift es sb)\<lparr>sb_group := g\<rparr> = shift es (sb\<lparr>sb_group := g\<rparr>)"
  "(shift es sb)\<lparr>sb_ticks := k\<rparr> = shift es (sb\<lparr>sb_ticks := k\<rparr>)"
  "(shift es sb)\<lparr>sb_calls := cs\<rparr> = shift es (sb\<lparr>sb_calls := cs\<rparr>)"
  "(shift es sb)\<lparr>sb_globals := gs\<rparr> = shift es (sb\<lparr>sb_globals := gs\<rparr>)"
  "(shift es sb)\<lparr>sb_answered := x\<rparr> = shift es (sb\<lparr>sb_answered := x\<rparr>)"
  "(shift es sb)\<lparr>sb_answer_text := t\<rparr> = shift es (sb\<lparr>sb_answer_text := t\<rparr>)"
  by (simp_all add: shift_def)

lemma send_shift: "send e (shift es sb) = shift es (send e sb)"
  by (simp add: send_def shift_def)

lemma read_clock_shift: "read_clock (shift es sb) = (fst (read_clock sb), shift es (snd (read_clock sb)))"
  by (simp add: read_clock_def shift_updates)

lemma emit_console_shift: "emit_console l ps (shift es sb) = shift es (emit_console l ps sb)"
  by (simp add: emit_console_def Let_def read_clock_shift shift_updates send_shift split_beta)

lemma console_shift: "console c args (shift es sb) = shift es (console c args sb)"
  by (cases c) (simp_all add: Let_def emit_console_shift read_clock_shift shift_updates split_beta
      split: option.split)

lemma sends_shift: "fold send evts (shift es sb) = shift es (fold send evts sb)"
  by (induction evts arbitrary: sb) (simp_all add: send_shift)

lemma host_function_shift:
  "host_function h args (shift es sb) = (case host_function h args sb of (sb', r) \<Rightarrow> (shift es sb', r))"
  by (cases h) (simp_all add: console_shift answer_call_def pack_call_def help_call_def help_overview_def
      help_entries_def help_entry_def skill_list_def skill_get_def known_skills_def Let_def
      send_shift sends_shift shift_updates split_beta split: option.split)

lemma run_script_shift: "run_script s (shift es sb) = (case run_script s sb of (sb', r) \<Rightarrow> (shift es sb', r))"
  by (induction s arbitrary: sb) (simp_all add: host_function_shift shift_updates split_beta)

section \<open>Isolation\<close>

text \<open>
  A key of \<open>globalThis\<close> that the start of a turn cannot or will not take away: one the sandbox
  defines itself, one that is not enumerable, one that is not configurable.
\<close>

definition configurable :: "global_object \<Rightarrow> bytes \<Rightarrow> bool" where
  "configurable g k = (case map_of (go_properties g) k of Some q \<Rightarrow> gp_configurable q | None \<Rightarrow> False)"

definition sticks :: "bytes list \<Rightarrow> global_object \<Rightarrow> bytes \<Rightarrow> bool" where
  "sticks base g k \<longleftrightarrow> base = [] \<or> k \<in> set base \<or> k \<notin> set (global_keys g) \<or> \<not> configurable g k"

definition stuck :: "bytes list \<Rightarrow> global_object \<Rightarrow> global_object" where
  "stuck base g = g\<lparr>go_properties := filter (\<lambda>(k, _). sticks base g k) (go_properties g)\<rparr>"

text \<open>
  A sandbox without what the start of a turn forgets: the logs, the answer, the keys of
  \<open>globalThis\<close> that do not stick, and the events already sent.
\<close>

definition forgets :: "sandbox \<Rightarrow> sandbox" where
  "forgets sb = sb\<lparr>sb_logs := [], sb_answered := False, sb_answer_text := [], sb_events := [],
     sb_globals := stuck (sb_base_keys sb) (sb_globals sb)\<rparr>"

lemma delete_keys:
  "fold (\<lambda>k g. if k \<in> set base then g else fst (delete_global k g)) ks g =
     g\<lparr>go_properties := filter (\<lambda>(k, _). k \<notin> set ks \<or> k \<in> set base \<or> \<not> configurable g k) (go_properties g)\<rparr>"
proof (induction ks arbitrary: g)
  case Nil
  then show ?case by (simp add: case_prod_unfold)
next
  case (Cons k ks)
  show ?case
  proof (cases "k \<in> set base \<or> \<not> configurable g k")
    case True
    then have "(if k \<in> set base then g else fst (delete_global k g)) = g"
      by (auto simp: delete_global_def configurable_def split: option.splits)
    moreover have "filter (\<lambda>(x, _). x \<notin> set ks \<or> x \<in> set base \<or> \<not> configurable g x) (go_properties g)
        = filter (\<lambda>(x, _). x \<notin> set (k # ks) \<or> x \<in> set base \<or> \<not> configurable g x) (go_properties g)"
      using True by (intro filter_cong) auto
    ultimately show ?thesis using Cons.IH [of g] by simp
  next
    case False
    let ?g = "g\<lparr>go_properties := AList.delete k (go_properties g)\<rparr>"
    have "fst (delete_global k g) = ?g"
      using False by (auto simp: delete_global_def configurable_def split: option.splits)
    moreover have "configurable ?g x = configurable g x" if "x \<noteq> k" for x
      using that by (simp add: configurable_def AList.delete_conv')
    then have "filter (\<lambda>(x, _). x \<notin> set ks \<or> x \<in> set base \<or> \<not> configurable ?g x) (go_properties ?g)
        = filter (\<lambda>(x, _). x \<notin> set (k # ks) \<or> x \<in> set base \<or> \<not> configurable g x) (go_properties g)"
      using False by (auto simp: AList.delete_eq intro!: filter_cong) metis+
    ultimately show ?thesis using False Cons.IH [of ?g] by simp
  qed
qed

lemma reset_globals_stuck: "reset_globals sb = sb\<lparr>sb_globals := stuck (sb_base_keys sb) (sb_globals sb)\<rparr>"
  by (auto simp: reset_globals_def delete_keys stuck_def sticks_def case_prod_unfold)

lemma map_of_filter_keys: "map_of (filter (\<lambda>(k, _). P k) xs) k = (if P k then map_of xs k else None)"
  by (induction xs) auto

lemma stuck_stuck [simp]: "stuck base (stuck base g) = stuck base g"
proof -
  have "sticks base (stuck base g) k" if "sticks base g k" for k
    using that by (auto simp: sticks_def stuck_def configurable_def map_of_filter_keys global_keys_def)
  then have "filter (\<lambda>(k, _). sticks base (stuck base g) k) (filter (\<lambda>(k, _). sticks base g k) (go_properties g))
      = filter (\<lambda>(k, _). sticks base g k) (go_properties g)"
    by (intro filter_True) auto
  then show ?thesis by (simp add: stuck_def)
qed

text \<open>A global variable that a script adds by assignment does not outlive the turn.\<close>

lemma update_absent: "k \<notin> fst ` set xs \<Longrightarrow> AList.update k v xs = xs @ [(k, v)]"
  by (induction xs) auto

lemma assigned_key_goes:
  assumes "base \<noteq> []" "k \<notin> set base" "map_of (go_properties g) k = None"
  shows "stuck base (fst (assign_global k v g)) = stuck base g"
proof (cases "go_extensible g")
  case True
  let ?g = "g\<lparr>go_properties := go_properties g @ [(k, plain_property v)]\<rparr>"
  have new: "k \<notin> fst ` set (go_properties g)" using assms(3) by (simp add: map_of_eq_None_iff)
  have g: "fst (assign_global k v g) = ?g"
    using True assms(3) update_absent [OF new] by (simp add: assign_global_def put_property_def)
  have "configurable ?g x = configurable g x" if "x \<noteq> k" for x
    using that by (simp add: configurable_def map_add_def split: option.split)
  moreover have "(x \<in> set (global_keys ?g)) = (x \<in> set (global_keys g))" if "x \<noteq> k" for x
    using that by (auto simp: global_keys_def)
  ultimately have same: "sticks base ?g x = sticks base g x" if "x \<noteq> k" for x using that by (simp add: sticks_def)
  have "filter (\<lambda>(x, _). sticks base ?g x) (go_properties g) = filter (\<lambda>(x, _). sticks base g x) (go_properties g)"
  proof (rule filter_cong [OF refl])
    fix e assume "e \<in> set (go_properties g)"
    then have "fst e \<noteq> k" using new by auto
    from same [OF this] show "(case e of (x, _) \<Rightarrow> sticks base ?g x) = (case e of (x, _) \<Rightarrow> sticks base g x)"
      by (simp add: case_prod_unfold)
  qed
  moreover have "\<not> sticks base ?g k"
    using assms by (simp add: sticks_def configurable_def global_keys_def plain_property_def map_add_def)
  ultimately show ?thesis unfolding g by (simp add: stuck_def)
next
  case False
  then show ?thesis using assms(3) by (simp add: assign_global_def)
qed

lemma begin_turn_forgets: "begin_turn code sb = shift (sb_events sb) (begin_turn code (forgets sb))"
  by (simp add: begin_turn_def reset_globals_stuck forgets_def shift_def send_def)

lemma joined_logs_shift [simp]: "joined_logs (shift es sb) = joined_logs sb"
  by (simp add: joined_logs_def)

lemma execute_turn_forgets:
  "execute_turn engine code args sb =
     (case execute_turn engine code args (forgets sb) of (sb', r) \<Rightarrow> (shift (sb_events sb) sb', r))"
  by (simp add: execute_turn_def begin_turn_forgets [of code sb] shift_updates run_script_shift Let_def
      send_shift split_beta split: script_end.split)

text \<open>
  C18 Turns are isolated from what an ordinary script leaves behind: two sandboxes that differ
  only in their logs, their answer, the events they have sent and the global variables that scripts
  added by assignment, enumerable and configurable as those are, run the next turn alike.  What the
  two must agree on is everything the reset of \<open>globalThis\<close> does not reach, and turns do see it:
  hidden or fixed properties, the values put over the sandbox's own keys, the built-in objects,
  console state, and what the packs remember.  They show the model the same logs, thread the same
  value on, fail with the same error, send the same events and give the same answer.
\<close>

theorem turns_isolated:
  assumes "forgets a = forgets b"
  shows "(let (a', ra) = execute_turn engine code args a; (b', rb) = execute_turn engine code args b in
     ra = rb \<and> forgets a' = forgets b' \<and> take_answer_of a' = take_answer_of b'
     \<and> (\<exists>es. sb_events a' = sb_events a @ es \<and> sb_events b' = sb_events b @ es))"
proof -
  obtain c r where c: "execute_turn engine code args (forgets b) = (c, r)" by (meson surj_pair)
  have "execute_turn engine code args a = (shift (sb_events a) c, r)"
    using execute_turn_forgets [of engine code args a] c assms by simp
  moreover have "execute_turn engine code args b = (shift (sb_events b) c, r)"
    using execute_turn_forgets [of engine code args b] c by simp
  moreover have "forgets (shift (sb_events a) c) = forgets (shift (sb_events b) c)"
    by (simp add: forgets_def shift_def)
  ultimately show ?thesis by (simp add: take_answer_of_def)
qed

definition sample_sandbox :: sandbox where
  "sample_sandbox = new_sandbox int []"

definition sample_engine :: "bytes \<Rightarrow> script" where
  "sample_engine code =
     Perform (Console Log) [Some (JStr ''hi'')] (\<lambda>_. Get_global ''x'' (\<lambda>p.
       Set_global ''x'' (Some JNull) (\<lambda>_. Finish (Some (JBool (p = None))))))"

text \<open>A sandbox that has answered, and whose last script left a global variable.\<close>

definition used_sandbox :: sandbox where
  "used_sandbox = sample_sandbox\<lparr>sb_answered := True,
     sb_globals := fst (assign_global ''x'' (Some (JBool True)) (sb_globals sample_sandbox))\<rparr>"

theorem turns_isolated_witness:
  "fst (snd (execute_turn sample_engine ''c'' ''{}'' sample_sandbox))
   = fst (snd (execute_turn sample_engine ''c'' ''{}'' used_sandbox))"
proof -
  let ?g = "sb_globals sample_sandbox" and ?base = "sb_base_keys sample_sandbox"
  have "?base \<noteq> []" "''x'' \<notin> set ?base" "map_of (go_properties ?g) ''x'' = None"
    by code_simp+
  from assigned_key_goes [OF this, of "Some (JBool True)"]
  have "forgets sample_sandbox = forgets used_sandbox"
    by (simp add: forgets_def used_sandbox_def)
  from turns_isolated [OF this, of sample_engine "''c''" "''{}''"] show ?thesis
    by (simp add: split_beta Let_def)
qed

text \<open>
  What is kept is more than the comments say: the nesting of \<open>console.group\<close> that a
  script left open, the value it put over a key the sandbox defines or over a built-in object, a
  property it hid from enumeration, and one it made permanent.  The arguments of the next turn
  are such a key like any other: a script can pin them.
\<close>

definition two_turns :: "script \<Rightarrow> script \<Rightarrow> bytes \<times> bytes" where
  "two_turns s1 s2 =
     (let sb = fst (execute_turn (\<lambda>_. s1) [] [] sample_sandbox); (_, logs, ret, _) = execute_turn (\<lambda>_. s2) [] [] sb
      in (logs, ret))"

definition read_global :: "bytes \<Rightarrow> script" where
  "read_global k = Get_global k (\<lambda>p. Finish (case p of None \<Rightarrow> Some (JStr ''gone'') | Some p \<Rightarrow> gp_value p))"

theorem console_group_outlives_turn:
  "two_turns (Perform (Console Group_open) [] (\<lambda>_. Finish None))
             (Perform (Console Log) [Some (JStr ''hi'')] (\<lambda>_. Finish None)) = (''  hi'', [])"
  by code_simp

theorem overwritten_key_outlives_turn:
  "two_turns (Set_global ''log'' (Some (JStr ''mine'')) (\<lambda>_. Finish None)) (read_global ''log'')
     = ([], json_marshal (JStr ''mine''))"
  "two_turns (Set_global ''JSON'' (Some (JStr ''mine'')) (\<lambda>_. Finish None)) (read_global ''JSON'')
     = ([], json_marshal (JStr ''mine''))"
  by code_simp+

lemma special_key_outlives_turn:
  "two_turns (Define_global ''x'' ((plain_property (Some (JStr ''mine'')))\<lparr>gp_enumerable := False\<rparr>) (\<lambda>_. Finish None))
     (read_global ''x'') = ([], json_marshal (JStr ''mine''))"
  "two_turns (Define_global ''x'' ((plain_property (Some (JStr ''mine'')))\<lparr>gp_configurable := False\<rparr>) (\<lambda>_. Finish None))
     (read_global ''x'') = ([], json_marshal (JStr ''mine''))"
  "two_turns (Set_global ''x'' (Some (JStr ''mine'')) (\<lambda>_. Finish None))
     (read_global ''x'') = ([], json_marshal (JStr ''gone''))"
  by code_simp+

lemma pinned_args_stay:
  "two_turns (Define_global ''args'' \<lparr>gp_value = Some (JStr ''mine''), gp_writable = False, gp_enumerable = True,
                                      gp_configurable = False\<rparr> (\<lambda>_. Finish None))
     (read_global ''args'') = ([], json_marshal (JStr ''mine''))"
  by code_simp

text \<open>
  A turn that ends normally shows the model exactly the lines its own script logged, joined
  and held to the cap, and threads on the JSON of what it returned; a script that throws shows
  its lines as well and threads nothing; after a panic of a pack nothing is shown.  The answer
  the loop takes afterwards is one that this turn's script gave, or none.
\<close>

lemma turn_result:
  defines "fresh \<equiv> \<lambda>code args sb. (begin_turn code sb)
     \<lparr>sb_globals := fst (assign_global ''args'' (Some (turn_args args)) (sb_globals (begin_turn code sb)))\<rparr>"
  shows "sb_logs (fresh code args sb) = [] \<and> \<not> sb_answered (fresh code args sb)
    \<and> (case (execute_turn engine code args sb, run_script (engine (turn_source code)) (fresh code args sb)) of
         ((sb', logs, ret, err), (sc, end)) \<Rightarrow>
           take_answer_of sb' = take_answer_of sc \<and> sb_logs sb' = sb_logs sc
           \<and> (case end of
                Value v \<Rightarrow> logs = joined_logs sc \<and> ret = export_json v \<and> err = None
              | Thrown e \<Rightarrow> logs = joined_logs sc \<and> ret = [] \<and> err = Some e
              | Panic r \<Rightarrow> logs = [] \<and> ret = [] \<and> err = Some (panic_error r)))"
proof -
  have send_keeps: "sb_logs (send e x) = sb_logs x" "take_answer_of (send e x) = take_answer_of x"
    "sb_max_log (send e x) = sb_max_log x" "sb_answered (send e x) = sb_answered x" for e x
    by (simp_all add: send_def take_answer_of_def)
  then have "joined_logs (send e x) = joined_logs x" for e x by (simp add: joined_logs_def)
  then show ?thesis
    by (auto simp: fresh_def execute_turn_def Let_def send_keeps begin_turn_def reset_globals_def
        split: prod.splits script_end.splits)
qed

end
