(* ===== verification/Capabilities.thy ===== *)
theory Capabilities
  imports Loop_Config Sandbox_Turn
begin

text \<open>
  \<open>capability.go\<close> and \<open>defaults.go\<close>: the units of functionality an application offers, and
  the builder that turns the allowed ones into a session's sandbox.  What a capability builds is
  the application's, a parameter; the packs of the default bundle are known by their names here,
  since what they install is their own.  The caller's clock and callback are the sandbox's.
\<close>

record build_context =
  bc_scope :: scope
  bc_session_id :: bytes
  bc_message_id :: bytes
  bc_user_id :: bytes
  bc_enabled :: "bytes list option"

record capability =
  cap_name :: bytes
  cap_description :: bytes
  always_on :: bool
  cap_build :: "build_context \<Rightarrow> bytes + pack list"

definition capability_allowed :: "bytes \<Rightarrow> bytes list option \<Rightarrow> bool" where
  "capability_allowed name enabled = (case enabled of None \<Rightarrow> True | Some l \<Rightarrow> name \<in> set l)"

record sandbox_builder =
  sbu_capabilities :: "capability list"
  sbu_enabled :: "bytes list option"
  sbu_max_log :: int

definition unavailable :: "bytes \<Rightarrow> bytes \<Rightarrow> sandbox_event" where
  "unavailable name e =
     mk_sandbox_event ''warning'' (''capability unavailable this run: '' @ name) e []"

text \<open>The loop over the capabilities: the packs, and the warnings of the ones that failed.\<close>

fun build_packs :: "build_context \<Rightarrow> capability list \<Rightarrow> pack list \<times> sandbox_event list" where
  "build_packs bc [] = ([], [])"
| "build_packs bc (c # cs) =
     (let (packs, evts) = build_packs bc cs in
      if \<not> always_on c \<and> \<not> capability_allowed (cap_name c) (bc_enabled bc) then (packs, evts)
      else case cap_build c bc of
             Inl e \<Rightarrow> (packs, unavailable (cap_name c) e # evts)
           | Inr built \<Rightarrow> (built @ packs, evts))"

definition skill_info :: "pack \<Rightarrow> bytes \<times> bytes \<times> bytes" where
  "skill_info p =
     (pk_name p, pk_description p, if pk_skill_type p = [] then ''pack'' else pk_skill_type p)"

definition build_context_of :: "sandbox_builder \<Rightarrow> session \<Rightarrow> scope \<Rightarrow> build_context" where
  "build_context_of b sess sc =
     \<lparr>bc_scope = sc, bc_session_id = sess_id sess, bc_message_id = sess_message_id sess,
      bc_user_id = [], bc_enabled = sbu_enabled b\<rparr>"

definition default_build ::
    "sandbox_builder \<Rightarrow> (nat \<Rightarrow> int) \<Rightarrow> session \<Rightarrow> scope \<Rightarrow> bool \<Rightarrow> sandbox \<times> sandbox_event list" where
  "default_build b clk sess sc listening =
     (let (packs, evts) = build_packs (build_context_of b sess sc) (sbu_capabilities b);
          sb = new_sandbox clk (packs @ [discovery_pack (map skill_info packs), help_pack])
      in (sb\<lparr>sb_on_event := listening, sb_max_log := sbu_max_log b\<rparr>, if listening then evts else []))"

text \<open>\<open>DefaultCapabilities\<close>, over the packs it names; without a client \<open>ai\<close> builds nothing.\<close>

record default_packs =
  require_pack :: pack
  markdown_pack :: pack
  http_pack :: pack
  fetch_pack :: pack
  ai_pack :: pack

definition default_capabilities :: "default_packs \<Rightarrow> bool \<Rightarrow> capability list" where
  "default_capabilities ps has_client =
     [\<lparr>cap_name = ''require'', cap_description = ''CommonJS-style require() resolver'', always_on = True,
       cap_build = (\<lambda>_. Inr [require_pack ps])\<rparr>,
      \<lparr>cap_name = ''markdown'', cap_description = ''require('' @ [CHR 0x27] @ ''markdown'' @ [CHR 0x27] @ '') helpers'',
       always_on = False, cap_build = (\<lambda>_. Inr [markdown_pack ps])\<rparr>,
      \<lparr>cap_name = ''http'', cap_description = ''require('' @ [CHR 0x27] @ ''http'' @ [CHR 0x27] @ '') verbs'',
       always_on = False, cap_build = (\<lambda>_. Inr [http_pack ps])\<rparr>,
      \<lparr>cap_name = ''fetch'', cap_description = ''fetch() + htmlToMarkdown()'', always_on = False,
       cap_build = (\<lambda>_. Inr [fetch_pack ps])\<rparr>,
      \<lparr>cap_name = ''ai'', cap_description = ''ai() / aiJSON() against the configured LLM'', always_on = False,
       cap_build = (\<lambda>_. Inr (if has_client then [ai_pack ps] else []))\<rparr>]"

section \<open>What a build yields\<close>

definition selected :: "build_context \<Rightarrow> capability \<Rightarrow> bool" where
  "selected bc c = (always_on c \<or> capability_allowed (cap_name c) (bc_enabled bc))"

lemma build_packs_parts:
  "fst (build_packs bc cs) = concat (map (\<lambda>c. case cap_build c bc of Inl _ \<Rightarrow> [] | Inr ps \<Rightarrow> ps) (filter (selected bc) cs))"
  "snd (build_packs bc cs) = concat (map (\<lambda>c. case cap_build c bc of Inl e \<Rightarrow> [unavailable (cap_name c) e] | Inr _ \<Rightarrow> [])
     (filter (selected bc) cs))"
  by (induction cs) (auto simp: selected_def Let_def split_beta split: sum.split)

lemma register_pack_list: "sb_packs (register_pack p sb) = sb_packs sb @ [p]"
  by (simp add: register_pack_def add_help_def Let_def)

lemma register_packs_list: "sb_packs (fold register_pack ps sb) = sb_packs sb @ ps"
  by (induction ps arbitrary: sb) (simp_all add: register_pack_list)

lemma default_build_packs:
  "sb_packs (fst (default_build b clk sess sc listening)) =
     (let ps = fst (build_packs (build_context_of b sess sc) (sbu_capabilities b))
      in ps @ [discovery_pack (map skill_info ps), help_pack])"
  by (simp add: default_build_def new_sandbox_def register_packs_list register_pack_list add_help_def bare_sandbox_def
      Let_def split_beta)

text \<open>
  A session's sandbox holds exactly the packs of the capabilities that are always on or
  allowed for it, in the order of the capabilities, and after them the discovery and help packs;
  a capability that fails to build costs the session that capability and nothing else, with one
  warning to a listening caller; and \<open>skillList()\<close> lists exactly the other packs.
\<close>

theorem default_build_filters:
  "let (sb, evts) = default_build b clk sess sc listening; bc = build_context_of b sess sc;
       chosen = filter (selected bc) (sbu_capabilities b);
       ps = concat (map (\<lambda>c. case cap_build c bc of Inl _ \<Rightarrow> [] | Inr l \<Rightarrow> l) chosen) in
   sb_packs sb = ps @ [discovery_pack (map skill_info ps), help_pack]
   \<and> evts = (if listening
       then concat (map (\<lambda>c. case cap_build c bc of Inl e \<Rightarrow> [unavailable (cap_name c) e] | Inr _ \<Rightarrow> []) chosen)
       else [])
   \<and> (if list_all (\<lambda>p. pk_skills p = None) ps then known_skills sb = map skill_info ps else True)"
proof -
  let ?r = "default_build b clk sess sc listening"
  have "list_all (\<lambda>p. pk_skills p = None) qs \<Longrightarrow>
      concat (map (\<lambda>p. case pk_skills p of Some ss \<Rightarrow> ss | None \<Rightarrow> []) qs) = []" for qs :: "pack list"
    by (induction qs) simp_all
  moreover have "snd ?r = (if listening then snd (build_packs (build_context_of b sess sc) (sbu_capabilities b)) else [])"
    by (simp add: default_build_def Let_def split_beta)
  ultimately show ?thesis
    using default_build_packs [of b clk sess sc listening]
    unfolding build_packs_parts Let_def split_beta known_skills_def
    by (simp add: discovery_pack_def help_pack_def)
qed

end
