(* ===== verification/Llm_Retry.thy ===== *)
theory Llm_Retry
  imports Go_Strings
begin

text \<open>
  \<open>llm/retry.go\<close>: when a request is tried again and how long to wait.  Durations are in
  nanoseconds.  An HTTP-date is parsed by the standard library; \<open>http_date\<close> is that parser,
  giving the instant in nanoseconds, since nothing else of the modelled code reads dates.
\<close>

abbreviation second :: int where "second \<equiv> 1000000000"

definition max_retry_delay :: int where
  "max_retry_delay = 30 * second"

definition default_max_retries :: int where
  "default_max_retries = 3"

definition default_retry_base_delay :: int where
  "default_retry_base_delay = 500 * 1000000"

text \<open>\<open>retryAfter\<close>: absent, or the delay the server asks for.\<close>

type_synonym retry_after = "int option"

definition is_retryable_status :: "int \<Rightarrow> bool" where
  "is_retryable_status status = (status = 429 \<or> 500 \<le> status)"

definition cap_retry_delay :: "int \<Rightarrow> int" where
  "cap_retry_delay d = (if d < 0 then 0 else if d > max_retry_delay then max_retry_delay else d)"

text \<open>\<open>strconv.ParseInt\<close> fails outside 64 bits.\<close>

definition parse_int64 :: "bytes \<Rightarrow> int option" where
  "parse_int64 s =
     (case parse_int s of None \<Rightarrow> None
      | Some n \<Rightarrow> if - (2 ^ 63) \<le> n \<and> n < 2 ^ 63 then Some n else None)"

definition parse_retry_after :: "(bytes \<Rightarrow> int option) \<Rightarrow> bytes \<Rightarrow> int \<Rightarrow> retry_after" where
  "parse_retry_after http_date header now =
     (let v = trim_space header in
      if v = [] then None
      else case parse_int64 v of
             Some seconds \<Rightarrow>
               if seconds < 0 then None
               else if seconds > max_retry_delay div second then Some max_retry_delay
               else Some (seconds * second)
           | None \<Rightarrow>
               (case http_date v of
                  None \<Rightarrow> None
                | Some t \<Rightarrow> let delay = t - now in
                            Some (cap_retry_delay (if delay < 0 then 0 else delay))))"

fun doubled :: "int \<Rightarrow> nat \<Rightarrow> int" where
  "doubled d 0 = cap_retry_delay d"
| "doubled d (Suc n) = (if d \<ge> max_retry_delay div 2 then max_retry_delay else doubled (2 * d) n)"

definition exponential_delay :: "int \<Rightarrow> int \<Rightarrow> int" where
  "exponential_delay base attempt =
     doubled (if base \<le> 0 then default_retry_base_delay else base) (nat attempt)"

text \<open>\<open>randomJitter\<close> draws from 0 to its argument; any function may be in its place.\<close>

definition backoff_delay :: "int \<Rightarrow> int \<Rightarrow> (int \<Rightarrow> int) option \<Rightarrow> int" where
  "backoff_delay base attempt jitter =
     (let d = exponential_delay base attempt in
      case jitter of
        None \<Rightarrow> d
      | Some draw \<Rightarrow>
          if d \<ge> max_retry_delay then d
          else let span = d div 2; remaining = max_retry_delay - d;
                   span = (if span > remaining then remaining else span)
               in if span \<le> 0 then d
                  else let j = draw span; j = (if j < 0 then 0 else j); j = (if j > span then span else j)
                       in cap_retry_delay (d + j))"

definition retry_delay :: "int \<Rightarrow> int \<Rightarrow> retry_after \<Rightarrow> (int \<Rightarrow> int) option \<Rightarrow> int" where
  "retry_delay base attempt hint jitter =
     (case hint of Some d \<Rightarrow> cap_retry_delay d | None \<Rightarrow> backoff_delay base attempt jitter)"

section \<open>Bounds\<close>

lemma cap_bounds: "0 \<le> cap_retry_delay d \<and> cap_retry_delay d \<le> max_retry_delay"
  by (auto simp: cap_retry_delay_def max_retry_delay_def)

lemma doubled_closed: "0 < d \<Longrightarrow> doubled d n = min (d * 2 ^ n) max_retry_delay"
proof (induction n arbitrary: d)
  case (Suc n)
  show ?case
  proof (cases "d \<ge> max_retry_delay div 2")
    case True
    have "max_retry_delay \<le> 2 * d" using True by (simp add: max_retry_delay_def)
    also have "2 * d * 1 \<le> 2 * d * 2 ^ n" using Suc(2) by (intro mult_left_mono) auto
    finally have "max_retry_delay \<le> d * 2 ^ Suc n" by (simp add: mult_ac)
    then show ?thesis using True by simp
  next
    case False
    then show ?thesis using Suc by (simp add: mult_ac)
  qed
qed (auto simp: cap_retry_delay_def)

text \<open>
  Without a hint of the server, the wait before a retry is the base delay doubled once per
  attempt, cut off at thirty seconds, plus at most half of that as jitter, never beyond the
  cut-off; a hint is followed as it is, cut off as well.
\<close>

theorem retry_delay_bounds:
  "let d = min ((if base \<le> 0 then default_retry_base_delay else base) * 2 ^ nat attempt) max_retry_delay;
       w = retry_delay base attempt hint jitter in
   (case hint of
      Some h \<Rightarrow> w = max 0 (min h max_retry_delay)
    | None \<Rightarrow> d \<le> w \<and> 2 * w \<le> 3 * d \<and> w \<le> max_retry_delay \<and> (if jitter = None then w = d else True))"
proof (cases hint)
  case (Some h)
  then show ?thesis by (auto simp: retry_delay_def cap_retry_delay_def max_retry_delay_def Let_def)
next
  case None
  define b where "b = (if base \<le> 0 then default_retry_base_delay else base)"
  define d where "d = min (b * 2 ^ nat attempt) max_retry_delay"
  have b: "0 < b" by (simp add: b_def default_retry_base_delay_def)
  have e: "exponential_delay base attempt = d"
    unfolding exponential_delay_def d_def b_def [symmetric] by (rule doubled_closed [OF b])
  have d0: "0 < d" "d \<le> max_retry_delay" using b by (auto simp: d_def max_retry_delay_def)
  have "d \<le> backoff_delay base attempt jitter \<and> 2 * backoff_delay base attempt jitter \<le> 3 * d
      \<and> backoff_delay base attempt jitter \<le> max_retry_delay
      \<and> (if jitter = None then backoff_delay base attempt jitter = d else True)"
    using d0 by (auto simp: backoff_delay_def e Let_def cap_retry_delay_def split: option.split)
  then show ?thesis unfolding retry_delay_def None option.case Let_def b_def [symmetric] d_def [symmetric]
    by (cases jitter) simp_all
qed

end
