(* ===== verification/Llm_Client.thy ===== *)
theory Llm_Client
  imports Llm_Types Llm_Retry Go_Json Go_Url
begin

text \<open>
  \<open>llm/openai.go\<close>: the client of an OpenAI-compatible endpoint.  The transport and the
  context are a record of functions of what the client has done so far: what a request is
  answered, whether the context is done, whether a wait is cut short.  A body is the text that
  can be read of it and the error that ends the reading, if one does.  JSON is decoded as
  \<open>json.Unmarshal\<close> does into the structs of the source: absent and null fields keep their zero
  value, other fields are ignored, a value of another type is an error (field names are matched
  in their own spelling only).
\<close>

section \<open>The wire\<close>

record body =
  body_text :: bytes
  body_error :: "bytes option"

datatype http_answer =
    Transport_error bytes
  | Response int bytes body

record http_request =
  hr_url :: bytes
  hr_headers :: "(bytes \<times> bytes) list"
  hr_body :: bytes

datatype http_effect = Posted http_request | Slept int

record transport =
  tp_answer :: "http_effect list \<Rightarrow> http_request \<Rightarrow> http_answer"
  tp_ctx_err :: "http_effect list \<Rightarrow> bytes option"
  tp_sleep :: "http_effect list \<Rightarrow> int \<Rightarrow> bytes option"
  tp_now :: "http_effect list \<Rightarrow> int"
  tp_jitter :: "http_effect list \<Rightarrow> int \<Rightarrow> int"
  tp_http_date :: "bytes \<Rightarrow> int option"

datatype llm_error = Llm_error bytes | Api_error int bytes

record llm_config =
  lc_api_key :: bytes
  lc_chat_model :: bytes
  lc_base_url :: bytes
  lc_reasoning_effort :: bytes
  lc_headers :: "(bytes \<times> bytes) list"
  lc_max_retries :: int
  lc_retry_base_delay :: int

record client =
  cl_api_key :: bytes
  cl_base_url :: bytes
  cl_chat_model :: bytes
  cl_reasoning_effort :: bytes
  cl_headers :: "(bytes \<times> bytes) list"
  cl_max_retries :: int
  cl_retry_base_delay :: int

definition default_base_url :: bytes where "default_base_url = ''https://api.openai.com/v1''"
definition default_chat_model :: bytes where "default_chat_model = ''gpt-4o-mini''"

definition or_default :: "bytes \<Rightarrow> bytes \<Rightarrow> bytes" where
  "or_default v d = (if v = [] then d else v)"

text \<open>\<open>strings.TrimRight(s, "/")\<close>.\<close>

definition trim_slashes :: "bytes \<Rightarrow> bytes" where
  "trim_slashes s = rev (dropWhile (\<lambda>c. c = CHR ''/'') (rev s))"

text \<open>\<open>ConfigFromEnv\<close>, over the environment; \<open>strconv.Atoi\<close> fails outside 64 bits.\<close>

definition config_from_env :: "(bytes \<Rightarrow> bytes) \<Rightarrow> llm_config" where
  "config_from_env env =
     \<lparr>lc_api_key = env ''OPENAI_API_KEY'',
      lc_chat_model = or_default (env ''OPENAI_CHAT_MODEL'') default_chat_model,
      lc_base_url = or_default (env ''OPENAI_BASE_URL'') default_base_url,
      lc_reasoning_effort = env ''OPENAI_REASONING_EFFORT'', lc_headers = [],
      lc_max_retries = (case parse_int64 (env ''OPENAI_MAX_RETRIES'') of
                          None \<Rightarrow> 0 | Some n \<Rightarrow> if n \<le> 0 then - 1 else n),
      lc_retry_base_delay = 0\<rparr>"

definition new_openai :: "llm_config \<Rightarrow> bytes + client" where
  "new_openai cfg =
     (if lc_api_key cfg = [] then Inl ''llm: OPENAI_API_KEY is not set''
      else Inr
        \<lparr>cl_api_key = lc_api_key cfg,
         cl_base_url = trim_slashes (or_default (lc_base_url cfg) default_base_url),
         cl_chat_model = or_default (lc_chat_model cfg) default_chat_model,
         cl_reasoning_effort = lc_reasoning_effort cfg, cl_headers = lc_headers cfg,
         cl_max_retries = (if lc_max_retries cfg = 0 then default_max_retries
                           else if lc_max_retries cfg < 0 then 0 else lc_max_retries cfg),
         cl_retry_base_delay = (if lc_retry_base_delay cfg \<le> 0 then default_retry_base_delay
                                else lc_retry_base_delay cfg)\<rparr>)"

section \<open>Requests\<close>

definition role_for :: "bytes \<Rightarrow> bytes" where
  "role_for r = (if r = ''system'' \<or> r = ''assistant'' then r else ''user'')"

definition build_messages :: "message list \<Rightarrow> json" where
  "build_messages ms = JArr (map (\<lambda>m.
     JObj [(''role'', JStr (role_for (role m))), (''content'', JStr (msg_content m))]) ms)"

text \<open>\<open>chatRequest\<close> with its \<open>omitempty\<close> fields.\<close>

definition chat_request :: "client \<Rightarrow> completion_request \<Rightarrow> bool \<Rightarrow> json" where
  "chat_request c req streaming =
     JObj ([(''model'', JStr (or_default (req_model req) (cl_chat_model c))),
            (''messages'', build_messages (req_messages req))]
       @ (case req_temperature req of None \<Rightarrow> [] | Some t \<Rightarrow> [(''temperature'', JNum t)])
       @ (case req_max_tokens req of None \<Rightarrow> [] | Some n \<Rightarrow> [(''max_tokens'', JNum (itoa n))])
       @ (if cl_reasoning_effort c = [] then [] else [(''reasoning_effort'', JStr (cl_reasoning_effort c))])
       @ (if streaming then [(''stream'', JBool True), (''stream_options'', JObj [(''include_usage'', JBool True)])]
          else []))"

definition post_request :: "client \<Rightarrow> json \<Rightarrow> http_request" where
  "post_request c wire =
     \<lparr>hr_url = cl_base_url c @ ''/chat/completions'',
      hr_headers = [(''Content-Type'', ''application/json''), (''Accept'', ''application/json'')]
        @ (if cl_api_key c = [] then [] else [(''Authorization'', ''Bearer '' @ cl_api_key c)])
        @ cl_headers c,
      hr_body = json_marshal wire\<rparr>"

text \<open>
  \<open>doJSONPost\<close>, one round of its loop per call: \<open>attempt\<close> counts the retries made so far.
  A URL the standard library cannot parse fails before anything is sent.
\<close>

function do_json_post ::
    "transport \<Rightarrow> client \<Rightarrow> http_request \<Rightarrow> int \<Rightarrow> http_effect list \<Rightarrow> http_effect list \<times> (llm_error + body)" where
  "do_json_post tp c rq attempt tr =
     (if parse_url (hr_url rq) = None then (tr, Inl (Llm_error ''llm: request''))
      else
        let answer = tp_answer tp tr rq; tr = Posted rq # tr;
            retry = (\<lambda>err hint.
              case tp_ctx_err tp tr of
                Some e \<Rightarrow> (tr, Inl (Llm_error e))
              | None \<Rightarrow>
                  if attempt \<ge> cl_max_retries c then (tr, Inl err)
                  else let d = retry_delay (cl_retry_base_delay c) attempt hint (Some (tp_jitter tp tr)) in
                       case tp_sleep tp tr d of
                         Some e \<Rightarrow> (Slept d # tr, Inl (Llm_error e))
                       | None \<Rightarrow> do_json_post tp c rq (attempt + 1) (Slept d # tr))
        in case answer of
             Transport_error e \<Rightarrow> retry (Llm_error (''llm: do: '' @ e)) None
           | Response status after b \<Rightarrow>
               if 200 \<le> status \<and> status < 300 then (tr, Inr b)
               else let err = Api_error status (trim_space (body_text b)) in
                    if \<not> is_retryable_status status then (tr, Inl err)
                    else retry err (parse_retry_after (tp_http_date tp) after (tp_now tp tr)))"
  by pat_completeness auto
termination
  by (relation "measure (\<lambda>(tp, c, rq, attempt, tr). nat (cl_max_retries c - attempt))") auto

declare do_json_post.simps [simp del]

section \<open>Responses\<close>

definition json_field :: "json_object \<Rightarrow> bytes \<Rightarrow> json" where
  "json_field kvs k = (case map_of kvs k of None \<Rightarrow> JNull | Some v \<Rightarrow> v)"

fun decode_string :: "json \<Rightarrow> bytes option" where
  "decode_string JNull = Some []"
| "decode_string (JStr s) = Some s"
| "decode_string _ = None"

fun decode_int :: "json \<Rightarrow> int option" where
  "decode_int JNull = Some 0"
| "decode_int (JNum s) = parse_int64 s"
| "decode_int _ = None"

fun decode_content :: "json \<Rightarrow> bytes option" where
  "decode_content JNull = Some []"
| "decode_content (JObj kvs) = decode_string (json_field kvs ''content'')"
| "decode_content _ = None"

text \<open>One choice: the content of its \<open>message\<close> or, in a stream, of its \<open>delta\<close>.\<close>

fun decode_choice :: "bytes \<Rightarrow> json \<Rightarrow> bytes option" where
  "decode_choice field JNull = Some []"
| "decode_choice field (JObj kvs) = decode_content (json_field kvs field)"
| "decode_choice field _ = None"

fun decode_choices :: "bytes \<Rightarrow> json \<Rightarrow> bytes list option" where
  "decode_choices field JNull = Some []"
| "decode_choices field (JArr vs) = those (map (decode_choice field) vs)"
| "decode_choices field _ = None"

fun decode_usage :: "json \<Rightarrow> (int \<times> int) option option" where
  "decode_usage JNull = Some None"
| "decode_usage (JObj kvs) =
     (case (decode_int (json_field kvs ''prompt_tokens''), decode_int (json_field kvs ''completion_tokens'')) of
        (Some p, Some q) \<Rightarrow> Some (Some (p, q))
      | _ \<Rightarrow> None)"
| "decode_usage _ = None"

record chat_response =
  ch_choices :: "bytes list"
  ch_usage :: "(int \<times> int) option"

fun decode_chat :: "bytes \<Rightarrow> json \<Rightarrow> chat_response option" where
  "decode_chat field JNull = Some \<lparr>ch_choices = [], ch_usage = None\<rparr>"
| "decode_chat field (JObj kvs) =
     (case (decode_choices field (json_field kvs ''choices''), decode_usage (json_field kvs ''usage'')) of
        (Some cs, Some u) \<Rightarrow> Some \<lparr>ch_choices = cs, ch_usage = u\<rparr>
      | _ \<Rightarrow> None)"
| "decode_chat field _ = None"

definition unmarshal_chat :: "bytes \<Rightarrow> bytes \<Rightarrow> chat_response option" where
  "unmarshal_chat field s = (case json_parse s of None \<Rightarrow> None | Some v \<Rightarrow> decode_chat field v)"

text \<open>
  \<open>json.Decoder\<close> reads the first value of a body and leaves the rest: the shortest prefix that
  is an object or null, if there is one.
\<close>

definition is_record :: "json option \<Rightarrow> bool" where
  "is_record v = (case v of Some (JObj _) \<Rightarrow> True | Some JNull \<Rightarrow> True | _ \<Rightarrow> False)"

definition decode_first :: "bytes \<Rightarrow> chat_response option" where
  "decode_first s =
     (case find (\<lambda>n. is_record (json_parse (take n s))) [0..<Suc (length s)] of
        None \<Rightarrow> None | Some n \<Rightarrow> unmarshal_chat ''message'' (take n s))"

definition with_usage :: "(int \<times> int) option \<Rightarrow> completion_response \<Rightarrow> completion_response" where
  "with_usage u out =
     (case u of None \<Rightarrow> out | Some (p, q) \<Rightarrow> out\<lparr>input_tokens := p, output_tokens := q\<rparr>)"

definition empty_response :: "bytes \<Rightarrow> completion_response" where
  "empty_response model = \<lparr>resp_content = [], resp_model = model, input_tokens = 0, output_tokens = 0\<rparr>"

definition first_choice :: "chat_response \<Rightarrow> bytes" where
  "first_choice r = (case ch_choices r of [] \<Rightarrow> [] | c # _ \<Rightarrow> c)"

text \<open>\<open>Complete\<close>, with \<open>postChat\<close>.\<close>

definition complete ::
    "transport \<Rightarrow> client \<Rightarrow> completion_request \<Rightarrow> http_effect list \<Rightarrow> http_effect list \<times> (llm_error + completion_response)" where
  "complete tp c req tr =
     (if req_messages req = [] then (tr, Inl (Llm_error ''llm: complete: messages is empty''))
      else case do_json_post tp c (post_request c (chat_request c req False)) 0 tr of
             (tr, Inl e) \<Rightarrow> (tr, Inl e)
           | (tr, Inr b) \<Rightarrow>
               (case decode_first (body_text b) of
                  None \<Rightarrow> (tr, Inl (Llm_error ''llm: decode''))
                | Some r \<Rightarrow>
                    (tr, Inr (with_usage (ch_usage r)
                       ((empty_response (or_default (req_model req) (cl_chat_model c)))
                          \<lparr>resp_content := first_choice r\<rparr>)))))"

section \<open>Streams\<close>

text \<open>
  \<open>bufio.Scanner\<close>: lines without their end, the last one even when nothing ends it; a line that
  does not fit the buffer stops the scan with an error.
\<close>

definition scan_buffer :: nat where
  "scan_buffer = 1024 * 1024"

definition drop_return :: "bytes \<Rightarrow> bytes" where
  "drop_return l = (if l \<noteq> [] \<and> last l = CHR 0x0D then butlast l else l)"

definition body_lines :: "bytes \<Rightarrow> bytes list" where
  "body_lines s = (let ls = split_on (CHR 0x0A) s in if last ls = [] then butlast ls else ls)"

definition scan_lines :: "body \<Rightarrow> bytes list \<times> bytes option" where
  "scan_lines b =
     (let ls = body_lines (body_text b); short = takeWhile (\<lambda>l. length l < scan_buffer) ls in
      (map drop_return short,
       if length short < length ls then Some ''bufio.Scanner: token too long'' else body_error b))"

record stream_state =
  ss_content :: bytes
  ss_saw_frame :: bool
  ss_raw :: bytes
  ss_usage :: "(int \<times> int) option"
  ss_chunks :: "bytes list"

definition stream_frame :: "bytes \<Rightarrow> stream_state \<Rightarrow> stream_state" where
  "stream_frame data s =
     (if data = [] \<or> data = ''[DONE]'' then s
      else case unmarshal_chat ''delta'' data of
             None \<Rightarrow> s
           | Some r \<Rightarrow>
               let s = (if first_choice r \<noteq> []
                        then s\<lparr>ss_content := ss_content s @ first_choice r, ss_chunks := ss_chunks s @ [first_choice r]\<rparr>
                        else s)
               in (case ch_usage r of None \<Rightarrow> s | Some u \<Rightarrow> s\<lparr>ss_usage := Some u\<rparr>))"

definition stream_line :: "bytes \<Rightarrow> stream_state \<Rightarrow> stream_state" where
  "stream_line line s =
     (if \<not> has_prefix ''data:'' line
      then (if \<not> ss_saw_frame s \<and> length (ss_raw s) < scan_buffer
            then s\<lparr>ss_raw := ss_raw s @ line @ newline\<rparr> else s)
      else stream_frame (trim_space (drop 5 line)) (s\<lparr>ss_saw_frame := True\<rparr>))"

definition start_stream :: stream_state where
  "start_stream = \<lparr>ss_content = [], ss_saw_frame = False, ss_raw = [], ss_usage = None, ss_chunks = []\<rparr>"

text \<open>\<open>streamChat\<close> after the request: the chunks handed to the callback and the outcome.\<close>

definition read_stream :: "bytes \<Rightarrow> body \<Rightarrow> bytes list \<times> (llm_error + completion_response)" where
  "read_stream model b =
     (let (ls, err) = scan_lines b; s = fold stream_line ls start_stream in
      case err of
        Some e \<Rightarrow> (ss_chunks s, Inl (Llm_error (''llm: stream read: '' @ e)))
      | None \<Rightarrow>
          if ss_saw_frame s
          then (ss_chunks s, Inr (with_usage (ss_usage s) ((empty_response model)\<lparr>resp_content := ss_content s\<rparr>)))
          else case unmarshal_chat ''message'' (ss_raw s) of
                 None \<Rightarrow> (ss_chunks s, Inl (Llm_error ''llm: stream: no SSE frames and body not a completion''))
               | Some r \<Rightarrow>
                   (if first_choice r \<noteq> [] then [first_choice r] else [],
                    Inr (with_usage (ch_usage r) ((empty_response model)\<lparr>resp_content := first_choice r\<rparr>))))"

definition stream_chat ::
    "transport \<Rightarrow> client \<Rightarrow> completion_request \<Rightarrow> http_effect list
     \<Rightarrow> http_effect list \<times> bytes list \<times> (llm_error + completion_response)" where
  "stream_chat tp c req tr =
     (case do_json_post tp c (post_request c (chat_request c req True)) 0 tr of
        (tr, Inl e) \<Rightarrow> (tr, [], Inl e)
      | (tr, Inr b) \<Rightarrow> (tr, read_stream (or_default (req_model req) (cl_chat_model c)) b))"

definition falls_back :: "llm_error \<Rightarrow> bool" where
  "falls_back e =
     (case e of Api_error status _ \<Rightarrow> 400 \<le> status \<and> status < 500 \<and> \<not> is_retryable_status status
      | Llm_error _ \<Rightarrow> False)"

definition stream ::
    "transport \<Rightarrow> client \<Rightarrow> completion_request \<Rightarrow> http_effect list
     \<Rightarrow> http_effect list \<times> bytes list \<times> (llm_error + completion_response)" where
  "stream tp c req tr =
     (if req_messages req = [] then (tr, [], Inl (Llm_error ''llm: stream: messages is empty''))
      else case stream_chat tp c req tr of
             (tr, chunks, Inr out) \<Rightarrow> (tr, chunks, Inr out)
           | (tr, chunks, Inl e) \<Rightarrow>
               if falls_back e
               then (case complete tp c req tr of
                       (tr, Inl ce) \<Rightarrow> (tr, chunks, Inl ce)
                     | (tr, Inr full) \<Rightarrow>
                         (tr, chunks @ (if resp_content full \<noteq> [] then [resp_content full] else []), Inr full))
               else (tr, chunks, Inl e))"

end
