(* ===== verification/Llm_Properties.thy ===== *)
theory Llm_Properties
  imports Llm_Client
begin

text \<open>
  What the client promises the loop: the pieces it streams add up to the response it returns,
  and a request costs a bounded number of attempts and a bounded wait.
\<close>

section \<open>Streaming\<close>

definition stream_inv :: "stream_state \<Rightarrow> bool" where
  "stream_inv s = (concat (ss_chunks s) = ss_content s \<and> [] \<notin> set (ss_chunks s)
     \<and> (ss_saw_frame s \<or> ss_chunks s = []))"

lemma stream_line_inv: "stream_inv s \<Longrightarrow> stream_inv (stream_line l s)"
  by (auto simp: stream_inv_def stream_line_def stream_frame_def Let_def split: option.splits)

lemma stream_lines_inv: "stream_inv s \<Longrightarrow> stream_inv (fold stream_line ls s)"
  by (induction ls arbitrary: s) (simp_all add: stream_line_inv)

lemma with_usage_content [simp]: "resp_content (with_usage u out) = resp_content out"
  by (simp add: with_usage_def split: option.splits prod.splits)

lemma read_stream_content:
  assumes "read_stream model b = (chunks, Inr out)"
  shows "concat chunks = resp_content out \<and> [] \<notin> set chunks"
proof -
  obtain ls err where l: "scan_lines b = (ls, err)" by fastforce
  have "stream_inv (fold stream_line ls start_stream)"
    by (rule stream_lines_inv) (simp add: stream_inv_def start_stream_def)
  then show ?thesis using assms l
    by (auto simp: read_stream_def Let_def stream_inv_def empty_response_def
        split: option.splits if_splits)
qed

text \<open>
  C20 A stream that succeeds has handed its caller exactly the response, piece by piece, none of
  them empty: whether the upstream streamed, ignored the wish to stream, or refused it and the
  client fell back to one plain request.
\<close>

theorem stream_delivers_all:
  "case stream tp c req tr of (tr', chunks, Inr out) \<Rightarrow> concat chunks = resp_content out \<and> [] \<notin> set chunks
     | (tr', chunks, Inl e) \<Rightarrow> True"
proof (cases "stream_chat tp c req tr")
  case (fields tr1 chunks r)
  show ?thesis
  proof (cases r)
    case (Inr out)
    then obtain b where "read_stream (or_default (req_model req) (cl_chat_model c)) b = (chunks, Inr out)"
      using fields by (auto simp: stream_chat_def split: prod.splits sum.splits)
    then show ?thesis using read_stream_content fields Inr by (auto simp: stream_def)
  next
    case (Inl e)
    have none: "chunks = []" if "falls_back e"
    proof -
      have "e \<noteq> Llm_error x" for x using that by (auto simp: falls_back_def)
      then show ?thesis using fields Inl
        by (auto simp: stream_chat_def read_stream_def Let_def split: prod.splits sum.splits option.splits if_splits)
    qed
    show ?thesis
      using fields Inl none by (auto simp: stream_def split: prod.splits sum.splits)
  qed
qed

section \<open>Attempts\<close>

fun posts :: "http_effect list \<Rightarrow> http_request list" where
  "posts [] = []"
| "posts (Posted rq # tr) = rq # posts tr"
| "posts (Slept d # tr) = posts tr"

fun waits :: "http_effect list \<Rightarrow> int list" where
  "waits [] = []"
| "waits (Posted rq # tr) = waits tr"
| "waits (Slept d # tr) = d # waits tr"

lemma retry_delay_range: "0 \<le> retry_delay base attempt hint j \<and> retry_delay base attempt hint j \<le> max_retry_delay"
proof (cases hint)
  case None
  have "0 \<le> doubled d n \<and> doubled d n \<le> max_retry_delay" for d n
    by (induction n arbitrary: d) (simp_all add: cap_bounds, simp add: max_retry_delay_def)
  then have "0 \<le> exponential_delay base attempt \<and> exponential_delay base attempt \<le> max_retry_delay"
    by (simp add: exponential_delay_def)
  then show ?thesis using None cap_bounds
    by (auto simp: retry_delay_def backoff_delay_def Let_def split: option.splits)
qed (simp add: retry_delay_def cap_bounds)

text \<open>One attempt: what it adds, and how it goes on.\<close>

lemma do_json_post_cases:
  obtains (stop) r where "do_json_post tp c rq attempt tr = (tr, r)"
  | (once) r where "do_json_post tp c rq attempt tr = (Posted rq # tr, r)"
  | (slept) d r where "do_json_post tp c rq attempt tr = (Slept d # Posted rq # tr, r)"
      "0 \<le> d" "d \<le> max_retry_delay" "attempt < cl_max_retries c"
  | (again) d where "do_json_post tp c rq attempt tr = do_json_post tp c rq (attempt + 1) (Slept d # Posted rq # tr)"
      "0 \<le> d" "d \<le> max_retry_delay" "attempt < cl_max_retries c"
proof (cases "parse_url (hr_url rq)")
  case None
  then show thesis by (intro stop) (subst do_json_post.simps, simp)
next
  case (Some h)
  let ?tr = "Posted rq # tr"
  have range: "0 \<le> retry_delay (cl_retry_base_delay c) attempt hint j"
    "retry_delay (cl_retry_base_delay c) attempt hint j \<le> max_retry_delay" for hint j
    using retry_delay_range by blast+
  have retrying: thesis
    if "do_json_post tp c rq attempt tr =
      (case tp_ctx_err tp ?tr of
         Some e \<Rightarrow> (?tr, Inl (Llm_error e))
       | None \<Rightarrow>
           if attempt \<ge> cl_max_retries c then (?tr, Inl err)
           else case tp_sleep tp ?tr (retry_delay (cl_retry_base_delay c) attempt hint (Some (tp_jitter tp ?tr))) of
                  Some e \<Rightarrow> (Slept (retry_delay (cl_retry_base_delay c) attempt hint (Some (tp_jitter tp ?tr))) # ?tr, Inl (Llm_error e))
                | None \<Rightarrow> do_json_post tp c rq (attempt + 1)
                    (Slept (retry_delay (cl_retry_base_delay c) attempt hint (Some (tp_jitter tp ?tr))) # ?tr))"
    for err hint
    using that once slept again range by (auto split: option.splits if_splits)
  show thesis
  proof (cases "tp_answer tp tr rq")
    case (Transport_error e)
    show thesis
      by (rule retrying [of "Llm_error (''llm: do: '' @ e)" None], subst do_json_post.simps)
        (simp add: Some Transport_error Let_def cong: option.case_cong)
  next
    case (Response status after b)
    consider "200 \<le> status \<and> status < 300" | "\<not> (200 \<le> status \<and> status < 300)" "\<not> is_retryable_status status"
      | "\<not> (200 \<le> status \<and> status < 300)" "is_retryable_status status" by blast
    then show thesis
    proof cases
      case 1
      then have "do_json_post tp c rq attempt tr = (?tr, Inr b)"
        by (subst do_json_post.simps) (simp add: Some Response Let_def)
      then show thesis by (rule once)
    next
      case 2
      then have "do_json_post tp c rq attempt tr = (?tr, Inl (Api_error status (trim_space (body_text b))))"
        by (subst do_json_post.simps) (auto simp add: Some Response Let_def)
      then show thesis by (rule once)
    next
      case 3
      then show thesis
        by (intro retrying [of "Api_error status (trim_space (body_text b))"
              "parse_retry_after (tp_http_date tp) after (tp_now tp ?tr)"], subst do_json_post.simps)
          (auto simp add: Some Response Let_def cong: option.case_cong)
    qed
  qed
qed

lemma do_json_post_effects:
  "\<exists>new. fst (do_json_post tp c rq attempt tr) = new @ tr
     \<and> length (posts new) \<le> 1 + nat (cl_max_retries c - attempt) \<and> set (posts new) \<subseteq> {rq}
     \<and> length (waits new) \<le> nat (cl_max_retries c - attempt)
     \<and> (\<forall>d \<in> set (waits new). 0 \<le> d \<and> d \<le> max_retry_delay)"
proof (induction "nat (cl_max_retries c - attempt)" arbitrary: attempt tr rule: less_induct)
  case less
  show ?case
  proof (cases rule: do_json_post_cases [of tp c rq attempt tr])
    case (again d)
    then have "nat (cl_max_retries c - (attempt + 1)) < nat (cl_max_retries c - attempt)" by linarith
    from less [OF this, of "Slept d # Posted rq # tr"] obtain new where
      "fst (do_json_post tp c rq (attempt + 1) (Slept d # Posted rq # tr)) = new @ Slept d # Posted rq # tr"
      "length (posts new) \<le> 1 + nat (cl_max_retries c - (attempt + 1))" "set (posts new) \<subseteq> {rq}"
      "length (waits new) \<le> nat (cl_max_retries c - (attempt + 1))"
      "\<forall>d \<in> set (waits new). 0 \<le> d \<and> d \<le> max_retry_delay" by blast
    moreover have "posts (new @ [Slept d, Posted rq]) = posts new @ [rq]" "waits (new @ [Slept d, Posted rq]) = waits new @ [d]"
      by (induction new rule: posts.induct) simp_all
    ultimately show ?thesis using again
      by (intro exI [of _ "new @ [Slept d, Posted rq]"]) auto
  qed (auto intro: exI [of _ "[]"] exI [of _ "[Posted rq]"] exI [of _ "[Slept d, Posted rq]" for d])
qed

text \<open>
  C21 One call of the endpoint sends the same request at most once more than the configured
  retries, waits at most once per retry, and never longer than thirty seconds at a time,
  whatever the server answers or asks for.
\<close>

theorem post_attempts_bounded:
  "\<exists>new. fst (do_json_post tp c rq 0 tr) = new @ tr
     \<and> length (posts new) \<le> 1 + nat (cl_max_retries c) \<and> set (posts new) \<subseteq> {rq}
     \<and> length (waits new) \<le> nat (cl_max_retries c)
     \<and> list_all (\<lambda>d. 0 \<le> d \<and> d \<le> max_retry_delay) (waits new)"
  using do_json_post_effects [of tp c rq 0 tr] by (simp add: list_all_iff)

end
