(* ===== verification/Go_Path.thy ===== *)
theory Go_Path
  imports Go_Url
begin

text \<open>
  Go's package \<open>path\<close> on slash-separated names, and runes: \<open>Clean\<close>, \<open>Dir\<close>, \<open>Base\<close>, \<open>Join\<close> and
  \<open>Match\<close> as the standard library documents and implements them.
\<close>

section \<open>Clean, Dir, Base\<close>

definition slash :: bytes where
  "slash = ''/''"

text \<open>
  One element of a name, against the elements kept so far, the last one first: empty ones and
  dots vanish, two dots undo the element before, or stay at the front of a relative name.
\<close>

definition clean_step :: "bool \<Rightarrow> bytes list \<Rightarrow> bytes \<Rightarrow> bytes list" where
  "clean_step rooted kept e =
     (if e = [] \<or> e = ''.'' then kept
      else if e = ''..''
      then (case kept of
              [] \<Rightarrow> if rooted then [] else [e]
            | k # ks \<Rightarrow> if k = ''..'' then e # kept else ks)
      else e # kept)"

definition clean_elements :: "bool \<Rightarrow> bytes \<Rightarrow> bytes list" where
  "clean_elements rooted p = rev (foldl (clean_step rooted) [] (split_on (CHR ''/'') p))"

definition path_clean :: "bytes \<Rightarrow> bytes" where
  "path_clean p =
     (let rooted = has_prefix slash p; es = clean_elements rooted p in
      if rooted then slash @ join_with slash es
      else if es = [] then ''.'' else join_with slash es)"

text \<open>\<open>path.Dir\<close>: what is left of the last slash, cleaned.\<close>

definition path_dir :: "bytes \<Rightarrow> bytes" where
  "path_dir p =
     (case last_char_index (CHR ''/'') p of
        None \<Rightarrow> ''.''
      | Some i \<Rightarrow> path_clean (take (Suc i) p))"

text \<open>\<open>path.Base\<close>.\<close>

definition path_base :: "bytes \<Rightarrow> bytes" where
  "path_base p =
     (if p = [] then ''.''
      else let q = rev (dropWhile (\<lambda>c. c = CHR ''/'') (rev p)) in
           if q = [] then slash else last (split_on (CHR ''/'') q))"

text \<open>\<open>filepath.Join\<close> of two names cleans what it joins.\<close>

definition path_join :: "bytes \<Rightarrow> bytes \<Rightarrow> bytes" where
  "path_join a b = (if a = [] then path_clean b else path_clean (a @ slash @ b))"

section \<open>Runes\<close>

definition cont_byte :: "nat \<Rightarrow> nat \<Rightarrow> char \<Rightarrow> bool" where
  "cont_byte lo hi c = (lo \<le> byte_of c \<and> byte_of c \<le> hi)"

text \<open>\<open>utf8.DecodeRuneInString\<close>: the rune and its width; an invalid byte is one rune wide.\<close>

definition rune_error :: nat where
  "rune_error = 65533"

definition decode_rune :: "bytes \<Rightarrow> nat \<times> nat" where
  "decode_rune s =
     (case map byte_of (take 4 s) of
        [] \<Rightarrow> (rune_error, 0)
      | a # bs \<Rightarrow>
          let ok = (\<lambda>k lo hi. k \<le> length bs \<and> lo \<le> bs ! 0 \<and> bs ! 0 \<le> hi
                     \<and> list_all (\<lambda>b. 128 \<le> b \<and> b \<le> 191) (take (k - 1) (tl bs)));
              tail = (\<lambda>k n. foldl (\<lambda>r b. 64 * r + (b - 128)) n (take k bs))
          in
          if a < 128 then (a, 1)
          else if 194 \<le> a \<and> a \<le> 223 \<and> ok 1 128 191 then (tail 1 (a - 192), 2)
          else if 224 \<le> a \<and> a \<le> 239
            \<and> ok 2 (if a = 224 then 160 else 128) (if a = 237 then 159 else 191) then (tail 2 (a - 224), 3)
          else if 240 \<le> a \<and> a \<le> 244
            \<and> ok 3 (if a = 240 then 144 else 128) (if a = 244 then 143 else 191) then (tail 3 (a - 240), 4)
          else (rune_error, 1))"

definition rune_width :: "bytes \<Rightarrow> nat" where
  "rune_width s = snd (decode_rune s)"

section \<open>Match\<close>

text \<open>A pattern for one segment: literal bytes, one rune, one rune of a class, and stars.\<close>

datatype glob_token =
    Lit char
  | Any_rune
  | Class bool "(nat \<times> nat) list"
  | Star

text \<open>\<open>getEsc\<close>: one rune of a class, which something must follow.\<close>

definition get_esc :: "bytes \<Rightarrow> (nat \<times> bytes) option" where
  "get_esc s =
     (case s of
        [] \<Rightarrow> None
      | c # cs \<Rightarrow>
          if c = CHR ''-'' \<or> c = CHR '']'' then None
          else let t = (if c = CHR 0x5C then cs else s); (r, n) = decode_rune t in
               if t = [] \<or> (r = rune_error \<and> n = 1) \<or> drop n t = [] then None
               else Some (r, drop n t))"

text \<open>The ranges of a class up to its closing bracket; the fuel is the length of the text.\<close>

fun class_ranges :: "nat \<Rightarrow> (nat \<times> nat) list \<Rightarrow> bytes \<Rightarrow> ((nat \<times> nat) list \<times> bytes) option" where
  "class_ranges 0 rs s = None"
| "class_ranges (Suc k) rs s =
     (if rs \<noteq> [] \<and> has_prefix '']'' s then Some (rs, drop 1 s)
      else case get_esc s of
             None \<Rightarrow> None
           | Some (lo, s1) \<Rightarrow>
               if has_prefix ''-'' s1
               then (case get_esc (drop 1 s1) of
                       None \<Rightarrow> None
                     | Some (hi, s2) \<Rightarrow> class_ranges k (rs @ [(lo, hi)]) s2)
               else class_ranges k (rs @ [(lo, lo)]) s1)"

fun glob_tokens :: "nat \<Rightarrow> bytes \<Rightarrow> glob_token list option" where
  "glob_tokens k [] = Some []"
| "glob_tokens 0 (c # s) = None"
| "glob_tokens (Suc k) (c # s) =
     (if c = CHR ''*'' then map_option ((#) Star) (glob_tokens k s)
      else if c = CHR ''?'' then map_option ((#) Any_rune) (glob_tokens k s)
      else if c = CHR 0x5C
      then (case s of [] \<Rightarrow> None | d # ds \<Rightarrow> map_option ((#) (Lit d)) (glob_tokens k ds))
      else if c = CHR ''[''
      then (let neg = has_prefix ''^'' s; t = (if neg then drop 1 s else s) in
            case class_ranges (length t) [] t of
              None \<Rightarrow> None
            | Some (rs, r) \<Rightarrow> map_option ((#) (Class neg rs)) (glob_tokens k r))
      else map_option ((#) (Lit c)) (glob_tokens k s))"

definition parse_glob :: "bytes \<Rightarrow> glob_token list option" where
  "parse_glob p = glob_tokens (length p) p"

text \<open>
  \<open>scanChunk\<close>: the tokens up to the next star, with whether stars came before.  \<open>match_chunk\<close>
  answers what is left of the name.
\<close>

fun chunks_of :: "bool \<Rightarrow> glob_token list \<Rightarrow> glob_token list \<Rightarrow> (bool \<times> glob_token list) list" where
  "chunks_of star ts [] = (if star \<or> ts \<noteq> [] then [(star, ts)] else [])"
| "chunks_of star ts (Star # us) =
     (if ts = [] then chunks_of True [] us else (star, ts) # chunks_of True [] us)"
| "chunks_of star ts (u # us) = chunks_of star (ts @ [u]) us"

fun match_chunk :: "glob_token list \<Rightarrow> bytes \<Rightarrow> bytes option" where
  "match_chunk [] s = Some s"
| "match_chunk (t # ts) [] = None"
| "match_chunk (Lit c # ts) (b # s) = (if b = c then match_chunk ts s else None)"
| "match_chunk (Any_rune # ts) (b # s) =
     (if b = CHR ''/'' then None else match_chunk ts (drop (rune_width (b # s)) (b # s)))"
| "match_chunk (Class neg rs # ts) (b # s) =
     (let (r, n) = decode_rune (b # s) in
      if list_ex (\<lambda>(lo, hi). lo \<le> r \<and> r \<le> hi) rs = neg then None
      else match_chunk ts (drop n (b # s)))"
| "match_chunk (Star # ts) (b # s) = None"

text \<open>After a star: the chunk at the first later place where it fits; the last one must end the name.\<close>

fun match_later :: "glob_token list \<Rightarrow> bool \<Rightarrow> bytes \<Rightarrow> bytes option" where
  "match_later ts final [] = None"
| "match_later ts final (b # s) =
     (if b = CHR ''/'' then None
      else case match_chunk ts s of
             Some t \<Rightarrow> if final \<and> t \<noteq> [] then match_later ts final s else Some t
           | None \<Rightarrow> match_later ts final s)"

fun match_chunks :: "(bool \<times> glob_token list) list \<Rightarrow> bytes \<Rightarrow> bool" where
  "match_chunks [] name = (name = [])"
| "match_chunks ((star, ts) # cs) name =
     (if star \<and> ts = [] then CHR ''/'' \<notin> set name
      else let here = (case match_chunk ts name of
                         Some t \<Rightarrow> if t = [] \<or> cs \<noteq> [] then Some t else None
                       | None \<Rightarrow> None)
           in case here of
                Some t \<Rightarrow> match_chunks cs t
              | None \<Rightarrow>
                  if star then (case match_later ts (cs = []) name of
                                  Some t \<Rightarrow> match_chunks cs t | None \<Rightarrow> False)
                  else False)"

text \<open>\<open>path.Match\<close>; \<open>None\<close> is \<open>ErrBadPattern\<close>, which every malformed pattern answers.\<close>

definition path_match :: "bytes \<Rightarrow> bytes \<Rightarrow> bool option" where
  "path_match pat name = map_option (\<lambda>ts. match_chunks (chunks_of False [] ts) name) (parse_glob pat)"

end
