(* ===== verification/File_Tree.thy ===== *)
theory File_Tree
  imports Go_Path
begin

text \<open>
  The directory a workspace is opened on: what \<open>os.Root\<close> answers for names inside it.  A node
  is a file with its mode and content, or a directory with its entries in the order of their
  names, which is the order \<open>ReadDir\<close> and \<open>WalkDir\<close> present them in.  Symbolic links are left
  out: \<open>os.Root\<close> refuses the ones that lead outside.
\<close>

datatype node =
    File nat bytes
  | Dir "(bytes \<times> node) list"

datatype errno = Not_there | Not_a_directory | Is_a_directory

fun errno_text :: "errno \<Rightarrow> bytes" where
  "errno_text Not_there = ''no such file or directory''"
| "errno_text Not_a_directory = ''not a directory''"
| "errno_text Is_a_directory = ''is a directory''"

definition is_dir :: "node \<Rightarrow> bool" where
  "is_dir n = (case n of Dir _ \<Rightarrow> True | File _ _ \<Rightarrow> False)"

text \<open>The segments of a cleaned name; a dot is the root itself.\<close>

definition segments :: "bytes \<Rightarrow> bytes list" where
  "segments rel = (if rel = ''.'' then [] else split_on (CHR ''/'') rel)"

fun node_at :: "bytes list \<Rightarrow> node \<Rightarrow> errno + node" where
  "node_at [] n = Inr n"
| "node_at (s # ss) (File m c) = Inl Not_a_directory"
| "node_at (s # ss) (Dir es) =
     (case map_of es s of None \<Rightarrow> Inl Not_there | Some n \<Rightarrow> node_at ss n)"

fun set_entry :: "bytes \<Rightarrow> node \<Rightarrow> (bytes \<times> node) list \<Rightarrow> (bytes \<times> node) list" where
  "set_entry s n [] = [(s, n)]"
| "set_entry s n ((k, m) # es) =
     (if s = k then (k, n) # es
      else if s < k then (s, n) # (k, m) # es
      else (k, m) # set_entry s n es)"

text \<open>\<open>WriteFile\<close>: a file that is there keeps its mode.\<close>

fun write_node :: "bytes list \<Rightarrow> nat \<Rightarrow> bytes \<Rightarrow> node \<Rightarrow> errno + node" where
  "write_node [] perm content (File m c) = Inr (File m content)"
| "write_node [] perm content (Dir es) = Inl Is_a_directory"
| "write_node (s # ss) perm content (File m c) = Inl Not_a_directory"
| "write_node (s # ss) perm content (Dir es) =
     (case map_of es s of
        None \<Rightarrow> if ss = [] then Inr (Dir (set_entry s (File perm content) es)) else Inl Not_there
      | Some n \<Rightarrow> (case write_node ss perm content n of
                     Inl e \<Rightarrow> Inl e | Inr n' \<Rightarrow> Inr (Dir (set_entry s n' es))))"

text \<open>\<open>MkdirAll\<close>.\<close>

fun mkdir_all :: "bytes list \<Rightarrow> node \<Rightarrow> errno + node" where
  "mkdir_all [] n = (if is_dir n then Inr n else Inl Not_a_directory)"
| "mkdir_all (s # ss) (File m c) = Inl Not_a_directory"
| "mkdir_all (s # ss) (Dir es) =
     (case mkdir_all ss (case map_of es s of None \<Rightarrow> Dir [] | Some n \<Rightarrow> n) of
        Inl e \<Rightarrow> Inl e | Inr n' \<Rightarrow> Inr (Dir (set_entry s n' es)))"

section \<open>Well-formed trees\<close>

text \<open>Every directory lists its entries in strictly growing order of their names.\<close>

fun ordered :: "node \<Rightarrow> bool" and ordered_entries :: "(bytes \<times> node) list \<Rightarrow> bool" where
  "ordered (File m c) = True"
| "ordered (Dir es) = (sorted_wrt (<) (map fst es) \<and> ordered_entries es)"
| "ordered_entries [] = True"
| "ordered_entries ((k, n) # es) = (ordered n \<and> ordered_entries es)"

lemma ordered_entries_iff: "ordered_entries es \<longleftrightarrow> list_all ordered (map snd es)"
  by (induction es) auto

lemma map_of_set_entry [simp]: "map_of (set_entry s n es) = (map_of es)(s \<mapsto> n)"
  by (induction es rule: set_entry.induct) auto

lemma set_entry_keys: "set (map fst (set_entry s n es)) = insert s (set (map fst es))"
  by (induction s n es rule: set_entry.induct) auto

lemma set_entry_sorted: "sorted_wrt (<) (map fst es) \<Longrightarrow> sorted_wrt (<) (map fst (set_entry s n es))"
proof (induction s n es rule: set_entry.induct)
  case (2 s n k m es)
  have "set (map fst (set_entry s n es)) = insert s (fst ` set es)" using set_entry_keys by simp
  with 2 show ?case by (auto simp: not_less_iff_gr_or_eq)
qed simp

lemma set_entry_ordered: "ordered n \<Longrightarrow> ordered_entries es \<Longrightarrow> ordered_entries (set_entry s n es)"
  by (induction s n es rule: set_entry.induct) auto

lemma ordered_map_of: "ordered_entries es \<Longrightarrow> map_of es s = Some n \<Longrightarrow> ordered n"
  by (induction es) (auto split: if_splits)

lemma ordered_write: "ordered t \<Longrightarrow> write_node ss perm c t = Inr t' \<Longrightarrow> ordered t'"
proof (induction ss perm c t arbitrary: t' rule: write_node.induct)
  case (4 s ss perm c es)
  then show ?case
    by (auto simp: set_entry_sorted set_entry_ordered ordered_map_of split: option.splits if_splits sum.splits)
qed auto

lemma ordered_mkdir: "ordered t \<Longrightarrow> mkdir_all ss t = Inr t' \<Longrightarrow> ordered t'"
proof (induction ss t arbitrary: t' rule: mkdir_all.induct)
  case (3 s ss es)
  from 3(3) obtain n' where n': "mkdir_all ss (case map_of es s of None \<Rightarrow> Dir [] | Some n \<Rightarrow> n) = Inr n'"
      "t' = Dir (set_entry s n' es)"
    by (auto split: sum.splits)
  have "ordered (case map_of es s of None \<Rightarrow> Dir [] | Some n \<Rightarrow> n)"
    using 3(2) by (auto simp: ordered_map_of split: option.split)
  with 3(1) n'(1) have "ordered n'" by blast
  with 3(2) n'(2) show ?case by (simp add: set_entry_sorted set_entry_ordered)
qed (auto split: if_splits)

section \<open>Reading what was written\<close>

text \<open>What a name shows of the tree: the file it names, if any.\<close>

definition file_at :: "bytes list \<Rightarrow> node \<Rightarrow> (nat \<times> bytes) option" where
  "file_at ss t = (case node_at ss t of Inr (File m c) \<Rightarrow> Some (m, c) | _ \<Rightarrow> None)"

lemma file_at_simps [simp]:
  "file_at [] (File m c) = Some (m, c)" "file_at [] (Dir es) = None" "file_at (s # ss) (File m c) = None"
  "file_at (s # ss) (Dir es) = (case map_of es s of None \<Rightarrow> None | Some n \<Rightarrow> file_at ss n)"
  by (auto simp: file_at_def split: option.split)

lemma file_at_empty_dir [simp]: "file_at ss (Dir []) = None"
  by (cases ss) simp_all

lemma write_then_read:
  "write_node ss perm c t = Inr t' \<Longrightarrow>
     file_at ss t' = Some (case file_at ss t of None \<Rightarrow> perm | Some (m, _) \<Rightarrow> m, c)"
  by (induction ss perm c t arbitrary: t' rule: write_node.induct)
    (auto split: option.splits if_splits sum.splits)

lemma write_elsewhere:
  "write_node ss perm c t = Inr t' \<Longrightarrow> us \<noteq> ss \<Longrightarrow> file_at us t' = file_at us t"
proof (induction ss perm c t arbitrary: t' us rule: write_node.induct)
  case (1 perm c m c')
  then show ?case by (cases us) auto
next
  case (4 s ss perm c es)
  show ?case
  proof (cases us)
    case Nil
    then show ?thesis using 4 by (auto split: option.splits if_splits sum.splits)
  next
    case (Cons u us')
    then show ?thesis using 4
      by (cases us') (auto split: option.splits if_splits sum.splits)
  qed
qed auto

lemma mkdir_keeps_files: "mkdir_all ss t = Inr t' \<Longrightarrow> file_at us t' = file_at us t"
proof (induction ss t arbitrary: t' us rule: mkdir_all.induct)
  case (3 s ss es)
  then show ?case by (cases us) (auto split: option.splits sum.splits)
qed (auto split: if_splits)

end
