(* ===== verification/Workspace.thy ===== *)
theory Workspace
  imports File_Tree Sandbox_Core
begin

text \<open>
  \<open>ext/pack_fs.go\<close> and \<open>ext/pack_fs_ops.go\<close>: the project directory as the agent sees it.
  An operation answers the message it throws or its value, with the directory, the events and
  the questions put to the user as its state.  Parameters are what the operating system
  refuses (\<open>we_denies\<close>, by the operation and the name), the user behind the approver, who
  knows the questions asked before, the size the system reports of a directory, and Go's
  regular expressions, which answer an error or a test for lines.  The system refuses an operation
  before it does anything (\<open>we_denies\<close>), or breaks off partway (\<open>we_breaks\<close>): a write after so
  many bytes, the creation of directories after so many of them, each with the message it ends in.
  A write truncates the file first, so what breaks off leaves a part of the new content.  New files
  get the mode that \<open>we_mode\<close>, the umask, leaves of the one asked for.
\<close>

section \<open>Options and state\<close>

record workspace_options =
  wo_max_file_bytes :: int
  wo_max_results :: int
  wo_max_walk_files :: int
  wo_skip_dirs :: "bytes list option"

definition max_file_bytes :: "workspace_options \<Rightarrow> int" where
  "max_file_bytes o' = (if wo_max_file_bytes o' \<le> 0 then 1024 * 1024 else wo_max_file_bytes o')"

definition max_results :: "workspace_options \<Rightarrow> int" where
  "max_results o' = (if wo_max_results o' \<le> 0 then 500 else wo_max_results o')"

definition max_walk_files :: "workspace_options \<Rightarrow> int" where
  "max_walk_files o' = (if wo_max_walk_files o' \<le> 0 then 50000 else wo_max_walk_files o')"

definition skip_dirs :: "workspace_options \<Rightarrow> bytes list" where
  "skip_dirs o' = (case wo_skip_dirs o' of None \<Rightarrow> [''.git''] | Some l \<Rightarrow> l)"

type_synonym approver = "bytes list \<Rightarrow> bytes \<Rightarrow> bytes + js"

record workspace_env =
  we_opts :: workspace_options
  we_policy :: "policy option"
  we_approver :: "approver option"
  we_denies :: "bytes \<Rightarrow> bytes \<Rightarrow> bytes option"
  we_breaks :: "bytes \<Rightarrow> bytes \<Rightarrow> (nat \<times> bytes) option"
  we_mode :: "nat \<Rightarrow> nat"
  we_dir_size :: "bytes \<Rightarrow> int"
  we_regexp :: "bytes \<Rightarrow> bytes + (bytes \<Rightarrow> bool)"

record workspace =
  ws_tree :: node
  ws_events :: "sandbox_event list"
  ws_asked :: "bytes list"

definition ws_emit :: "bytes \<Rightarrow> bytes \<Rightarrow> bytes \<Rightarrow> workspace \<Rightarrow> workspace" where
  "ws_emit kind summary detail w =
     w\<lparr>ws_events := ws_events w @ [mk_sandbox_event kind summary detail []]\<rparr>"

text \<open>\<open>throw\<close>: the message, after the name of the primitive.\<close>

definition throw :: "bytes \<Rightarrow> bytes \<Rightarrow> workspace \<Rightarrow> workspace \<times> (bytes + 'a)" where
  "throw tool msg w = (w, Inl (tool @ '': '' @ msg))"

section \<open>Options of a call\<close>

text \<open>
  Options are a map from JavaScript: a number is its text there.  A fraction is cut off; numbers
  written with an exponent are below one or beyond any line number.  The conversion to \<open>int\<close> of
  what does not fit is the machine's: the smallest integer on amd64, taken here.
\<close>

definition opt_string :: "json_object \<Rightarrow> bytes \<Rightarrow> bytes" where
  "opt_string m k = (case map_of m k of Some (JStr s) \<Rightarrow> s | _ \<Rightarrow> [])"

definition opt_bool :: "json_object \<Rightarrow> bytes \<Rightarrow> bool" where
  "opt_bool m k = (case map_of m k of Some (JBool b) \<Rightarrow> b | Some (JStr s) \<Rightarrow> s = ''true'' | _ \<Rightarrow> False)"

definition to_int :: "int \<Rightarrow> int" where
  "to_int i = (if - (2 ^ 63) \<le> i \<and> i < 2 ^ 63 then i else - (2 ^ 63))"

definition opt_int :: "json_object \<Rightarrow> bytes \<Rightarrow> int" where
  "opt_int m k =
     (case map_of m k of
        Some (JNum s) \<Rightarrow>
          if CHR ''e'' \<in> set s then 0
          else (case parse_int (takeWhile (\<lambda>c. c \<noteq> CHR ''.'') s) of Some i \<Rightarrow> to_int i | None \<Rightarrow> 0)
      | _ \<Rightarrow> 0)"

section \<open>Names\<close>

definition backslash :: bytes where
  "backslash = [CHR 0x5C]"

definition to_slash :: "bytes \<Rightarrow> bytes" where
  "to_slash p = replace_all backslash slash p"

definition rel_name :: "bytes \<Rightarrow> bytes + bytes" where
  "rel_name p0 =
     (let p = trim_space p0 in
      if p = [] then Inr ''.''
      else if has_prefix slash p \<or> has_prefix backslash p
      then Inl (''path '' @ quote p @ '' is absolute; paths are relative to the project root'')
      else let clean = path_clean (to_slash p) in
           if clean = ''..'' \<or> has_prefix ''../'' clean
           then Inl (''path '' @ quote p @ '' leaves the project root'')
           else Inr clean)"

definition join_rel :: "bytes \<Rightarrow> bytes \<Rightarrow> bytes" where
  "join_rel dir name = (if dir = ''.'' \<or> dir = [] then name else dir @ slash @ name)"

section \<open>Authorisation\<close>

definition question_for :: "bytes \<Rightarrow> bytes" where
  "question_for rel = ''Allow the agent to modify '' @ rel @ ''?''"

definition reason_of :: "policy_result \<Rightarrow> bytes" where
  "reason_of res = (if reason res = [] then ''denied by policy'' else reason res)"

definition authorize :: "workspace_env \<Rightarrow> bytes \<Rightarrow> bytes \<Rightarrow> workspace \<Rightarrow> workspace \<times> (bytes + unit)" where
  "authorize env tool rel w =
     (case check_policy (we_policy env) tool [(''path'', JStr rel)] of
        Inl e \<Rightarrow> throw tool (''policy check failed: '' @ e) w
      | Inr res \<Rightarrow>
          if allowed res then (w, Inr ())
          else case we_approver env of
            None \<Rightarrow>
              throw tool (reason_of res) (ws_emit ''error'' (tool @ '' blocked by policy'') (reason_of res) w)
          | Some ask \<Rightarrow>
              let w = ws_emit ''ask'' (''requesting permission to modify '' @ rel) [] w;
                  answer = ask (ws_asked w) (question_for rel);
                  w = w\<lparr>ws_asked := ws_asked w @ [question_for rel]\<rparr>
              in (case answer of
                    Inl e \<Rightarrow>
                      throw tool (reason_of res @ '' (could not ask: '' @ e @ '')'')
                        (ws_emit ''error'' ''permission request failed'' e w)
                  | Inr v \<Rightarrow>
                      if v \<noteq> Some (JBool True)
                      then throw tool (''the user declined to allow changes to '' @ rel)
                             (ws_emit ''ask_result'' (''denied: '' @ rel) [] w)
                      else (ws_emit ''ask_result'' (''approved: '' @ rel) [] w, Inr ())))"

section \<open>The operating system\<close>

text \<open>An error of the system names the operation and the file.\<close>

definition os_result :: "workspace_env \<Rightarrow> bytes \<Rightarrow> bytes \<Rightarrow> errno + 'a \<Rightarrow> bytes + 'a" where
  "os_result env op rel r =
     (case we_denies env op rel of
        Some e \<Rightarrow> Inl (op @ '' '' @ rel @ '': '' @ e)
      | None \<Rightarrow> (case r of Inl e \<Rightarrow> Inl (op @ '' '' @ rel @ '': '' @ errno_text e) | Inr x \<Rightarrow> Inr x))"

definition os_stat :: "workspace_env \<Rightarrow> bytes \<Rightarrow> workspace \<Rightarrow> bytes + node" where
  "os_stat env rel w = os_result env ''statat'' rel (node_at (segments rel) (ws_tree w))"

definition os_read :: "workspace_env \<Rightarrow> bytes \<Rightarrow> workspace \<Rightarrow> bytes + bytes" where
  "os_read env rel w =
     os_result env ''openat'' rel
       (case node_at (segments rel) (ws_tree w) of
          Inl e \<Rightarrow> Inl e | Inr (Dir es) \<Rightarrow> Inl Is_a_directory | Inr (File m c) \<Rightarrow> Inr c)"

definition os_read_dir :: "workspace_env \<Rightarrow> bytes \<Rightarrow> workspace \<Rightarrow> bytes + (bytes \<times> node) list" where
  "os_read_dir env rel w =
     os_result env ''readdirent'' rel
       (case node_at (segments rel) (ws_tree w) of
          Inl e \<Rightarrow> Inl e | Inr (Dir es) \<Rightarrow> Inr es | Inr (File m c) \<Rightarrow> Inl Not_a_directory)"

text \<open>\<open>MkdirAll\<close>: what breaks off has made the directories nearest to the root.\<close>

definition os_mkdir_all :: "workspace_env \<Rightarrow> bytes \<Rightarrow> workspace \<Rightarrow> workspace \<times> (bytes + unit)" where
  "os_mkdir_all env rel w =
     (case os_result env ''mkdirat'' rel (mkdir_all (segments rel) (ws_tree w)) of
        Inl e \<Rightarrow> (w, Inl e)
      | Inr t \<Rightarrow>
          (case we_breaks env ''mkdirat'' rel of
             None \<Rightarrow> (w\<lparr>ws_tree := t\<rparr>, Inr ())
           | Some (n, e) \<Rightarrow>
               (case mkdir_all (take n (segments rel)) (ws_tree w) of
                  Inl _ \<Rightarrow> (w, Inl e) | Inr t' \<Rightarrow> (w\<lparr>ws_tree := t'\<rparr>, Inl e))))"

text \<open>
  \<open>WriteFile\<close> opens the file, creating or truncating it, writes and closes.  Only the opening is
  all or nothing.  An error after the last byte is one of the closing.
\<close>

definition os_write :: "workspace_env \<Rightarrow> bytes \<Rightarrow> nat \<Rightarrow> bytes \<Rightarrow> workspace \<Rightarrow> workspace \<times> (bytes + unit)" where
  "os_write env rel perm content w =
     (case we_denies env ''create'' rel of
        Some e \<Rightarrow> (w, Inl (''openat '' @ rel @ '': '' @ e))
      | None \<Rightarrow>
          (let cut = (case we_breaks env ''write'' rel of None \<Rightarrow> content | Some (n, _) \<Rightarrow> take n content) in
           case write_node (segments rel) (we_mode env perm) cut (ws_tree w) of
             Inl e \<Rightarrow> (w, Inl (''openat '' @ rel @ '': '' @ errno_text e))
           | Inr t \<Rightarrow>
               (w\<lparr>ws_tree := t\<rparr>,
                case we_breaks env ''write'' rel of None \<Rightarrow> Inr () | Some (_, e) \<Rightarrow> Inl e)))"

section \<open>Reading\<close>

text \<open>
  The end is computed in \<open>int\<close>, so it may come out negative; slicing to it then panics with the
  message on the left, and the panic ends the whole turn.
\<close>

definition slice_lines :: "bytes \<Rightarrow> int \<Rightarrow> int \<Rightarrow> bytes + bytes" where
  "slice_lines txt offset limit =
     (let lines = split_on (CHR 0x0A) txt;
          start = (if offset > 0 then offset - 1 else 0)
      in if int (length lines) \<le> start then Inr []
         else let stop = (if limit > 0 \<and> i64 (start + limit) < int (length lines)
                          then i64 (start + limit) else int (length lines))
              in if stop < start
                 then Inl (''runtime error: slice bounds out of range [:'' @ itoa stop @ '']'')
                 else Inr (join_with newline (take (nat (stop - start)) (drop (nat start) lines))))"

text \<open>With numbers no file reaches, the sum overflows.\<close>

lemma slice_panics:
  "isl (slice_lines [CHR 0x0A] 2 (2 ^ 63 - 1))"
  by (simp add: slice_lines_def split_on_Cons i64_def)

text \<open>The head of a file that is too long, cut after its last whole line.\<close>

definition cut_head :: "int \<Rightarrow> bytes \<Rightarrow> bytes" where
  "cut_head max_bytes txt =
     (let head = take (nat max_bytes) txt in
      case last_char_index (CHR 0x0A) head of
        Some i \<Rightarrow> if i > 0 then take (Suc i) txt else head
      | None \<Rightarrow> head)"

definition truncation_notice :: "int \<Rightarrow> bytes" where
  "truncation_notice n =
     newline @ ''[truncated: the file is '' @ itoa n @ '' bytes; pass {offset, limit} to read further]'' @ newline"

definition read_file :: "workspace_env \<Rightarrow> bytes \<Rightarrow> json_object \<Rightarrow> workspace \<Rightarrow> workspace \<times> (bytes + bytes)" where
  "read_file env name opts w =
     (case rel_name name of
        Inl e \<Rightarrow> throw ''readFile'' e w
      | Inr rel \<Rightarrow>
     (case os_stat env rel w of
        Inl e \<Rightarrow> throw ''readFile'' e w
      | Inr (Dir es) \<Rightarrow> throw ''readFile'' (rel @ '' is a directory '' @ em_dash @ '' use listDir'') w
      | Inr (File m c) \<Rightarrow>
     (case os_read env rel w of
        Inl e \<Rightarrow> throw ''readFile'' e w
      | Inr data \<Rightarrow>
          let max_bytes = max_file_bytes (we_opts env);
              truncated = int (length data) > max_bytes;
              txt = (if truncated then cut_head max_bytes data else data);
              offset = opt_int opts ''offset''; limit = opt_int opts ''limit'';
              sliced = (if offset > 0 \<or> limit > 0 then slice_lines txt offset limit else Inr txt) in
     (case sliced of
        Inl panic \<Rightarrow> (w, Inl panic)
      | Inr txt \<Rightarrow>
          let txt = (if truncated then txt @ truncation_notice (int (length data)) else txt)
          in (ws_emit ''file_read'' (''readFile: '' @ rel) [] w, Inr txt)))))"

record dir_entry =
  de_name :: bytes
  de_path :: bytes
  de_dir :: bool
  de_size :: int

definition entry_of :: "workspace_env \<Rightarrow> bytes \<Rightarrow> bytes \<times> node \<Rightarrow> dir_entry" where
  "entry_of env rel x =
     (let path = join_rel rel (fst x) in
      \<lparr>de_name = fst x, de_path = path, de_dir = is_dir (snd x),
       de_size = (case snd x of File m c \<Rightarrow> int (length c) | Dir es \<Rightarrow> we_dir_size env path)\<rparr>)"

fun list_entries :: "workspace_env \<Rightarrow> bytes \<Rightarrow> (bytes \<times> node) list \<Rightarrow> dir_entry list \<Rightarrow> dir_entry list" where
  "list_entries env rel [] out = out"
| "list_entries env rel (x # xs) out =
     (if is_dir (snd x) \<and> fst x \<in> set (skip_dirs (we_opts env)) then list_entries env rel xs out
      else if int (length out) \<ge> max_results (we_opts env) then out
      else list_entries env rel xs (out @ [entry_of env rel x]))"

definition list_dir :: "workspace_env \<Rightarrow> bytes \<Rightarrow> workspace \<Rightarrow> workspace \<times> (bytes + dir_entry list)" where
  "list_dir env name w =
     (case rel_name name of
        Inl e \<Rightarrow> throw ''listDir'' e w
      | Inr rel \<Rightarrow>
     (case os_read_dir env rel w of
        Inl e \<Rightarrow> throw ''listDir'' e w
      | Inr es \<Rightarrow>
          let out = list_entries env rel es []
          in (ws_emit ''file_read'' (''listDir: '' @ rel @ '' ('' @ itoa (int (length out)) @ '' entries)'') [] w,
              Inr out)))"

section \<open>Mutation\<close>

definition default_mode :: nat where
  "default_mode = 420"

definition write_file :: "workspace_env \<Rightarrow> bytes \<Rightarrow> bytes \<Rightarrow> workspace \<Rightarrow> workspace \<times> (bytes + bool)" where
  "write_file env name content w =
     (case rel_name name of
        Inl e \<Rightarrow> throw ''writeFile'' e w
      | Inr rel \<Rightarrow>
          if (case os_stat env rel w of Inr n \<Rightarrow> is_dir n | Inl e \<Rightarrow> False)
          then throw ''writeFile'' (rel @ '' is a directory'') w
          else
     (case authorize env ''writeFile'' rel w of
        (w, Inl e) \<Rightarrow> (w, Inl e)
      | (w, Inr u) \<Rightarrow>
          let dir = path_dir rel in
     (case (if dir \<noteq> ''.'' \<and> dir \<noteq> slash then os_mkdir_all env dir w else (w, Inr ())) of
        (w, Inl e) \<Rightarrow> throw ''writeFile'' e w
      | (w, Inr u) \<Rightarrow>
     (case os_write env rel default_mode content w of
        (w, Inl e) \<Rightarrow> throw ''writeFile'' e w
      | (w, Inr u) \<Rightarrow>
          (ws_emit ''file_write'' (''writeFile: '' @ rel @ '' ('' @ itoa (int (length content)) @ '' bytes)'') [] w,
           Inr True)))))"

text \<open>\<open>strings.Count\<close> for a non-empty text, and \<open>strings.Replace\<close> of its first occurrence.\<close>

fun count_of :: "bytes \<Rightarrow> bytes \<Rightarrow> nat" where
  "count_of old [] = 0"
| "count_of old (c # cs) =
     (if old \<noteq> [] \<and> has_prefix old (c # cs) then Suc (count_of old (drop (length old - 1) cs))
      else count_of old cs)"

definition replace_first :: "bytes \<Rightarrow> bytes \<Rightarrow> bytes \<Rightarrow> bytes" where
  "replace_first old new s =
     (case index_of old s of None \<Rightarrow> s | Some i \<Rightarrow> take i s @ new @ drop (i + length old) s)"

definition edit_file :: "workspace_env \<Rightarrow> bytes \<Rightarrow> bytes \<Rightarrow> bytes \<Rightarrow> json_object \<Rightarrow> workspace
    \<Rightarrow> workspace \<times> (bytes + nat)" where
  "edit_file env name old new opts w =
     (case rel_name name of
        Inl e \<Rightarrow> throw ''editFile'' e w
      | Inr rel \<Rightarrow>
          if old = [] then throw ''editFile'' ''the text to find must not be empty'' w
          else
     (case os_read env rel w of
        Inl e \<Rightarrow> throw ''editFile'' e w
      | Inr txt \<Rightarrow>
          let all = opt_bool opts ''all''; count = count_of old txt in
          if count = 0 then throw ''editFile'' (rel @ '' does not contain that text'') w
          else if count > 1 \<and> \<not> all
          then throw ''editFile'' (''that text appears '' @ itoa (int count) @ '' times in '' @ rel @ '' '' @ em_dash
                 @ '' include more surrounding context to identify one, or pass {all: true}'') w
          else
     (case authorize env ''editFile'' rel w of
        (w, Inl e) \<Rightarrow> (w, Inl e)
      | (w, Inr u) \<Rightarrow>
          let replaced = (if all then count else 1);
              txt = (if all then replace_all old new txt else replace_first old new txt);
              perm = (case os_stat env rel w of Inr (File m c) \<Rightarrow> m | _ \<Rightarrow> default_mode) in
     (case os_write env rel perm txt w of
        (w, Inl e) \<Rightarrow> throw ''editFile'' e w
      | (w, Inr u) \<Rightarrow>
          (ws_emit ''file_write'' (''editFile: '' @ rel @ '' ('' @ itoa (int replaced) @ '' replacement(s))'') [] w,
           Inr replaced)))))"

end
