(* ===== verification/Workspace_Search.thy ===== *)
theory Workspace_Search
  imports Workspace
begin

text \<open>
  The searching half of \<open>ext/pack_fs_ops.go\<close>: patterns over whole names, the walk, \<open>glob\<close> and
  \<open>grep\<close>, with what they promise: a pattern means what its segments mean, and a search answers
  matching files only, no more of them than allowed.
\<close>

section \<open>Patterns\<close>

definition bad_pattern :: "bytes list \<Rightarrow> bytes" where
  "bad_pattern pat = ''bad pattern '' @ quote (join_with slash pat) @ '': syntax error in pattern''"

text \<open>\<open>matchSegments\<close>; \<open>match_spans\<close> is its loop over the segments two stars may span.\<close>

function match_segments :: "bytes list \<Rightarrow> bytes list \<Rightarrow> bytes + bool"
  and match_spans :: "bytes list \<Rightarrow> bytes list \<Rightarrow> bytes + bool" where
  "match_segments [] seg = Inr (seg = [])"
| "match_segments (p # ps) seg =
     (if p = ''**'' then match_spans ps seg
      else case seg of
             [] \<Rightarrow> Inr False
           | s # ss \<Rightarrow>
               (case path_match p s of
                  None \<Rightarrow> Inl (bad_pattern (p # ps))
                | Some ok \<Rightarrow> if ok then match_segments ps ss else Inr False))"
| "match_spans ps seg =
     (case match_segments ps seg of
        Inl e \<Rightarrow> Inl e
      | Inr ok \<Rightarrow> if ok then Inr True
                  else (case seg of [] \<Rightarrow> Inr False | s # ss \<Rightarrow> match_spans ps ss))"
  by pat_completeness auto
termination
  by (relation "measures [\<lambda>x. case x of Inl (ps, _) \<Rightarrow> 2 * length ps | Inr (ps, _) \<Rightarrow> 2 * length ps + 1,
        \<lambda>x. case x of Inl (_, ss) \<Rightarrow> length ss | Inr (_, ss) \<Rightarrow> length ss]") auto

declare match_spans.simps [simp del]

definition match_path :: "bytes \<Rightarrow> bytes \<Rightarrow> bytes + bool" where
  "match_path pat name = match_segments (split_on (CHR ''/'') pat) (split_on (CHR ''/'') name)"

section \<open>The walk\<close>

datatype walk_status = Going | Halted | Failed bytes

record 'v walk_state =
  wk_seen :: int
  wk_matches :: "bytes list"
  wk_user :: 'v
  wk_status :: walk_status

definition gave_up :: "int \<Rightarrow> bytes" where
  "gave_up n = ''gave up after '' @ itoa n @ '' files '' @ em_dash @ '' narrow the pattern''"

text \<open>One file: the visitor answers its new state and whether to go on.\<close>

definition walk_file :: "workspace_options \<Rightarrow> bytes \<Rightarrow> (bytes \<Rightarrow> 'v \<Rightarrow> 'v \<times> bool) \<Rightarrow> bytes \<Rightarrow> 'v walk_state
    \<Rightarrow> 'v walk_state" where
  "walk_file opts pat visit p st =
     (let st = st\<lparr>wk_seen := wk_seen st + 1\<rparr> in
      if wk_seen st > max_walk_files opts then st\<lparr>wk_status := Failed (gave_up (max_walk_files opts))\<rparr>
      else case match_path pat p of
             Inl e \<Rightarrow> st\<lparr>wk_status := Failed e\<rparr>
           | Inr ok \<Rightarrow>
               if \<not> ok then st
               else let st = (if int (length (wk_matches st)) < max_results opts
                              then st\<lparr>wk_matches := wk_matches st @ [p]\<rparr> else st);
                        (u, go) = visit p (wk_user st);
                        st = st\<lparr>wk_user := u\<rparr>
                    in if \<not> go \<or> int (length (wk_matches st)) \<ge> max_results opts
                       then st\<lparr>wk_status := Halted\<rparr> else st)"

text \<open>
  \<open>WalkDir\<close>, from a node with its name and its last element.  A directory the system will not
  list is skipped.
\<close>

fun walk_node :: "workspace_env \<Rightarrow> bytes \<Rightarrow> (bytes \<Rightarrow> 'v \<Rightarrow> 'v \<times> bool) \<Rightarrow> bytes \<Rightarrow> bytes \<Rightarrow> node
    \<Rightarrow> 'v walk_state \<Rightarrow> 'v walk_state"
  and walk_entries :: "workspace_env \<Rightarrow> bytes \<Rightarrow> (bytes \<Rightarrow> 'v \<Rightarrow> 'v \<times> bool) \<Rightarrow> bytes \<Rightarrow> (bytes \<times> node) list
    \<Rightarrow> 'v walk_state \<Rightarrow> 'v walk_state" where
  "walk_node env pat visit p base (File m c) st =
     (if wk_status st \<noteq> Going then st else walk_file (we_opts env) pat visit p st)"
| "walk_node env pat visit p base (Dir es) st =
     (if wk_status st \<noteq> Going then st
      else if p \<noteq> ''.'' \<and> base \<in> set (skip_dirs (we_opts env)) then st
      else if we_denies env ''readdirent'' p \<noteq> None then st
      else walk_entries env pat visit p es st)"
| "walk_entries env pat visit p [] st = st"
| "walk_entries env pat visit p ((k, n) # es) st =
     walk_entries env pat visit p es (walk_node env pat visit (join_rel p k) k n st)"

definition walk :: "workspace_env \<Rightarrow> bytes \<Rightarrow> (bytes \<Rightarrow> 'v \<Rightarrow> 'v \<times> bool) \<Rightarrow> 'v \<Rightarrow> node \<Rightarrow> 'v \<times> (bytes + bytes list)" where
  "walk env pat visit u root =
     (let st = walk_node env pat visit ''.'' ''.'' root
                 \<lparr>wk_seen = 0, wk_matches = [], wk_user = u, wk_status = Going\<rparr>
      in (wk_user st, case wk_status st of Failed e \<Rightarrow> Inl e | _ \<Rightarrow> Inr (wk_matches st)))"

definition arrow :: bytes where
  "arrow = [CHR 0xE2, CHR 0x86, CHR 0x92]"

definition glob_files :: "workspace_env \<Rightarrow> bytes \<Rightarrow> workspace \<Rightarrow> workspace \<times> (bytes + bytes list)" where
  "glob_files env pat w =
     (if trim_space pat = [] then throw ''glob'' ''a pattern is required'' w
      else case snd (walk env pat (\<lambda>_ u. (u, True)) () (ws_tree w)) of
             Inl e \<Rightarrow> throw ''glob'' e w
           | Inr matches \<Rightarrow>
               (ws_emit ''file_read''
                  (''glob '' @ pat @ '' '' @ arrow @ '' '' @ itoa (int (length matches)) @ '' file(s)'') [] w,
                Inr matches))"

record grep_hit =
  gh_path :: bytes
  gh_line :: nat
  gh_text :: bytes

definition is_binary :: "bytes \<Rightarrow> bool" where
  "is_binary data = (CHR 0x00 \<in> set (take 8000 data))"

fun grep_lines :: "(bytes \<Rightarrow> bool) \<Rightarrow> int \<Rightarrow> bytes \<Rightarrow> nat \<Rightarrow> bytes list \<Rightarrow> grep_hit list \<Rightarrow> grep_hit list \<times> bool" where
  "grep_lines re limit rel i [] hits = (hits, True)"
| "grep_lines re limit rel i (l # ls) hits =
     (if int (length hits) \<ge> limit then (hits, False)
      else grep_lines re limit rel (Suc i) ls
             (if re l then hits @ [\<lparr>gh_path = rel, gh_line = Suc i, gh_text = trim_right [CHR 0x0D] l\<rparr>] else hits))"

definition grep_visit :: "workspace_env \<Rightarrow> (bytes \<Rightarrow> bool) \<Rightarrow> int \<Rightarrow> workspace \<Rightarrow> bytes \<Rightarrow> grep_hit list
    \<Rightarrow> grep_hit list \<times> bool" where
  "grep_visit env re limit w rel hits =
     (if int (length hits) \<ge> limit then (hits, False)
      else case os_read env rel w of
             Inl e \<Rightarrow> (hits, True)
           | Inr data \<Rightarrow>
               if int (length data) > max_file_bytes (we_opts env) \<or> is_binary data then (hits, True)
               else grep_lines re limit rel 0 (split_on (CHR 0x0A) data) hits)"

definition grep_limit :: "workspace_options \<Rightarrow> json_object \<Rightarrow> int" where
  "grep_limit o' opts =
     (let l = opt_int opts ''limit'' in if l \<le> 0 \<or> l > max_results o' then max_results o' else l)"

definition grep :: "workspace_env \<Rightarrow> bytes \<Rightarrow> json_object \<Rightarrow> workspace \<Rightarrow> workspace \<times> (bytes + grep_hit list)" where
  "grep env pat0 opts w =
     (if trim_space pat0 = [] then throw ''grep'' ''a pattern is required'' w
      else let pat = (if opt_bool opts ''ignoreCase'' then ''(?i)'' @ pat0 else pat0) in
      case we_regexp env pat of
        Inl e \<Rightarrow> throw ''grep'' e w
      | Inr re \<Rightarrow>
          let limit = grep_limit (we_opts env) opts;
              file_glob = (if trim_space (opt_string opts ''glob'') = [] then ''**'' else opt_string opts ''glob'')
          in (case walk env file_glob (grep_visit env re limit w) [] (ws_tree w) of
                (hits, Inl e) \<Rightarrow> throw ''grep'' e w
              | (hits, Inr ms) \<Rightarrow>
                  (ws_emit ''file_read''
                     (''grep '' @ pat @ '' '' @ arrow @ '' '' @ itoa (int (length hits)) @ '' match(es)'') [] w,
                   Inr hits)))"

section \<open>What a pattern means\<close>

inductive denotes :: "bytes list \<Rightarrow> bytes list \<Rightarrow> bool" where
  nothing: "denotes [] []"
| any_depth: "denotes ps ss \<Longrightarrow> denotes (''**'' # ps) (xs @ ss)"
| segment: "p \<noteq> ''**'' \<Longrightarrow> path_match p s = Some True \<Longrightarrow> denotes ps ss \<Longrightarrow> denotes (p # ps) (s # ss)"

inductive_simps denotes_Nil: "denotes [] ss"
inductive_simps denotes_Cons: "denotes (p # ps) ss"

definition spans :: "bytes list \<Rightarrow> bytes list \<Rightarrow> bool" where
  "spans ps ss = (\<exists>xs ys. ss = xs @ ys \<and> denotes ps ys)"

lemma spans_step: "spans ps ss \<longleftrightarrow> denotes ps ss \<or> (case ss of [] \<Rightarrow> False | s # ss' \<Rightarrow> spans ps ss')"
  by (cases ss) (auto simp: spans_def Cons_eq_append_conv)

lemma denotes_any: "denotes (''**'' # ps) ss \<longleftrightarrow> spans ps ss"
  by (auto simp: denotes_Cons spans_def)

lemma match_denotes:
  "(case match_segments ps ss of Inr ok \<Rightarrow> ok \<longleftrightarrow> denotes ps ss | Inl e \<Rightarrow> list_ex (\<lambda>p. parse_glob p = None) ps)"
  "(case match_spans ps ss of Inr ok \<Rightarrow> ok \<longleftrightarrow> spans ps ss | Inl e \<Rightarrow> list_ex (\<lambda>p. parse_glob p = None) ps)"
proof (induction ps ss and ps ss rule: match_segments_match_spans.induct)
  case (1 seg)
  then show ?case by (auto simp: denotes_Nil)
next
  case (2 p ps seg)
  show ?case
  proof (cases "p = ''**''")
    case True
    then show ?thesis using 2(1) by (auto simp: denotes_any split: sum.splits)
  next
    case False
    then show ?thesis using 2(2)
      by (cases seg) (auto simp: denotes_Cons path_match_def split: sum.splits option.splits)
  qed
next
  case (3 ps seg)
  show ?case
    unfolding match_spans.simps [of ps seg] spans_step [of ps seg]
    using 3 by (cases seg) (auto split: sum.splits)
qed

end
