(* ===== verification/Workspace_Properties.thy ===== *)
theory Workspace_Properties
  imports Workspace_Search
begin

text \<open>
  What the workspace promises: names stay inside the project, nothing changes without leave,
  a write or an edit changes one file and nothing else, and what was written is what is read.
\<close>

section \<open>Confinement\<close>

lemma clean_step_shape:
  assumes "rev kept = replicate k ''..'' @ es" and "list_all (\<lambda>e. e \<notin> {[], ''.'', ''..''}) es"
  shows "\<exists>k' es'. rev (clean_step False kept e) = replicate k' ''..'' @ es'
    \<and> list_all (\<lambda>e. e \<notin> {[], ''.'', ''..''}) es'"
proof -
  consider "e = [] \<or> e = ''.''" | "e \<noteq> []" "e \<noteq> ''.''" "e \<noteq> ''..''" | "e = ''..''" by blast
  then show ?thesis
  proof cases
    case 1
    then have "clean_step False kept e = kept" by (auto simp: clean_step_def)
    then show ?thesis using assms by auto
  next
    case 2
    then have "rev (clean_step False kept e) = replicate k ''..'' @ (es @ [e])"
      using assms(1) by (simp add: clean_step_def)
    then show ?thesis using 2 assms(2)
      by (intro exI [of _ k] exI [of _ "es @ [e]"]) simp
  next
    case 3
    show ?thesis
    proof (cases es rule: rev_cases)
      case Nil
      then have kept: "kept = replicate k ''..''" using assms(1) by (metis append_Nil2 rev_replicate rev_swap)
      then have "clean_step False kept e = ''..'' # kept"
        using 3 by (cases k) (simp_all add: clean_step_def)
      then have "rev (clean_step False kept e) = replicate (Suc k) ''..'' @ []"
        using assms(1) Nil by (simp add: replicate_append_same)
      then show ?thesis by (metis list.pred_inject(1))
    next
      case (snoc fs f)
      then have "kept = f # rev (replicate k ''..'' @ fs)"
        using assms(1) by (metis append.assoc rev_append rev_rev_ident rev_singleton_conv append_Cons append_Nil)
      then have "rev (clean_step False kept e) = replicate k ''..'' @ fs"
        using 3 assms(2) snoc by (auto simp: clean_step_def)
      then show ?thesis using assms(2) snoc by (metis list_all_append)
    qed
  qed
qed

lemma clean_elements_shape:
  "\<exists>k es. clean_elements False p = replicate k ''..'' @ es \<and> list_all (\<lambda>e. e \<notin> {[], ''.'', ''..''}) es"
proof -
  have "\<exists>k' es'. rev (foldl (clean_step False) kept xs) = replicate k' ''..'' @ es'
      \<and> list_all (\<lambda>e. e \<notin> {[], ''.'', ''..''}) es'"
    if "\<exists>k es. rev kept = replicate k ''..'' @ es \<and> list_all (\<lambda>e. e \<notin> {[], ''.'', ''..''}) es" for kept xs
    using that
  proof (induction xs arbitrary: kept)
    case (Cons x xs)
    then obtain k es where "rev kept = replicate k ''..'' @ es" "list_all (\<lambda>e. e \<notin> {[], ''.'', ''..''}) es" by blast
    from Cons.IH [OF clean_step_shape [OF this]] show ?case by simp
  qed simp
  from this [of "[]"] show ?thesis unfolding clean_elements_def by (metis append_Nil list.pred_inject(1) replicate_0 rev.simps(1))
qed

lemma clean_step_no_slash:
  "list_all (\<lambda>x. c \<notin> set x) kept \<Longrightarrow> c \<notin> set e \<Longrightarrow> list_all (\<lambda>x. c \<notin> set x) (clean_step rooted kept e)"
  by (auto simp: clean_step_def split: list.split)

lemma clean_elements_no_slash: "list_all (\<lambda>x. CHR ''/'' \<notin> set x) (clean_elements rooted p)"
proof -
  have "list_all (\<lambda>x. c \<notin> set x) (foldl (clean_step rooted) kept xs)"
    if "list_all (\<lambda>x. c \<notin> set x) kept" "list_all (\<lambda>x. c \<notin> set x) xs" for c kept xs
    using that by (induction xs arbitrary: kept) (auto simp: clean_step_no_slash)
  moreover have "list_all (\<lambda>x. CHR ''/'' \<notin> set x) (split_on (CHR ''/'') p)"
    using split_on_absent_parts by (auto simp: list_all_iff)
  ultimately show ?thesis unfolding clean_elements_def by simp
qed

text \<open>A relative name that does not start with two dots after cleaning, as its elements.\<close>

lemma clean_relative:
  assumes "\<not> has_prefix slash p" and "path_clean p \<noteq> ''..''" and "\<not> has_prefix ''../'' (path_clean p)"
  shows "segments (path_clean p) = clean_elements False p"
    and "list_all (\<lambda>e. e \<notin> {[], ''.'', ''..''}) (clean_elements False p)"
proof -
  let ?es = "clean_elements False p"
  obtain k es where es: "?es = replicate k ''..'' @ es" and ok: "list_all (\<lambda>e. e \<notin> {[], ''.'', ''..''}) es"
    using clean_elements_shape by blast
  have clean: "path_clean p = (if ?es = [] then ''.'' else join_with slash ?es)"
    using assms(1) by (simp add: path_clean_def Let_def)
  have "k = 0"
  proof (rule ccontr)
    assume "k \<noteq> 0"
    then obtain j where "?es = ''..'' # replicate j ''..'' @ es" using es by (cases k) auto
    then show False using assms(2,3) clean
      by (cases "replicate j ''..'' @ es") (auto simp: slash_def)
  qed
  then show safe: "list_all (\<lambda>e. e \<notin> {[], ''.'', ''..''}) ?es" using es ok by simp
  show "segments (path_clean p) = ?es"
  proof (cases "?es = []")
    case False
    have "split_on (CHR ''/'') (join_with [CHR ''/''] ?es) = ?es"
      using split_join [OF False] clean_elements_no_slash [of False p] by (simp add: list_all_iff)
    moreover have "join_with slash ?es \<noteq> ''.''"
    proof
      assume "join_with slash ?es = ''.''"
      then have "?es = [''.'']"
        using split_on_whole [of "CHR ''/''" "''.''"] \<open>split_on _ _ = _\<close> by (simp add: slash_def)
      then show False using safe by simp
    qed
    ultimately show ?thesis using False clean by (simp add: segments_def slash_def)
  qed (simp add: clean segments_def)
qed

lemma to_slash_absolute: "\<not> has_prefix slash p \<Longrightarrow> \<not> has_prefix backslash p \<Longrightarrow> p \<noteq> [] \<Longrightarrow> \<not> has_prefix slash (to_slash p)"
  by (cases p) (auto simp: to_slash_def slash_def backslash_def)

lemma has_prefix_up: "has_prefix ''../'' ''..'' = False"
  by simp

text \<open>A name whose elements are neither empty, nor a dot, nor two dots.\<close>

definition confined :: "bytes \<Rightarrow> bool" where
  "confined rel = list_all (\<lambda>s. s \<notin> {[], ''.'', ''..''} \<and> CHR ''/'' \<notin> set s) (segments rel)"

lemma clean_confined:
  "\<not> has_prefix slash p \<Longrightarrow> path_clean p \<noteq> ''..'' \<Longrightarrow> \<not> has_prefix ''../'' (path_clean p) \<Longrightarrow> confined (path_clean p)"
  using clean_relative [of p] clean_elements_no_slash [of False p] by (simp add: confined_def list_all_iff)

lemma rel_name_confined: "rel_name name = Inr rel \<Longrightarrow> confined rel"
proof -
  let ?p = "trim_space name" and ?q = "to_slash (trim_space name)"
  assume rel: "rel_name name = Inr rel"
  show ?thesis
  proof (cases "?p = []")
    case True
    then show ?thesis using rel by (simp add: rel_name_def Let_def segments_def confined_def)
  next
    case False
    then have "\<not> has_prefix slash ?q" "rel = path_clean ?q" "path_clean ?q \<noteq> ''..''"
        "\<not> has_prefix ''../'' (path_clean ?q)"
      using rel to_slash_absolute [of ?p] by (auto simp: rel_name_def Let_def split: if_splits)
    then show ?thesis using clean_confined by simp
  qed
qed

lemma split_on_append: "split_on c (x @ c # r) = split_on c x @ split_on c r"
  by (induction x) (use split_on_nonempty in \<open>auto simp: split_on_Cons\<close>)

lemma last_char_index_Some:
  assumes "last_char_index c s = Some i"
  obtains x r where "s = x @ c # r" "take (Suc i) s = x @ [c]"
proof -
  have "c \<in> set s" using assms last_char_index_absent by fastforce
  then obtain x r where "s = x @ c # r" "c \<notin> set r" by (meson split_list_last)
  then show thesis using that assms last_char_index_append by fastforce
qed

lemma clean_elements_in_segments:
  assumes "list_all (\<lambda>e. e \<notin> {''.'', ''..''}) (split_on (CHR ''/'') q)"
  shows "clean_elements False q = filter (\<lambda>e. e \<noteq> []) (split_on (CHR ''/'') q)"
proof -
  have "list_all (\<lambda>e. e \<notin> {''.'', ''..''}) xs \<Longrightarrow>
      foldl (clean_step False) kept xs = rev (filter (\<lambda>e. e \<noteq> []) xs) @ kept" for xs kept
    by (induction xs arbitrary: kept) (auto simp: clean_step_def)
  from this [OF assms] show ?thesis by (simp add: clean_elements_def)
qed

text \<open>The directory of such a name is one of them again.\<close>

lemma path_dir_confined:
  assumes rel: "confined rel"
  shows "confined (path_dir rel)"
proof (cases "last_char_index (CHR ''/'') rel")
  case None
  then show ?thesis by (simp add: path_dir_def confined_def segments_def)
next
  case (Some i)
  then obtain x r where x: "rel = x @ CHR ''/'' # r" "take (Suc i) rel = x @ [CHR ''/'']"
    by (rule last_char_index_Some)
  let ?q = "x @ [CHR ''/'']"
  have "rel \<noteq> ''.''" using x(1) by (cases x) auto
  then have segs: "segments rel = split_on (CHR ''/'') x @ split_on (CHR ''/'') r"
    using x(1) by (simp add: segments_def split_on_append)
  then have ok: "list_all (\<lambda>e. e \<notin> {[], ''.'', ''..''} \<and> CHR ''/'' \<notin> set e) (split_on (CHR ''/'') x)"
    using rel by (simp add: confined_def)
  have plain: "clean_elements False ?q = split_on (CHR ''/'') x"
    using clean_elements_in_segments [of ?q] ok by (simp add: split_on_trailing list_all_iff)
  have rooted: "\<not> has_prefix slash ?q"
    using ok by (cases x) (auto simp: slash_def split_on_Cons)
  have clean: "path_clean ?q = join_with slash (split_on (CHR ''/'') x)"
    using plain rooted split_on_nonempty by (simp add: path_clean_def Let_def)
  then have "path_clean ?q = x" using join_split by (simp add: slash_def)
  then have "path_clean ?q \<noteq> ''..'' \<and> \<not> has_prefix ''../'' (path_clean ?q)"
    using ok by (auto simp: has_prefix_iff split_on_Cons)
  then show ?thesis using clean_confined [OF rooted] Some x(2) by (simp add: path_dir_def)
qed

text \<open>
  The system as it would be if it knew nothing of any other name: asked about one, it refuses.
  What a primitive does the same on it, it does without asking about any other name.
\<close>

definition inside_only :: "workspace_env \<Rightarrow> workspace_env" where
  "inside_only env = env
     \<lparr>we_denies := \<lambda>op rel. if confined rel then we_denies env op rel else Some ''outside the project'',
      we_breaks := \<lambda>op rel. if confined rel then we_breaks env op rel else None\<rparr>"

lemma inside_only_simps [simp]:
  "we_opts (inside_only env) = we_opts env" "we_policy (inside_only env) = we_policy env"
  "we_approver (inside_only env) = we_approver env" "we_mode (inside_only env) = we_mode env"
  "we_dir_size (inside_only env) = we_dir_size env"
  "confined rel \<Longrightarrow> we_denies (inside_only env) op rel = we_denies env op rel"
  "confined rel \<Longrightarrow> we_breaks (inside_only env) op rel = we_breaks env op rel"
  by (simp_all add: inside_only_def)

lemmas deep_congs = option.case_cong sum.case_cong prod.case_cong node.case_cong list.case_cong if_cong

lemma authorize_inside_only [simp]: "authorize (inside_only env) tool rel w = authorize env tool rel w"
  by (simp add: authorize_def cong: deep_congs)

lemma list_entries_inside_only [simp]: "list_entries (inside_only env) rel xs out = list_entries env rel xs out"
  by (induction xs arbitrary: out) (simp_all add: entry_of_def cong: deep_congs)

lemma os_inside_only:
  assumes "confined rel"
  shows "os_stat (inside_only env) rel w = os_stat env rel w" "os_read (inside_only env) rel w = os_read env rel w"
    "os_read_dir (inside_only env) rel w = os_read_dir env rel w"
    "os_mkdir_all (inside_only env) rel w = os_mkdir_all env rel w"
    "os_write (inside_only env) rel perm c w = os_write env rel perm c w"
  using assms by (simp_all add: os_stat_def os_read_def os_read_dir_def os_mkdir_all_def os_write_def os_result_def Let_def
      cong: deep_congs)

text \<open>
  C22 However a script spells a name, reading, listing, writing and editing either refuse it,
  throwing before anything is read, changed, asked or reported, or use one inside the project, whose
  elements are never empty, a dot or two dots and contain no slash.  And no other name ever reaches
  the system, not even on the way: each of the four primitives does exactly what it would do on a
  system that refuses every name that leads out.
\<close>

theorem names_confined:
  "(case rel_name name of
      Inl e \<Rightarrow> read_file env name opts w = (w, Inl (''readFile: '' @ e))
        \<and> list_dir env name w = (w, Inl (''listDir: '' @ e))
        \<and> write_file env name content w = (w, Inl (''writeFile: '' @ e))
        \<and> edit_file env name old new opts w = (w, Inl (''editFile: '' @ e))
    | Inr rel \<Rightarrow> list_all (\<lambda>s. s \<notin> {[], ''.'', ''..''} \<and> CHR ''/'' \<notin> set s) (segments rel))
   \<and> read_file (inside_only env) name opts w = read_file env name opts w
   \<and> list_dir (inside_only env) name w = list_dir env name w
   \<and> write_file (inside_only env) name content w = write_file env name content w
   \<and> edit_file (inside_only env) name old new opts w = edit_file env name old new opts w"
proof (cases "rel_name name")
  case (Inl e)
  then show ?thesis by (simp add: read_file_def list_dir_def write_file_def edit_file_def throw_def)
next
  case (Inr rel)
  note rel = rel_name_confined [OF Inr]
  note os = os_inside_only [OF rel] os_inside_only [OF path_dir_confined [OF rel]]
  show ?thesis using Inr rel by (simp add: read_file_def list_dir_def write_file_def edit_file_def os Let_def
        cong: deep_congs) (simp add: confined_def)
qed

section \<open>Leave to change\<close>

text \<open>Whether a change may happen: the policy allows it, or the user asked about it says yes.\<close>

definition permitted :: "workspace_env \<Rightarrow> bytes \<Rightarrow> bytes \<Rightarrow> workspace \<Rightarrow> bool" where
  "permitted env tool rel w =
     (case check_policy (we_policy env) tool [(''path'', JStr rel)] of
        Inl e \<Rightarrow> False
      | Inr res \<Rightarrow> allowed res \<or>
          (case we_approver env of
             None \<Rightarrow> False
           | Some ask \<Rightarrow> ask (ws_asked w) (question_for rel) = Inr (Some (JBool True))))"

lemma ws_emit_tree [simp]: "ws_tree (ws_emit k s d w) = ws_tree w" "ws_asked (ws_emit k s d w) = ws_asked w"
  by (simp_all add: ws_emit_def)

lemma throw_simps [simp]: "throw tool msg w = (w, Inl (tool @ '': '' @ msg))"
  by (simp add: throw_def)

lemma authorize_spec:
  "ws_tree (fst (authorize env tool rel w)) = ws_tree w"
  "snd (authorize env tool rel w) = Inr () \<longleftrightarrow> permitted env tool rel w"
  by (auto simp: authorize_def permitted_def Let_def split: sum.splits option.splits)

lemma os_stat_tree: "ws_tree w' = ws_tree w \<Longrightarrow> os_stat env rel w' = os_stat env rel w"
  by (simp add: os_stat_def)

lemma os_read_tree: "ws_tree w' = ws_tree w \<Longrightarrow> os_read env rel w' = os_read env rel w"
  by (simp add: os_read_def)

lemma os_write_spec:
  "os_write env rel perm c w = (w', r) \<Longrightarrow>
     w' = w \<and> isl r
     \<or> (\<exists>t. w' = w\<lparr>ws_tree := t\<rparr> \<and>
          (case we_breaks env ''write'' rel of
             None \<Rightarrow> r = Inr () \<and> write_node (segments rel) (we_mode env perm) c (ws_tree w) = Inr t
           | Some (n, e) \<Rightarrow> r = Inl e \<and> write_node (segments rel) (we_mode env perm) (take n c) (ws_tree w) = Inr t))"
  by (auto simp: os_write_def Let_def split: option.splits sum.splits)

lemma os_mkdir_files:
  "os_mkdir_all env rel w = (w', r) \<Longrightarrow> file_at us (ws_tree w') = file_at us (ws_tree w)"
  by (auto simp: os_mkdir_all_def os_result_def mkdir_keeps_files split: option.splits sum.splits)

lemma os_read_file: "os_read env rel w = Inr c \<Longrightarrow> \<exists>m. file_at (segments rel) (ws_tree w) = Some (m, c)"
  by (auto simp: os_read_def os_result_def file_at_def split: option.splits sum.splits node.splits)

text \<open>
  What a write does to the files: the named one has the content, in its mode or that of a new file,
  and no other changes.
\<close>

definition changes_only :: "nat \<Rightarrow> bytes list \<Rightarrow> bytes \<Rightarrow> node \<Rightarrow> node \<Rightarrow> bool" where
  "changes_only mode ss content t t' \<longleftrightarrow>
     (\<exists>m. file_at ss t' = Some (m, content) \<and> (case file_at ss t of None \<Rightarrow> m = mode | Some (m', _) \<Rightarrow> m = m'))
     \<and> (\<forall>us. us = ss \<or> file_at us t' = file_at us t)"

text \<open>
  What a write that failed may leave: the files as they were, or, when the system broke it off
  after some bytes, those bytes of the new content in the named file.
\<close>

definition cut_short :: "workspace_env \<Rightarrow> bytes \<Rightarrow> bytes \<Rightarrow> node \<Rightarrow> node \<Rightarrow> bool" where
  "cut_short env rel content t t' \<longleftrightarrow>
     (\<forall>us. file_at us t' = file_at us t)
     \<or> (\<exists>n e. we_breaks env ''write'' rel = Some (n, e)
          \<and> changes_only (we_mode env default_mode) (segments rel) (take n content) t t')"

lemma write_changes_only:
  "write_node ss mode c t = Inr t' \<Longrightarrow> changes_only mode ss c t t'"
  using write_then_read [of ss mode c t t'] write_elsewhere [of ss mode c t t']
  by (auto simp: changes_only_def split: option.splits)

lemma changes_only_cong:
  "(\<And>us. file_at us s = file_at us t) \<Longrightarrow> changes_only mode ss c s t' = changes_only mode ss c t t'"
  by (simp add: changes_only_def)

lemma write_file_spec:
  assumes Inr: "rel_name name = Inr rel" and run: "write_file env name content w = (w', r)"
  shows "permitted env ''writeFile'' rel w \<or> ws_tree w' = ws_tree w \<and> isl r"
    and "if r = Inr True then changes_only (we_mode env default_mode) (segments rel) content (ws_tree w) (ws_tree w')
         else isl r \<and> cut_short env rel content (ws_tree w) (ws_tree w')"
proof -
  let ?mode = "we_mode env default_mode"
  have "(permitted env ''writeFile'' rel w \<or> ws_tree w' = ws_tree w \<and> isl r) \<and>
    (if r = Inr True then changes_only ?mode (segments rel) content (ws_tree w) (ws_tree w')
     else isl r \<and> cut_short env rel content (ws_tree w) (ws_tree w'))"
  proof -
    obtain w1 a where a: "authorize env ''writeFile'' rel w = (w1, a)" by fastforce
    note auth = authorize_spec [of env "''writeFile''" rel w, unfolded a fst_conv snd_conv]
    show ?thesis
    proof (cases "(case os_stat env rel w of Inr n \<Rightarrow> is_dir n | Inl e \<Rightarrow> False) \<or> isl a")
      case True
      then show ?thesis using Inr run auth
        by (auto simp: write_file_def a cut_short_def split: sum.splits if_splits)
    next
      case False
      let ?d = "path_dir rel"
      let ?mk = "if ?d \<noteq> ''.'' \<and> ?d \<noteq> slash then os_mkdir_all env ?d w1 else (w1, Inr ())"
      from False have ok: "a = Inr ()" "permitted env ''writeFile'' rel w" using auth by (cases a; simp)+
      obtain w2 mk where mk: "?mk = (w2, mk)" by fastforce
      then have made: "file_at us (ws_tree w2) = file_at us (ws_tree w)" for us
        using auth(1) os_mkdir_files [of env ?d w1 w2 mk us] by (auto split: if_splits)
      obtain w3 wr where wr: "os_write env rel default_mode content w2 = (w3, wr)" by fastforce
      have wrote: "if wr = Inr () then changes_only ?mode (segments rel) content (ws_tree w) (ws_tree w3)
          else cut_short env rel content (ws_tree w) (ws_tree w3)"
      proof -
        have there: "changes_only m ss c (ws_tree w) t" if "write_node ss m c (ws_tree w2) = Inr t" for m ss c t
          using write_changes_only [OF that] changes_only_cong [OF made] by simp
        show ?thesis
          using os_write_spec [OF wr] made
          by (auto simp: cut_short_def dest: there split: option.splits)
      qed
      show ?thesis
      proof (cases mk)
        case (Inl e)
        then show ?thesis using Inr run False ok mk made
          by (auto simp: write_file_def a Let_def cut_short_def split: sum.splits if_splits)
      next
        case made: (Inr u)
        then show ?thesis using Inr run False ok mk wr wrote
          by (cases wr) (auto simp: write_file_def a Let_def split: sum.splits if_splits)
      qed
    qed
  qed
  then show "permitted env ''writeFile'' rel w \<or> ws_tree w' = ws_tree w \<and> isl r"
    and "if r = Inr True then changes_only ?mode (segments rel) content (ws_tree w) (ws_tree w')
         else isl r \<and> cut_short env rel content (ws_tree w) (ws_tree w')" by blast+
qed

section \<open>Edits\<close>

lemma count_of_0: "old \<noteq> [] \<Longrightarrow> count_of old s = 0 \<longleftrightarrow> \<not> contains old s"
  by (induction old s rule: count_of.induct) (auto simp: contains_def)

lemma count_of_1:
  "old \<noteq> [] \<Longrightarrow> count_of old s = Suc 0 \<Longrightarrow>
     \<exists>a b. s = a @ old @ b \<and> \<not> contains old b \<and> replace_first old new s = a @ new @ b"
proof (induction s)
  case (Cons c cs)
  show ?case
  proof (cases "has_prefix old (c # cs)")
    case True
    then obtain b where b: "c # cs = old @ b" by (auto simp: has_prefix_iff)
    then have "drop (length old - 1) cs = b" using Cons.prems(1)
      by (metis append_eq_conv_conj drop_Suc_Cons drop_Cons' length_0_conv)
    then have "\<not> contains old b" using Cons.prems True by (simp add: count_of_0)
    moreover have "index_of old (old @ b) = Some 0" using True b by (metis index_of.simps(2))
    then have "replace_first old new (c # cs) = new @ b" by (simp add: replace_first_def b)
    ultimately show ?thesis using b by (intro exI [of _ "[]"] exI [of _ b]) simp
  next
    case False
    then have "count_of old cs = Suc 0" using Cons.prems by simp
    from Cons.IH [OF Cons.prems(1) this] obtain a b where ab:
        "cs = a @ old @ b" "\<not> contains old b" "replace_first old new cs = a @ new @ b" by blast
    moreover have "index_of old cs \<noteq> None" using ab(1) by (metis index_of_None)
    ultimately have "replace_first old new (c # cs) = c # a @ new @ b"
      using False by (auto simp: replace_first_def)
    then show ?thesis using ab by (intro exI [of _ "c # a"] exI [of _ b]) simp
  qed
qed simp

text \<open>The text an edit writes.\<close>

definition edited :: "json_object \<Rightarrow> bytes \<Rightarrow> bytes \<Rightarrow> bytes \<Rightarrow> bytes" where
  "edited opts old new txt =
     (if opt_bool opts ''all'' then replace_all old new txt else replace_first old new txt)"

lemma edit_file_spec:
  assumes Inr: "rel_name name = Inr rel" and run: "edit_file env name old new opts w = (w', r)"
  shows "ws_tree w' = ws_tree w \<and> isl r
    \<or> permitted env ''editFile'' rel w \<and> (\<exists>old_text. os_read env rel w = Inr old_text \<and> old \<noteq> []
        \<and> count_of old old_text \<noteq> 0 \<and> (opt_bool opts ''all'' \<or> count_of old old_text = 1)
        \<and> (\<exists>perm. case we_breaks env ''write'' rel of
              None \<Rightarrow> r = Inr (if opt_bool opts ''all'' then count_of old old_text else 1)
                \<and> write_node (segments rel) perm (edited opts old new old_text) (ws_tree w) = Inr (ws_tree w')
            | Some (k, e) \<Rightarrow> isl r
                \<and> write_node (segments rel) perm (take k (edited opts old new old_text)) (ws_tree w) = Inr (ws_tree w')))"
proof -
  obtain w1 a where a: "authorize env ''editFile'' rel w = (w1, a)" by fastforce
  note auth = authorize_spec [of env "''editFile''" rel w, unfolded a fst_conv snd_conv]
  show ?thesis
  proof (cases "os_read env rel w")
    case (Inl e)
    then show ?thesis using Inr run by (auto simp: edit_file_def split: if_splits)
  next
    case old_text: (Inr old_text)
    let ?all = "opt_bool opts ''all''" and ?n = "count_of old old_text"
    let ?perm = "case os_stat env rel w1 of Inr (File m c) \<Rightarrow> m | _ \<Rightarrow> default_mode"
    show ?thesis
    proof (cases "old = [] \<or> ?n = 0 \<or> (1 < ?n \<and> \<not> ?all) \<or> isl a")
      case True
      then show ?thesis using Inr run old_text auth
        by (auto simp: edit_file_def a Let_def split: sum.splits if_splits)
    next
      case False
      then have a_ok: "a = Inr ()" by (cases a) simp_all
      then have leave: "permitted env ''editFile'' rel w" using auth by simp
      from False have "old \<noteq> []" "?n \<noteq> 0" "?all \<or> ?n = 1" by auto
      note ok = a_ok leave this
      obtain w2 wr where wr: "os_write env rel ?perm (edited opts old new old_text) w1 = (w2, wr)" by fastforce
      have step: "edit_file env name old new opts w =
          (case os_write env rel ?perm (edited opts old new old_text) w1 of
             (w2, Inl e) \<Rightarrow> (w2, Inl (''editFile: '' @ e))
           | (w2, Inr u) \<Rightarrow>
               (ws_emit ''file_write'' (''editFile: '' @ rel @ '' ('' @ itoa (int (if ?all then ?n else 1)) @ '' replacement(s))'') [] w2,
                Inr (if ?all then ?n else 1)))"
      proof (cases ?all)
        case True
        then show ?thesis using Inr old_text ok(3,4) a ok(1) by (simp add: edit_file_def edited_def Let_def split: prod.split sum.split)
      next
        case one: False
        then have "?n = 1" using ok(5) by simp
        then show ?thesis using one Inr old_text ok(3) a ok(1) by (simp add: edit_file_def edited_def Let_def split: prod.split sum.split)
      qed
      have res: "w' = (if wr = Inr () then ws_emit ''file_write'' (''editFile: '' @ rel @ '' ('' @ itoa (int (if ?all then ?n else 1)) @ '' replacement(s))'') [] w2 else w2)"
          "(r = Inr (if ?all then ?n else 1) \<and> wr = Inr ()) \<or> (isl r \<and> isl wr)"
        using run unfolding step wr by (simp_all split: sum.splits) (auto simp: isl_def)
      have tree: "ws_tree w' = ws_tree w2" using res by simp
      from os_write_spec [OF wr] show ?thesis
      proof (elim disjE conjE exE)
        assume "w2 = w1" "isl wr"
        then show ?thesis using tree auth(1) res(2) by auto
      next
        fix t
        assume t: "w2 = w1\<lparr>ws_tree := t\<rparr>" and "case we_breaks env ''write'' rel of
             None \<Rightarrow> wr = Inr () \<and> write_node (segments rel) (we_mode env ?perm) (edited opts old new old_text) (ws_tree w1) = Inr t
           | Some (n, e) \<Rightarrow> wr = Inl e \<and> write_node (segments rel) (we_mode env ?perm) (take n (edited opts old new old_text)) (ws_tree w1) = Inr t"
        then have "case we_breaks env ''write'' rel of
              None \<Rightarrow> r = Inr (if ?all then ?n else 1)
                \<and> write_node (segments rel) (we_mode env ?perm) (edited opts old new old_text) (ws_tree w) = Inr (ws_tree w')
            | Some (k, e) \<Rightarrow> isl r
                \<and> write_node (segments rel) (we_mode env ?perm) (take k (edited opts old new old_text)) (ws_tree w) = Inr (ws_tree w')"
          using auth(1) tree res(2) by (auto split: option.splits)
        then show ?thesis using old_text ok by blast
      qed
    qed
  qed
qed

text \<open>
  C23 A file is written or edited only with leave, of the policy or of the user asked about that
  very name; without it not even a directory is made.  A write that succeeds leaves the given
  content in the named file, in the mode it had or that of a new file, and every other file as it
  was.  A write that fails changes no file either, unless the system broke it off partway, as Go
  documents for \<open>WriteFile\<close>: then the named file, and no other, holds the first bytes of the content.
\<close>

theorem write_needs_leave:
  "case rel_name name of
     Inl e \<Rightarrow> write_file env name content w = (w, Inl (''writeFile: '' @ e))
       \<and> edit_file env name old new opts w = (w, Inl (''editFile: '' @ e))
   | Inr rel \<Rightarrow>
       (case write_file env name content w of (w', r) \<Rightarrow>
          (if permitted env ''writeFile'' rel w then True else ws_tree w' = ws_tree w \<and> isl r)
          \<and> (if r = Inr True
             then changes_only (we_mode env default_mode) (segments rel) content (ws_tree w) (ws_tree w')
             else isl r \<and> cut_short env rel content (ws_tree w) (ws_tree w')))
       \<and> (case edit_file env name old new opts w of (w', r) \<Rightarrow>
          if permitted env ''editFile'' rel w then True else ws_tree w' = ws_tree w \<and> isl r)"
proof (cases "rel_name name")
  case (Inr rel)
  obtain w1 r1 w2 r2 where run: "write_file env name content w = (w1, r1)" "edit_file env name old new opts w = (w2, r2)"
    by fastforce
  from write_file_spec [OF Inr run(1)] edit_file_spec [OF Inr run(2)] show ?thesis using Inr run by auto
qed (simp add: write_file_def edit_file_def)

text \<open>
  C24 An edit that succeeds had leave, found the text, and changed that one file in place, its
  mode kept: with \<open>all\<close>, every occurrence; otherwise the text stood there once, nowhere after
  that place again, and what was before and after it is untouched.  It answers how many it
  replaced.  An edit that fails changes nothing at all, unless it had leave, found the text and
  the system broke off the write partway: then that one file is left with the first bytes of the
  edited text, its mode kept.
\<close>

theorem edit_is_exact:
  "case (rel_name name, edit_file env name old new opts w) of
     (Inr rel, (w', Inr n)) \<Rightarrow> permitted env ''editFile'' rel w \<and>
       (\<exists>m old_text old_text'. file_at (segments rel) (ws_tree w) = Some (m, old_text)
          \<and> file_at (segments rel) (ws_tree w') = Some (m, old_text')
          \<and> (\<forall>us. us = segments rel \<or> file_at us (ws_tree w') = file_at us (ws_tree w))
          \<and> (if opt_bool opts ''all''
             then old_text' = replace_all old new old_text \<and> n = count_of old old_text \<and> contains old old_text
             else n = 1 \<and> (\<exists>a b. old_text = a @ old @ b \<and> \<not> contains old b \<and> old_text' = a @ new @ b)))
   | (Inr rel, (w', Inl e)) \<Rightarrow> ws_tree w' = ws_tree w
       \<or> (\<exists>k why m old_text. we_breaks env ''write'' rel = Some (k, why) \<and> permitted env ''editFile'' rel w
          \<and> file_at (segments rel) (ws_tree w) = Some (m, old_text) \<and> contains old old_text
          \<and> file_at (segments rel) (ws_tree w') = Some (m, take k (edited opts old new old_text))
          \<and> (\<forall>us. us = segments rel \<or> file_at us (ws_tree w') = file_at us (ws_tree w)))
   | (Inl e, (w', r)) \<Rightarrow> ws_tree w' = ws_tree w \<and> isl r"
proof (cases "rel_name name")
  case (Inl e)
  then show ?thesis by (simp add: edit_file_def)
next
  case (Inr rel)
  obtain w' r where run: "edit_file env name old new opts w = (w', r)" by fastforce
  let ?all = "opt_bool opts ''all''"
  show ?thesis
  proof (cases "ws_tree w' = ws_tree w \<and> isl r")
    case True
    then show ?thesis using Inr run by (cases r) simp_all
  next
    case False
    with edit_file_spec [OF Inr run] obtain old_text perm where leave: "permitted env ''editFile'' rel w" and read: "os_read env rel w = Inr old_text" and "old \<noteq> []"
      and some: "count_of old old_text \<noteq> 0" and once: "?all \<or> count_of old old_text = 1"
      and wrote: "case we_breaks env ''write'' rel of
              None \<Rightarrow> r = Inr (if ?all then count_of old old_text else 1)
                \<and> write_node (segments rel) perm (edited opts old new old_text) (ws_tree w) = Inr (ws_tree w')
            | Some (k, e) \<Rightarrow> isl r
                \<and> write_node (segments rel) perm (take k (edited opts old new old_text)) (ws_tree w) = Inr (ws_tree w')"
      by blast
    from os_read_file [OF read] obtain m where m: "file_at (segments rel) (ws_tree w) = Some (m, old_text)" by blast
    have there: "contains old old_text" using some count_of_0 [OF \<open>old \<noteq> []\<close>, of old_text] by simp
    have one: "\<exists>a b. old_text = a @ old @ b \<and> \<not> contains old b \<and> replace_first old new old_text = a @ new @ b" if "\<not> ?all"
      using count_of_1 [OF \<open>old \<noteq> []\<close>] once that by simp
    show ?thesis
    proof (cases "we_breaks env ''write'' rel")
      case None
      with wrote have w: "write_node (segments rel) perm (edited opts old new old_text) (ws_tree w) = Inr (ws_tree w')"
          "r = Inr (if ?all then count_of old old_text else 1)" by simp_all
      show ?thesis
        using Inr run w(2) leave m one there write_then_read [OF w(1)] write_elsewhere [OF w(1)]
        by (auto simp: edited_def)
    next
      case (Some x)
      obtain k why where x: "x = (k, why)" by fastforce
      with Some wrote have w: "write_node (segments rel) perm (take k (edited opts old new old_text)) (ws_tree w) = Inr (ws_tree w')"
          "isl r" by simp_all
      show ?thesis
        using Inr run w(2) leave m there Some x write_then_read [OF w(1)] write_elsewhere [OF w(1)]
        by (cases r) auto
    qed
  qed
qed

text \<open>
  Overlapping occurrences count once: a text that stands at two overlapping places passes for
  one that stands at exactly one, and the first is replaced.
\<close>

lemma overlapping_counts_once:
  "count_of ''aba'' ''ababa'' = 1 \<and> ''ababa'' = [] @ ''aba'' @ ''ba'' \<and> ''ababa'' = ''ab'' @ ''aba'' @ []"
  by simp

section \<open>Reading back\<close>

text \<open>
  What was written is what is read: after a write that succeeded, reading the same name with
  no options answers the content byte for byte, if it is within the cap on a file and the
  system lets it be read.
\<close>

theorem written_is_read:
  "case (rel_name name, write_file env name content w) of
     (Inr rel, (w', Inr True)) \<Rightarrow>
       if we_denies env ''statat'' rel = None \<and> we_denies env ''openat'' rel = None
          \<and> int (length content) \<le> max_file_bytes (we_opts env)
       then snd (read_file env name [] w') = Inr content else True
   | _ \<Rightarrow> True"
proof (cases "rel_name name")
  case (Inr rel)
  obtain w' r where run: "write_file env name content w = (w', r)" by fastforce
  show ?thesis
  proof (cases "r = Inr True")
    case True
    then obtain m where "file_at (segments rel) (ws_tree w') = Some (m, content)"
      using write_file_spec(2) [OF Inr run] by (auto simp: changes_only_def)
    then have "node_at (segments rel) (ws_tree w') = Inr (File m content)"
      by (auto simp: file_at_def split: sum.splits node.splits)
    then show ?thesis using Inr run True
      by (simp add: read_file_def os_stat_def os_read_def os_result_def opt_int_def Let_def)
  next
    case False
    then show ?thesis using Inr run by (cases r) (auto split: bool.split)
  qed
qed simp

end
