(* ===== verification/Search_Properties.thy ===== *)
theory Search_Properties
  imports Workspace_Properties
begin

text \<open>
  What the searches of the workspace promise: \<open>glob\<close> answers exactly the files its pattern
  denotes and \<open>grep\<close> exactly the matching lines of those it reads, up to their caps.
\<close>

section \<open>Searches\<close>

text \<open>The files a walk comes by, in its order.\<close>

fun visible :: "workspace_env \<Rightarrow> bytes \<Rightarrow> bytes \<Rightarrow> node \<Rightarrow> bytes list"
  and visible_in :: "workspace_env \<Rightarrow> bytes \<Rightarrow> (bytes \<times> node) list \<Rightarrow> bytes list" where
  "visible env p base (File m c) = [p]"
| "visible env p base (Dir es) =
     (if (p \<noteq> ''.'' \<and> base \<in> set (skip_dirs (we_opts env))) \<or> we_denies env ''readdirent'' p \<noteq> None then []
      else visible_in env p es)"
| "visible_in env p [] = []"
| "visible_in env p ((k, n) # es) = visible env (join_rel p k) k n @ visible_in env p es"

definition project_files :: "workspace_env \<Rightarrow> workspace \<Rightarrow> bytes list" where
  "project_files env w = visible env ''.'' ''.'' (ws_tree w)"

definition matches_glob :: "bytes \<Rightarrow> bytes \<Rightarrow> bool" where
  "matches_glob pat p = (match_path pat p = Inr True)"

definition visit_step :: "workspace_options \<Rightarrow> bytes \<Rightarrow> (bytes \<Rightarrow> 'v \<Rightarrow> 'v \<times> bool) \<Rightarrow> bytes \<Rightarrow> 'v walk_state \<Rightarrow> 'v walk_state" where
  "visit_step opts pat visit p st = (if wk_status st \<noteq> Going then st else walk_file opts pat visit p st)"

lemma visits_over: "wk_status st \<noteq> Going \<Longrightarrow> fold (visit_step opts pat visit) ps st = st"
  by (induction ps) (simp_all add: visit_step_def)

lemma walk_is_fold:
  "walk_node env pat visit p base n st = fold (visit_step (we_opts env) pat visit) (visible env p base n) st"
  "walk_entries env pat visit p es st = fold (visit_step (we_opts env) pat visit) (visible_in env p es) st"
proof (induction env pat visit p base n st and env pat visit p es st rule: walk_node_walk_entries.induct)
  case (2 env pat visit p base es st)
  then show ?case
    by (cases "wk_status st = Going") (auto simp: visits_over)
qed (simp_all add: visit_step_def)

text \<open>The visits to a list of files, stopping when the visitor says so.\<close>

fun run_visits :: "(bytes \<Rightarrow> 'v \<Rightarrow> 'v \<times> bool) \<Rightarrow> bytes list \<Rightarrow> 'v \<Rightarrow> 'v" where
  "run_visits visit [] u = u"
| "run_visits visit (p # ps) u = (let (u', go) = visit p u in if go then run_visits visit ps u' else u')"

definition room :: "workspace_options \<Rightarrow> 'v walk_state \<Rightarrow> nat" where
  "room opts st = nat (max_results opts) - length (wk_matches st)"

definition failed :: "'v walk_state \<Rightarrow> bool" where
  "failed st = (case wk_status st of Failed e \<Rightarrow> True | _ \<Rightarrow> False)"

lemma visits_user:
  assumes "wk_status st = Going" and "0 < room opts st"
    and "\<not> failed (fold (visit_step opts pat visit) ps st)"
  shows "wk_user (fold (visit_step opts pat visit) ps st)
      = run_visits visit (take (room opts st) (filter (matches_glob pat) ps)) (wk_user st)
    \<and> ((\<forall>p u. snd (visit p u)) \<longrightarrow> wk_matches (fold (visit_step opts pat visit) ps st)
         = wk_matches st @ take (room opts st) (filter (matches_glob pat) ps))"
  using assms
proof (induction ps arbitrary: st)
  case (Cons p ps)
  let ?st = "visit_step opts pat visit p st" and ?run = "fold (visit_step opts pat visit)"
  obtain u go where v: "visit p (wk_user st) = (u, go)" by fastforce
  have seen: "\<not> wk_seen st + 1 > max_walk_files opts"
  proof
    assume "wk_seen st + 1 > max_walk_files opts"
    then have "failed ?st" "wk_status ?st \<noteq> Going"
      using Cons.prems(1) by (simp_all add: visit_step_def walk_file_def failed_def)
    then show False using Cons.prems(3) by (simp add: visits_over)
  qed
  consider (bad) e where "match_path pat p = Inl e" | (no) "match_path pat p = Inr False" | (yes) "match_path pat p = Inr True"
    by (cases "match_path pat p") auto
  then show ?case
  proof cases
    case bad
    then have "failed ?st" "wk_status ?st \<noteq> Going"
      using Cons.prems(1) seen by (simp_all add: visit_step_def walk_file_def failed_def)
    then show ?thesis using Cons.prems(3) by (simp add: visits_over)
  next
    case no
    then have st: "wk_status ?st = Going" "wk_user ?st = wk_user st" "wk_matches ?st = wk_matches st"
      using Cons.prems(1) seen by (simp_all add: visit_step_def walk_file_def)
    then have "room opts ?st = room opts st" by (simp add: room_def)
    moreover have "\<not> failed (?run ps ?st)" using Cons.prems(3) by simp
    ultimately show ?thesis
      using Cons.IH [OF st(1)] Cons.prems(2) st(2,3) no by (simp add: matches_glob_def)
  next
    case yes
    have st: "wk_user ?st = u" "wk_matches ?st = wk_matches st @ [p]"
        "wk_status ?st = (if \<not> go \<or> room opts st = 1 then Halted else Going)"
      using Cons.prems(1,2) seen yes v by (auto simp: visit_step_def walk_file_def room_def Let_def)
    have room: "room opts ?st = room opts st - 1" by (simp add: room_def st(2))
    have m: "matches_glob pat p" using yes by (simp add: matches_glob_def)
    show ?thesis
    proof (cases "\<not> go \<or> room opts st = 1")
      case True
      then have "wk_status ?st \<noteq> Going" using st(3) by simp
      then have "?run (p # ps) st = ?st" by (simp add: visits_over)
      moreover have "(\<forall>p u. snd (visit p u)) \<longrightarrow> go" using v by (metis snd_conv)
      ultimately show ?thesis using True st m v Cons.prems(2)
        by (cases "room opts st") (auto simp: take_Suc)
    next
      case False
      then have "wk_status ?st = Going" "0 < room opts ?st" "\<not> failed (?run ps ?st)"
        using st(3) room Cons.prems(2,3) by auto
      from Cons.IH [OF this] show ?thesis using False st m v room Cons.prems(2)
        by (cases "room opts st") auto
    qed
  qed
qed (simp add: take_Cons')

lemma visits_failed:
  assumes "wk_status st = Going" and "failed (fold (visit_step opts pat visit) ps st)"
  shows "(\<exists>p e. match_path pat p = Inl e) \<or> wk_seen st + int (length ps) > max_walk_files opts"
  using assms
proof (induction ps arbitrary: st)
  case (Cons p ps)
  let ?st = "visit_step opts pat visit p st"
  show ?case
  proof (cases "wk_status ?st = Going")
    case True
    then have "wk_seen ?st = wk_seen st + 1"
      using Cons.prems(1) by (auto simp: visit_step_def walk_file_def Let_def split_beta split: sum.splits if_splits)
    then show ?thesis using Cons.IH [OF True] Cons.prems(2) by auto
  next
    case False
    then have "failed ?st" using Cons.prems(2) by (simp add: visits_over)
    then have "(\<exists>e. match_path pat p = Inl e) \<or> wk_seen st + 1 > max_walk_files opts"
      using Cons.prems(1)
      by (auto simp: failed_def visit_step_def walk_file_def Let_def split_beta split: sum.splits if_splits)
    then show ?thesis by auto
  qed
qed (simp add: failed_def)

lemma max_results_pos: "0 < max_results o'"
  by (simp add: max_results_def)

definition start_walk :: "'v \<Rightarrow> 'v walk_state" where
  "start_walk u = \<lparr>wk_seen = 0, wk_matches = [], wk_user = u, wk_status = Going\<rparr>"

lemma walk_spec:
  "case walk env pat visit u (ws_tree w) of
     (u', Inr ms) \<Rightarrow>
       u' = run_visits visit (take (nat (max_results (we_opts env))) (filter (matches_glob pat) (project_files env w))) u
       \<and> ((\<forall>p v. snd (visit p v)) \<longrightarrow>
            ms = take (nat (max_results (we_opts env))) (filter (matches_glob pat) (project_files env w)))
   | (u', Inl e) \<Rightarrow> (\<exists>p e. match_path pat p = Inl e) \<or> int (length (project_files env w)) > max_walk_files (we_opts env)"
proof -
  let ?final = "fold (visit_step (we_opts env) pat visit) (project_files env w) (start_walk u)"
  have walk: "walk env pat visit u (ws_tree w) =
      (wk_user ?final, case wk_status ?final of Failed e \<Rightarrow> Inl e | _ \<Rightarrow> Inr (wk_matches ?final))"
    by (simp add: walk_def walk_is_fold project_files_def start_walk_def Let_def cong: walk_status.case_cong)
  have start: "wk_status (start_walk u) = Going" "wk_matches (start_walk u) = []" "wk_seen (start_walk u) = 0"
      "wk_user (start_walk u) = u"
    by (simp_all add: start_walk_def)
  have room: "room (we_opts env) (start_walk u) = nat (max_results (we_opts env))"
    by (simp add: room_def start)
  show ?thesis
  proof (cases "failed ?final")
    case True
    then obtain e where "wk_status ?final = Failed e" by (auto simp: failed_def split: walk_status.splits)
    then show ?thesis using visits_failed [OF start(1) True] start(3) by (simp add: walk)
  next
    case False
    then have "(case wk_status ?final of Failed e \<Rightarrow> Inl e | _ \<Rightarrow> Inr (wk_matches ?final)) = Inr (wk_matches ?final)"
      by (auto simp: failed_def split: walk_status.splits)
    then show ?thesis
      using visits_user [OF start(1) _ False] max_results_pos [of "we_opts env"] start(2,4) by (simp add: walk room)
  qed
qed

lemma match_path_meaning:
  "case match_path pat p of
     Inr ok \<Rightarrow> ok \<longleftrightarrow> denotes (split_on (CHR ''/'') pat) (split_on (CHR ''/'') p)
   | Inl e \<Rightarrow> list_ex (\<lambda>s. parse_glob s = None) (split_on (CHR ''/'') pat)"
  using match_denotes(1) by (simp add: match_path_def)

lemma denotes_well_formed: "denotes ps ss \<Longrightarrow> \<not> list_ex (\<lambda>s. parse_glob s = None) ps"
proof (induction rule: denotes.induct)
  case (any_depth ps ss xs)
  moreover have "parse_glob ''**'' = Some [Star, Star]" by (simp add: parse_glob_def)
  ultimately show ?case by simp
qed (auto simp: path_match_def)

lemma matches_denotes: "matches_glob pat = (\<lambda>p. denotes (split_on (CHR ''/'') pat) (split_on (CHR ''/'') p))"
proof
  show "matches_glob pat p = denotes (split_on (CHR ''/'') pat) (split_on (CHR ''/'') p)" for p
    using match_path_meaning [of pat p] denotes_well_formed
    by (auto simp: matches_glob_def split: sum.splits)
qed

text \<open>
  C25 A glob answers exactly the first files of the walk that the pattern denotes, up to the cap
  on results: two stars span any number of segments, and every other segment of the pattern
  matches one of the name.  It fails only on a blank or malformed pattern, or in a tree of more
  files than it may visit.
\<close>

theorem glob_is_exact:
  "case snd (glob_files env pat w) of
     Inr ms \<Rightarrow> ms = take (nat (max_results (we_opts env)))
         (filter (\<lambda>p. denotes (split_on (CHR ''/'') pat) (split_on (CHR ''/'') p)) (project_files env w))
   | Inl e \<Rightarrow> trim_space pat = [] \<or> list_ex (\<lambda>s. parse_glob s = None) (split_on (CHR ''/'') pat)
         \<or> int (length (project_files env w)) > max_walk_files (we_opts env)"
proof -
  have bad: "list_ex (\<lambda>s. parse_glob s = None) (split_on (CHR ''/'') pat)" if "match_path pat p = Inl e" for p e
    using match_path_meaning [of pat p] that by simp
  obtain u r where wk: "walk env pat (\<lambda>_ u. (u, True)) () (ws_tree w) = (u, r)"
    by (rule that [OF surjective_pairing])
  note spec = walk_spec [where env = env and pat = pat and visit = "\<lambda>_ u. (u, True)" and u = "()" and w = w, unfolded wk]
  have "glob_files env pat w =
      (if trim_space pat = [] then throw ''glob'' ''a pattern is required'' w
       else case r of
              Inl e \<Rightarrow> throw ''glob'' e w
            | Inr ms \<Rightarrow> (ws_emit ''file_read'' (''glob '' @ pat @ '' '' @ arrow @ '' '' @ itoa (int (length ms)) @ '' file(s)'') [] w,
                Inr ms))"
    unfolding glob_files_def wk snd_conv by (rule refl)
  then show ?thesis using spec bad by (cases r) (auto simp: matches_denotes)
qed

text \<open>
  The matches of one file: none when it cannot be read, is too long or is binary; otherwise its
  lines, with their numbers from one.
\<close>

definition line_hits :: "(bytes \<Rightarrow> bool) \<Rightarrow> bytes \<Rightarrow> nat \<Rightarrow> bytes list \<Rightarrow> grep_hit list" where
  "line_hits re rel i ls =
     map (\<lambda>(j, l). \<lparr>gh_path = rel, gh_line = Suc j, gh_text = trim_right [CHR 0x0D] l\<rparr>)
       (filter (\<lambda>(j, l). re l) (enumerate i ls))"

definition file_hits :: "workspace_env \<Rightarrow> (bytes \<Rightarrow> bool) \<Rightarrow> workspace \<Rightarrow> bytes \<Rightarrow> grep_hit list" where
  "file_hits env re w rel =
     (case os_read env rel w of
        Inl e \<Rightarrow> []
      | Inr data \<Rightarrow>
          if int (length data) > max_file_bytes (we_opts env) \<or> is_binary data then []
          else line_hits re rel 0 (split_on (CHR 0x0A) data))"

lemma line_hits_Cons: "line_hits re rel i (l # ls) =
    (if re l then [\<lparr>gh_path = rel, gh_line = Suc i, gh_text = trim_right [CHR 0x0D] l\<rparr>] else []) @ line_hits re rel (Suc i) ls"
  by (simp add: line_hits_def)

lemma grep_lines_take:
  assumes "int (length hits) \<le> limit"
  shows "fst (grep_lines re limit rel i ls hits) = take (nat limit) (hits @ line_hits re rel i ls)
    \<and> (snd (grep_lines re limit rel i ls hits) \<or> limit \<le> int (length (hits @ line_hits re rel i ls)))"
  using assms
proof (induction ls arbitrary: i hits)
  case Nil
  then show ?case by (simp add: line_hits_def)
next
  case (Cons l ls)
  show ?case
  proof (cases "int (length hits) \<ge> limit")
    case True
    then show ?thesis using Cons.prems by simp
  next
    case False
    then show ?thesis
      using Cons.IH [of "if re l then hits @ [\<lparr>gh_path = rel, gh_line = Suc i, gh_text = trim_right [CHR 0x0D] l\<rparr>] else hits" "Suc i"]
      by (auto simp: line_hits_Cons)
  qed
qed

lemma grep_visit_take:
  assumes "int (length hits) \<le> limit"
  shows "fst (grep_visit env re limit w rel hits) = take (nat limit) (hits @ file_hits env re w rel)
    \<and> (snd (grep_visit env re limit w rel hits) \<or> limit \<le> int (length (hits @ file_hits env re w rel)))"
proof (cases "os_read env rel w")
  case (Inl e)
  then show ?thesis using assms by (auto simp: grep_visit_def file_hits_def)
next
  case (Inr data)
  then show ?thesis
    using assms grep_lines_take [OF assms, of re rel 0 "split_on (CHR 0x0A) data"]
    by (auto simp: grep_visit_def file_hits_def)
qed

lemma grep_visits_take:
  "int (length hits) \<le> limit \<Longrightarrow>
     run_visits (grep_visit env re limit w) ps hits = take (nat limit) (hits @ concat (map (file_hits env re w) ps))"
proof (induction ps arbitrary: hits)
  case (Cons p ps)
  let ?all = "hits @ file_hits env re w p"
  obtain h go where v: "grep_visit env re limit w p hits = (h, go)" by fastforce
  have h: "h = take (nat limit) ?all" "go \<or> limit \<le> int (length ?all)"
    using grep_visit_take [OF Cons.prems, of env re w p] v by simp_all
  then have "int (length h) \<le> limit" using Cons.prems by auto
  from Cons.IH [OF this] have rest:
    "run_visits (grep_visit env re limit w) ps h = take (nat limit) (h @ concat (map (file_hits env re w) ps))" .
  show ?case
  proof (cases go)
    case True
    then show ?thesis using rest v unfolding h(1) take_take_append by simp
  next
    case False
    then have full: "nat limit \<le> length ?all" using h(2) by linarith
    have "run_visits (grep_visit env re limit w) (p # ps) hits = h" using False v by simp
    also have "\<dots> = take (nat limit) (?all @ concat (map (file_hits env re w) ps))"
      unfolding h(1) using full by (simp only: take_append) simp
    finally show ?thesis by simp
  qed
qed simp

text \<open>
  A search answers the matching lines of the files the glob option denotes, file by file and
  line by line with their numbers, cut at the limit, which an option may lower but never raise
  past the cap on results.  Only the first files the glob denotes are read, as many as the cap
  allows.
\<close>

theorem grep_is_exact:
  "case snd (grep env pat opts w) of
     Inl e \<Rightarrow> True
   | Inr hits \<Rightarrow>
       (\<exists>re. we_regexp env (if opt_bool opts ''ignoreCase'' then ''(?i)'' @ pat else pat) = Inr re
         \<and> (let fg = (if trim_space (opt_string opts ''glob'') = [] then ''**'' else opt_string opts ''glob'');
                fs = filter (\<lambda>p. denotes (split_on (CHR ''/'') fg) (split_on (CHR ''/'') p)) (project_files env w)
            in hits = take (nat (grep_limit (we_opts env) opts))
                 (concat (map (file_hits env re w) (take (nat (max_results (we_opts env))) fs)))))
       \<and> int (length hits) \<le> max_results (we_opts env)"
proof (cases "trim_space pat = []")
  case True
  then show ?thesis by (simp add: grep_def)
next
  case False
  let ?pat = "if opt_bool opts ''ignoreCase'' then ''(?i)'' @ pat else pat"
  let ?fg = "if trim_space (opt_string opts ''glob'') = [] then ''**'' else opt_string opts ''glob''"
  let ?limit = "grep_limit (we_opts env) opts"
  have limit: "0 < ?limit" "?limit \<le> max_results (we_opts env)"
    using max_results_pos by (auto simp: grep_limit_def Let_def)
  show ?thesis
  proof (cases "we_regexp env ?pat")
    case (Inl e)
    then show ?thesis using False by (simp add: grep_def Let_def)
  next
    case (Inr re)
    obtain hits r where wk: "walk env ?fg (grep_visit env re ?limit w) [] (ws_tree w) = (hits, r)" by fastforce
    show ?thesis
    proof (cases r)
      case (Inl e)
      then show ?thesis using False Inr wk by (simp add: grep_def Let_def)
    next
      case r: (Inr ms)
      let ?fs = "take (nat (max_results (we_opts env))) (filter (matches_glob ?fg) (project_files env w))"
      have "hits = run_visits (grep_visit env re ?limit w) ?fs []"
        using walk_spec [where env = env and pat = ?fg and visit = "grep_visit env re ?limit w" and u = "[]" and w = w, unfolded wk r] by simp
      also have "\<dots> = take (nat ?limit) (concat (map (file_hits env re w) ?fs))"
        using grep_visits_take [of "[]" ?limit env re w ?fs] limit(1) by simp
      finally have hits: "hits = take (nat ?limit) (concat (map (file_hits env re w) ?fs))" .
      have "snd (grep env pat opts w) = Inr hits"
        using False Inr wk r by (simp add: grep_def Let_def)
      moreover have "int (length hits) \<le> max_results (we_opts env)" using hits limit by auto
      ultimately show ?thesis using Inr hits by (auto simp: Let_def matches_denotes)
    qed
  qed
qed

text \<open>
  The cap on the answers of a glob also caps the files a search reads: a match in a later file
  is missed although the limit is not reached, and nothing tells.
\<close>

definition two_files :: workspace where
  "two_files = \<lparr>ws_tree = Dir [(''a'', File 420 ''x''), (''b'', File 420 ''needle'')], ws_events = [], ws_asked = []\<rparr>"

definition capped_env :: workspace_env where
  "capped_env = \<lparr>we_opts = \<lparr>wo_max_file_bytes = 0, wo_max_results = 1, wo_max_walk_files = 0, wo_skip_dirs = None\<rparr>,
     we_policy = None, we_approver = None, we_denies = (\<lambda>_ _. None), we_breaks = (\<lambda>_ _. None), we_mode = id, we_dir_size = (\<lambda>_. 0),
     we_regexp = (\<lambda>p. Inr (contains p))\<rparr>"

lemma grep_misses_later_files:
  "snd (grep capped_env ''needle'' [] two_files) = Inr [] \<and> file_hits capped_env (contains ''needle'') two_files ''b'' \<noteq> []"
  by code_simp

end
