(* ===== verification/Exec_Pack.thy ===== *)
theory Exec_Pack
  imports Workspace_Properties
begin

text \<open>
  \<open>ext/pack_exec.go\<close> and \<open>ext/pack_exec_run.go\<close>: running a command for the agent.  Parameters
  are the operating system's processes (what a command writes, in which pieces, and how it
  ends, knowing the commands before it), the environment of the agent's own process, the
  project directory, and the user behind the approver.  Durations are nanoseconds.
\<close>

section \<open>Options\<close>

record exec_options =
  xo_timeout :: int
  xo_max_timeout :: int
  xo_max_output :: int
  xo_pass_env :: "bytes list option"
  xo_env :: "(bytes \<times> bytes) list"
  xo_allow_shell :: bool

definition base_env :: "bytes list" where
  "base_env = [''PATH'', ''HOME'', ''TMPDIR'', ''TMP'', ''TEMP'', ''LANG'', ''LC_ALL'', ''LC_CTYPE'', ''TZ'',
     ''USER'', ''LOGNAME'', ''SHELL'', ''TERM'']"

abbreviation exec_second :: int where
  "exec_second \<equiv> 1000000000"

definition exec_timeout :: "exec_options \<Rightarrow> int" where
  "exec_timeout o' = (if xo_timeout o' \<le> 0 then 30 * exec_second else xo_timeout o')"

definition exec_max_timeout :: "exec_options \<Rightarrow> int" where
  "exec_max_timeout o' = (if xo_max_timeout o' \<le> 0 then 120 * exec_second else xo_max_timeout o')"

definition exec_max_output :: "exec_options \<Rightarrow> int" where
  "exec_max_output o' = (if xo_max_output o' \<le> 0 then 64 * 1024 else xo_max_output o')"

definition pass_env :: "exec_options \<Rightarrow> bytes list" where
  "pass_env o' = (case xo_pass_env o' of None \<Rightarrow> base_env | Some l \<Rightarrow> l)"

section \<open>Output\<close>

text \<open>\<open>cappedBuffer\<close>.\<close>

record capped =
  cb_kept :: bytes
  cb_limit :: int
  cb_dropped :: int

definition new_capped :: "int \<Rightarrow> capped" where
  "new_capped n = \<lparr>cb_kept = [], cb_limit = n, cb_dropped = 0\<rparr>"

definition capped_write :: "bytes \<Rightarrow> capped \<Rightarrow> capped" where
  "capped_write p c =
     (let free = cb_limit c - int (length (cb_kept c));
          free = (if free > 0 \<and> free > int (length p) then int (length p) else free);
          c = (if free > 0 then c\<lparr>cb_kept := cb_kept c @ take (nat free) p\<rparr> else c);
          extra = int (length p) - free
      in if extra > 0 then c\<lparr>cb_dropped := cb_dropped c + extra\<rparr> else c)"

definition capped_text :: "capped \<Rightarrow> bytes" where
  "capped_text c =
     (if cb_dropped c = 0 then cb_kept c
      else cb_kept c @ newline @ ''[truncated: '' @ itoa (cb_dropped c) @ '' further bytes not shown]'' @ newline)"

section \<open>State and environment\<close>

record command =
  cm_argv :: "bytes list"
  cm_dir :: bytes
  cm_timeout :: int
  cm_input :: bytes
  cm_env :: "bytes list"

datatype run_error = Exit_error | Other_error bytes

text \<open>How a process ended: its code is \<open>-1\<close> when nothing started.\<close>

record process_end =
  pe_stdout :: "bytes list"
  pe_stderr :: "bytes list"
  pe_code :: int
  pe_error :: "run_error option"
  pe_timed_out :: bool

record exec_env =
  xe_opts :: exec_options
  xe_policy :: "policy option"
  xe_approver :: "approver option"
  xe_root :: "bytes option"
  xe_stat :: "bytes \<Rightarrow> bytes + bool"
  xe_variable :: "bytes \<Rightarrow> bytes option"
  xe_process :: "command list \<Rightarrow> command \<Rightarrow> process_end"

record exec_state =
  xs_events :: "sandbox_event list"
  xs_asked :: "bytes list"
  xs_ran :: "command list"

definition xs_emit :: "bytes \<Rightarrow> bytes \<Rightarrow> bytes \<Rightarrow> exec_state \<Rightarrow> exec_state" where
  "xs_emit kind summary detail x =
     x\<lparr>xs_events := xs_events x @ [mk_sandbox_event kind summary detail []]\<rparr>"

definition exec_throw :: "bytes \<Rightarrow> exec_state \<Rightarrow> exec_state \<times> (bytes + 'a)" where
  "exec_throw msg x = (x, Inl (''exec: '' @ msg))"

section \<open>The command and its directory\<close>

text \<open>\<open>%T\<close> of an exported value.\<close>

fun go_type :: "json \<Rightarrow> bytes" where
  "go_type JNull = ''<nil>''"
| "go_type (JBool b) = ''bool''"
| "go_type (JNum s) = (if CHR ''.'' \<in> set s \<or> CHR ''e'' \<in> set s then ''float64'' else ''int64'')"
| "go_type (JStr s) = ''string''"
| "go_type (JArr vs) = ''[]interface {}''"
| "go_type (JObj kvs) = ''map[string]interface {}''"

fun string_args :: "json list \<Rightarrow> bytes + bytes list" where
  "string_args [] = Inr []"
| "string_args (v # vs) =
     (case v of
        JStr s \<Rightarrow> (case string_args vs of Inl e \<Rightarrow> Inl e | Inr l \<Rightarrow> Inr (s # l))
      | _ \<Rightarrow> Inl (''every argument must be a string, got '' @ go_type v))"

text \<open>\<open>resolveCommand\<close>: the argument vector and its rendering.\<close>

definition resolve_command :: "exec_options \<Rightarrow> js \<Rightarrow> bytes + bytes list \<times> bytes" where
  "resolve_command o' command =
     (case command of
        None \<Rightarrow> Inl ''a command is required''
      | Some JNull \<Rightarrow> Inl ''a command is required''
      | Some (JStr s) \<Rightarrow>
          if \<not> xo_allow_shell o'
          then Inl (''pass argv as an array '' @ em_dash @ '' exec(['' @ quote s @ '']) '' @ em_dash
                 @ '' rather than one string; there is no shell'')
          else Inr ([''sh'', ''-c'', s], s)
      | Some (JArr vs) \<Rightarrow>
          (case string_args vs of
             Inl e \<Rightarrow> Inl e
           | Inr argv \<Rightarrow>
               if argv = [] \<or> trim_space (hd argv) = [] then Inl ''the command is empty''
               else Inr (argv, join_with '' '' argv))
      | Some v \<Rightarrow> Inl (''the command must be an array of strings, got '' @ go_type v))"

definition resolve_dir :: "exec_env \<Rightarrow> bytes \<Rightarrow> bytes + bytes" where
  "resolve_dir env cwd =
     (case xe_root env of
        None \<Rightarrow>
          if cwd \<noteq> [] then Inl ''no project directory is configured, so cwd cannot be resolved'' else Inr []
      | Some root \<Rightarrow>
          if trim_space cwd = [] then Inr root
          else if has_prefix slash cwd
          then Inl (''cwd '' @ quote cwd @ '' is absolute; it is resolved inside the project root'')
          else let clean = path_clean cwd in
               if clean = ''..'' \<or> has_prefix ''../'' clean
               then Inl (''cwd '' @ quote cwd @ '' leaves the project root'')
               else case xe_stat env clean of
                      Inl e \<Rightarrow> Inl (''cwd: '' @ e)
                    | Inr dir \<Rightarrow>
                        if \<not> dir then Inl (''cwd '' @ quote cwd @ '' is not a directory'')
                        else Inr (path_join root clean))"

section \<open>Authorisation\<close>

definition run_question :: "bytes \<Rightarrow> bytes" where
  "run_question display = ''Allow the agent to run: '' @ display"

definition exec_args :: "bytes \<Rightarrow> bytes \<Rightarrow> policy_args" where
  "exec_args command display = [(''argv'', JStr display), (''command'', JStr (path_base command))]"

definition exec_authorize :: "exec_env \<Rightarrow> bytes \<Rightarrow> bytes \<Rightarrow> exec_state \<Rightarrow> exec_state \<times> (bytes + unit)" where
  "exec_authorize env command display x =
     (case check_policy (xe_policy env) ''exec'' (exec_args command display) of
        Inl e \<Rightarrow> exec_throw (''policy check failed: '' @ e) x
      | Inr res \<Rightarrow>
          if allowed res then (x, Inr ())
          else case xe_approver env of
            None \<Rightarrow> exec_throw (reason_of res) (xs_emit ''error'' ''exec blocked by policy'' (reason_of res) x)
          | Some ask \<Rightarrow>
              let x = xs_emit ''ask'' (''requesting permission to run: '' @ display) [] x;
                  answer = ask (xs_asked x) (run_question display);
                  x = x\<lparr>xs_asked := xs_asked x @ [run_question display]\<rparr>
              in (case answer of
                    Inl e \<Rightarrow>
                      exec_throw (reason_of res @ '' (could not ask: '' @ e @ '')'')
                        (xs_emit ''error'' ''permission request failed'' e x)
                  | Inr v \<Rightarrow>
                      if v \<noteq> Some (JBool True)
                      then exec_throw (''the user declined to run '' @ display)
                             (xs_emit ''ask_result'' (''denied: '' @ display) [] x)
                      else (xs_emit ''ask_result'' (''approved: '' @ display) [] x, Inr ())))"

section \<open>Running\<close>

definition assignment :: "bytes \<times> bytes \<Rightarrow> bytes" where
  "assignment kv = fst kv @ ''='' @ snd kv"

definition build_env :: "exec_env \<Rightarrow> (bytes \<times> bytes) list \<Rightarrow> bytes list" where
  "build_env env extra =
     concat (map (\<lambda>n. case xe_variable env n of None \<Rightarrow> [] | Some v \<Rightarrow> [assignment (n, v)])
               (pass_env (xe_opts env)))
     @ map assignment (xo_env (xe_opts env)) @ map assignment extra"

text \<open>\<open>stringMap\<close>: the string members of an object.\<close>

definition string_map :: "json option \<Rightarrow> (bytes \<times> bytes) list" where
  "string_map v =
     (case v of
        Some (JObj kvs) \<Rightarrow> concat (map (\<lambda>(k, x). case x of JStr s \<Rightarrow> [(k, s)] | _ \<Rightarrow> []) kvs)
      | _ \<Rightarrow> [])"

record exec_result =
  er_stdout :: bytes
  er_stderr :: bytes
  er_code :: int
  er_timed_out :: bool

definition run_command :: "exec_env \<Rightarrow> command \<Rightarrow> exec_state \<Rightarrow> exec_state \<times> (bytes + exec_result)" where
  "run_command env cmd x =
     (let out = xe_process env (xs_ran x) cmd;
          x = x\<lparr>xs_ran := xs_ran x @ [cmd]\<rparr>;
          collect = (\<lambda>ws. capped_text (fold capped_write ws (new_capped (exec_max_output (xe_opts env)))));
          result = \<lparr>er_stdout = collect (pe_stdout out), er_stderr = collect (pe_stderr out),
                    er_code = pe_code out, er_timed_out = pe_timed_out out\<rparr>
      in case pe_error out of
           Some (Other_error e) \<Rightarrow> if pe_timed_out out then (x, Inr result) else exec_throw e x
         | _ \<Rightarrow> (x, Inr result))"

text \<open>
  A \<open>time.Duration\<close> is an \<open>int64\<close> of nanoseconds, so the product of the milliseconds a script
  asks for wraps.  A limit that is not positive is over before the process starts.
\<close>

definition timeout_for :: "exec_options \<Rightarrow> json_object \<Rightarrow> int" where
  "timeout_for o' opts =
     (let ms = opt_int opts ''timeoutMs'';
          t = (if ms > 0 then i64 (ms * 1000000) else exec_timeout o')
      in if t > exec_max_timeout o' then exec_max_timeout o' else t)"

text \<open>The text of a duration in the summary of a command that timed out is Go's, a parameter.\<close>

definition exec_summary :: "(int \<Rightarrow> bytes) \<Rightarrow> bytes \<Rightarrow> int \<Rightarrow> exec_result \<Rightarrow> bytes" where
  "exec_summary duration display t r =
     ''exec: '' @ display @ '' '' @ [CHR 0xE2, CHR 0x86, CHR 0x92]
     @ (if er_timed_out r then '' timed out after '' @ duration t else '' exit '' @ itoa (er_code r))"

definition exec :: "exec_env \<Rightarrow> (int \<Rightarrow> bytes) \<Rightarrow> js \<Rightarrow> json_object \<Rightarrow> exec_state \<Rightarrow> exec_state \<times> (bytes + exec_result)" where
  "exec env duration command opts x =
     (case resolve_command (xe_opts env) command of
        Inl e \<Rightarrow> exec_throw e x
      | Inr (argv, display) \<Rightarrow>
     (case resolve_dir env (opt_string opts ''cwd'') of
        Inl e \<Rightarrow> exec_throw e x
      | Inr dir \<Rightarrow>
          let t = timeout_for (xe_opts env) opts in
     (case exec_authorize env (hd argv) display x of
        (x, Inl e) \<Rightarrow> (x, Inl e)
      | (x, Inr u) \<Rightarrow>
          let x = xs_emit ''exec'' (''exec: '' @ display) [] x;
              cmd = \<lparr>cm_argv = argv, cm_dir = dir, cm_timeout = t, cm_input = opt_string opts ''input'',
                     cm_env = build_env env (string_map (map_of opts ''env''))\<rparr> in
     (case run_command env cmd x of
        (x, Inl e) \<Rightarrow> (x, Inl e)
      | (x, Inr r) \<Rightarrow> (xs_emit ''exec_result'' (exec_summary duration display t r) [] x, Inr r)))))"

section \<open>What is promised\<close>

lemma capped_write_step:
  assumes "int (length (cb_kept c)) \<le> cb_limit c"
  shows "cb_kept (capped_write w c) = take (nat (cb_limit c)) (cb_kept c @ w)" "cb_limit (capped_write w c) = cb_limit c"
    "cb_dropped (capped_write w c) + int (length (cb_kept (capped_write w c))) = cb_dropped c + int (length (cb_kept c)) + int (length w)"
  using assms by (auto simp: capped_write_def Let_def nat_diff_distrib split: if_splits)

lemma capped_writes:
  "int (length (cb_kept c)) \<le> cb_limit c \<Longrightarrow>
     cb_kept (fold capped_write ws c) = take (nat (cb_limit c)) (cb_kept c @ concat ws)
     \<and> cb_dropped (fold capped_write ws c) + int (length (cb_kept (fold capped_write ws c)))
       = cb_dropped c + int (length (cb_kept c)) + int (length (concat ws))"
proof (induction ws arbitrary: c)
  case (Cons w ws)
  let ?c = "capped_write w c"
  note step = capped_write_step [OF Cons.prems, of w]
  have fits: "int (length (cb_kept ?c)) \<le> cb_limit ?c" using Cons.prems step(1,2) by auto
  show ?case
    using step Cons.IH [OF fits, THEN conjunct1] Cons.IH [OF fits, THEN conjunct2]
    by (simp add: take_take_append del: take_append length_take)
qed simp

text \<open>
  A command's output is kept from its start up to the cap, however it arrives in pieces, and
  is marked as cut exactly when something is missing, with the number of bytes that are.
\<close>

theorem output_capped:
  "let out = concat ws; n = exec_max_output opts;
       shown = capped_text (fold capped_write ws (new_capped n)) in
   if int (length out) \<le> n then shown = out
   else shown = take (nat n) out @ newline @ ''[truncated: '' @ itoa (int (length out) - n)
          @ '' further bytes not shown]'' @ newline"
proof -
  have n: "0 \<le> exec_max_output opts" by (simp add: exec_max_output_def)
  let ?c = "new_capped (exec_max_output opts)"
  have "int (length (cb_kept ?c)) \<le> cb_limit ?c" using n by (simp add: new_capped_def)
  from capped_writes [OF this, of ws]
  have "cb_kept (fold capped_write ws ?c) = take (nat (exec_max_output opts)) (concat ws)"
      "cb_dropped (fold capped_write ws ?c) = int (length (concat ws)) - int (length (take (nat (exec_max_output opts)) (concat ws)))"
    by (auto simp: new_capped_def)
  then show ?thesis using n by (auto simp: capped_text_def Let_def min_def)
qed

definition run_permitted :: "exec_env \<Rightarrow> bytes \<Rightarrow> bytes \<Rightarrow> exec_state \<Rightarrow> bool" where
  "run_permitted env command display x =
     (case check_policy (xe_policy env) ''exec'' (exec_args command display) of
        Inl e \<Rightarrow> False
      | Inr res \<Rightarrow> allowed res \<or>
          (case xe_approver env of
             None \<Rightarrow> False
           | Some ask \<Rightarrow> ask (xs_asked x) (run_question display) = Inr (Some (JBool True))))"

lemma xs_emit_simps [simp]: "xs_ran (xs_emit k s d x) = xs_ran x" "xs_asked (xs_emit k s d x) = xs_asked x"
  by (simp_all add: xs_emit_def)

lemma exec_authorize_spec:
  "xs_ran (fst (exec_authorize env c d x)) = xs_ran x"
  "snd (exec_authorize env c d x) = Inr () \<longleftrightarrow> run_permitted env c d x"
  by (auto simp: exec_authorize_def run_permitted_def exec_throw_def Let_def split: sum.splits option.splits)

lemma resolve_command_argv: "resolve_command o' c = Inr (argv, d) \<Longrightarrow> argv \<noteq> []"
  by (auto simp: resolve_command_def split: option.splits json.splits if_splits sum.splits)

lemma timeout_range:
  "timeout_for o' opts \<le> exec_max_timeout o'"
  "opt_int opts ''timeoutMs'' * 1000000 < 2 ^ 63 \<Longrightarrow> 0 < timeout_for o' opts"
  by (auto simp: timeout_for_def exec_timeout_def exec_max_timeout_def Let_def i64_id)

text \<open>Where a command may run: the root, or a directory the system knows under a name below it.\<close>

definition dir_inside :: "exec_env \<Rightarrow> bytes \<Rightarrow> bool" where
  "dir_inside env dir =
     (case xe_root env of
        None \<Rightarrow> dir = []
      | Some root \<Rightarrow> dir = root \<or> (\<exists>rel. confined rel \<and> xe_stat env rel = Inr True \<and> dir = path_join root rel))"

lemma resolve_dir_inside: "resolve_dir env cwd = Inr dir \<Longrightarrow> dir_inside env dir"
  using clean_confined [of cwd]
  by (auto simp: resolve_dir_def dir_inside_def Let_def split: option.splits if_splits sum.splits)

text \<open>
  C26 A call of \<open>exec\<close> starts at most one command, and only with leave, of the policy for the
  program or of the user for the whole command line.  The command is the one asked about.  It
  runs in the project root, or in a directory that the system finds there under a name with no
  way up, and with no project in the agent's own directory.  Its time limit is within the ceiling
  whatever the script asks for, and positive unless the milliseconds asked for overflow the
  64 bits of a duration.  Every variable of its environment is on the allowlist or was set
  explicitly.
\<close>

theorem exec_needs_leave:
  "case exec env duration command opts x of (x', r) \<Rightarrow>
     xs_ran x' = xs_ran x \<and> isl r
     \<or> (\<exists>cmd display. xs_ran x' = xs_ran x @ [cmd] \<and> resolve_command (xe_opts env) command = Inr (cm_argv cmd, display)
          \<and> cm_argv cmd \<noteq> [] \<and> run_permitted env (hd (cm_argv cmd)) display x
          \<and> dir_inside env (cm_dir cmd)
          \<and> cm_timeout cmd \<le> exec_max_timeout (xe_opts env)
          \<and> (if opt_int opts ''timeoutMs'' * 1000000 < 2 ^ 63 then 0 < cm_timeout cmd else True)
          \<and> set (cm_env cmd) \<subseteq> {assignment (n, v) | n v. n \<in> set (pass_env (xe_opts env)) \<and> xe_variable env n = Some v}
               \<union> assignment ` set (xo_env (xe_opts env)) \<union> assignment ` set (string_map (map_of opts ''env'')))"
proof (cases "resolve_command (xe_opts env) command")
  case (Inl e)
  then show ?thesis by (simp add: exec_def exec_throw_def)
next
  case (Inr ad)
  obtain argv display where ad: "ad = (argv, display)" by fastforce
  show ?thesis
  proof (cases "resolve_dir env (opt_string opts ''cwd'')")
    case (Inl e)
    then show ?thesis using Inr ad by (simp add: exec_def exec_throw_def)
  next
    case dir: (Inr dir)
    obtain x1 a where a: "exec_authorize env (hd argv) display x = (x1, a)" by fastforce
    note auth = exec_authorize_spec [of env "hd argv" display x, unfolded a fst_conv snd_conv]
    show ?thesis
    proof (cases a)
      case (Inl e)
      then show ?thesis using Inr ad dir auth by (simp add: exec_def a)
    next
      case u: (Inr u)
      define cmd where "cmd = \<lparr>cm_argv = argv, cm_dir = dir, cm_timeout = timeout_for (xe_opts env) opts,
        cm_input = opt_string opts ''input'', cm_env = build_env env (string_map (map_of opts ''env''))\<rparr>"
      have ran: "xs_ran (fst (run_command env cmd y)) = xs_ran y @ [cmd]" for y
        by (auto simp: run_command_def Let_def exec_throw_def split: option.split run_error.split)
      have "xs_ran (fst (exec env duration command opts x)) = xs_ran x @ [cmd]"
        using Inr ad dir u auth(1) ran [of "xs_emit ''exec'' (''exec: '' @ display) [] x1"]
        by (auto simp: exec_def a Let_def simp flip: cmd_def split: prod.split sum.split)
      moreover have "run_permitted env (hd argv) display x" using auth(2) u by simp
      moreover have "set (cm_env cmd) \<subseteq> {assignment (n, v) | n v. n \<in> set (pass_env (xe_opts env)) \<and> xe_variable env n = Some v}
               \<union> assignment ` set (xo_env (xe_opts env)) \<union> assignment ` set (string_map (map_of opts ''env''))"
        by (fastforce simp: cmd_def build_env_def split: option.splits)
      moreover have "cm_argv cmd = argv" "cm_timeout cmd = timeout_for (xe_opts env) opts" "dir_inside env (cm_dir cmd)"
        using resolve_dir_inside [OF dir] by (simp_all add: cmd_def)
      moreover note timeout_range [where o' = "xe_opts env" and opts = opts]
      ultimately show ?thesis unfolding split_beta
        using Inr ad resolve_command_argv by (intro disjI2 exI [of _ cmd] exI [of _ display]) simp
    qed
  qed
qed

text \<open>
  The overflow: asked for more than nine billion seconds, the limit is in the past instead of the
  ceiling, and the command is reported as timed out without having run.
\<close>

lemma long_timeout_wraps:
  "timeout_for \<lparr>xo_timeout = 0, xo_max_timeout = 0, xo_max_output = 0, xo_pass_env = None, xo_env = [],
     xo_allow_shell = False\<rparr> [(''timeoutMs'', JNum ''9300000000000'')] < 0"
  by (simp add: timeout_for_def opt_int_def to_int_def Let_def exec_max_timeout_def i64_def parse_int_def is_digit_def
      digits_val_def digit_val_def)

text \<open>
  The policy sees only the last element of the program's name, so a grant of a command by name
  also lets a file of that name run that the agent put into the project.
\<close>

lemma granted_by_base_name:
  "let p = Default_policy (default_policy_zero\<lparr>allow_commands := [''go'']\<rparr>) in
   map_sum id allowed (check_policy (Some p) ''exec'' (exec_args ''./tmp/go'' ''./tmp/go'')) = Inr True"
  by code_simp

end
