(* ===== verification/Eval_Judge.thy ===== *)
theory Eval_Judge
  imports Llm_Types Redactor Go_Url
begin

text \<open>
  \<open>eval/types.go\<close> and \<open>eval/judge.go\<close>, and from \<open>eval/service.go\<close> how one case of a suite is
  run and judged.  Parameters are the loop the case is put to and the model that judges, each
  of which knows what it was asked before.  Instants are milliseconds.
\<close>

section \<open>Types\<close>

record suite =
  su_id :: bytes
  su_name :: bytes
  su_judge_model :: bytes
  su_created_at :: int
  su_updated_at :: int

record criterion_item =
  ci_label :: bytes
  ci_min_score :: int

record eval_case =
  ca_id :: bytes
  ca_suite :: bytes
  ca_name :: bytes
  ca_input :: bytes
  ca_criteria :: bytes
  ca_pass_threshold :: int
  ca_items :: "criterion_item list"
  ca_created_at :: int

record criterion_result =
  cr_label :: bytes
  cr_score :: int
  cr_min_score :: int
  cr_rationale :: bytes
  cr_passed :: bool

record case_result =
  re_case_id :: bytes
  re_case_name :: bytes
  re_response :: bytes
  re_score :: int
  re_rationale :: bytes
  re_passed :: bool
  re_error :: bytes
  re_criteria :: "criterion_result list"

record run_totals =
  to_total :: int
  to_passed :: int
  to_failed :: int

definition default_pass_threshold :: int where
  "default_pass_threshold = 7"

section \<open>The judge's reply\<close>

text \<open>\<open>(?i)score\s*:\s*(\d+)\<close> at the start of a text, and its leftmost match: the digits.\<close>

definition re_blank :: "char \<Rightarrow> bool" where
  "re_blank c = (c \<in> set [CHR '' '', CHR 0x09, CHR 0x0A, CHR 0x0C, CHR 0x0D])"

text \<open>Folding case, \<open>(?i)s\<close> also matches the long s, whose encoding is C5 BF.\<close>

definition after_score :: "bytes \<Rightarrow> bytes option" where
  "after_score s =
     (if to_lower (take 5 s) = ''score'' then Some (drop 5 s)
      else if take 2 s = [CHR 0xC5, CHR 0xBF] \<and> to_lower (take 4 (drop 2 s)) = ''core'' then Some (drop 6 s)
      else None)"

definition score_here :: "bytes \<Rightarrow> bytes option" where
  "score_here s =
     (case after_score s of
        None \<Rightarrow> None
      | Some rest \<Rightarrow>
          (case dropWhile re_blank rest of
             [] \<Rightarrow> None
           | c # r \<Rightarrow>
               if c \<noteq> CHR '':'' then None
               else let ds = takeWhile is_digit (dropWhile re_blank r) in if ds = [] then None else Some ds))"

fun find_score :: "bytes \<Rightarrow> bytes option" where
  "find_score [] = None"
| "find_score (c # s) = (case score_here (c # s) of Some ds \<Rightarrow> Some ds | None \<Rightarrow> find_score s)"

definition rationale_of :: "bytes \<Rightarrow> bytes" where
  "rationale_of line = trim_space (trim_prefix ''rationale:'' (trim_prefix ''Rationale:'' line))"

definition rationale_line :: "bytes \<Rightarrow> bool" where
  "rationale_line line = (line \<noteq> [] \<and> \<not> has_prefix ''score'' (to_lower line))"

definition parse_judge_reply :: "bytes \<Rightarrow> int \<times> bytes" where
  "parse_judge_reply txt =
     (case find_score txt of None \<Rightarrow> 0 | Some ds \<Rightarrow> min 10 (int (digits_val ds)),
      case filter rationale_line (map trim_space (split_on (CHR 0x0A) txt)) of
        [] \<Rightarrow> [] | line # _ \<Rightarrow> rationale_of line)"

section \<open>The prompts\<close>

definition en_dash :: bytes where
  "en_dash = [CHR 0xE2, CHR 0x80, CHR 0x93]"

definition reply_format :: bytes where
  \<open>reply_format = concat [''with 10 = perfect. Reply with two lines: '', [CHR 0x27], ''Score: <n>'', [CHR 0x27],
     '' followed by '', [CHR 0x27], ''Rationale: <one sentence>'', [CHR 0x27], ''.'']\<close>

definition judge_system :: bytes where
  "judge_system = ''You are a careful evaluator. Score the response 0'' @ en_dash @ ''10 against the criteria, '' @ reply_format"

definition criterion_system :: bytes where
  "criterion_system = ''You are a careful evaluator scoring one specific criterion. Score the response 0'' @ en_dash
     @ ''10 against the criterion, '' @ reply_format"

definition labelled :: "bytes \<Rightarrow> bytes \<Rightarrow> bytes" where
  "labelled label txt = label @ '':'' @ newline @ txt"

definition build_judge_prompt :: "eval_case \<Rightarrow> bytes \<Rightarrow> bytes" where
  "build_judge_prompt c response =
     labelled ''Input'' (ca_input c) @ newline @ newline
     @ labelled ''Criteria'' (if ca_criteria c \<noteq> [] then ca_criteria c
         else ''(none specified '' @ em_dash @ '' rate on correctness, helpfulness, and conciseness)'')
     @ newline @ newline @ labelled ''Response'' response"

definition build_criterion_prompt :: "eval_case \<Rightarrow> bytes \<Rightarrow> criterion_item \<Rightarrow> bytes" where
  "build_criterion_prompt c response item =
     labelled ''Input'' (ca_input c) @ newline @ newline
     @ labelled ''Criterion'' (ci_label item)
     @ newline @ newline @ labelled ''Response'' response"

definition judge_request :: "bytes \<Rightarrow> bytes \<Rightarrow> bytes \<Rightarrow> completion_request" where
  "judge_request model system prompt =
     \<lparr>req_messages = [mk_message ''system'' system, mk_message ''user'' prompt], req_model = model,
      req_temperature = None, req_max_tokens = None\<rparr>"

section \<open>One case\<close>

text \<open>
  The state is what has been asked so far: the runs, with their session ids and messages, and
  the requests to the judge.  \<open>ev_ids\<close> are the fresh identifiers.
\<close>

record eval_log =
  el_runs :: "(bytes \<times> bytes) list"
  el_judged :: "completion_request list"

type_synonym judge = "completion_request list \<Rightarrow> completion_request \<Rightarrow> bytes + bytes"

record eval_service =
  ev_runner :: "(bytes \<times> bytes) list \<Rightarrow> bytes \<times> bytes \<Rightarrow> bytes + bytes"
  ev_judge :: "judge option"
  ev_redactor :: "redactor option"
  ev_ids :: "nat \<Rightarrow> bytes"

definition ask_judge :: "judge \<Rightarrow> bytes \<Rightarrow> bytes \<Rightarrow> bytes \<Rightarrow> eval_log \<Rightarrow> eval_log \<times> (bytes + int \<times> bytes)" where
  "ask_judge j model system prompt l =
     (let req = judge_request model system prompt; reply = j (el_judged l) req;
          l = l\<lparr>el_judged := el_judged l @ [req]\<rparr>
      in (l, map_sum id parse_judge_reply reply))"

definition least_score :: "eval_case \<Rightarrow> criterion_item \<Rightarrow> int" where
  "least_score c it = (if ci_min_score it \<le> 0 then ca_pass_threshold c else ci_min_score it)"

definition item_result :: "eval_case \<Rightarrow> criterion_item \<Rightarrow> int \<Rightarrow> bytes \<Rightarrow> criterion_result" where
  "item_result c it score rationale =
     \<lparr>cr_label = ci_label it, cr_score = score, cr_min_score = least_score c it, cr_rationale = rationale,
      cr_passed = (score \<ge> least_score c it)\<rparr>"

text \<open>The loop over the rubric: it ends at the first call of the judge that fails.\<close>

fun judge_items :: "judge \<Rightarrow> bytes \<Rightarrow> eval_case \<Rightarrow> bytes \<Rightarrow> criterion_item list \<Rightarrow> criterion_result list \<Rightarrow> eval_log
    \<Rightarrow> eval_log \<times> (bytes + criterion_result list)" where
  "judge_items j model c response [] results l = (l, Inr results)"
| "judge_items j model c response (it # its) results l =
     (case ask_judge j model criterion_system (build_criterion_prompt c response it) l of
        (l, Inl e) \<Rightarrow> (l, Inl e)
      | (l, Inr (score, rationale)) \<Rightarrow>
          judge_items j model c response its (results @ [item_result c it score rationale]) l)"

definition rollup_rationale :: "criterion_result list \<Rightarrow> bytes" where
  "rollup_rationale rs =
     (if rs = [] then []
      else let passed = length (filter cr_passed rs); failed = length (filter (\<lambda>r. \<not> cr_passed r) rs) in
           if failed = 0 then ''All criteria passed.''
           else if passed = 0 then ''All criteria failed.''
           else itoa (int passed) @ '' of '' @ itoa (int (length rs)) @ '' criteria passed.'')"

definition blank_result :: "eval_case \<Rightarrow> case_result" where
  "blank_result c =
     \<lparr>re_case_id = ca_id c, re_case_name = ca_name c, re_response = [], re_score = 0, re_rationale = [],
      re_passed = False, re_error = [], re_criteria = []\<rparr>"

definition no_judge :: bytes where
  "no_judge = ''eval: no judge llm.Client configured''"

definition run_case :: "eval_service \<Rightarrow> suite \<Rightarrow> eval_case \<Rightarrow> eval_log \<Rightarrow> eval_log \<times> case_result" where
  "run_case s su c l =
     (let out = blank_result c;
          request = (ev_ids s (length (el_runs l)), ca_input c);
          res = ev_runner s (el_runs l) request;
          l = l\<lparr>el_runs := el_runs l @ [request]\<rparr>
      in case res of
           Inl e \<Rightarrow> (l, out\<lparr>re_error := e\<rparr>)
         | Inr final \<Rightarrow>
             let response = redact_apply (ev_redactor s) final;
                 out = out\<lparr>re_response := response\<rparr>
             in (case ev_judge s of
                   None \<Rightarrow> (l, out\<lparr>re_error := no_judge\<rparr>)
                 | Some j \<Rightarrow>
                     if ca_items c \<noteq> []
                     then (case judge_items j (su_judge_model su) c response (ca_items c) [] l of
                             (l, Inl e) \<Rightarrow> (l, out\<lparr>re_error := e\<rparr>)
                           | (l, Inr rs) \<Rightarrow>
                               (l, out\<lparr>re_criteria := rs,
                                       re_score := sum_list (map cr_score rs) div int (length rs),
                                       re_rationale := rollup_rationale rs,
                                       re_passed := list_all cr_passed rs\<rparr>))
                     else (case ask_judge j (su_judge_model su) judge_system (build_judge_prompt c response) l of
                             (l, Inl e) \<Rightarrow> (l, out\<lparr>re_error := e\<rparr>)
                           | (l, Inr (score, rationale)) \<Rightarrow>
                               (l, out\<lparr>re_score := score, re_rationale := rationale,
                                       re_passed := score \<ge> ca_pass_threshold c\<rparr>))))"

fun run_cases :: "eval_service \<Rightarrow> suite \<Rightarrow> eval_case list \<Rightarrow> eval_log \<Rightarrow> eval_log \<times> case_result list" where
  "run_cases s su [] l = (l, [])"
| "run_cases s su (c # cs) l =
     (let (l, r) = run_case s su c l; (l, rs) = run_cases s su cs l in (l, r # rs))"

definition compute_summary :: "case_result list \<Rightarrow> run_totals" where
  "compute_summary rs =
     \<lparr>to_total = int (length rs), to_passed = int (length (filter re_passed rs)),
      to_failed = int (length (filter (\<lambda>r. \<not> re_passed r) rs))\<rparr>"

section \<open>Lemmas\<close>

lemma judged_score: "0 \<le> fst (parse_judge_reply t) \<and> fst (parse_judge_reply t) \<le> 10"
  by (simp add: parse_judge_reply_def split: option.split)

lemma compute_summary_sums: "to_passed (compute_summary rs) + to_failed (compute_summary rs) = to_total (compute_summary rs)"
  by (simp add: compute_summary_def sum_length_filter_compl flip: of_nat_add)

lemma judge_items_results:
  "judge_items j model c response its rs0 l = (l', Inr rs) \<Longrightarrow>
     length rs = length rs0 + length its
     \<and> (\<exists>ss. rs = rs0 @ map (\<lambda>(it, s, r). item_result c it s r) (zip its ss) \<and> length ss = length its
          \<and> (\<forall>x \<in> set ss. 0 \<le> fst x \<and> fst x \<le> 10))"
proof (induction its arbitrary: rs0 l)
  case (Cons it its)
  obtain l1 a where a: "ask_judge j model criterion_system (build_criterion_prompt c response it) l = (l1, a)" by fastforce
  with Cons.prems obtain s r where sr: "a = Inr (s, r)"
    by (cases a) auto
  then have rest: "judge_items j model c response its (rs0 @ [item_result c it s r]) l1 = (l', Inr rs)"
    using Cons.prems a by simp
  have "0 \<le> s \<and> s \<le> 10"
    using a sr judged_score by (auto simp: ask_judge_def Let_def map_sum_def split: sum.splits) (metis fst_conv)+
  moreover from Cons.IH [OF rest] obtain ss where
    "rs = (rs0 @ [item_result c it s r]) @ map (\<lambda>(it, s, r). item_result c it s r) (zip its ss)"
    "length ss = length its" "\<forall>x \<in> set ss. 0 \<le> fst x \<and> fst x \<le> 10" "length rs = length rs0 + 1 + length its" by auto
  ultimately show ?case by (intro conjI exI [of _ "(s, r) # ss"]) auto
qed simp

end
