(* ===== verification/Eval_Store.thy ===== *)
theory Eval_Store
  imports Eval_Judge "HOL-Library.AList"
begin

text \<open>
  The interface \<open>Store\<close> of \<open>eval/store.go\<close> as a record of operations, what the evaluation
  service relies on of it as a contract, and \<open>evalmem/stores.go\<close>, the map-backed store,
  which is shown to keep the contract.  Every method of that store runs under its mutex, so it
  is one step.  The identifiers, the instants and the order in which equal instants come out of
  a map and an unstable sort are parameters.
\<close>

section \<open>The interface\<close>

record eval_run =
  rn_id :: bytes
  rn_suite :: bytes
  rn_status :: bytes
  rn_started_at :: int
  rn_finished_at :: "int option"
  rn_results :: "case_result list"
  rn_summary :: run_totals

definition status_running :: bytes where "status_running = ''running''"
definition status_completed :: bytes where "status_completed = ''completed''"

definition zero_totals :: run_totals where
  "zero_totals = \<lparr>to_total = 0, to_passed = 0, to_failed = 0\<rparr>"

record 'st eval_store =
  es_create_suite :: "'st \<Rightarrow> bytes \<Rightarrow> bytes \<Rightarrow> 'st \<times> (bytes + suite)"
  es_list_suites :: "'st \<Rightarrow> bytes + suite list"
  es_get_suite :: "'st \<Rightarrow> bytes \<Rightarrow> bytes + suite"
  es_delete_suite :: "'st \<Rightarrow> bytes \<Rightarrow> 'st \<times> bytes option"
  es_add_case :: "'st \<Rightarrow> bytes \<Rightarrow> bytes \<Rightarrow> bytes \<Rightarrow> bytes \<Rightarrow> int \<Rightarrow> criterion_item list \<Rightarrow> 'st \<times> (bytes + eval_case)"
  es_list_cases :: "'st \<Rightarrow> bytes \<Rightarrow> bytes + eval_case list"
  es_delete_case :: "'st \<Rightarrow> bytes \<Rightarrow> 'st \<times> bytes option"
  es_create_run :: "'st \<Rightarrow> bytes \<Rightarrow> 'st \<times> (bytes + eval_run)"
  es_finish_run :: "'st \<Rightarrow> bytes \<Rightarrow> bytes \<Rightarrow> case_result list \<Rightarrow> run_totals \<Rightarrow> 'st \<times> bytes option"
  es_list_runs :: "'st \<Rightarrow> bytes \<Rightarrow> bytes + eval_run list"
  es_get_run :: "'st \<Rightarrow> bytes \<Rightarrow> bytes + eval_run"

section \<open>The in-memory store\<close>

text \<open>\<open>mv_clock\<close> counts the reads of the clock and of the generator of identifiers.\<close>

record eval_mem =
  mv_suites :: "(bytes \<times> suite) list"
  mv_cases :: "(bytes \<times> eval_case) list"
  mv_runs :: "(bytes \<times> eval_run) list"
  mv_clock :: nat

record mem_world =
  mw_uuid :: "nat \<Rightarrow> bytes"
  mw_now :: "nat \<Rightarrow> int"
  mw_tie :: "bytes \<Rightarrow> nat"

definition evm_new :: eval_mem where
  "evm_new = \<lparr>mv_suites = [], mv_cases = [], mv_runs = [], mv_clock = 0\<rparr>"

definition evm_tick :: "eval_mem \<Rightarrow> eval_mem" where
  "evm_tick s = s\<lparr>mv_clock := Suc (mv_clock s)\<rparr>"

text \<open>The values of a map in some order, then \<open>sort.Slice\<close>, which keeps no order among equals.\<close>

definition go_sorted :: "mem_world \<Rightarrow> ('a \<Rightarrow> bytes) \<Rightarrow> ('a \<Rightarrow> int) \<Rightarrow> 'a list \<Rightarrow> 'a list" where
  "go_sorted w name key xs = sort_key key (sort_key (\<lambda>x. mw_tie w (name x)) xs)"

definition evm_create_suite :: "mem_world \<Rightarrow> eval_mem \<Rightarrow> bytes \<Rightarrow> bytes \<Rightarrow> eval_mem \<times> (bytes + suite)" where
  "evm_create_suite w s name judge_model =
     (let now = mw_now w (mv_clock s);
          out = \<lparr>su_id = mw_uuid w (mv_clock s), su_name = name, su_judge_model = judge_model,
                 su_created_at = now, su_updated_at = now\<rparr>
      in ((evm_tick s)\<lparr>mv_suites := AList.update (su_id out) out (mv_suites s)\<rparr>, Inr out))"

definition evm_list_suites :: "mem_world \<Rightarrow> eval_mem \<Rightarrow> bytes + suite list" where
  "evm_list_suites w s = Inr (go_sorted w su_id (\<lambda>su. - su_updated_at su) (map snd (mv_suites s)))"

definition evm_get_suite :: "eval_mem \<Rightarrow> bytes \<Rightarrow> bytes + suite" where
  "evm_get_suite s i =
     (case map_of (mv_suites s) i of None \<Rightarrow> Inl ''evalmem: suite not found'' | Some su \<Rightarrow> Inr su)"

definition evm_delete_suite :: "eval_mem \<Rightarrow> bytes \<Rightarrow> eval_mem \<times> bytes option" where
  "evm_delete_suite s i =
     (if map_of (mv_suites s) i = None then (s, None)
      else (s\<lparr>mv_suites := AList.delete i (mv_suites s),
              mv_cases := filter (\<lambda>(_, c). ca_suite c \<noteq> i) (mv_cases s),
              mv_runs := filter (\<lambda>(_, r). rn_suite r \<noteq> i) (mv_runs s)\<rparr>, None))"

definition evm_add_case :: "mem_world \<Rightarrow> eval_mem \<Rightarrow> bytes \<Rightarrow> bytes \<Rightarrow> bytes \<Rightarrow> bytes \<Rightarrow> int \<Rightarrow> criterion_item list
    \<Rightarrow> eval_mem \<times> (bytes + eval_case)" where
  "evm_add_case w s suite_id name input criteria threshold items =
     (let c = \<lparr>ca_id = mw_uuid w (mv_clock s), ca_suite = suite_id, ca_name = name, ca_input = input,
               ca_criteria = criteria, ca_pass_threshold = threshold, ca_items = items,
               ca_created_at = mw_now w (mv_clock s)\<rparr>
      in ((evm_tick s)\<lparr>mv_cases := AList.update (ca_id c) c (mv_cases s)\<rparr>, Inr c))"

definition evm_list_cases :: "mem_world \<Rightarrow> eval_mem \<Rightarrow> bytes \<Rightarrow> bytes + eval_case list" where
  "evm_list_cases w s suite_id =
     Inr (go_sorted w ca_id ca_created_at (filter (\<lambda>c. ca_suite c = suite_id) (map snd (mv_cases s))))"

definition evm_delete_case :: "eval_mem \<Rightarrow> bytes \<Rightarrow> eval_mem \<times> bytes option" where
  "evm_delete_case s i = (s\<lparr>mv_cases := AList.delete i (mv_cases s)\<rparr>, None)"

definition evm_create_run :: "mem_world \<Rightarrow> eval_mem \<Rightarrow> bytes \<Rightarrow> eval_mem \<times> (bytes + eval_run)" where
  "evm_create_run w s suite_id =
     (let r = \<lparr>rn_id = mw_uuid w (mv_clock s), rn_suite = suite_id, rn_status = status_running,
               rn_started_at = mw_now w (mv_clock s), rn_finished_at = None, rn_results = [],
               rn_summary = zero_totals\<rparr>
      in ((evm_tick s)\<lparr>mv_runs := AList.update (rn_id r) r (mv_runs s)\<rparr>, Inr r))"

definition evm_finish_run :: "mem_world \<Rightarrow> eval_mem \<Rightarrow> bytes \<Rightarrow> bytes \<Rightarrow> case_result list \<Rightarrow> run_totals
    \<Rightarrow> eval_mem \<times> bytes option" where
  "evm_finish_run w s i status results summary =
     (case map_of (mv_runs s) i of
        None \<Rightarrow> (s, Some ''evalmem: run not found'')
      | Some r \<Rightarrow>
          let r = r\<lparr>rn_status := status, rn_finished_at := Some (mw_now w (mv_clock s)),
                    rn_results := results, rn_summary := summary\<rparr>
          in ((evm_tick s)\<lparr>mv_runs := AList.update i r (mv_runs s)\<rparr>, None))"

definition evm_list_runs :: "mem_world \<Rightarrow> eval_mem \<Rightarrow> bytes \<Rightarrow> bytes + eval_run list" where
  "evm_list_runs w s suite_id =
     Inr (go_sorted w rn_id (\<lambda>r. - rn_started_at r) (filter (\<lambda>r. rn_suite r = suite_id) (map snd (mv_runs s))))"

definition evm_get_run :: "eval_mem \<Rightarrow> bytes \<Rightarrow> bytes + eval_run" where
  "evm_get_run s i =
     (case map_of (mv_runs s) i of None \<Rightarrow> Inl ''evalmem: run not found'' | Some r \<Rightarrow> Inr r)"

definition evalmem_store :: "mem_world \<Rightarrow> eval_mem eval_store" where
  "evalmem_store w =
     \<lparr>es_create_suite = evm_create_suite w, es_list_suites = evm_list_suites w, es_get_suite = evm_get_suite,
      es_delete_suite = evm_delete_suite, es_add_case = evm_add_case w, es_list_cases = evm_list_cases w,
      es_delete_case = evm_delete_case, es_create_run = evm_create_run w, es_finish_run = evm_finish_run w,
      es_list_runs = evm_list_runs w, es_get_run = evm_get_run\<rparr>"

section \<open>Facts of the store\<close>

lemma set_go_sorted [simp]: "set (go_sorted w name key xs) = set xs"
  by (simp add: go_sorted_def)

lemma sorted_go_sorted: "sorted (map key (go_sorted w name key xs))"
  by (simp add: go_sorted_def)

lemma evm_tick_simps [simp]:
  "mv_suites (evm_tick s) = mv_suites s" "mv_cases (evm_tick s) = mv_cases s" "mv_runs (evm_tick s) = mv_runs s"
  by (simp_all add: evm_tick_def)

text \<open>
  Every entry is filed under its own identifier, once, and every case and run belongs to the
  suite it says.
\<close>

definition filed :: "('a \<Rightarrow> bytes) \<Rightarrow> (bytes \<times> 'a) list \<Rightarrow> bool" where
  "filed name es = (distinct (map fst es) \<and> list_all (\<lambda>(i, x). name x = i) es)"

lemma filed_nil [simp]: "filed name []"
  by (simp add: filed_def)

lemma filed_filter: "filed name es \<Longrightarrow> filed name (filter P es)"
  by (auto simp: filed_def list_all_iff distinct_map_filter)

lemma filed_update:
  assumes "filed name es" and "name x = i"
  shows "filed name (AList.update i x es)"
proof -
  have "name y = j" if "(j, y) \<in> set (AList.update i x es)" for j y
    using that assms by (induction es) (fastforce simp: filed_def list_all_iff split: if_splits)+
  then show ?thesis using assms by (auto simp: filed_def distinct_update list_all_iff)
qed

lemma filed_delete: "filed name es \<Longrightarrow> filed name (AList.delete i es)"
  by (simp add: AList.delete_eq filed_filter)

lemma filed_member: "filed name es \<Longrightarrow> x \<in> set (map snd es) \<longleftrightarrow> map_of es (name x) = Some x"
  by (force simp: filed_def list_all_iff map_of_eq_Some_iff)

definition evm_inv :: "eval_mem \<Rightarrow> bool" where
  "evm_inv s = (filed su_id (mv_suites s) \<and> filed ca_id (mv_cases s) \<and> filed rn_id (mv_runs s))"

lemma evm_inv_new: "evm_inv evm_new"
  by (simp add: evm_inv_def evm_new_def)

lemma evm_inv_keeps:
  assumes "evm_inv s"
  shows "evm_inv (fst (evm_create_suite w s n m))" "evm_inv (fst (evm_delete_suite s i))"
    "evm_inv (fst (evm_add_case w s su n inp cr t its))" "evm_inv (fst (evm_delete_case s i))"
    "evm_inv (fst (evm_create_run w s su))" "evm_inv (fst (evm_finish_run w s i status results summary))"
proof -
  show "evm_inv (fst (evm_finish_run w s i status results summary))"
  proof (cases "map_of (mv_runs s) i")
    case (Some r)
    then have "rn_id r = i"
      using assms by (auto simp: evm_inv_def filed_def list_all_iff dest!: map_of_SomeD)
    then show ?thesis using Some assms by (simp add: evm_inv_def evm_finish_run_def Let_def filed_update)
  qed (simp add: evm_finish_run_def assms)
qed (use assms in \<open>auto simp: evm_inv_def evm_create_suite_def evm_delete_suite_def evm_add_case_def
    evm_delete_case_def evm_create_run_def Let_def filed_update filed_delete filed_filter\<close>)

section \<open>The contract\<close>

text \<open>
  What a caller relies on: what a listing shows is what can be looked up, a run that was created
  is found again, finishing a run touches that run only and writes what it was given, and
  running does not change suites and cases.
\<close>

locale eval_contract =
  fixes S :: "'st eval_store" and inv :: "'st \<Rightarrow> bool"
  assumes inv_create: "inv st \<Longrightarrow> inv (fst (es_create_run S st su))"
    and inv_finish: "inv st \<Longrightarrow> inv (fst (es_finish_run S st i status rs t))"
    and created: "inv st \<Longrightarrow> es_create_run S st su = (st', Inr r) \<Longrightarrow>
      es_get_run S st' (rn_id r) = Inr r \<and> rn_suite r = su \<and> rn_status r = status_running"
    and finished: "inv st \<Longrightarrow> es_get_run S st i = Inr r \<Longrightarrow> es_finish_run S st i status rs t = (st', e) \<Longrightarrow>
      e = None \<Longrightarrow> \<exists>at. es_get_run S st' i =
        Inr (r\<lparr>rn_status := status, rn_finished_at := Some at, rn_results := rs, rn_summary := t\<rparr>)"
    and finished_others: "inv st \<Longrightarrow> es_finish_run S st i status rs t = (st', e) \<Longrightarrow> i \<noteq> j \<Longrightarrow>
      es_get_run S st' j = es_get_run S st j"
    and runs_listed: "inv st \<Longrightarrow> es_list_runs S st su = Inr runs \<Longrightarrow>
      r \<in> set runs \<longleftrightarrow> es_get_run S st (rn_id r) = Inr r \<and> rn_suite r = su"
    and create_keeps_cases: "inv st \<Longrightarrow> es_list_cases S (fst (es_create_run S st su)) su' = es_list_cases S st su'"
    and finish_keeps_cases: "inv st \<Longrightarrow> es_list_cases S (fst (es_finish_run S st i status rs t)) su' = es_list_cases S st su'"

interpretation evalmem: eval_contract "evalmem_store w" evm_inv for w
proof
  fix st st' :: eval_mem and su i j status :: bytes and r rs t e runs su'
  assume inv: "evm_inv st"
  show "evm_inv (fst (es_create_run (evalmem_store w) st su))"
    "evm_inv (fst (es_finish_run (evalmem_store w) st i status rs t))"
    using inv by (simp_all add: evalmem_store_def evm_inv_keeps)
  show "es_get_run (evalmem_store w) st' (rn_id r) = Inr r \<and> rn_suite r = su \<and> rn_status r = status_running"
    if "es_create_run (evalmem_store w) st su = (st', Inr r)"
    using that by (auto simp: evalmem_store_def evm_create_run_def evm_get_run_def Let_def update_conv')
  show "es_list_cases (evalmem_store w) (fst (es_create_run (evalmem_store w) st su)) su' = es_list_cases (evalmem_store w) st su'"
    by (simp add: evalmem_store_def evm_create_run_def evm_list_cases_def Let_def)
  show "es_list_cases (evalmem_store w) (fst (es_finish_run (evalmem_store w) st i status rs t)) su' = es_list_cases (evalmem_store w) st su'"
    by (simp add: evalmem_store_def evm_finish_run_def evm_list_cases_def Let_def split: option.split)
  show "\<exists>at. es_get_run (evalmem_store w) st' i =
      Inr (r\<lparr>rn_status := status, rn_finished_at := Some at, rn_results := rs, rn_summary := t\<rparr>)"
    if "es_get_run (evalmem_store w) st i = Inr r" "es_finish_run (evalmem_store w) st i status rs t = (st', e)"
    using that by (auto simp: evalmem_store_def evm_finish_run_def evm_get_run_def Let_def update_conv' split: option.splits)
  show "es_get_run (evalmem_store w) st' j = es_get_run (evalmem_store w) st j"
    if "es_finish_run (evalmem_store w) st i status rs t = (st', e)" "i \<noteq> j"
    using that by (auto simp: evalmem_store_def evm_finish_run_def evm_get_run_def Let_def update_conv' split: option.splits)
  show "r \<in> set runs \<longleftrightarrow> es_get_run (evalmem_store w) st (rn_id r) = Inr r \<and> rn_suite r = su"
    if "es_list_runs (evalmem_store w) st su = Inr runs"
  proof -
    have "runs = go_sorted w rn_id (\<lambda>r. - rn_started_at r) (filter (\<lambda>r. rn_suite r = su) (map snd (mv_runs st)))"
      using that by (simp add: evalmem_store_def evm_list_runs_def)
    then have "r \<in> set runs \<longleftrightarrow> r \<in> set (map snd (mv_runs st)) \<and> rn_suite r = su" by auto
    also have "\<dots> \<longleftrightarrow> map_of (mv_runs st) (rn_id r) = Some r \<and> rn_suite r = su"
      using inv filed_member [of rn_id "mv_runs st" r] by (simp only: evm_inv_def)
    finally show ?thesis by (auto simp: evalmem_store_def evm_get_run_def split: option.split)
  qed
qed

end
