(* ===== verification/Eval_Service.thy ===== *)
theory Eval_Service
  imports Eval_Store
begin

text \<open>
  \<open>eval/service.go\<close> over any store: construction, the operations that pass through, the
  defaults of a new case, and the run of a suite with its error paths; then what a run leaves
  behind, proved once for every store that keeps the contract.
\<close>

section \<open>The service\<close>

record 'st harness =
  ha_store :: "'st eval_store"
  ha_agent :: eval_service

type_synonym eval_runner = "(bytes \<times> bytes) list \<Rightarrow> bytes \<times> bytes \<Rightarrow> bytes + bytes"

text \<open>A missing store or runner is a panic.\<close>

definition new_service :: "'st eval_store option \<Rightarrow> eval_runner option \<Rightarrow> judge option \<Rightarrow> redactor option
    \<Rightarrow> (nat \<Rightarrow> bytes) \<Rightarrow> bytes + 'st harness" where
  "new_service store runner judge red ids =
     (case store of
        None \<Rightarrow> Inl ''eval: store is required''
      | Some S \<Rightarrow>
          (case runner of
             None \<Rightarrow> Inl ''eval: runner is required''
           | Some r \<Rightarrow>
               Inr \<lparr>ha_store = S,
                    ha_agent = \<lparr>ev_runner = r, ev_judge = judge, ev_redactor = red, ev_ids = ids\<rparr>\<rparr>))"

definition create_suite :: "'st harness \<Rightarrow> 'st \<Rightarrow> bytes \<Rightarrow> bytes \<Rightarrow> 'st \<times> (bytes + suite)" where
  "create_suite h st name judge_model =
     (if name = [] then (st, Inl ''eval: name required'')
      else es_create_suite (ha_store h) st name judge_model)"

definition list_suites :: "'st harness \<Rightarrow> 'st \<Rightarrow> bytes + suite list" where
  "list_suites h st = es_list_suites (ha_store h) st"

definition delete_suite :: "'st harness \<Rightarrow> 'st \<Rightarrow> bytes \<Rightarrow> 'st \<times> bytes option" where
  "delete_suite h st i = es_delete_suite (ha_store h) st i"

text \<open>The defaults are written into the caller's slice, which is the third result.\<close>

definition item_default :: "int \<Rightarrow> criterion_item \<Rightarrow> criterion_item" where
  "item_default threshold it = (if ci_min_score it \<le> 0 then it\<lparr>ci_min_score := threshold\<rparr> else it)"

definition add_case :: "'st harness \<Rightarrow> 'st \<Rightarrow> bytes \<Rightarrow> bytes \<Rightarrow> bytes \<Rightarrow> bytes \<Rightarrow> int \<Rightarrow> criterion_item list
    \<Rightarrow> 'st \<times> (bytes + eval_case) \<times> criterion_item list" where
  "add_case h st suite_id name input criteria threshold items =
     (let threshold = (if threshold \<le> 0 then default_pass_threshold else threshold);
          items = map (item_default threshold) items;
          (st, out) = es_add_case (ha_store h) st suite_id name input criteria threshold items
      in (st, out, items))"

definition list_cases :: "'st harness \<Rightarrow> 'st \<Rightarrow> bytes \<Rightarrow> bytes + eval_case list" where
  "list_cases h st suite_id = es_list_cases (ha_store h) st suite_id"

definition delete_case :: "'st harness \<Rightarrow> 'st \<Rightarrow> bytes \<Rightarrow> 'st \<times> bytes option" where
  "delete_case h st i = es_delete_case (ha_store h) st i"

definition list_runs :: "'st harness \<Rightarrow> 'st \<Rightarrow> bytes \<Rightarrow> bytes + eval_run list" where
  "list_runs h st suite_id = es_list_runs (ha_store h) st suite_id"

definition get_run :: "'st harness \<Rightarrow> 'st \<Rightarrow> bytes \<Rightarrow> bytes + eval_run" where
  "get_run h st i = es_get_run (ha_store h) st i"

text \<open>\<open>now\<close> is the instant at which the finished run is handed back.\<close>

definition run_suite :: "'st harness \<Rightarrow> int \<Rightarrow> 'st \<Rightarrow> eval_log \<Rightarrow> bytes \<Rightarrow> 'st \<times> eval_log \<times> (bytes + eval_run)" where
  "run_suite h now st l i =
     (case es_get_suite (ha_store h) st i of
        Inl e \<Rightarrow> (st, l, Inl (''eval: get suite: '' @ e))
      | Inr su \<Rightarrow>
     (case es_list_cases (ha_store h) st i of
        Inl e \<Rightarrow> (st, l, Inl (''eval: list cases: '' @ e))
      | Inr cases \<Rightarrow>
     (case es_create_run (ha_store h) st i of
        (st, Inl e) \<Rightarrow> (st, l, Inl (''eval: create run: '' @ e))
      | (st, Inr run) \<Rightarrow>
          let (l, results) = run_cases (ha_agent h) su cases l; summary = compute_summary results in
     (case es_finish_run (ha_store h) st (rn_id run) status_completed results summary of
        (st, Some e) \<Rightarrow> (st, l, Inl (''eval: finish run: '' @ e))
      | (st, None) \<Rightarrow>
          (st, l, Inr (run\<lparr>rn_status := status_completed, rn_finished_at := Some now,
                           rn_results := results, rn_summary := summary\<rparr>))))))"

section \<open>Cases and results\<close>

lemma blank_result_simps [simp]:
  "re_case_id (blank_result c) = ca_id c" "re_case_name (blank_result c) = ca_name c"
  "re_response (blank_result c) = []" "re_score (blank_result c) = 0" "\<not> re_passed (blank_result c)"
  "re_criteria (blank_result c) = []" "re_error (blank_result c) = []"
  by (simp_all add: blank_result_def)

lemma run_case_names: "re_case_id (snd (run_case s su c l)) = ca_id c \<and> re_case_name (snd (run_case s su c l)) = ca_name c"
  by (auto simp: run_case_def Let_def split: sum.split option.split prod.split)

lemma run_cases_names:
  "map (\<lambda>r. (re_case_id r, re_case_name r)) (snd (run_cases s su cs l)) = map (\<lambda>c. (ca_id c, ca_name c)) cs"
  by (induction cs arbitrary: l) (use run_case_names in \<open>auto simp: Let_def split: prod.split\<close>, (metis snd_conv)+)

lemma run_cases_length: "length (snd (run_cases s su cs l)) = length cs"
  using run_cases_names [of s su cs l] by (metis length_map)

lemma item_result_simps [simp]:
  "cr_label (item_result c it s r) = ci_label it" "cr_score (item_result c it s r) = s"
  "cr_min_score (item_result c it s r) = least_score c it" "cr_rationale (item_result c it s r) = r"
  "cr_passed (item_result c it s r) \<longleftrightarrow> least_score c it \<le> s"
  by (simp_all add: item_result_def)

lemma judge_items_verdicts:
  assumes "judge_items j model c response its [] l = (l', Inr rs)"
  shows "list_all2 (\<lambda>it x. cr_label x = ci_label it \<and> cr_min_score x = least_score c it
      \<and> cr_passed x = (least_score c it \<le> cr_score x) \<and> 0 \<le> cr_score x \<and> cr_score x \<le> 10) its rs"
proof -
  obtain ss where rs: "rs = map (\<lambda>(it, s, r). item_result c it s r) (zip its ss)" "length ss = length its"
    "\<forall>x \<in> set ss. 0 \<le> fst x \<and> fst x \<le> 10"
    using judge_items_results [OF assms] by auto
  have "list_all2 (\<lambda>it x. 0 \<le> fst x \<and> fst x \<le> 10) its ss"
    using rs by (auto simp: list_all2_conv_all_nth)
  then show ?thesis
    unfolding rs(1) by (induction its ss rule: list_all2_induct) (auto split: prod.split)
qed

lemma average_bounds:
  assumes "xs \<noteq> []" and "list_all (\<lambda>x. 0 \<le> x \<and> x \<le> (10 :: int)) xs"
  shows "0 \<le> sum_list xs div int (length xs) \<and> sum_list xs div int (length xs) \<le> 10"
proof -
  have "0 \<le> sum_list xs \<and> sum_list xs \<le> 10 * int (length xs)"
    using assms(2) by (induction xs) auto
  moreover have "0 < int (length xs)" using assms(1) by simp
  ultimately show ?thesis
    by (metis div_by_0 mult.commute nonzero_mult_div_cancel_left order_less_irrefl pos_imp_zdiv_nonneg_iff zdiv_mono1)
qed

text \<open>What a case's result says, on each way out of \<open>runCase\<close>.\<close>

lemma run_case_cases:
  obtains (failed) "\<not> re_passed (snd (run_case s su c l))" "re_score (snd (run_case s su c l)) = 0"
      "re_criteria (snd (run_case s su c l)) = []"
  | (rubric) rs j l1 l2 response where "ca_items c \<noteq> []" "judge_items j (su_judge_model su) c response (ca_items c) [] l1 = (l2, Inr rs)"
      "re_criteria (snd (run_case s su c l)) = rs" "re_score (snd (run_case s su c l)) = sum_list (map cr_score rs) div int (length rs)"
      "re_passed (snd (run_case s su c l)) = list_all cr_passed rs"
  | (single) t where "ca_items c = []" "re_criteria (snd (run_case s su c l)) = []"
      "re_score (snd (run_case s su c l)) = fst (parse_judge_reply t)"
      "re_passed (snd (run_case s su c l)) = (ca_pass_threshold c \<le> re_score (snd (run_case s su c l)))"
proof (cases "ev_runner s (el_runs l) (ev_ids s (length (el_runs l)), ca_input c)")
  case (Inl e)
  then show ?thesis by (intro failed) (simp_all add: run_case_def Let_def)
next
  case (Inr final)
  note run = Inr
  show ?thesis
  proof (cases "ev_judge s")
    case None
    then show ?thesis by (intro failed) (simp_all add: run_case_def Let_def run)
  next
    case (Some j)
    let ?l = "l\<lparr>el_runs := el_runs l @ [(ev_ids s (length (el_runs l)), ca_input c)]\<rparr>"
    let ?response = "redact_apply (ev_redactor s) final"
    show ?thesis
    proof (cases "ca_items c = []")
      case True
      show ?thesis
      proof (cases "j (el_judged ?l) (judge_request (su_judge_model su) judge_system (build_judge_prompt c ?response))")
        case (Inl e)
        with True Some run show ?thesis
          by (intro failed) (simp_all add: run_case_def Let_def ask_judge_def)
      next
        case (Inr t)
        with True Some run show ?thesis
          by (intro single [of t]) (simp_all add: run_case_def Let_def ask_judge_def split: prod.split)
      qed
    next
      case False
      obtain l2 a where a: "judge_items j (su_judge_model su) c ?response (ca_items c) [] ?l = (l2, a)" by fastforce
      show ?thesis
      proof (cases a)
        case (Inl e)
        with a False Some run show ?thesis by (intro failed) (simp_all add: run_case_def Let_def)
      next
        case (Inr rs)
        with a False Some run show ?thesis
          by (intro rubric [of j ?response ?l l2 rs]) (simp_all add: run_case_def Let_def)
      qed
    qed
  qed
qed

section \<open>Verdicts\<close>

text \<open>C27 A case passes exactly when it should.  With a rubric: when every item of it was judged, in
  order, each with at least its own minimum (the case's threshold where the item sets none).
  Without: when the judge's score reaches the threshold.  A case whose agent or judge fails, or
  that has no judge, does not pass; and no score ever leaves the scale from 0 to 10.\<close>

theorem case_verdict:
  "(if ca_items c \<noteq> []
    then re_passed (snd (run_case s su c l)) = list_all2
        (\<lambda>it x. cr_label x = ci_label it \<and> least_score c it \<le> cr_score x) (ca_items c) (re_criteria (snd (run_case s su c l)))
    else if 0 < ca_pass_threshold c
    then re_passed (snd (run_case s su c l)) = (ca_pass_threshold c \<le> re_score (snd (run_case s su c l)))
    else True)
   \<and> 0 \<le> re_score (snd (run_case s su c l)) \<and> re_score (snd (run_case s su c l)) \<le> 10
   \<and> list_all (\<lambda>x. 0 \<le> cr_score x \<and> cr_score x \<le> 10) (re_criteria (snd (run_case s su c l)))"
proof (cases rule: run_case_cases [of s su c l])
  case failed
  then show ?thesis by auto
next
  case (single t)
  then show ?thesis using judged_score [of t] by simp
next
  case (rubric rs j l1 l2 response)
  note v = judge_items_verdicts [OF rubric(2)]
  have bounds: "list_all (\<lambda>x. 0 \<le> cr_score x \<and> cr_score x \<le> 10) rs"
    using v by (induction rule: list_all2_induct) auto
  moreover have "rs \<noteq> []" using v rubric(1) by auto
  ultimately have "0 \<le> sum_list (map cr_score rs) div int (length rs) \<and> sum_list (map cr_score rs) div int (length rs) \<le> 10"
    using average_bounds [of "map cr_score rs"] by (simp add: list_all_iff)
  moreover have "list_all cr_passed rs \<longleftrightarrow>
      list_all2 (\<lambda>it x. cr_label x = ci_label it \<and> least_score c it \<le> cr_score x) (ca_items c) rs"
    using v by (induction rule: list_all2_induct) auto
  ultimately show ?thesis using rubric bounds by simp
qed

text \<open>Cases added through the service have positive thresholds, so the verdict above always applies.\<close>

lemma add_case_thresholds:
  "snd (add_case h st su n inp cr t its) = (out, items) \<Longrightarrow>
     list_all (\<lambda>it. 0 < ci_min_score it) items"
  by (auto simp: add_case_def Let_def list_all_iff item_default_def default_pass_threshold_def split: prod.splits)

section \<open>Secrets\<close>

text \<open>Two agents that differ in nothing a redaction lets through.\<close>

definition same_redacted :: "redactor option \<Rightarrow> bytes + bytes \<Rightarrow> bytes + bytes \<Rightarrow> bool" where
  "same_redacted red a b = (map_sum id (redact_apply red) a = map_sum id (redact_apply red) b)"

lemma same_redacted_cases:
  "same_redacted red a b \<Longrightarrow>
     (\<exists>e. a = Inl e \<and> b = Inl e) \<or> (\<exists>x y. a = Inr x \<and> b = Inr y \<and> redact_apply red x = redact_apply red y)"
  by (cases a; cases b) (auto simp: same_redacted_def)

lemma run_case_redacted:
  assumes "\<And>log req. same_redacted (ev_redactor s) (ev_runner s log req) (r log req)"
  shows "run_case (s\<lparr>ev_runner := r\<rparr>) su c l = run_case s su c l"
  using same_redacted_cases [OF assms [of "el_runs l" "(ev_ids s (length (el_runs l)), ca_input c)"]]
  by (auto simp: run_case_def Let_def)

lemma run_case_response:
  "re_response (snd (run_case s su c l)) = [] \<or> (\<exists>x. re_response (snd (run_case s su c l)) = redact_apply (ev_redactor s) x)"
  by (auto simp: run_case_def Let_def split: sum.split option.split prod.split)

lemma run_cases_redacted:
  "(\<And>log req. same_redacted (ev_redactor s) (ev_runner s log req) (r log req)) \<Longrightarrow>
     run_cases (s\<lparr>ev_runner := r\<rparr>) su cs l = run_cases s su cs l"
  by (induction cs arbitrary: l) (auto simp: run_case_redacted split: prod.split)

lemma run_cases_response:
  "x \<in> set (snd (run_cases s su cs l)) \<Longrightarrow> re_response x = [] \<or> (\<exists>y. re_response x = redact_apply (ev_redactor s) y)"
proof (induction cs arbitrary: l)
  case (Cons c cs)
  then show ?case using run_case_response [of s su c l] by (auto simp: Let_def split: prod.splits) (metis snd_conv)+
qed simp

text \<open>C28 What the redactor hides reaches neither the judge nor the stored run: no recorded
  response contains a secret value, and replacing the agent by one whose answers differ only in
  what is redacted changes no request to the judge, no result and nothing in the store.\<close>

theorem evaluation_redacts:
  assumes "ev_redactor (ha_agent h) = from_secrets secrets" and "from_secrets secrets = Some es" and "placeholders_foreign es"
    and "(k, v) \<in> set secrets" and "v \<noteq> []"
    and "\<And>log req. same_redacted (ev_redactor (ha_agent h)) (ev_runner (ha_agent h) log req) (r log req)"
  shows "list_all (\<lambda>x. \<not> contains v (re_response x)) (snd (run_cases (ha_agent h) su cs l))
    \<and> run_suite (h\<lparr>ha_agent := (ha_agent h)\<lparr>ev_runner := r\<rparr>\<rparr>) now st l i = run_suite h now st l i"
proof
  obtain e where e: "e \<in> set es" "secret_value e = v"
    using set_from_secrets [OF assms(2)] assms(4,5) by force
  have "\<not> contains v (redact_apply (from_secrets secrets) x)" for x
    using apply_removes [of es e x] assms(2,3) e by (simp add: redact_apply_def placeholders_foreign_def)
  then show "list_all (\<lambda>x. \<not> contains v (re_response x)) (snd (run_cases (ha_agent h) su cs l))"
    using run_cases_response [of _ "ha_agent h" su cs l] assms(1,5)
    by (auto simp: list_all_iff) (metis contains_nil)
  show "run_suite (h\<lparr>ha_agent := (ha_agent h)\<lparr>ev_runner := r\<rparr>\<rparr>) now st l i = run_suite h now st l i"
    by (simp add: run_suite_def run_cases_redacted [OF assms(6)] split: sum.split prod.split)
qed

section \<open>The run of a suite\<close>

context eval_contract begin

lemma run_suite_recorded:
  assumes "inv st" and "ha_store h = S" and "run_suite h now st l i = (st', l', Inr run)"
  shows "inv st' \<and> rn_suite run = i \<and> rn_status run = status_completed
    \<and> rn_summary run = compute_summary (rn_results run)
    \<and> (\<exists>at. es_get_run S st' (rn_id run) = Inr (run\<lparr>rn_finished_at := Some at\<rparr>))"
proof -
  obtain su cases st1 r where run: "es_get_suite S st i = Inr su" "es_list_cases S st i = Inr cases"
      "es_create_run S st i = (st1, Inr r)"
    using assms(2,3) by (auto simp: run_suite_def split: sum.splits prod.splits)
  obtain l2 rs where rs: "run_cases (ha_agent h) su cases l = (l2, rs)" by fastforce
  have fin: "es_finish_run S st1 (rn_id r) status_completed rs (compute_summary rs) = (st', None)"
    and out: "run = r\<lparr>rn_status := status_completed, rn_finished_at := Some now, rn_results := rs, rn_summary := compute_summary rs\<rparr>"
    using assms(2,3) run rs by (auto simp: run_suite_def Let_def split: prod.splits option.splits)
  have inv1: "inv st1" using inv_create [OF assms(1), of i] run(3) by simp
  note c = created [OF assms(1) run(3)]
  have "inv st'" using inv_finish [OF inv1, of "rn_id r" status_completed rs "compute_summary rs"] fin by simp
  moreover from finished [OF inv1 conjunct1 [OF c] fin refl] obtain at where
    "es_get_run S st' (rn_id r) = Inr (r\<lparr>rn_status := status_completed, rn_finished_at := Some at,
       rn_results := rs, rn_summary := compute_summary rs\<rparr>)" by blast
  ultimately show ?thesis using c by (auto simp: out intro!: exI [of _ at])
qed

text \<open>So a recorded run shows up in the listing of its suite.\<close>

lemma run_suite_listed:
  assumes "inv st" and "ha_store h = S" and "run_suite h now st l i = (st', l', Inr run)"
    and "es_list_runs S st' i = Inr runs"
  shows "\<exists>at. run\<lparr>rn_finished_at := Some at\<rparr> \<in> set runs"
proof -
  note r = run_suite_recorded [OF assms(1-3)]
  then obtain at where "es_get_run S st' (rn_id run) = Inr (run\<lparr>rn_finished_at := Some at\<rparr>)" by blast
  then have "run\<lparr>rn_finished_at := Some at\<rparr> \<in> set runs"
    using runs_listed [of st' i runs "run\<lparr>rn_finished_at := Some at\<rparr>"] r assms(4) by simp
  then show ?thesis ..
qed

end

lemma evalmem_run_total:
  assumes "ha_store h = evalmem_store w" and "map_of (mv_suites st) i = Some su"
  obtains st' l' run where "run_suite h now st l i = (st', l', Inr run)"
    "evm_list_cases w st i = Inr cases \<Longrightarrow> (l', rn_results run) = run_cases (ha_agent h) su cases l"
proof -
  obtain cases where c: "evm_list_cases w st i = Inr cases" by (simp add: evm_list_cases_def)
  obtain l' rs where rs: "run_cases (ha_agent h) su cases l = (l', rs)" by fastforce
  show thesis
    by (rule that [of "fst (run_suite h now st l i)" "fst (snd (run_suite h now st l i))"])
      (use assms c rs in \<open>auto simp: run_suite_def evalmem_store_def evm_get_suite_def evm_create_run_def
          evm_finish_run_def update_conv' Let_def\<close>)
qed

text \<open>Running a suite over the in-memory store.  An unknown suite is an error and nothing is
  asked of anyone.  Otherwise the run completes, whatever the agent and the judge answer: it has
  one result per case, in the order in which the cases are listed, its totals add up to the number
  of cases, and the store answers the same run, by its identifier and in the listing of the suite,
  but for the instant at which it finished.\<close>

theorem suite_run_recorded:
  assumes "evm_inv st" and "ha_store h = evalmem_store w"
  shows "case map_of (mv_suites st) i of
      None \<Rightarrow> run_suite h now st l i = (st, l, Inl ''eval: get suite: evalmem: suite not found'')
    | Some su \<Rightarrow>
        \<exists>st' l' run cases runs at. run_suite h now st l i = (st', l', Inr run) \<and> evm_inv st'
          \<and> evm_list_cases w st i = Inr cases \<and> (l', rn_results run) = run_cases (ha_agent h) su cases l
          \<and> map re_case_id (rn_results run) = map ca_id cases
          \<and> rn_status run = status_completed
          \<and> to_total (rn_summary run) = int (length cases)
          \<and> to_passed (rn_summary run) + to_failed (rn_summary run) = int (length cases)
          \<and> evm_get_run st' (rn_id run) = Inr (run\<lparr>rn_finished_at := Some at\<rparr>)
          \<and> evm_list_runs w st' i = Inr runs \<and> run\<lparr>rn_finished_at := Some at\<rparr> \<in> set runs"
proof (cases "map_of (mv_suites st) i")
  case None
  with assms(2) show ?thesis by (simp add: run_suite_def evalmem_store_def evm_get_suite_def)
next
  case (Some su)
  obtain cases where c: "evm_list_cases w st i = Inr cases" by (simp add: evm_list_cases_def)
  obtain st' l' run where run: "run_suite h now st l i = (st', l', Inr run)"
    and rs: "(l', rn_results run) = run_cases (ha_agent h) su cases l"
    using evalmem_run_total [OF assms(2) Some] c by metis
  note rec = evalmem.run_suite_recorded [OF assms run]
  have "map re_case_id (rn_results run) = map ca_id cases"
    using run_cases_names [of "ha_agent h" su cases l] arg_cong [OF rs, of snd]
    by (auto dest: arg_cong [where f = "map fst"] simp: comp_def)
  moreover from this have "length (rn_results run) = length cases" by (metis length_map)
  moreover obtain runs where runs: "evm_list_runs w st' i = Inr runs" by (simp add: evm_list_runs_def)
  moreover from rec obtain at where at: "evm_get_run st' (rn_id run) = Inr (run\<lparr>rn_finished_at := Some at\<rparr>)"
    by (auto simp: evalmem_store_def)
  moreover have "run\<lparr>rn_finished_at := Some at\<rparr> \<in> set runs"
    using evalmem.runs_listed [of st' w i runs "run\<lparr>rn_finished_at := Some at\<rparr>"] rec runs at
    by (simp add: evalmem_store_def)
  ultimately show ?thesis
    using rec run rs c Some compute_summary_sums [of "rn_results run"]
    by (auto simp: compute_summary_def intro!: exI)
qed

text \<open>Deleting a suite forgets it with its cases and runs, and nothing else; a case stays with
  the suite it was added to.\<close>

theorem delete_cascades:
  "(case evm_delete_suite st i of (st', e) \<Rightarrow>
      e = None \<and> map_of (mv_suites st') = (map_of (mv_suites st))(i := None)
      \<and> (if map_of (mv_suites st) i \<noteq> None
         then evm_list_cases w st' i = Inr [] \<and> evm_list_runs w st' i = Inr [] else st' = st)
      \<and> (if j \<noteq> i then evm_list_cases w st' j = evm_list_cases w st j \<and> evm_list_runs w st' j = evm_list_runs w st j
         else True))"
proof -
  have keep: "filter (\<lambda>x. f x = j) (map snd (filter (\<lambda>(_, x). f x \<noteq> i) es)) =
      (if j = i then [] else filter (\<lambda>x. f x = j) (map snd es))" for f :: "'b \<Rightarrow> bytes" and es :: "(bytes \<times> 'b) list" and j
    by (induction es) auto
  have empty: "go_sorted w name key [] = []" for name :: "'b \<Rightarrow> bytes" and key
    by (simp add: go_sorted_def)
  show ?thesis
    by (auto simp: evm_delete_suite_def delete_conv' evm_list_cases_def evm_list_runs_def keep empty go_sorted_def)
qed

section \<open>An example\<close>

text \<open>An agent that tells the password, a judge that is content, a suite of one case.\<close>

definition telling :: "bytes \<Rightarrow> eval_runner" where
  "telling pw log req = Inr (''it is '' @ pw)"

definition example_world :: mem_world where
  "example_world = \<lparr>mw_uuid = (\<lambda>n. replicate n (CHR ''x'')), mw_now = int, mw_tie = length\<rparr>"

definition example_harness :: "redactor option \<Rightarrow> eval_mem harness" where
  "example_harness red =
     \<lparr>ha_store = evalmem_store example_world,
      ha_agent = \<lparr>ev_runner = telling ''hunter2'', ev_judge = Some (\<lambda>asked req. Inr ''Score: 9''),
                  ev_redactor = red, ev_ids = (\<lambda>n. replicate n (CHR ''s''))\<rparr>\<rparr>"

definition empty_log :: eval_log where
  "empty_log = \<lparr>el_runs = [], el_judged = []\<rparr>"

definition example_suite :: suite where
  "example_suite = \<lparr>su_id = [], su_name = ''demo'', su_judge_model = [], su_created_at = 0, su_updated_at = 0\<rparr>"

definition example_case :: eval_case where
  "example_case = \<lparr>ca_id = ''x'', ca_suite = [], ca_name = ''one'', ca_input = ''hello'', ca_criteria = [],
     ca_pass_threshold = 7, ca_items = [], ca_created_at = 1\<rparr>"

lemma suite_run_recorded_witness:
  "\<exists>st su. map_of (mv_suites st) [] = Some su
     \<and> (\<exists>st' l' run. run_suite (example_harness None) 5 st empty_log [] = (st', l', Inr run)
          \<and> rn_status run = status_completed \<and> to_total (rn_summary run) = 1)"
proof -
  define s1 where "s1 = fst (evm_create_suite example_world evm_new ''demo'' [])"
  define st where "st = fst (evm_add_case example_world s1 [] ''one'' ''hello'' [] 7 [])"
  have inv: "evm_inv st"
    unfolding st_def s1_def by (intro evm_inv_keeps evm_inv_new)
  have su: "map_of (mv_suites st) [] = Some example_suite"
    by (simp add: st_def s1_def evm_add_case_def evm_create_suite_def evm_new_def example_world_def example_suite_def Let_def)
  have one: "\<exists>c. evm_list_cases example_world st [] = Inr [c]"
    by (simp add: st_def s1_def evm_add_case_def evm_create_suite_def evm_new_def example_world_def Let_def
        evm_list_cases_def go_sorted_def)
  have "ha_store (example_harness None) = evalmem_store example_world" by (simp add: example_harness_def)
  from suite_run_recorded [OF inv this, where i = "[]" and now = 5 and l = "empty_log"] su one
  show ?thesis by fastforce
qed

lemma evaluation_redacts_witness:
  "list_all (\<lambda>x. \<not> contains ''hunter2'' (re_response x))
     (snd (run_cases (ha_agent (example_harness (from_secrets [(''PW'', ''hunter2'')]))) example_suite [example_case] empty_log))
   \<and> run_suite ((example_harness (from_secrets [(''PW'', ''hunter2'')]))\<lparr>ha_agent :=
         (ha_agent (example_harness (from_secrets [(''PW'', ''hunter2'')])))\<lparr>ev_runner := telling (secret_tag ''PW'')\<rparr>\<rparr>) 5 evm_new empty_log []
     = run_suite (example_harness (from_secrets [(''PW'', ''hunter2'')])) 5 evm_new empty_log []"
proof -
  let ?es = "[\<lparr>secret_value = ''hunter2'', secret_placeholder = secret_tag ''PW''\<rparr>]"
  have f: "from_secrets [(''PW'', ''hunter2'')] = Some ?es"
    by (simp add: from_secrets_def new_redactor_def)
  have p: "placeholders_foreign ?es"
    unfolding placeholders_foreign_def by (simp, rule foreign_secret) (simp_all add: contains_def secret_tag_def)
  have h: "ev_redactor (ha_agent (example_harness (from_secrets [(''PW'', ''hunter2'')]))) = from_secrets [(''PW'', ''hunter2'')]"
    by (simp add: example_harness_def)
  have "same_redacted (from_secrets [(''PW'', ''hunter2'')]) (telling ''hunter2'' log req) (telling (secret_tag ''PW'') log req)" for log req
    unfolding f same_redacted_def telling_def redact_apply_def by code_simp
  then have r: "same_redacted (ev_redactor (ha_agent (example_harness (from_secrets [(''PW'', ''hunter2'')]))))
      (ev_runner (ha_agent (example_harness (from_secrets [(''PW'', ''hunter2'')]))) log req) (telling (secret_tag ''PW'') log req)" for log req
    by (simp add: example_harness_def)
  show ?thesis by (rule evaluation_redacts [OF h f p _ _ r, of "''PW''" "''hunter2''"]) simp_all
qed

end
