(* ===== verification/Project_Locate.thy ===== *)
theory Project_Locate
  imports Go_Path Sandbox_Policy
begin

text \<open>
  \<open>projectctx/workspace.go\<close>: where a project begins, and whether a name stays inside it.  The
  disk is a parameter, a record of what each call to the system answers; names are those of a
  Unix system.
\<close>

datatype disk_read = Absent | Unreadable bytes | Content bytes

record disk =
  dk_getwd :: "bytes + bytes"
  dk_exists :: "bytes \<Rightarrow> bool"
  dk_lexists :: "bytes \<Rightarrow> bool"
  dk_resolve :: "bytes \<Rightarrow> bytes + bytes"
  dk_read :: "bytes \<Rightarrow> disk_read"
  dk_open_root :: "bytes \<Rightarrow> bytes option"
  dk_read_in :: "bytes \<Rightarrow> bytes \<Rightarrow> disk_read"

section \<open>Locating the project\<close>

text \<open>\<open>filepath.Abs\<close>, and \<open>filepath.Rel\<close> of two absolute names.\<close>

definition path_abs :: "disk \<Rightarrow> bytes \<Rightarrow> bytes + bytes" where
  "path_abs d p =
     (if has_prefix slash p then Inr (path_clean p)
      else map_sum id (\<lambda>wd. path_join wd p) (dk_getwd d))"

fun strip_common :: "bytes list \<Rightarrow> bytes list \<Rightarrow> bytes list \<times> bytes list" where
  "strip_common (b # bs) (t # ts) = (if b = t then strip_common bs ts else (b # bs, t # ts))"
| "strip_common bs ts = (bs, ts)"

definition path_rel :: "bytes \<Rightarrow> bytes \<Rightarrow> bytes" where
  "path_rel base targ =
     (let (bs, ts) = strip_common (clean_elements True base) (clean_elements True targ);
          es = replicate (length bs) ''..'' @ ts
      in if es = [] then ''.'' else join_with slash es)"

definition is_repo_root :: "disk \<Rightarrow> bytes \<Rightarrow> bool" where
  "is_repo_root d dir = dk_exists d (path_join dir ''.git'')"

text \<open>The directories from \<open>dir\<close> up, each the parent of the one before, to the repository root.\<close>

definition climb_measure :: "bytes \<Rightarrow> nat" where
  "climb_measure dir = (if dir = ''.'' then 0 else Suc (length dir))"

definition element_cost :: "bytes list \<Rightarrow> nat" where
  "element_cost es = sum_list (map (\<lambda>e. Suc (length e)) es)"

lemma element_cost_simps [simp]:
  "element_cost [] = 0" "element_cost (e # es) = Suc (length e) + element_cost es"
  "element_cost (es @ fs) = element_cost es + element_cost fs" "element_cost (rev es) = element_cost es"
  by (simp_all add: element_cost_def rev_map [symmetric] sum_list_rev)

lemma clean_step_cost: "element_cost (clean_step rooted kept e) \<le> element_cost kept + (if e = [] then 0 else Suc (length e))"
  by (auto simp: clean_step_def split: list.split)

lemma clean_fold_cost:
  "element_cost (foldl (clean_step rooted) kept es) \<le> element_cost kept + element_cost (filter (\<lambda>e. e \<noteq> []) es)"
proof (induction es arbitrary: kept)
  case (Cons e es)
  show ?case using Cons.IH [of "clean_step rooted kept e"] clean_step_cost [of rooted kept e] by auto
qed simp

lemma split_cost: "element_cost (split_on c s) = Suc (length s)"
proof (induction s)
  case (Cons a s)
  then show ?case using split_on_nonempty [of c s] by (cases "split_on c s") (auto simp: split_on_Cons)
qed (simp add: split_on_Cons)

lemma join_cost: "es \<noteq> [] \<Longrightarrow> Suc (length (join_with slash es)) = element_cost es"
  by (induction slash es rule: join_with.induct) (auto simp: slash_def)

lemma clean_cost: "element_cost (clean_elements rooted p) \<le> element_cost (filter (\<lambda>e. e \<noteq> []) (split_on (CHR ''/'') p))"
  using clean_fold_cost [of rooted "[]" "split_on (CHR ''/'') p"] by (simp add: clean_elements_def)

lemma split_empty_last: "element_cost (filter (\<lambda>e. e \<noteq> []) (split_on c (s @ [c]))) \<le> length s + 1"
proof -
  have "element_cost (filter P es) \<le> element_cost es" for P es by (induction es) auto
  from this [of "\<lambda>e. e \<noteq> []" "split_on c s"] have "element_cost (filter (\<lambda>e. e \<noteq> []) (split_on c s)) \<le> length s + 1"
    using split_cost [of c s] by simp
  then show ?thesis by (simp add: split_on_trailing)
qed

lemma path_clean_shorter:
  assumes "p = q @ ''/''"
  shows "path_clean p = p \<and> p = slash \<or> path_clean p = ''.'' \<or> length (path_clean p) < length p"
proof (cases "has_prefix slash p")
  case True
  show ?thesis
  proof (cases q)
    case Nil
    then show ?thesis using assms by (simp add: path_clean_def clean_elements_def split_on_Cons clean_step_def slash_def)
  next
    case (Cons a q')
    then have a: "a = CHR ''/''" using True assms by (simp add: slash_def)
    have "element_cost (filter (\<lambda>e. e \<noteq> []) (split_on (CHR ''/'') p)) \<le> length q' + 1"
      using split_empty_last [of "CHR ''/''" q'] assms Cons a by (simp add: split_on_Cons)
    with clean_cost [of True p] have "element_cost (clean_elements True p) \<le> length q' + 1" by simp
    then show ?thesis
      using True assms Cons join_cost [of "clean_elements True p"]
      by (cases "clean_elements True p = []") (simp_all add: path_clean_def Let_def slash_def)
  qed
next
  case False
  have "element_cost (clean_elements False p) \<le> length q + 1"
    using clean_cost [of False p] split_empty_last [of "CHR ''/''" q] assms by simp
  then show ?thesis
    using False assms join_cost [of "clean_elements False p"]
    by (cases "clean_elements False p = []") (simp_all add: path_clean_def Let_def)
qed

lemma path_dir_climbs: "path_dir p = p \<or> climb_measure (path_dir p) < climb_measure p"
proof (cases "CHR ''/'' \<in> set p")
  case False
  then show ?thesis by (simp add: path_dir_def last_char_index_absent climb_measure_def)
next
  case True
  then obtain q r where p: "p = q @ CHR ''/'' # r" and r: "CHR ''/'' \<notin> set r" by (metis split_list_last)
  then have "path_dir p = path_clean (q @ ''/'')"
    by (simp add: path_dir_def last_char_index_append)
  with path_clean_shorter [of "q @ ''/''" q] show ?thesis
    by (cases r) (auto simp: p climb_measure_def slash_def)
qed

function climb :: "disk \<Rightarrow> bytes \<Rightarrow> bytes list" where
  "climb d dir =
     (if is_repo_root d dir \<or> path_dir dir = dir then [dir] else dir # climb d (path_dir dir))"
  by auto
termination
  by (relation "measure (climb_measure \<circ> snd)") (use path_dir_climbs in auto)

declare climb.simps [simp del]

definition ancestors :: "disk \<Rightarrow> bytes \<Rightarrow> bytes list" where
  "ancestors d cwd = climb d (case path_abs d cwd of Inl e \<Rightarrow> cwd | Inr dir \<Rightarrow> dir)"

definition project_root :: "disk \<Rightarrow> bytes \<Rightarrow> bytes" where
  "project_root d cwd =
     (let dirs = ancestors d cwd in if is_repo_root d (last dirs) then last dirs else hd dirs)"

section \<open>Staying inside\<close>

text \<open>The walk up to a name that exists; the remainder is put back under what it resolves to.\<close>

function prefix_from :: "disk \<Rightarrow> bytes \<Rightarrow> bytes \<Rightarrow> bytes + bytes" where
  "prefix_from d p dir =
     (if dk_lexists d dir
      then (case dk_resolve d dir of
              Inl e \<Rightarrow> Inl e
            | Inr real_dir \<Rightarrow> if path_rel dir p = ''.'' then Inr real_dir else Inr (path_join real_dir (path_rel dir p)))
      else if path_dir dir = dir then Inl (''no existing parent for '' @ p)
      else prefix_from d p (path_dir dir))"
  by auto
termination
  by (relation "measure (\<lambda>(d, p, dir). climb_measure dir)") (use path_dir_climbs in auto)

declare prefix_from.simps [simp del]

definition resolve_existing_prefix :: "disk \<Rightarrow> bytes \<Rightarrow> bytes + bytes" where
  "resolve_existing_prefix d p =
     (let p = path_clean p in
      case dk_resolve d p of Inr r \<Rightarrow> Inr r | Inl e \<Rightarrow> prefix_from d p p)"

definition leaves_root :: "bytes \<Rightarrow> bool" where
  "leaves_root rel = (rel = ''..'' \<or> has_prefix ''../'' rel)"

definition resolve_within :: "disk \<Rightarrow> bytes \<Rightarrow> bytes \<Rightarrow> bytes + bytes" where
  "resolve_within d root p =
     (case path_abs d (if root = [] then ''.'' else root) of
        Inl e \<Rightarrow> Inl e
      | Inr abs_root \<Rightarrow>
     (case dk_resolve d abs_root of
        Inl e \<Rightarrow> Inl (''resolve root '' @ abs_root @ '': '' @ e)
      | Inr real_root \<Rightarrow>
          let p = (if p = [] then abs_root else p);
              p = (if has_prefix slash p then p else path_join abs_root p) in
     (case path_abs d p of
        Inl e \<Rightarrow> Inl e
      | Inr abs_path \<Rightarrow>
     (case resolve_existing_prefix d abs_path of
        Inl e \<Rightarrow> Inl e
      | Inr real_path \<Rightarrow>
          let real_root = path_clean real_root; real_path = path_clean real_path in
          if real_path = real_root then Inr real_path
          else if leaves_root (path_rel real_root real_path)
          then Inl (''path '' @ quote p @ '' is outside project root '' @ real_root)
          else Inr real_path))))"

end
