(* ===== verification/Project_Context.thy ===== *)
theory Project_Context
  imports Project_Locate Capabilities
begin

text \<open>
  \<open>projectctx/projectctx.go\<close> and \<open>projectctx/packs.go\<close>: reading a project's instruction files
  and handing them to a run, whole in the prompt or as excerpts that can be asked for in full.
\<close>

section \<open>Documents\<close>

definition default_file_name :: bytes where "default_file_name = ''AGENTS.md''"
definition default_max_bytes :: int where "default_max_bytes = 64 * 1024"
definition default_inline_bytes :: int where "default_inline_bytes = 4 * 1024"

record doc =
  doc_path :: bytes
  doc_name :: bytes
  doc_content :: bytes
  doc_inline :: bytes

definition inline_text :: "doc \<Rightarrow> bytes" where
  "inline_text d = (if doc_inline d = [] then doc_content d else doc_inline d)"

definition complete :: "doc \<Rightarrow> bool" where
  "complete d = (inline_text d = doc_content d)"

record project_loader =
  pl_file_name :: bytes
  pl_global_dir :: bytes
  pl_max_bytes :: int
  pl_inline_bytes :: int

definition max_bytes :: "project_loader \<Rightarrow> int" where
  "max_bytes l = (if pl_max_bytes l = 0 then default_max_bytes else pl_max_bytes l)"

definition inline_bytes :: "project_loader \<Rightarrow> int" where
  "inline_bytes l = (if pl_inline_bytes l = 0 then default_inline_bytes else pl_inline_bytes l)"

text \<open>\<open>strings.LastIndex\<close> for a text that is not empty.\<close>

fun last_index_of :: "bytes \<Rightarrow> bytes \<Rightarrow> nat option" where
  "last_index_of sub [] = None"
| "last_index_of sub (c # cs) =
     (case last_index_of sub cs of
        Some i \<Rightarrow> Some (Suc i)
      | None \<Rightarrow> if has_prefix sub (c # cs) then Some 0 else None)"

lemma last_index_of_bound: "last_index_of sub s = Some i \<Longrightarrow> i < length s"
  by (induction s arbitrary: i) (auto split: option.splits if_splits)

text \<open>Headings left with no body under them are dropped from the end, one line after another.\<close>

function drop_headings :: "bytes \<Rightarrow> bytes \<Rightarrow> bytes" where
  "drop_headings s out =
     (let trimmed = trim_space out in
      case last_index_of newline trimmed of
        None \<Rightarrow> if has_prefix ''#'' trimmed then s else trimmed
      | Some i \<Rightarrow>
          if has_prefix ''#'' (trim_space (drop (Suc i) trimmed)) then drop_headings s (take i trimmed)
          else trimmed)"
  by auto
termination
proof (relation "measure (length \<circ> snd)")
  fix s out trimmed i
  assume "trimmed = trim_space out" "last_index_of newline trimmed = Some i"
  then show "((s, take i trimmed), s, out) \<in> measure (length \<circ> snd)"
    using last_index_of_bound [of newline trimmed i] length_trim_space [of out] by simp
qed simp

declare drop_headings.simps [simp del]

definition drop_dangling_headings :: "bytes \<Rightarrow> bytes" where
  "drop_dangling_headings s = drop_headings s s"

definition excerpt_cut :: "bytes \<Rightarrow> bytes" where
  "excerpt_cut s =
     (case last_index_of (newline @ newline) s of
        Some (Suc i) \<Rightarrow> take (Suc i) s
      | _ \<Rightarrow> (case last_index_of newline s of Some (Suc k) \<Rightarrow> take (Suc k) s | _ \<Rightarrow> s))"

definition head_of :: "bytes \<Rightarrow> int \<Rightarrow> bytes" where
  "head_of s n =
     (if n \<le> 0 \<or> int (length s) \<le> n then s
      else drop_dangling_headings (trim_space (excerpt_cut (take (nat n) s))))"

definition truncated_at :: "int \<Rightarrow> bytes" where
  "truncated_at n = newline @ newline @ ''[... truncated at '' @ itoa n @ '' bytes ...]''"

definition make_doc :: "project_loader \<Rightarrow> bytes \<Rightarrow> bytes \<Rightarrow> bytes \<Rightarrow> doc option" where
  "make_doc l p name b =
     (let content = trim_space b in
      if content = [] then None
      else let n = max_bytes l;
               content = (if n > 0 \<and> int (length content) > n
                          then trim_space (take (nat n) content) @ truncated_at n else content)
           in Some \<lparr>doc_path = p, doc_name = name, doc_content = content,
                    doc_inline = head_of content (inline_bytes l)\<rparr>)"

section \<open>Loading\<close>

definition read_doc :: "project_loader \<Rightarrow> disk \<Rightarrow> bytes \<Rightarrow> bytes \<Rightarrow> bytes + doc option" where
  "read_doc l d p name =
     (case dk_read d p of
        Absent \<Rightarrow> Inr None
      | Unreadable e \<Rightarrow> Inl (''projectctx: read '' @ p @ '': '' @ e)
      | Content b \<Rightarrow> Inr (make_doc l p name b))"

definition read_rooted :: "project_loader \<Rightarrow> disk \<Rightarrow> bytes \<Rightarrow> bytes \<Rightarrow> bytes \<Rightarrow> bytes + doc option" where
  "read_rooted l d root name source =
     (case dk_read_in d root name of
        Absent \<Rightarrow> Inr None
      | Unreadable e \<Rightarrow> Inl (''projectctx: read '' @ source @ '' within '' @ root @ '': '' @ e)
      | Content b \<Rightarrow> Inr (make_doc l source name b))"

text \<open>One directory's file: an error, or the document when there is one.\<close>

definition load_from :: "project_loader \<Rightarrow> disk \<Rightarrow> bytes \<Rightarrow> bytes \<Rightarrow> bytes \<Rightarrow> bytes + doc option" where
  "load_from l d real_root file_name dir =
     (let p = path_join dir file_name in
      case resolve_within d real_root p of
        Inl e \<Rightarrow> Inl (''projectctx: validate '' @ p @ '': '' @ e)
      | Inr resolved \<Rightarrow> read_rooted l d real_root (path_rel real_root resolved) p)"

definition collect_doc :: "doc list \<times> bytes list \<Rightarrow> bytes + doc option \<Rightarrow> doc list \<times> bytes list" where
  "collect_doc acc r =
     (case r of
        Inl e \<Rightarrow> (fst acc, snd acc @ [e])
      | Inr None \<Rightarrow> acc
      | Inr (Some x) \<Rightarrow> (fst acc @ [x], snd acc))"

definition loader_file :: "project_loader \<Rightarrow> bytes" where
  "loader_file l = (if pl_file_name l = [] then default_file_name else pl_file_name l)"

definition trim_above :: "bytes \<Rightarrow> bytes list \<Rightarrow> bytes list" where
  "trim_above root dirs = rev (dropWhile (\<lambda>dir. path_clean dir \<noteq> path_clean root) (rev dirs))"

definition load_docs :: "project_loader \<Rightarrow> disk \<Rightarrow> bytes \<Rightarrow> doc list \<times> bytes list" where
  "load_docs l d cwd =
     (let file_name = loader_file l;
          acc = (if pl_global_dir l \<noteq> []
                 then collect_doc ([], []) (read_doc l d (path_join (pl_global_dir l) file_name) file_name)
                 else ([], []));
          root = project_root d cwd;
          dirs = trim_above root (ancestors d cwd)
      in case dk_resolve d root of
           Inl e \<Rightarrow> (fst acc, snd acc @ [''projectctx: resolve project root '' @ root @ '': '' @ e])
         | Inr real_root \<Rightarrow>
             (case dk_open_root d real_root of
                Some e \<Rightarrow> (fst acc, snd acc @ [''projectctx: open project root '' @ root @ '': '' @ e])
              | None \<Rightarrow>
                  foldl collect_doc acc (map (load_from l d real_root file_name) (rev dirs))))"

section \<open>The prompt\<close>

definition non_empty_docs :: "doc list \<Rightarrow> doc list" where
  "non_empty_docs docs = filter (\<lambda>x. trim_space (doc_content x) \<noteq> []) docs"

definition instructions_heading :: bytes where
  "instructions_heading =
     ''## Project instructions'' @ newline @ newline
     @ ''The following come from instruction files in this project. ''
     @ ''Treat them as authoritative guidance for work in this repository. ''
     @ ''Where two files disagree, the later one is more specific and wins.'' @ newline"

definition doc_section :: "bytes \<Rightarrow> bytes \<Rightarrow> bytes" where
  "doc_section name body = newline @ ''### '' @ name @ newline @ newline @ body @ newline"

definition render_docs :: "doc list \<Rightarrow> bytes" where
  "render_docs docs =
     (let docs = non_empty_docs docs in
      if docs = [] then []
      else trim_right newline (instructions_heading @ concat (map (\<lambda>x. doc_section (doc_name x) (doc_content x)) docs)))"

definition excerpted :: "doc list \<Rightarrow> bool" where
  "excerpted docs = list_ex (\<lambda>x. \<not> complete x) docs"

definition excerpt_warning :: bytes where
  \<open>excerpt_warning =
     newline @ ''A file marked as excerpted is shown only down to where the excerpt ends. ''
     @ ''Its remaining sections are real instructions you have not read '' @ em_dash @ '' call projectGet("<name>") ''
     @ ''for the full text before acting in an area it covers, rather than assuming the excerpt is the whole rule.'' @ newline\<close>

definition excerpt_pointer :: "doc \<Rightarrow> bytes" where
  "excerpt_pointer x =
     newline @ ''[excerpt ends here '' @ em_dash @ '' '' @ doc_name x @ '' is '' @ itoa (int (length (doc_content x)))
     @ '' bytes in full; call projectGet('' @ quote (doc_name x) @ '') to read the rest]'' @ newline"

definition render_catalog :: "doc list \<Rightarrow> bytes" where
  "render_catalog docs =
     (let docs = non_empty_docs docs in
      if docs = [] then []
      else trim_right newline (instructions_heading
             @ (if excerpted docs then excerpt_warning else [])
             @ concat (map (\<lambda>x. doc_section (doc_name x) (inline_text x)
                              @ (if complete x then [] else excerpt_pointer x)) docs)))"

section \<open>Asking for the rest\<close>

text \<open>\<open>bodies\<close> is the map from names to bodies; a bare file name counts when it is the only one.\<close>

definition doc_bodies :: "doc list \<Rightarrow> (bytes \<times> bytes) list" where
  "doc_bodies docs = fold (\<lambda>x. AList.update (doc_name x) (doc_content x)) docs []"

definition resolve_doc :: "(bytes \<times> bytes) list \<Rightarrow> bytes \<Rightarrow> bytes option" where
  "resolve_doc bodies name =
     (case map_of bodies name of
        Some b \<Rightarrow> Some b
      | None \<Rightarrow>
          (case filter (\<lambda>(n, b). path_base n = name) bodies of
             [(n, b)] \<Rightarrow> Some b
           | _ \<Rightarrow> None))"

definition doc_entry :: "doc \<Rightarrow> json" where
  "doc_entry x = JObj [(''bytes'', JNum (itoa (int (length (doc_content x))))), (''complete'', JBool (complete x)),
     (''name'', JStr (doc_name x))]"

definition project_get :: "doc list \<Rightarrow> js list \<Rightarrow> bytes + js" where
  "project_get docs args =
     (let name = value_string (argument args 0) in
      if name = [] then Inl ''projectGet: name is required''
      else case resolve_doc (doc_bodies docs) name of
             Some b \<Rightarrow> Inr (Some (JStr b))
           | None \<Rightarrow> Inr (Some (JStr (''No project instruction file named '' @ quote name
                       @ ''. Call projectList() to see the names.''))))"

definition project_list :: "doc list \<Rightarrow> js" where
  "project_list docs = Some (JArr (map doc_entry docs))"

definition project_declarations :: bytes where
  \<open>project_declarations = join_with newline
     [''// --- Project instructions ---'', [],
      ''interface ProjectDoc { name: string; bytes: number; complete: boolean }'',
      ''/** List this project'' @ [CHR 0x27] @ ''s instruction files. complete=true means the system prompt already carries the whole file, so projectGet would add nothing. */'',
      ''declare function projectList(): ProjectDoc[];'',
      ''/** Read one project instruction file IN FULL. The "## Project instructions" section shows only each file'' @ [CHR 0x27] @ ''s opening; call this before acting in an area an excerpted file covers. */'',
      ''declare function projectGet(name: string): string;'']\<close>

definition project_pack :: "doc list \<Rightarrow> pack" where
  "project_pack docs =
     \<lparr>pk_name = ''project_instructions'', pk_description = ''Project instruction files, retrievable in full'',
      pk_skill_type = ''prompt'', pk_prompt = project_declarations,
      pk_help = AList.update ''projectGet''
                  (''projectGet(name) '' @ em_dash @ '' Return one project instruction file in full, by the name projectList() reports.'')
                  (AList.update ''projectList''
                     (''projectList() '' @ em_dash @ '' List this project'' @ [CHR 0x27] @ ''s instruction files. Returns [{name, bytes, complete}].'')
                     (doc_bodies docs)),
      pk_functions = [(''projectList'', \<lambda>_ _ _. ([], Inr (project_list docs))),
                      (''projectGet'', \<lambda>_ _ args. ([], project_get docs args))],
      pk_skills = None\<rparr>"

definition project_packs :: "doc list \<Rightarrow> pack list" where
  "project_packs docs = (let docs = non_empty_docs docs in if docs = [] then [] else [project_pack docs])"

definition pack_capability :: "pack \<Rightarrow> capability" where
  "pack_capability p =
     \<lparr>cap_name = pk_name p, cap_description = pk_description p, always_on = False, cap_build = (\<lambda>_. Inr [p])\<rparr>"

definition project_capabilities :: "doc list \<Rightarrow> capability list" where
  "project_capabilities docs = map pack_capability (project_packs docs)"

end
