(* ===== verification/Project_Properties.thy ===== *)
theory Project_Properties
  imports Project_Context
begin

text \<open>
  What a run is told of its project: the nearest repository bounds the search, no document comes
  from outside it, an excerpt is an honest opening of its document, and what is listed can be
  asked for.
\<close>

section \<open>The nearest repository\<close>

definition plain_element :: "bytes \<Rightarrow> bool" where
  "plain_element e = (e \<notin> {[], ''.'', ''..''} \<and> CHR ''/'' \<notin> set e)"

definition abs_name :: "bytes list \<Rightarrow> bytes" where
  "abs_name es = slash @ join_with slash es"

lemma clean_step_plain: "list_all plain_element es \<Longrightarrow> foldl (clean_step True) kept es = rev es @ kept"
  by (induction es arbitrary: kept) (auto simp: clean_step_def plain_element_def)

lemma clean_elements_abs: "list_all plain_element es \<Longrightarrow> clean_elements True (abs_name es) = es"
proof -
  assume es: "list_all plain_element es"
  have "split_on (CHR ''/'') (abs_name es) = [] # split_on (CHR ''/'') (join_with slash es)"
    by (simp add: abs_name_def slash_def split_on_Cons)
  also have "split_on (CHR ''/'') (join_with slash es) = (if es = [] then [[]] else es)"
    using es split_join [of es "CHR ''/''"] by (auto simp: slash_def split_on_Cons list_all_iff plain_element_def)
  finally have "clean_elements True (abs_name es) = rev (foldl (clean_step True) [] (if es = [] then [[]] else es))"
    by (simp add: clean_elements_def clean_step_def)
  then show ?thesis using clean_step_plain [OF es, of "[]"] by (simp add: clean_step_def)
qed

lemma abs_name_rooted [simp]: "has_prefix slash (abs_name es)"
  by (simp add: abs_name_def slash_def)

lemma path_clean_abs: "list_all plain_element es \<Longrightarrow> path_clean (abs_name es) = abs_name es"
  by (simp add: path_clean_def clean_elements_abs Let_def) (simp add: abs_name_def)

lemma abs_name_inj: "list_all plain_element es \<Longrightarrow> list_all plain_element fs \<Longrightarrow> abs_name es = abs_name fs \<longleftrightarrow> es = fs"
  by (metis clean_elements_abs)

lemma join_snoc: "es \<noteq> [] \<Longrightarrow> join_with slash (es @ [e]) = join_with slash es @ slash @ e"
  by (induction slash es rule: join_with.induct) auto

lemma path_dir_abs:
  assumes "list_all plain_element (es @ [e])"
  shows "path_dir (abs_name (es @ [e])) = abs_name es"
proof -
  have e: "CHR ''/'' \<notin> set e" using assms by (simp add: plain_element_def)
  let ?p = "if es = [] then [] else abs_name es"
  have "abs_name (es @ [e]) = ?p @ CHR ''/'' # e"
    by (auto simp: abs_name_def join_snoc) (simp_all add: slash_def)
  then have "path_dir (abs_name (es @ [e])) = path_clean (?p @ ''/'')"
    using e by (simp add: path_dir_def last_char_index_append)
  also have "\<dots> = abs_name es"
  proof (cases "es = []")
    case True
    then show ?thesis by (simp add: path_clean_def clean_elements_def split_on_Cons clean_step_def abs_name_def slash_def)
  next
    case False
    have "clean_elements True (abs_name es @ ''/'') = clean_elements True (abs_name es)"
      by (simp add: clean_elements_def split_on_trailing clean_step_def)
    with False assms show ?thesis
      by (simp add: path_clean_def clean_elements_abs Let_def) (simp add: abs_name_def slash_def)
  qed
  finally show ?thesis .
qed

lemma path_dir_top: "path_dir (abs_name []) = abs_name []"
  by (simp add: abs_name_def path_dir_def slash_def last_char_index_def char_index_def path_clean_def
      clean_elements_def split_on_Cons clean_step_def)

lemma climb_abs:
  assumes "list_all plain_element es"
  shows "climb d (abs_name es) =
    (if is_repo_root d (abs_name es) \<or> es = [] then [abs_name es] else abs_name es # climb d (abs_name (butlast es)))"
proof (cases es rule: rev_cases)
  case Nil
  then show ?thesis by (simp add: climb.simps [of d "abs_name []"] path_dir_top)
next
  case (snoc fs f)
  then have "path_dir (abs_name es) = abs_name fs" using assms path_dir_abs by simp
  moreover have "abs_name fs \<noteq> abs_name es" using assms snoc abs_name_inj [of fs es] by simp
  ultimately show ?thesis using climb.simps [of d "abs_name es"] snoc by simp
qed

text \<open>So the directories are the initial parts of the name, the longest first, down to a length.\<close>

definition nearest_repo :: "disk \<Rightarrow> bytes list \<Rightarrow> nat" where
  "nearest_repo d es = last (0 # filter (\<lambda>n. is_repo_root d (abs_name (take n es))) [0..<Suc (length es)])"

lemma nearest_repo_snoc:
  "nearest_repo d (es @ [e]) =
     (if is_repo_root d (abs_name (es @ [e])) then Suc (length es) else nearest_repo d es)"
proof -
  have "filter (\<lambda>n. is_repo_root d (abs_name (take n (es @ [e])))) [0..<Suc (length es)]
      = filter (\<lambda>n. is_repo_root d (abs_name (take n es))) [0..<Suc (length es)]"
    by (rule filter_cong) auto
  moreover have "[0..<Suc (length (es @ [e]))] = [0..<Suc (length es)] @ [Suc (length es)]" by simp
  ultimately show ?thesis by (simp add: nearest_repo_def del: upt_Suc)
qed

lemma nearest_repo_bound: "nearest_repo d es \<le> length es"
  by (induction es rule: rev_induct) (auto simp: nearest_repo_snoc, simp add: nearest_repo_def)

lemma climb_takes:
  "list_all plain_element es \<Longrightarrow>
     climb d (abs_name es) = map (\<lambda>n. abs_name (take n es)) (rev [nearest_repo d es..<Suc (length es)])"
proof (induction es rule: rev_induct)
  case Nil
  then show ?case by (simp add: climb_abs nearest_repo_def)
next
  case (snoc e es)
  have m: "map (\<lambda>n. abs_name (take n (es @ [e]))) (rev [k..<Suc (length es)]) =
      map (\<lambda>n. abs_name (take n es)) (rev [k..<Suc (length es)])" for k
    by (rule map_cong) auto
  show ?case
    using snoc nearest_repo_bound [of d es] m [of "nearest_repo d es"]
    by (simp add: climb_abs [of "es @ [e]"] nearest_repo_snoc upt_Suc_append del: upt_Suc)
qed

lemma clean_elements_plain: "list_all plain_element (clean_elements True p)"
proof -
  have step: "list_all plain_element (clean_step True kept e)"
    if "list_all plain_element kept" "CHR ''/'' \<notin> set e" for kept e
    using that by (auto simp: clean_step_def plain_element_def split: list.split)
  have "list_all plain_element (foldl (clean_step True) kept es)"
    if "list_all plain_element kept" "\<forall>e \<in> set es. CHR ''/'' \<notin> set e" for kept es
    using that by (induction es arbitrary: kept) (auto simp: step)
  from this [of "[]" "split_on (CHR ''/'') p"] show ?thesis
    using split_on_absent_parts by (auto simp: clean_elements_def)
qed

lemma path_clean_rooted: "has_prefix slash p \<Longrightarrow> path_clean p = abs_name (clean_elements True p)"
  by (simp add: path_clean_def abs_name_def Let_def)

definition repo_dirs :: "disk \<Rightarrow> bytes list \<Rightarrow> bytes list" where
  "repo_dirs d es = map (\<lambda>n. abs_name (take n es)) (rev [nearest_repo d es..<Suc (length es)])"

lemma ancestors_rooted: "has_prefix slash cwd \<Longrightarrow> ancestors d cwd = repo_dirs d (clean_elements True cwd)"
  by (simp add: ancestors_def path_abs_def path_clean_rooted climb_takes clean_elements_plain repo_dirs_def del: upt_Suc)

lemma repo_dirs_ends:
  "repo_dirs d es \<noteq> []" "last (repo_dirs d es) = abs_name (take (nearest_repo d es) es)" "hd (repo_dirs d es) = abs_name es"
proof -
  have le: "nearest_repo d es < Suc (length es)" using nearest_repo_bound [of d es] by simp
  then show "repo_dirs d es \<noteq> []" by (simp add: repo_dirs_def)
  from le show "last (repo_dirs d es) = abs_name (take (nearest_repo d es) es)"
    by (simp add: repo_dirs_def last_map last_rev upt_rec [of "nearest_repo d es"] del: upt_Suc)
  from le show "hd (repo_dirs d es) = abs_name es"
    by (simp add: repo_dirs_def)
qed

lemma no_repo: "\<not> is_repo_root d (abs_name (take (nearest_repo d es) es)) \<Longrightarrow> n \<le> length es \<Longrightarrow> \<not> is_repo_root d (abs_name (take n es))"
proof (induction es rule: rev_induct)
  case (snoc e es)
  then show ?case
    using nearest_repo_bound [of d es] by (cases "n \<le> length es") (auto simp: nearest_repo_snoc split: if_splits)
qed (simp add: nearest_repo_def)

lemma nearest_is_nearest: "nearest_repo d es < n \<Longrightarrow> n \<le> length es \<Longrightarrow> \<not> is_repo_root d (abs_name (take n es))"
proof (induction es rule: rev_induct)
  case (snoc e es)
  then show ?case
    by (cases "n \<le> length es") (auto simp: nearest_repo_snoc split: if_splits)
qed simp

lemma project_root_rooted:
  "has_prefix slash cwd \<Longrightarrow> project_root d cwd =
     (let es = clean_elements True cwd; k = nearest_repo d es in
      if is_repo_root d (abs_name (take k es)) then abs_name (take k es) else abs_name es)"
  using repo_dirs_ends [of d "clean_elements True cwd"] by (simp add: project_root_def ancestors_rooted Let_def)

text \<open>The search for instruction files covers the directories from the working directory up to
  the nearest one with a \<open>.git\<close> entry, each the parent of the one before; that directory is the
  project's root.  Without a repository the root is the working directory itself.  This holds of
  every absolute name, however it is written, and the climb always ends.\<close>

theorem project_root_nearest:
  "if has_prefix slash cwd
   then let es = clean_elements True cwd; k = nearest_repo d es in
     list_all plain_element es \<and> k \<le> length es
     \<and> ancestors d cwd = map (\<lambda>n. abs_name (take n es)) (rev [k..<Suc (length es)])
     \<and> list_all (\<lambda>n. \<not> is_repo_root d (abs_name (take n es))) [Suc k..<Suc (length es)]
     \<and> project_root d cwd = (if is_repo_root d (abs_name (take k es)) then abs_name (take k es) else abs_name es)
     \<and> (is_repo_root d (project_root d cwd)
        \<or> list_all (\<lambda>n. \<not> is_repo_root d (abs_name (take n es))) [0..<Suc (length es)])
   else True"
proof (cases "has_prefix slash cwd")
  case True
  let ?es = "clean_elements True cwd"
  have root: "project_root d cwd =
      (if is_repo_root d (abs_name (take (nearest_repo d ?es) ?es)) then abs_name (take (nearest_repo d ?es) ?es) else abs_name ?es)"
    using project_root_rooted [OF True, of d] by (simp add: Let_def)
  moreover have "list_all (\<lambda>n. \<not> is_repo_root d (abs_name (take n ?es))) [Suc (nearest_repo d ?es)..<Suc (length ?es)]"
    using nearest_is_nearest [of d ?es] by (auto simp: list_all_iff simp del: upt_Suc)
  moreover have "is_repo_root d (project_root d cwd)
      \<or> list_all (\<lambda>n. \<not> is_repo_root d (abs_name (take n ?es))) [0..<Suc (length ?es)]"
    using root no_repo [of d ?es] by (auto simp: list_all_iff simp del: upt_Suc)
  ultimately show ?thesis
    using True ancestors_rooted [of cwd d]
    by (simp add: Let_def repo_dirs_def clean_elements_plain nearest_repo_bound del: upt_Suc)
qed simp

section \<open>Nothing from outside\<close>

lemma path_rel_inside:
  "\<not> leaves_root (path_rel base targ) \<Longrightarrow> \<exists>ts. clean_elements True targ = clean_elements True base @ ts
     \<and> path_rel base targ = (if ts = [] then ''.'' else join_with slash ts)"
proof -
  have common: "(\<exists>p. bs = p @ fst (strip_common bs ts) \<and> ts = p @ snd (strip_common bs ts))" for bs ts
  proof (induction bs ts rule: strip_common.induct)
    case (1 b bs t ts)
    show ?case
    proof (cases "b = t")
      case True
      then show ?thesis using 1 [OF True] by (metis append_Cons strip_common.simps(1))
    qed (auto intro: exI [of _ "[]"])
  qed simp_all
  let ?s = "strip_common (clean_elements True base) (clean_elements True targ)"
  assume stays: "\<not> leaves_root (path_rel base targ)"
  have "fst ?s = []"
  proof (rule ccontr)
    assume ne: "fst ?s \<noteq> []"
    then obtain b bs where "fst ?s = b # bs" by (cases "fst ?s") auto
    then have "path_rel base targ = join_with slash (''..'' # replicate (length bs) ''..'' @ snd ?s)"
      by (cases ?s) (simp add: path_rel_def)
    then have "leaves_root (path_rel base targ)"
      by (cases "replicate (length bs) ''..'' @ snd ?s") (simp_all only: leaves_root_def join_with.simps, simp_all add: slash_def)
    with stays show False ..
  qed
  moreover obtain p where "clean_elements True base = p @ fst ?s" "clean_elements True targ = p @ snd ?s"
    using common by blast
  moreover from calculation(1) have "path_rel base targ = (if snd ?s = [] then ''.'' else join_with slash (snd ?s))"
    by (cases ?s) (simp add: path_rel_def)
  ultimately show ?thesis by (intro exI [of _ "snd ?s"]) simp
qed

text \<open>
  What \<open>filepath.EvalSymlinks\<close> documents: the resolved name of an absolute name is absolute and
  clean, and resolving it again changes nothing.
\<close>

definition resolves_cleanly :: "disk \<Rightarrow> bool" where
  "resolves_cleanly d = (\<forall>p r. has_prefix slash p \<longrightarrow> dk_resolve d p = Inr r \<longrightarrow>
     has_prefix slash r \<and> path_clean r = r \<and> dk_resolve d r = Inr r)"

lemma resolve_within_inside:
  assumes "resolves_cleanly d" and "has_prefix slash real" and "path_clean real = real" and "dk_resolve d real = Inr real"
    and "resolve_within d real p = Inr r"
  shows "\<not> leaves_root (path_rel real r)"
proof -
  have "path_abs d real = Inr real" using assms(2,3) by (simp add: path_abs_def)
  moreover have "real \<noteq> []" using assms(2) by (auto simp: slash_def)
  moreover have "path_rel real real = ''.''"
  proof -
    have "strip_common xs xs = ([], [])" for xs by (induction xs) auto
    then show ?thesis by (simp add: path_rel_def)
  qed
  ultimately show ?thesis
    using assms(3-5) by (auto simp: resolve_within_def Let_def leaves_root_def split: sum.splits if_splits)
qed

definition kept_inside :: "project_loader \<Rightarrow> disk \<Rightarrow> bytes \<Rightarrow> bytes \<Rightarrow> doc \<Rightarrow> bool" where
  "kept_inside l d real dir x =
     (doc_path x = path_join dir (loader_file l)
      \<and> list_all (\<lambda>e. e \<noteq> ''..'') (split_on (CHR ''/'') (doc_name x))
      \<and> (\<exists>b. dk_read_in d real (doc_name x) = Content b \<and> make_doc l (doc_path x) (doc_name x) b = Some x))"

lemma make_doc_names: "make_doc l p name b = Some x \<Longrightarrow> doc_path x = p \<and> doc_name x = name"
  by (auto simp: make_doc_def Let_def split: if_splits)

lemma load_from_inside:
  assumes "resolves_cleanly d" and "has_prefix slash real" and "path_clean real = real" and "dk_resolve d real = Inr real"
    and "load_from l d real (loader_file l) dir = Inr (Some x)"
  shows "kept_inside l d real dir x"
proof -
  obtain r b where r: "resolve_within d real (path_join dir (loader_file l)) = Inr r"
    "dk_read_in d real (path_rel real r) = Content b"
    "make_doc l (path_join dir (loader_file l)) (path_rel real r) b = Some x"
    using assms(5) by (auto simp: load_from_def read_rooted_def Let_def split: sum.splits disk_read.splits)
  from path_rel_inside [OF resolve_within_inside [OF assms(1-4) r(1)]] obtain ts where
    ts: "clean_elements True r = clean_elements True real @ ts" "path_rel real r = (if ts = [] then ''.'' else join_with slash ts)" by blast
  from ts(1) have "list_all plain_element ts" using clean_elements_plain [of r] by simp
  then have "list_all (\<lambda>e. e \<noteq> ''..'') (split_on (CHR ''/'') (path_rel real r))"
    using ts(2) split_join [of ts "CHR ''/''"]
    by (auto simp: split_on_Cons list_all_iff plain_element_def slash_def)
  with r make_doc_names [OF r(3)] show ?thesis by (auto simp: kept_inside_def)
qed

lemma collect_docs:
  "foldl collect_doc acc rs =
     (fst acc @ List.map_filter (case_sum (\<lambda>_. None) id) rs, snd acc @ List.map_filter (case_sum Some (\<lambda>_. None)) rs)"
  by (induction rs arbitrary: acc) (auto simp: collect_doc_def List.map_filter_simps split: sum.split option.split)

text \<open>Where a list of documents may come from: one of each directory at most, in the order given.\<close>

inductive from_dirs :: "project_loader \<Rightarrow> disk \<Rightarrow> bytes \<Rightarrow> bytes list \<Rightarrow> doc list \<Rightarrow> bool"
  for l :: project_loader and d :: disk and real :: bytes where
  from_none: "from_dirs l d real [] []"
| from_skip: "from_dirs l d real dirs xs \<Longrightarrow> from_dirs l d real (dir # dirs) xs"
| from_take: "kept_inside l d real dir x \<Longrightarrow> from_dirs l d real dirs xs \<Longrightarrow> from_dirs l d real (dir # dirs) (x # xs)"

lemma loaded_from_dirs:
  assumes "resolves_cleanly d" and "has_prefix slash real" and "path_clean real = real" and "dk_resolve d real = Inr real"
  shows "from_dirs l d real dirs (List.map_filter (case_sum (\<lambda>_. None) id) (map (load_from l d real (loader_file l)) dirs))"
proof (induction dirs)
  case (Cons dir dirs)
  show ?case
    using Cons.IH load_from_inside [OF assms, of l dir]
    by (auto simp: List.map_filter_simps split: sum.split option.split intro: from_dirs.intros)
qed (simp add: List.map_filter_simps from_none)

lemma load_docs_parts:
  "\<exists>globals. (if pl_global_dir l = [] then globals = []
       else list_all (\<lambda>x. read_doc l d (path_join (pl_global_dir l) (loader_file l)) (loader_file l) = Inr (Some x)) globals
         \<and> length globals \<le> 1)
     \<and> fst (load_docs l d cwd) = globals @ (case dk_resolve d (project_root d cwd) of
       Inl e \<Rightarrow> [] | Inr real \<Rightarrow> if dk_open_root d real \<noteq> None then []
         else List.map_filter (case_sum (\<lambda>_. None) id)
           (map (load_from l d real (loader_file l)) (rev (trim_above (project_root d cwd) (ancestors d cwd)))))"
proof -
  let ?acc = "if pl_global_dir l \<noteq> []
     then collect_doc ([], []) (read_doc l d (path_join (pl_global_dir l) (loader_file l)) (loader_file l)) else ([], [])"
  have "if pl_global_dir l = [] then fst ?acc = []
       else list_all (\<lambda>x. read_doc l d (path_join (pl_global_dir l) (loader_file l)) (loader_file l) = Inr (Some x)) (fst ?acc)
         \<and> length (fst ?acc) \<le> 1"
    by (auto simp: collect_doc_def split: sum.split option.split)
  moreover have "fst (load_docs l d cwd) = fst ?acc @ (case dk_resolve d (project_root d cwd) of
       Inl e \<Rightarrow> [] | Inr real \<Rightarrow> if dk_open_root d real \<noteq> None then []
         else List.map_filter (case_sum (\<lambda>_. None) id)
           (map (load_from l d real (loader_file l)) (rev (trim_above (project_root d cwd) (ancestors d cwd)))))"
    unfolding load_docs_def Let_def collect_docs by (simp split: sum.split option.split)
  ultimately show ?thesis by (intro exI [of _ "fst ?acc"] conjI)
qed

text \<open>C29 No instruction file is read from outside the project, symbolic links included: besides
  the global one, read from its own directory when one is set, each document is what the rooted
  read answers for a name without any \<open>..\<close>, at most one for each directory, and they come outermost
  first, so that the closest file has the last word.\<close>

theorem docs_confined:
  assumes "resolves_cleanly d" and "has_prefix slash cwd"
  shows "\<exists>globals locals. fst (load_docs l d cwd) = globals @ locals
    \<and> (if pl_global_dir l = [] then globals = []
       else list_all (\<lambda>x. read_doc l d (path_join (pl_global_dir l) (loader_file l)) (loader_file l) = Inr (Some x)) globals
         \<and> length globals \<le> 1)
    \<and> (case dk_resolve d (project_root d cwd) of
         Inl e \<Rightarrow> locals = []
       | Inr real \<Rightarrow> from_dirs l d real (rev (trim_above (project_root d cwd) (ancestors d cwd))) locals)"
proof -
  let ?root = "project_root d cwd"
  let ?dirs = "rev (trim_above ?root (ancestors d cwd))"
  from load_docs_parts [of l d cwd] obtain globals where g: "if pl_global_dir l = [] then globals = []
       else list_all (\<lambda>x. read_doc l d (path_join (pl_global_dir l) (loader_file l)) (loader_file l) = Inr (Some x)) globals
         \<and> length globals \<le> 1"
    and docs: "fst (load_docs l d cwd) = globals @ (case dk_resolve d ?root of
       Inl e \<Rightarrow> [] | Inr real \<Rightarrow> if dk_open_root d real \<noteq> None then []
         else List.map_filter (case_sum (\<lambda>_. None) id) (map (load_from l d real (loader_file l)) ?dirs))"
    by (elim exE conjE) (rule that)
  have none: "from_dirs l d real dirs []" for real dirs by (induction dirs) (auto intro: from_dirs.intros)
  show ?thesis
  proof (cases "dk_resolve d ?root")
    case (Inl e)
    have "fst (load_docs l d cwd) = globals @ []" unfolding docs Inl by (simp only: sum.case)
    then show ?thesis
      unfolding Inl sum.case using g by (intro exI [of _ globals] exI [of _ "[]"] conjI refl)
  next
    case (Inr real)
    have "has_prefix slash ?root" using project_root_rooted [OF assms(2), of d] by (simp add: Let_def)
    from assms(1) [unfolded resolves_cleanly_def, rule_format, OF this Inr]
    have real: "has_prefix slash real" "path_clean real = real" "dk_resolve d real = Inr real" by blast+
    let ?locals = "if dk_open_root d real \<noteq> None then []
         else List.map_filter (case_sum (\<lambda>_. None) id) (map (load_from l d real (loader_file l)) ?dirs)"
    have "from_dirs l d real ?dirs ?locals"
    proof (cases "dk_open_root d real \<noteq> None")
      case True
      show ?thesis unfolding if_P [OF True] by (rule none)
    next
      case False
      show ?thesis unfolding if_not_P [OF False] by (rule loaded_from_dirs [OF assms(1) real])
    qed
    moreover have "fst (load_docs l d cwd) = globals @ ?locals" unfolding docs Inr by (simp only: sum.case)
    ultimately show ?thesis
      unfolding Inr sum.case using g by (intro exI [of _ globals] exI [of _ ?locals] conjI)
  qed
qed

section \<open>Honest excerpts\<close>

lemma last_index_of_at: "last_index_of sub s = Some i \<Longrightarrow> has_prefix sub (drop i s)"
  by (induction s arbitrary: i) (auto split: option.splits if_splits)

lemma last_newline_none: "last_index_of newline s = None \<longleftrightarrow> CHR 0x0A \<notin> set s"
  by (induction s) (auto split: option.split)

text \<open>\<open>t\<close> opens \<open>c\<close>, and, if \<open>nl\<close>, what follows it starts with white space.\<close>

definition opens :: "bool \<Rightarrow> bytes \<Rightarrow> bytes \<Rightarrow> bool" where
  "opens nl c t = (prefix t c \<and> (nl \<longrightarrow> t = c \<or> is_space (c ! length t)))"

lemma opens_take: "prefix t c \<Longrightarrow> i < length t \<Longrightarrow> is_space (t ! i) \<Longrightarrow> opens nl c (take i t)"
proof -
  assume t: "prefix t c" "i < length t" "is_space (t ! i)"
  then obtain r where c: "c = t @ r" by (auto simp: prefix_def)
  have "prefix (take i t) c" using c by (metis append.assoc append_take_drop_id prefixI)
  then show ?thesis using t c by (simp add: opens_def nth_append)
qed

lemma trim_space_right:
  assumes "t \<noteq> []" and "\<not> is_space (hd t)"
  shows "\<exists>sp. t = trim_space t @ sp \<and> list_all is_space sp"
proof -
  have "dropWhile is_space t = t" using assms by (cases t) auto
  then have "rev t = takeWhile is_space (rev t) @ rev (trim_space t)" by (simp add: trim_space_def)
  then have "t = trim_space t @ rev (takeWhile is_space (rev t))" by (metis rev_append rev_rev_ident)
  then show ?thesis by (intro exI [of _ "rev (takeWhile is_space (rev t))"]) (auto simp: list_all_iff dest: set_takeWhileD)
qed

lemma opens_trim:
  assumes "opens nl c t" and "t \<noteq> []" and "\<not> is_space (hd c)"
  shows "opens nl c (trim_space t) \<and> trim_space t \<noteq> []"
proof -
  have hd: "hd t = hd c" using assms(1,2) by (auto simp: opens_def prefix_def)
  then obtain sp where sp: "t = trim_space t @ sp" "list_all is_space sp"
    using trim_space_right [of t] assms(2,3) by auto
  have ne: "trim_space t \<noteq> []"
    using assms(2,3) hd by (cases t) (auto simp: trim_space_empty_iff)
  show ?thesis
  proof (cases sp)
    case Nil
    then show ?thesis using sp(1) assms(1) ne by simp
  next
    case (Cons a as)
    obtain r where "c = t @ r" using assms(1) by (auto simp: opens_def prefix_def)
    then have "c = trim_space t @ a # as @ r" using sp(1) Cons by (metis append.assoc append_Cons)
    then show ?thesis using ne sp(2) Cons by (simp add: opens_def)
  qed
qed

lemma opens_line:
  assumes "opens nl c t" and "\<not> is_space (hd c)" and "last_index_of newline t = Some i"
  shows "opens nl c (take i t) \<and> take i t \<noteq> []"
proof -
  have i: "i < length t" "t ! i = CHR 0x0A"
    using last_index_of_bound [OF assms(3)] last_index_of_at [OF assms(3)]
    by (auto simp flip: Cons_nth_drop_Suc)
  then have "is_space (t ! i)" by (simp add: is_space_def)
  moreover from this have "i \<noteq> 0" using assms(1,2) i(1) by (cases i) (auto simp: opens_def prefix_def hd_conv_nth nth_append)
  ultimately show ?thesis using opens_take [of t c i nl] assms(1) i(1) by (cases t; cases i) (auto simp: opens_def)
qed

definition last_line :: "bytes \<Rightarrow> bytes" where
  "last_line t = (case last_index_of newline t of None \<Rightarrow> t | Some i \<Rightarrow> drop (Suc i) t)"

lemma drop_headings_opens:
  assumes "opens nl c s" and "s \<noteq> []" and "opens nl c out" and "out \<noteq> []" and "\<not> is_space (hd c)"
  shows "opens nl c (drop_headings s out) \<and> drop_headings s out \<noteq> []
    \<and> (drop_headings s out = s \<or> \<not> has_prefix ''#'' (trim_space (last_line (drop_headings s out))))"
  using assms
proof (induction s out rule: drop_headings.induct)
  case (1 s out)
  note t = opens_trim [OF 1(4,5,6)]
  show ?case
  proof (cases "last_index_of newline (trim_space out)")
    case None
    then show ?thesis using 1(2,3) t
      by (simp add: drop_headings.simps [of s out] Let_def last_line_def trim_space_id)
  next
    case (Some i)
    show ?thesis
    proof (cases "has_prefix ''#'' (trim_space (drop (Suc i) (trim_space out)))")
      case True
      then show ?thesis
        using 1(1) [OF refl Some True 1(2,3)] opens_line [OF conjunct1 [OF t] 1(6) Some] 1(6) Some
        by (simp add: drop_headings.simps [of s out] Let_def)
    next
      case False
      then show ?thesis using t Some by (simp add: drop_headings.simps [of s out] Let_def last_line_def)
    qed
  qed
qed

lemma excerpt_cut_opens:
  assumes "prefix t c" and "t \<noteq> []" and "\<not> is_space (hd c)"
  shows "opens (CHR 0x0A \<in> set t) c (excerpt_cut t) \<and> excerpt_cut t \<noteq> [] \<and> length (excerpt_cut t) \<le> length t"
proof -
  have hd: "hd t = hd c" using assms(1,2) by (auto simp: prefix_def)
  have at: "opens nl c (take i t) \<and> take i t \<noteq> []"
    if "last_index_of (CHR 0x0A # w) t = Some i" for i w nl
  proof -
    have i: "i < length t" "t ! i = CHR 0x0A"
      using last_index_of_bound [OF that] last_index_of_at [OF that] by (auto simp flip: Cons_nth_drop_Suc)
    moreover have "i \<noteq> 0" using i hd assms(2,3) by (cases i) (auto simp: hd_conv_nth is_space_def)
    ultimately show ?thesis
      using opens_take [OF assms(1), of i nl] by (cases t; cases i) (auto simp: is_space_def)
  qed
  have whole: "opens False c t" using assms(1) by (simp add: opens_def)
  show ?thesis
  proof (cases "last_index_of (newline @ newline) t")
    case (Some i)
    with at [of "[CHR 0x0A]" i] show ?thesis
      by (cases i) (auto simp: excerpt_cut_def)
  next
    case none: None
    show ?thesis
    proof (cases "last_index_of newline t")
      case None
      then have "CHR 0x0A \<notin> set t" by (rule last_newline_none [THEN iffD1])
      then show ?thesis using None none whole assms(2) by (simp add: excerpt_cut_def)
    next
      case (Some i)
      with none at [of "[]" i] show ?thesis by (cases i) (auto simp: excerpt_cut_def)
    qed
  qed
qed

lemma opens_length: "opens nl c t \<Longrightarrow> length t \<le> length c"
  by (auto simp: opens_def prefix_def)

lemma drop_headings_length: "length s \<le> n \<Longrightarrow> length out \<le> n \<Longrightarrow> length (drop_headings s out) \<le> n"
proof (induction s out rule: drop_headings.induct)
  case (1 s out)
  note len = length_trim_space [of out]
  show ?case
    using 1(1) [OF refl] 1(2,3) len
    by (auto simp: drop_headings.simps [of s out] Let_def split: option.split)
qed

lemma head_of_opens:
  assumes "c \<noteq> []" and "\<not> is_space (hd c)" and "0 < n" and "n < int (length c)"
  shows "opens (CHR 0x0A \<in> set (take (nat n) c)) c (head_of c n) \<and> head_of c n \<noteq> [] \<and> int (length (head_of c n)) \<le> n
    \<and> (\<not> has_prefix ''#'' (trim_space (last_line (head_of c n)))
       \<or> head_of c n = trim_space (excerpt_cut (take (nat n) c)))"
proof -
  let ?t = "take (nat n) c"
  let ?nl = "CHR 0x0A \<in> set ?t"
  let ?s = "trim_space (excerpt_cut ?t)"
  have t: "prefix ?t c" "?t \<noteq> []" using assms by (auto simp: take_is_prefix)
  note x = excerpt_cut_opens [OF t assms(2)]
  have s: "opens ?nl c ?s \<and> ?s \<noteq> []" using opens_trim [OF _ _ assms(2)] x by blast
  have "int (length ?s) \<le> n"
    using length_trim_space [of "excerpt_cut ?t"] x assms(3) by (simp add: le_nat_iff)
  then have "int (length (drop_headings ?s ?s)) \<le> n"
    using drop_headings_length [of ?s "nat n" ?s] assms(3) by (simp add: le_nat_iff)
  moreover have "head_of c n = drop_headings ?s ?s"
    using assms(3,4) by (simp add: head_of_def drop_dangling_headings_def)
  ultimately show ?thesis
    using drop_headings_opens [of ?nl c ?s ?s] s assms(2) by auto
qed

lemma trimmed_start: "trim_space s \<noteq> [] \<Longrightarrow> \<not> is_space (hd (trim_space s))"
  by (metis list.collapse trim_space_ends(1))

text \<open>A document is what its file says, within the cap, and its excerpt is an honest opening of it:
  never empty, never longer than the limit, never cut within a line when the limit leaves room for
  a line break, and never ending in a heading whose body was cut off, unless the excerpt consists of
  what the cut left and nothing better remains.  A document that fits is inlined whole.\<close>

theorem excerpt_honest:
  "case make_doc l p name b of
     None \<Rightarrow> trim_space b = []
   | Some x \<Rightarrow>
       doc_path x = p \<and> doc_name x = name \<and> trim_space b \<noteq> []
       \<and> (if max_bytes l \<le> 0 \<or> int (length (trim_space b)) \<le> max_bytes l then doc_content x = trim_space b
          else \<exists>t. doc_content x = t @ truncated_at (max_bytes l) \<and> prefix t (trim_space b) \<and> int (length t) \<le> max_bytes l)
       \<and> (if inline_bytes l \<le> 0 \<or> int (length (doc_content x)) \<le> inline_bytes l then complete x
          else inline_text x \<noteq> [] \<and> int (length (inline_text x)) \<le> inline_bytes l \<and> \<not> complete x
            \<and> opens (CHR 0x0A \<in> set (take (nat (inline_bytes l)) (doc_content x))) (doc_content x) (inline_text x)
            \<and> (if has_prefix ''#'' (trim_space (last_line (inline_text x)))
               then inline_text x = trim_space (excerpt_cut (take (nat (inline_bytes l)) (doc_content x))) else True))"
proof (cases "make_doc l p name b")
  case None
  then show ?thesis by (auto simp: make_doc_def Let_def split: if_splits)
next
  case (Some x)
  let ?c = "trim_space b"
  let ?t = "trim_space (take (nat (max_bytes l)) ?c)"
  have ne: "?c \<noteq> []" using Some by (auto simp: make_doc_def split: if_splits)
  note start = trimmed_start [OF ne]
  have t: "prefix ?t ?c \<and> ?t \<noteq> [] \<and> int (length ?t) \<le> max_bytes l" if "0 < max_bytes l"
    using that opens_trim [of False ?c "take (nat (max_bytes l)) ?c"] start ne length_trim_space [of "take (nat (max_bytes l)) ?c"]
    by (simp add: opens_def take_is_prefix le_nat_iff)
  have content: "doc_content x = (if 0 < max_bytes l \<and> max_bytes l < int (length ?c) then ?t @ truncated_at (max_bytes l) else ?c)"
    and inline: "doc_inline x = head_of (doc_content x) (inline_bytes l)" and names: "doc_path x = p \<and> doc_name x = name"
    using Some by (auto simp: make_doc_def Let_def split: if_splits)
  have c: "doc_content x \<noteq> [] \<and> \<not> is_space (hd (doc_content x))"
  proof (cases "0 < max_bytes l \<and> max_bytes l < int (length ?c)")
    case True
    then have "hd ?t = hd ?c" "?t \<noteq> []" using t by (metis hd_append2 prefixE, blast)
    then show ?thesis using True content start by simp
  next
    case False
    show ?thesis unfolding content if_not_P [OF False] using ne start by blast
  qed
  have whole: "complete x" if "inline_bytes l \<le> 0 \<or> int (length (doc_content x)) \<le> inline_bytes l"
    using that inline by (auto simp: complete_def inline_text_def head_of_def)
  have part: "inline_text x \<noteq> [] \<and> int (length (inline_text x)) \<le> inline_bytes l \<and> \<not> complete x
      \<and> opens (CHR 0x0A \<in> set (take (nat (inline_bytes l)) (doc_content x))) (doc_content x) (inline_text x)
      \<and> (\<not> has_prefix ''#'' (trim_space (last_line (inline_text x)))
         \<or> inline_text x = trim_space (excerpt_cut (take (nat (inline_bytes l)) (doc_content x))))"
    if n: "\<not> (inline_bytes l \<le> 0 \<or> int (length (doc_content x)) \<le> inline_bytes l)"
  proof -
    note h = head_of_opens [of "doc_content x" "inline_bytes l"]
    then have "inline_text x = head_of (doc_content x) (inline_bytes l)" using n c inline by (simp add: inline_text_def)
    then show ?thesis using h n c by (auto simp: complete_def)
  qed
  show ?thesis using Some names ne content t whole part by auto
qed

section \<open>What is listed can be asked for\<close>

lemma doc_bodies_others: "name \<notin> doc_name ` set docs \<Longrightarrow> map_of (fold (\<lambda>x. AList.update (doc_name x) (doc_content x)) docs bs) name = map_of bs name"
  by (induction docs arbitrary: bs) (auto simp: update_conv')

lemma doc_bodies_last:
  "docs = xs @ x # ys \<Longrightarrow> doc_name x \<notin> doc_name ` set ys \<Longrightarrow> map_of (doc_bodies docs) (doc_name x) = Some (doc_content x)"
  by (simp add: doc_bodies_def doc_bodies_others update_conv')

lemma project_get_full:
  "x \<in> set docs \<Longrightarrow> distinct (map doc_name docs) \<Longrightarrow> doc_name x \<noteq> [] \<Longrightarrow>
     project_get docs [Some (JStr (doc_name x))] = Inr (Some (JStr (doc_content x)))"
  using doc_bodies_last [of docs _ x]
  by (auto simp: project_get_def resolve_doc_def argument_def value_string_def dest!: split_list)

text \<open>
  The names are not always distinct: the user's global file and the one at the repository's root are
  both called by the bare file name, so the global one can be listed and excerpted but never read.
\<close>

lemma shadowed_doc_unreadable:
  "docs = xs @ y # ys @ x # zs \<Longrightarrow> doc_name y = doc_name x \<Longrightarrow> doc_name x \<noteq> [] \<Longrightarrow> doc_name x \<notin> doc_name ` set zs \<Longrightarrow>
     project_get docs [Some (JStr (doc_name y))] = Inr (Some (JStr (doc_content x)))"
  using doc_bodies_last [of docs "xs @ y # ys" x zs]
  by (simp add: project_get_def resolve_doc_def argument_def value_string_def)

lemma global_shares_name:
  "read_doc l d p (loader_file l) = Inr (Some x) \<Longrightarrow> read_rooted l d real (loader_file l) q = Inr (Some y) \<Longrightarrow>
     doc_name x = doc_name y"
  by (auto simp: read_doc_def read_rooted_def dest!: make_doc_names split: disk_read.splits)

text \<open>When nothing is excerpted the catalog is the plain rendering.\<close>

lemma catalog_complete: "list_all complete docs \<Longrightarrow> render_catalog docs = render_docs docs"
proof -
  assume "list_all complete docs"
  then have c: "\<forall>x \<in> set (non_empty_docs docs). complete x" by (auto simp: non_empty_docs_def list_all_iff)
  then have "map (\<lambda>x. doc_section (doc_name x) (inline_text x) @ (if complete x then [] else excerpt_pointer x)) (non_empty_docs docs)
      = map (\<lambda>x. doc_section (doc_name x) (doc_content x)) (non_empty_docs docs)"
    by (intro map_cong) (auto simp: complete_def)
  moreover have "\<not> excerpted (non_empty_docs docs)" using c by (auto simp: excerpted_def list_ex_iff)
  ultimately show ?thesis unfolding render_catalog_def render_docs_def Let_def by (simp only: if_False append_Nil)
qed

section \<open>An example\<close>

definition example_disk :: disk where
  "example_disk =
     \<lparr>dk_getwd = Inr ''/w'', dk_exists = (\<lambda>p. p = ''/w/.git''), dk_lexists = (\<lambda>p. True),
      dk_resolve = (\<lambda>p. if has_prefix slash p then Inr (path_clean p) else Inl ''not absolute''),
      dk_read = (\<lambda>p. Absent), dk_open_root = (\<lambda>p. None),
      dk_read_in = (\<lambda>root name. if name = ''AGENTS.md'' then Content ''be kind'' else Absent)\<rparr>"

definition example_loader :: project_loader where
  "example_loader = \<lparr>pl_file_name = [], pl_global_dir = [], pl_max_bytes = 0, pl_inline_bytes = 0\<rparr>"

lemma docs_confined_witness:
  "\<exists>globals locals. fst (load_docs example_loader example_disk ''/w/x'') = globals @ locals \<and> globals = []
     \<and> from_dirs example_loader example_disk ''/w'' [''/w'', ''/w/x''] locals"
proof -
  have idem: "path_clean (path_clean p) = path_clean p \<and> has_prefix slash (path_clean p)" if "has_prefix slash p" for p
    using that path_clean_rooted [of p] path_clean_abs [OF clean_elements_plain, of p] by simp
  have c: "resolves_cleanly example_disk"
    using idem by (simp add: resolves_cleanly_def example_disk_def)
  have p: "has_prefix slash ''/w/x''" by (simp add: slash_def)
  have dirs: "rev (trim_above (project_root example_disk ''/w/x'') (ancestors example_disk ''/w/x'')) = [''/w'', ''/w/x'']"
    and root: "dk_resolve example_disk (project_root example_disk ''/w/x'') = Inr ''/w''"
    by code_simp+
  show ?thesis
    using docs_confined [OF c p, of example_loader] unfolding dirs root by (simp add: example_loader_def)
qed

end
