(* ===== verification/Fetch_Pack.thy ===== *)
theory Fetch_Pack
  imports Sandbox_Turn Prompts
begin

text \<open>
  \<open>sandbox/pack_fetch.go\<close> and \<open>sandbox/pack_input.go\<close>: the network primitives of a sandbox and
  the question put to the user before a host is reached.  A pack keeps the hosts the user approved
  and the configuration of its last policy check; what it sent, asked and emitted is recorded
  beside them.  The HTTP client, the user and the HTML converter are parameters.  The client is
  \<open>http.DefaultClient\<close>, which follows redirects by itself: it answers the further requests it made
  on the way with how the last one ended, and both are recorded.  The fields of a policy's configuration are matched without regard to ASCII
  case; a number prints as the script wrote it.
\<close>

section \<open>Configuration\<close>

record fetch_policy_config =
  fc_urls :: "bytes list"
  fc_allow_all :: bool
  fc_whitelist :: "bytes list"

definition no_fetch_config :: fetch_policy_config where
  "no_fetch_config = \<lparr>fc_urls = [], fc_allow_all = False, fc_whitelist = []\<rparr>"

definition effective_urls :: "fetch_policy_config \<Rightarrow> bytes list" where
  "effective_urls c = (if fc_urls c \<noteq> [] then fc_urls c else fc_whitelist c)"

text \<open>\<open>json.Unmarshal\<close> into the configuration, its error ignored: a field of another type keeps
  its value, an element of another type is empty.\<close>

definition string_elem :: "json \<Rightarrow> bytes" where
  "string_elem v = (case v of JStr s \<Rightarrow> s | _ \<Rightarrow> [])"

definition string_list_field :: "json \<Rightarrow> bytes list \<Rightarrow> bytes list" where
  "string_list_field v old = (case v of JArr vs \<Rightarrow> map string_elem vs | JNull \<Rightarrow> [] | _ \<Rightarrow> old)"

definition fetch_config_field :: "fetch_policy_config \<Rightarrow> bytes \<times> json \<Rightarrow> fetch_policy_config" where
  "fetch_config_field c kv =
     (let (k, v) = kv; k = to_lower k in
      if k = ''urls'' then c\<lparr>fc_urls := string_list_field v (fc_urls c)\<rparr>
      else if k = ''whitelist'' then c\<lparr>fc_whitelist := string_list_field v (fc_whitelist c)\<rparr>
      else if k = ''allow_all'' then (case v of JBool b \<Rightarrow> c\<lparr>fc_allow_all := b\<rparr> | _ \<Rightarrow> c)
      else c)"

definition decode_fetch_config :: "bytes \<Rightarrow> fetch_policy_config" where
  "decode_fetch_config s =
     (case json_parse s of Some (JObj kvs) \<Rightarrow> foldl fetch_config_field no_fetch_config kvs | _ \<Rightarrow> no_fetch_config)"

section \<open>Matching\<close>

text \<open>The field \<open>Path\<close> of a URL that parses.\<close>

definition url_path :: "bytes \<Rightarrow> bytes" where
  "url_path raw =
     (let u = fst (cut_at (CHR ''#'') raw) in
      if u = ''*'' then ''*''
      else case scheme_from [] u of
             None \<Rightarrow> []
           | Some (scheme, rest) \<Rightarrow>
               let rest = fst (cut_at (CHR ''?'') rest) in
               if \<not> has_prefix ''/'' rest \<and> scheme \<noteq> [] then []
               else let path = (if has_prefix ''//'' rest \<and> (scheme \<noteq> [] \<or> \<not> has_prefix ''///'' rest)
                                then dropWhile (\<lambda>c. c \<noteq> CHR ''/'') (drop 2 rest) else rest)
                    in case unescape Any_text path of None \<Rightarrow> [] | Some p \<Rightarrow> p)"

definition trim_one :: "char \<Rightarrow> bytes \<Rightarrow> bytes" where
  "trim_one c s = (if s \<noteq> [] \<and> last s = c then butlast s else s)"

text \<open>An entry without its scheme, a final star and a final slash: its host and its path.\<close>

definition entry_parts :: "bytes \<Rightarrow> bytes \<times> bytes" where
  "entry_parts entry =
     (let cleaned = (case index_of ''://'' entry of None \<Rightarrow> entry | Some i \<Rightarrow> drop (i + 3) entry);
          cleaned = trim_one (CHR ''/'') (trim_one (CHR ''*'') cleaned);
          (host, path) = cut_at (CHR ''/'') cleaned
      in (host, if path = [] then [] else CHR ''/'' # path))"

definition host_matches :: "bytes \<Rightarrow> bytes \<Rightarrow> bool" where
  "host_matches entry_host host =
     (if has_prefix ''*.'' entry_host then has_suffix (tl entry_host) host \<or> host = drop 2 entry_host
      else host = entry_host)"

definition entry_matches :: "bytes \<Rightarrow> bytes \<Rightarrow> bytes \<Rightarrow> bool" where
  "entry_matches host path entry =
     (let (entry_host, entry_path) = entry_parts entry in
      host_matches entry_host host \<and> (entry_path = [] \<or> has_prefix entry_path path))"

definition is_url_allowed :: "bytes \<Rightarrow> bytes list \<Rightarrow> bool" where
  "is_url_allowed raw whitelist =
     (if ''*'' \<in> set whitelist then True
      else case parse_url raw of
             None \<Rightarrow> False
           | Some h \<Rightarrow> list_ex (entry_matches (host_name h) (url_path raw)) whitelist)"

section \<open>Requests\<close>

text \<open>\<open>%v\<close> of an exported value.\<close>

fun go_print :: "json \<Rightarrow> bytes" and print_elems :: "json list \<Rightarrow> bytes list" and print_members :: "json_object \<Rightarrow> bytes list" where
  "go_print JNull = ''<nil>''"
| "go_print (JBool b) = (if b then ''true'' else ''false'')"
| "go_print (JNum s) = s"
| "go_print (JStr s) = s"
| "go_print (JArr vs) = ''['' @ join_with '' '' (print_elems vs) @ '']''"
| "go_print (JObj kvs) = ''map['' @ join_with '' '' (print_members kvs) @ '']''"
| "print_elems [] = []"
| "print_elems (v # vs) = go_print v # print_elems vs"
| "print_members [] = []"
| "print_members ((k, v) # kvs) = (k @ '':'' @ go_print v) # print_members kvs"

definition extract_headers :: "json option \<Rightarrow> (bytes \<times> bytes) list" where
  "extract_headers v = (case v of Some (JObj m) \<Rightarrow> map (\<lambda>(k, x). (k, go_print x)) m | _ \<Rightarrow> [])"

text \<open>\<open>CanonicalMIMEHeaderKey\<close>: a name that is no token stays as it is.\<close>

definition header_char :: "char \<Rightarrow> bool" where
  "header_char c = (is_alpha c \<or> is_digit c \<or> c \<in> set ''!#$%&*+-.^_`|~'' \<or> byte_of c = 39)"

definition upper_byte :: "char \<Rightarrow> char" where
  "upper_byte c = (if 97 \<le> byte_of c \<and> byte_of c \<le> 122 then char_of (byte_of c - 32) else c)"

fun canonical_bytes :: "bool \<Rightarrow> bytes \<Rightarrow> bytes" where
  "canonical_bytes up [] = []"
| "canonical_bytes up (c # s) = (if up then upper_byte c else hd (to_lower [c])) # canonical_bytes (c = CHR ''-'') s"

definition canonical_key :: "bytes \<Rightarrow> bytes" where
  "canonical_key k = (if list_all header_char k then canonical_bytes True k else k)"

record fetch_request =
  fr_method :: bytes
  fr_url :: bytes
  fr_headers :: "(bytes \<times> bytes) list"
  fr_body :: "bytes option"

record fetch_response =
  fp_status :: int
  fp_headers :: "(bytes \<times> bytes) list"
  fp_body :: bytes

definition fetch_cap :: nat where
  "fetch_cap = 2 * 2 ^ 20"

text \<open>The headers are set in some order of the map, over the default one.\<close>

definition new_fetch_request :: "bytes \<Rightarrow> bytes \<Rightarrow> bytes \<Rightarrow> (bytes \<times> bytes) list \<Rightarrow> fetch_request" where
  "new_fetch_request raw method body headers =
     \<lparr>fr_method = (if method = [] then ''GET'' else method), fr_url = raw,
      fr_headers = foldl (\<lambda>h (k, v). AList.update (canonical_key k) v h) [(''User-Agent'', ''agentloop/1.0'')] headers,
      fr_body = (if body = [] then None else Some body)\<rparr>"

text \<open>The first value of every header, under its name in lower case.\<close>

definition response_value :: "fetch_response \<Rightarrow> json" where
  "response_value r =
     JObj [(''body'', JStr (take fetch_cap (fp_body r))),
           (''headers'', JObj (map (\<lambda>(k, v). (k, JStr v)) (sort_key fst (map (\<lambda>(k, v). (to_lower k, v)) (fp_headers r))))),
           (''status'', JNum (itoa (fp_status r)))]"

section \<open>The pack\<close>

record input_request_data =
  ir_id :: bytes
  ir_type :: bytes
  ir_message :: bytes
  ir_options :: "bytes list"
  ir_placeholder :: bytes

definition confirm_request :: "bytes \<Rightarrow> input_request_data" where
  "confirm_request question =
     \<lparr>ir_id = [], ir_type = ''confirm'', ir_message = question, ir_options = [], ir_placeholder = []\<rparr>"

text \<open>
  The user and the HTTP client see what went before: every request of the pack is kept with those
  the client made following redirects.  An order of a map is a rank of its keys.
\<close>

record fetch_env =
  fe_policy :: "policy option"
  fe_requester :: "((bytes \<times> bool) list \<Rightarrow> input_request_data \<Rightarrow> bytes + js) option"
  fe_client :: "(fetch_request \<times> fetch_request list) list \<Rightarrow> fetch_request
                \<Rightarrow> fetch_request list \<times> (bytes + fetch_response)"
  fe_rank :: "bytes \<Rightarrow> nat"
  fe_markdown :: "bytes \<Rightarrow> bytes + bytes"

record fetch_state =
  fs_session :: "bytes list"
  fs_config :: fetch_policy_config
  fs_events :: "sandbox_event list"
  fs_asked :: "(bytes \<times> bool) list"
  fs_sent :: "(fetch_request \<times> fetch_request list) list"

definition new_fetch_pack :: fetch_state where
  "new_fetch_pack = \<lparr>fs_session = [], fs_config = no_fetch_config, fs_events = [], fs_asked = [], fs_sent = []\<rparr>"

definition fs_emit :: "bytes \<Rightarrow> bytes \<Rightarrow> bytes \<Rightarrow> bytes \<Rightarrow> fetch_state \<Rightarrow> fetch_state" where
  "fs_emit kind summary detail result st = st\<lparr>fs_events := fs_events st @ [mk_sandbox_event kind summary detail result]\<rparr>"

definition is_session_allowed :: "bytes list \<Rightarrow> bytes \<Rightarrow> bool" where
  "is_session_allowed session host =
     (host \<in> set session \<or> list_ex (\<lambda>domain. has_suffix (CHR ''.'' # domain) host) session)"

text \<open>The verdict of the gate with the reason of a denial.\<close>

definition policy_check_fetch :: "fetch_env \<Rightarrow> bytes \<Rightarrow> fetch_state \<Rightarrow> (bool \<times> bytes) \<times> fetch_state" where
  "policy_check_fetch E raw st =
     (if (case parse_url raw of Some h \<Rightarrow> is_session_allowed (fs_session st) (host_name h) | None \<Rightarrow> False)
      then ((True, []), st)
      else case check_policy (fe_policy E) ''fetch'' [(''url'', JStr raw)] of
             Inl e \<Rightarrow> ((False, ''policy error: '' @ e), st)
           | Inr res \<Rightarrow>
               if \<not> allowed res then ((False, reason res), st)
               else let cfg = decode_fetch_config (config_json res); st = st\<lparr>fs_config := cfg\<rparr> in
                    if fc_allow_all cfg then ((True, []), st)
                    else if is_url_allowed raw (effective_urls cfg) then ((True, []), st)
                    else if effective_urls cfg = [] then ((True, []), st)
                    else ((False, ''URL '' @ quote raw @ '' not in allowlist''), st))"

definition host_or_raw :: "bytes \<Rightarrow> bytes" where
  "host_or_raw raw =
     (case parse_url raw of Some h \<Rightarrow> if host_name h \<noteq> [] then host_name h else raw | None \<Rightarrow> raw)"

text \<open>The question to the user and what follows from the reply.\<close>

definition ask_user ::
    "((bytes \<times> bool) list \<Rightarrow> input_request_data \<Rightarrow> bytes + js) \<Rightarrow> bytes \<Rightarrow> fetch_state \<Rightarrow> bool \<times> fetch_state" where
  "ask_user requester host st =
     (let st = fs_emit ''ask'' (''allowUrls: requesting access to '' @ host) [] [] st;
          reply = requester (fs_asked st)
                    (confirm_request (''Allow the agent to access '' @ host @ ''?''));
          yes = (reply = Inr (Some (JBool True)));
          st = st\<lparr>fs_asked := fs_asked st @ [(host, yes)]\<rparr>
      in case reply of
           Inl e \<Rightarrow> (False, fs_emit ''error'' (''allowUrls: '' @ e) [] [] st)
         | Inr v \<Rightarrow>
             if yes
             then (True, fs_emit ''ask_result'' (''allowUrls: '' @ host @ '' approved'') [] []
                           (st\<lparr>fs_session := List.insert host (fs_session st)\<rparr>))
             else (False, fs_emit ''ask_result'' (''allowUrls: '' @ host @ '' denied'') [] [] st))"

definition request_access :: "fetch_env \<Rightarrow> bytes \<Rightarrow> fetch_state \<Rightarrow> bool \<times> fetch_state" where
  "request_access E raw st =
     (let host = host_or_raw raw in
      if is_session_allowed (fs_session st) host then (True, st)
      else let ((ok, _), st) = policy_check_fetch E raw st in
           if ok then (True, st)
           else case fe_requester E of
                  None \<Rightarrow> (False, st)
                | Some requester \<Rightarrow> ask_user requester host st)"

section \<open>Primitives\<close>

definition allow_urls_arg :: "js \<Rightarrow> bytes + bytes list" where
  "allow_urls_arg v =
     (case v of
        None \<Rightarrow> Inl ''allowUrls: url or array of urls is required''
      | Some JNull \<Rightarrow> Inl ''allowUrls: url or array of urls is required''
      | Some (JStr s) \<Rightarrow> Inr [s]
      | Some (JArr vs) \<Rightarrow>
          let ds = filter (\<lambda>s. s \<noteq> []) (map string_elem vs) in
          if ds = [] then Inl ''allowUrls: url is required'' else Inr ds
      | Some v \<Rightarrow> Inr [js_string v])"

text \<open>The first URL of every host.\<close>

definition by_host :: "bytes list \<Rightarrow> (bytes \<times> bytes) list" where
  "by_host urls =
     foldl (\<lambda>m raw. if host_or_raw raw \<in> fst ` set m then m else m @ [(host_or_raw raw, raw)]) [] urls"

definition request_all :: "fetch_env \<Rightarrow> (bytes \<times> bytes) list \<Rightarrow> fetch_state \<Rightarrow> bool \<times> fetch_state" where
  "request_all E hosts st =
     foldl (\<lambda>(all, st) (host, raw). let (ok, st) = request_access E raw st in (all \<and> ok, st)) (True, st) hosts"

definition allow_urls :: "fetch_env \<Rightarrow> js list \<Rightarrow> fetch_state \<Rightarrow> (bytes + js) \<times> fetch_state" where
  "allow_urls E args st =
     (case allow_urls_arg (argument args 0) of
        Inl e \<Rightarrow> (Inl e, st)
      | Inr urls \<Rightarrow>
          let (all, st) = request_all E (sort_key (\<lambda>(host, raw). fe_rank E host) (by_host urls)) st in
          (Inr (Some (JBool all)), st))"

definition do_fetch_request ::
    "fetch_env \<Rightarrow> bytes \<Rightarrow> bytes \<Rightarrow> bytes \<Rightarrow> (bytes \<times> bytes) list \<Rightarrow> fetch_state \<Rightarrow> (bytes + fetch_response) \<times> fetch_state" where
  "do_fetch_request E raw method body headers st =
     (let req = new_fetch_request raw method body (sort_key (\<lambda>(k, v). fe_rank E k) headers) in
      case fe_client E (fs_sent st) req of
        (followed, answer) \<Rightarrow> (answer, st\<lparr>fs_sent := fs_sent st @ [(req, followed)]\<rparr>))"

definition option_field :: "js list \<Rightarrow> bytes \<Rightarrow> json option" where
  "option_field args k = (case argument args 1 of Some (JObj m) \<Rightarrow> map_of m k | _ \<Rightarrow> None)"

text \<open>The request with its events, which the two primitives share up to their names.\<close>

definition send_request ::
    "fetch_env \<Rightarrow> bytes \<Rightarrow> bytes \<Rightarrow> bytes \<Rightarrow> bytes \<Rightarrow> bytes \<Rightarrow> (bytes \<times> bytes) list \<Rightarrow> fetch_state \<Rightarrow> (bytes + js) \<times> fetch_state" where
  "send_request E prim label raw method body headers st =
     (let st = fs_emit ''fetch'' (label @ '': '' @ raw) raw [] st;
          (answer, st) = do_fetch_request E raw method body headers st
      in case answer of
           Inl e \<Rightarrow> (Inl (prim @ '': '' @ e), fs_emit ''error'' (prim @ '' error'') e [] st)
         | Inr r \<Rightarrow>
             (Inr (Some (response_value r)),
              fs_emit ''fetch'' (label @ '': '' @ raw @ '' '' @ right_arrow @ '' '' @ itoa (fp_status r)) [] (itoa (fp_status r)) st))"

definition http_call :: "fetch_env \<Rightarrow> js list \<Rightarrow> fetch_state \<Rightarrow> (bytes + js) \<times> fetch_state" where
  "http_call E args st =
     (let raw = value_string (argument args 0) in
      if raw = [] then (Inl ''http: url is required'', st)
      else let ((ok, why), st) = policy_check_fetch E raw st in
           if \<not> ok
           then (Inl (''http: URL '' @ quote raw @ '' not allowed ('' @ why @ '') '' @ em_dash
                      @ '' use allowUrls() to request access''),
                 fs_emit ''error'' (''http blocked: '' @ raw) [] [] st)
           else let method = (case option_field args ''method'' of Some (JStr m) \<Rightarrow> m | _ \<Rightarrow> ''GET'');
                    body = (case option_field args ''body'' of Some (JStr b) \<Rightarrow> b | _ \<Rightarrow> []);
                    headers = extract_headers (option_field args ''headers'')
                in send_request E ''http'' (''http.'' @ to_lower method) raw method body headers st)"

definition fetch_call :: "fetch_env \<Rightarrow> js list \<Rightarrow> fetch_state \<Rightarrow> (bytes + js) \<times> fetch_state" where
  "fetch_call E args st =
     (let raw = value_string (argument args 0) in
      if raw = [] then (Inl ''fetch: url is required'', st)
      else let (ok, st) = request_access E raw st in
           if \<not> ok
           then (Inl (''fetch: access to '' @ quote raw @ '' was denied by the user''),
                 fs_emit ''error'' (''fetch blocked: '' @ raw) [] [] st)
           else send_request E ''fetch'' ''fetch'' raw ''GET'' [] (extract_headers (option_field args ''headers'')) st)"

definition html_to_markdown :: "fetch_env \<Rightarrow> js list \<Rightarrow> fetch_state \<Rightarrow> (bytes + js) \<times> fetch_state" where
  "html_to_markdown E args st =
     (let html = value_string (argument args 0) in
      if html = [] then (Inr (Some (JStr [])), st)
      else case fe_markdown E html of
             Inl e \<Rightarrow> (Inl (''htmlToMarkdown: '' @ e), st)
           | Inr md \<Rightarrow> (Inr (Some (JStr md)), st))"

definition fetch_whitelist :: "fetch_env \<Rightarrow> fetch_state \<Rightarrow> (bytes + js) \<times> fetch_state" where
  "fetch_whitelist E st =
     (let (_, st) = policy_check_fetch E [] st in
      (Inr (Some (JArr (map JStr (effective_urls (fs_config st))))), st))"

text \<open>What a script may call, in any order and however often.\<close>

datatype fetch_primitive = Fetch | Http | Allow_urls | Html_to_markdown | Fetch_whitelist

fun fetch_primitive_call :: "fetch_env \<Rightarrow> fetch_primitive \<Rightarrow> js list \<Rightarrow> fetch_state \<Rightarrow> (bytes + js) \<times> fetch_state" where
  "fetch_primitive_call E Fetch args st = fetch_call E args st"
| "fetch_primitive_call E Http args st = http_call E args st"
| "fetch_primitive_call E Allow_urls args st = allow_urls E args st"
| "fetch_primitive_call E Html_to_markdown args st = html_to_markdown E args st"
| "fetch_primitive_call E Fetch_whitelist args st = fetch_whitelist E st"

definition fetch_run :: "fetch_env \<Rightarrow> (fetch_primitive \<times> js list) list \<Rightarrow> fetch_state" where
  "fetch_run E calls = foldl (\<lambda>st (p, args). snd (fetch_primitive_call E p args st)) new_fetch_pack calls"
section \<open>Texts\<close>

definition apostrophe :: bytes where "apostrophe = [char_of (39::nat)]"

definition fetch_prompt :: bytes where
  \<open>fetch_prompt =
     concat
       [''// --- Web & Fetch ---'', newline,
        newline,
        ''/**'', newline,
        '' * HTTP GET a URL. SYNCHRONOUS '', em_dash, '' returns the response object directly. This is the'', newline,
        '' * sandbox'', apostrophe, ''s own fetch, NOT the browser Fetch API: no Promise, no await, no res.json().'', newline,
        '' * body is the raw response text '', em_dash, '' use JSON.parse(res.body) for JSON endpoints.'', newline,
        '' * Pass opts.headers to send request headers (e.g. Authorization for a bearer'', '' token).'', newline,
        '' * Auto-prompts the user for access if the domain is not whitelisted.'', newline,
        '' */'', newline,
        ''declare function fetch(url: string, opts?: { headers?: Record<string, string> }): {'', '' status: number; body: string; headers: Record<string, string> };'', newline,
        ''/** Convert an HTML string to markdown '', em_dash, '' e.g. htmlToMarkdown(fetch(url).body) for a readable page. */'', newline,
        ''declare function htmlToMarkdown(html: string): string;'', newline,
        ''/** Pre-approve domains before fetching in a loop. Not needed for single fetches '', em_dash, '' fetch() auto-prompts. */'', newline,
        ''declare function allowUrls(domains: string | string[]): boolean;'', newline,
        ''/** URL patterns currently allowed without a prompt. */'', newline,
        ''declare function fetchWhitelist(): string[];'']\<close>

definition fetch_help :: "(bytes \<times> bytes) list" where
  \<open>fetch_help =
     [(''allowUrls'', concat
         [''allowUrls(domains) '', em_dash, '' Request user permission to access domains. Pass an array of domain strings.'', '' Prompts once per domain.'']),
      (''fetch'', concat
         [''fetch(url, opts?) '', em_dash, '' Fetch a URL and return {status, body, headers}. Pass {headers:{Authorization:'', apostrophe, ''Bearer ...'', apostrophe, ''}} to send request headers. Auto-prompts for access if domain is not whitelisted.'']),
      (''fetchWhitelist'', concat
         [''fetchWhitelist() '', em_dash, '' Returns the array of allowed URL patterns.'']),
      (''htmlToMarkdown'', concat
         [''htmlToMarkdown(html) '', em_dash, '' Convert an HTML string to markdown.''])]\<close>

text \<open>The pack, given what its functions do.\<close>

definition fetch_pack ::
    "(bytes \<times> (policy option \<Rightarrow> js list list \<Rightarrow> js list \<Rightarrow> sandbox_event list \<times> (bytes + js))) list \<Rightarrow> pack" where
  "fetch_pack functions =
     \<lparr>pk_name = ''fetch'', pk_description = ''HTTP requests, web scraping, and URL access management'',
      pk_skill_type = [], pk_prompt = fetch_prompt, pk_help = fetch_help, pk_functions = functions, pk_skills = None\<rparr>"

definition http_module_prompt :: bytes where
  \<open>http_module_prompt =
     concat
       [''/** Synchronous HTTP client, e.g. const http = require('', apostrophe, ''http'', apostrophe, ''). All methods return the response directly (no Promise). body is a raw string:'', '' JSON.stringify(payload) on the way in, JSON.parse(res.body) on the way out; set'', '' Content-Type via opts.headers. Call allowUrls() first if the domain is not'', '' whitelisted. */'', newline,
        ''declare module '', apostrophe, ''http'', apostrophe, '' {'', newline,
        ''  interface HttpResponse { status: number; body: string; headers: Record<string,'', '' string> }'', newline,
        ''  interface HttpOpts { headers?: Record<string, string> }'', newline,
        ''  function get(url: string, opts?: HttpOpts): HttpResponse;'', newline,
        ''  function post(url: string, body?: string, opts?: HttpOpts): HttpResponse;'', newline,
        ''  function put(url: string, body?: string, opts?: HttpOpts): HttpResponse;'', newline,
        ''  function del(url: string, opts?: HttpOpts): HttpResponse;'', newline,
        ''}'']\<close>

definition http_module_help :: bytes where
  \<open>http_module_help =
     concat
       [''require('', apostrophe, ''http'', apostrophe, '') '', em_dash, '' HTTP client module for API requests.'', newline,
        ''  var h = require('', apostrophe, ''http'', apostrophe, '');'', newline,
        ''  h.get(url, opts?) '', em_dash, '' GET request'', newline,
        ''  h.post(url, body?, opts?) '', em_dash, '' POST request'', newline,
        ''  h.put(url, body?, opts?) '', em_dash, '' PUT request'', newline,
        ''  h.del(url, opts?) '', em_dash, '' DELETE request'', newline,
        ''  opts.headers sends request headers, e.g. {headers:{Authorization:'', apostrophe, ''Bearer '', apostrophe, ''+token}}.'', newline,
        ''  All methods return {status, body, headers}.'']\<close>

definition http_module_js :: bytes where
  \<open>http_module_js =
     concat
       [''// HTTP module '', em_dash, '' wraps the internal _http() function with explicit methods.'', newline,
        ''// Usage: var h = require('', apostrophe, ''http'', apostrophe, ''); h.get(url); h.post(url, body);'', newline,
        ''//        h.get(url, {headers: {Authorization: "Bearer " + token}});'', newline,
        newline,
        ''function _headers(opts) {'', newline,
        ''  return (opts && opts.headers) ? opts.headers : undefined;'', newline,
        ''}'', newline,
        newline,
        ''exports.get = function(url, opts) {'', newline,
        ''  return _http(url, {method: "GET", headers: _headers(opts)});'', newline,
        ''};'', newline,
        newline,
        ''exports.post = function(url, body, opts) {'', newline,
        ''  return _http(url, {method: "POST", body: body || "", headers: _headers(opts)});'', newline,
        ''};'', newline,
        newline,
        ''exports.put = function(url, body, opts) {'', newline,
        ''  return _http(url, {method: "PUT", body: body || "", headers: _headers(opts)});'', newline,
        ''};'', newline,
        newline,
        ''exports.del = function(url, opts) {'', newline,
        ''  return _http(url, {method: "DELETE", headers: _headers(opts)});'', newline,
        ''};'']\<close>

text \<open>The pack with the module it makes loadable.\<close>

definition http_module_pack :: "pack \<times> bytes \<times> bytes" where
  "http_module_pack =
     (\<lparr>pk_name = ''http'', pk_description = ''HTTP client for API requests'', pk_skill_type = [],
       pk_prompt = http_module_prompt, pk_help = [(''http'', http_module_help)], pk_functions = [], pk_skills = None\<rparr>,
      ''http'', http_module_js)"

end
