(* ===== verification/Markdown_Pack.thy ===== *)
theory Markdown_Pack
  imports Fetch_Pack
begin

text \<open>
  \<open>sandbox/pack_markdown.go\<close>: what a script reads out of Markdown.  The parser is a third-party
  package; it gives a tree whose nodes have the lines of the source they cover (blocks only) and
  whose text leaves have their place in the source, their value, and whether a line ends there.
\<close>

section \<open>Trees\<close>

datatype md_kind =
    Md_text nat nat bytes bool
  | Md_code_span
  | Md_link bytes
  | Md_auto_link bytes
  | Md_heading int
  | Md_list_item
  | Md_paragraph
  | Md_fenced_code "bytes list"
  | Md_code_block "bytes list"
  | Md_other

datatype md_node = Md (md_kind_of: md_kind) (md_lines: "(nat \<times> nat) list") (md_children: "md_node list")

text \<open>\<open>ast.Walk\<close> on entering: the visitor changes the state and says whether to go down.\<close>

fun md_walk :: "(md_node \<Rightarrow> 's \<Rightarrow> 's \<times> bool) \<Rightarrow> md_node \<Rightarrow> 's \<Rightarrow> 's" where
  "md_walk f (Md k ls cs) s = (let (s, deep) = f (Md k ls cs) s in if deep then fold (md_walk f) cs s else s)"

definition text_value :: "md_node \<Rightarrow> bytes" where
  "text_value n = (case md_kind_of n of Md_text _ _ v _ \<Rightarrow> v | _ \<Rightarrow> [])"

fun node_text :: "md_node \<Rightarrow> bytes" where
  "node_text (Md k ls cs) =
     concat (map (\<lambda>c. case md_kind_of c of
                       Md_text _ _ v _ \<Rightarrow> v
                     | Md_code_span \<Rightarrow> concat (map text_value (md_children c))
                     | _ \<Rightarrow> node_text c) cs)"

section \<open>Links, headings, items\<close>

definition link_entry :: "bytes \<Rightarrow> bytes \<Rightarrow> json" where
  "link_entry t url = JObj [(''text'', JStr t), (''url'', JStr url)]"

definition visit_link :: "md_node \<Rightarrow> json list \<Rightarrow> json list \<times> bool" where
  "visit_link n links =
     (case md_kind_of n of
        Md_link url \<Rightarrow> (links @ [link_entry (node_text n) url], False)
      | Md_auto_link url \<Rightarrow> (links @ [link_entry url url], False)
      | _ \<Rightarrow> (links, True))"

definition md_links :: "md_node \<Rightarrow> json list" where
  "md_links doc = md_walk visit_link doc []"

definition visit_heading :: "md_node \<Rightarrow> json list \<Rightarrow> json list \<times> bool" where
  "visit_heading n hs =
     (case md_kind_of n of
        Md_heading level \<Rightarrow> (hs @ [JObj [(''level'', JNum (itoa level)), (''text'', JStr (node_text n))]], True)
      | _ \<Rightarrow> (hs, True))"

definition md_headings :: "md_node \<Rightarrow> json list" where
  "md_headings doc = md_walk visit_heading doc []"

text \<open>The links of an item or a section.\<close>

definition visit_inner_link :: "md_node \<Rightarrow> json list \<Rightarrow> json list \<times> bool" where
  "visit_inner_link n links =
     (case md_kind_of n of
        Md_link url \<Rightarrow> (links @ [link_entry (node_text n) url], True)
      | _ \<Rightarrow> (links, True))"

definition visit_item :: "md_node \<Rightarrow> json list \<Rightarrow> json list \<times> bool" where
  "visit_item n items =
     (case md_kind_of n of
        Md_list_item \<Rightarrow>
          (items @ [JObj [(''links'', JArr (md_walk visit_inner_link n [])), (''text'', JStr (trim_space (node_text n)))]], False)
      | _ \<Rightarrow> (items, True))"

definition md_items :: "md_node \<Rightarrow> json list" where
  "md_items doc = md_walk visit_item doc []"

section \<open>Sections\<close>

text \<open>Where a block starts and ends; without lines, by its texts.\<close>

definition node_start_offset :: "md_node \<Rightarrow> nat" where
  "node_start_offset n =
     (if md_lines n \<noteq> [] then fst (hd (md_lines n))
      else case List.find (\<lambda>c. case md_kind_of c of Md_text _ _ _ _ \<Rightarrow> True | _ \<Rightarrow> False) (md_children n) of
             Some c \<Rightarrow> (case md_kind_of c of Md_text a _ _ _ \<Rightarrow> a | _ \<Rightarrow> 0)
           | None \<Rightarrow> 0)"

definition visit_end :: "md_node \<Rightarrow> nat \<Rightarrow> nat \<times> bool" where
  "visit_end n m = (case md_kind_of n of Md_text _ b _ _ \<Rightarrow> (max m b, True) | _ \<Rightarrow> (m, True))"

definition node_end_offset :: "md_node \<Rightarrow> nat" where
  "node_end_offset n = (if md_lines n \<noteq> [] then snd (last (md_lines n)) else md_walk visit_end n 0)"

text \<open>\<open>source[a:b]\<close>, which panics when the bounds are out of order or beyond the end.\<close>

definition go_slice :: "bytes \<Rightarrow> nat \<Rightarrow> nat \<Rightarrow> bytes option" where
  "go_slice s a b = (if a \<le> b \<and> b \<le> length s then Some (take (b - a) (drop a s)) else None)"

record section_builder =
  sec_heading :: bytes
  sec_level :: int
  sec_start :: nat
  sec_links :: "json list"

definition section_value :: "section_builder \<Rightarrow> bytes \<Rightarrow> json" where
  "section_value b content =
     JObj [(''content'', JStr (trim_space content)), (''heading'', JStr (sec_heading b)),
           (''level'', JNum (itoa (sec_level b))), (''links'', JArr (sec_links b))]"

definition open_section :: "md_node \<Rightarrow> int \<Rightarrow> section_builder" where
  "open_section h level =
     \<lparr>sec_heading = node_text h, sec_level = level, sec_start = node_end_offset h, sec_links = []\<rparr>"

text \<open>The sections from some block on, with the one that is open.\<close>

fun sections_from :: "bytes \<Rightarrow> section_builder option \<Rightarrow> md_node list \<Rightarrow> json list option" where
  "sections_from src None [] = Some []"
| "sections_from src (Some b) [] =
     (case go_slice src (sec_start b) (length src) of None \<Rightarrow> None | Some c \<Rightarrow> Some [section_value b c])"
| "sections_from src cur (n # ns) =
     (case md_kind_of n of
        Md_heading level \<Rightarrow>
          (case cur of
             None \<Rightarrow> sections_from src (Some (open_section n level)) ns
           | Some b \<Rightarrow>
               (case go_slice src (sec_start b) (node_start_offset n) of
                  None \<Rightarrow> None
                | Some c \<Rightarrow>
                    map_option (Cons (section_value b c)) (sections_from src (Some (open_section n level)) ns)))
      | _ \<Rightarrow>
          sections_from src
            (map_option (\<lambda>b. b\<lparr>sec_links := md_walk visit_inner_link n (sec_links b)\<rparr>) cur) ns)"

definition md_sections :: "bytes \<Rightarrow> md_node \<Rightarrow> json list option" where
  "md_sections src doc = sections_from src None (md_children doc)"

section \<open>Plain text\<close>

definition break_line :: "bytes \<Rightarrow> bytes" where
  "break_line buf = (if buf \<noteq> [] \<and> last buf \<noteq> CHR 0x0A then buf @ newline else buf)"

definition visit_plain :: "md_node \<Rightarrow> bytes \<Rightarrow> bytes \<times> bool" where
  "visit_plain n buf =
     (case md_kind_of n of
        Md_text _ _ v brk \<Rightarrow> (buf @ v @ (if brk then newline else []), True)
      | Md_code_span \<Rightarrow> (buf @ concat (map text_value (md_children n)), False)
      | Md_paragraph \<Rightarrow> (break_line buf, True)
      | Md_heading _ \<Rightarrow> (break_line buf, True)
      | Md_fenced_code ls \<Rightarrow> (buf @ concat ls, False)
      | Md_code_block ls \<Rightarrow> (buf @ concat ls, False)
      | _ \<Rightarrow> (buf, True))"

definition md_plain :: "md_node \<Rightarrow> bytes" where
  "md_plain doc = trim_space (md_walk visit_plain doc [])"

section \<open>The pack\<close>

text \<open>A function of the pack on its first argument; \<open>None\<close> is a panic of the host.\<close>

definition markdown_call :: "(bytes \<Rightarrow> md_node) \<Rightarrow> bytes \<Rightarrow> js list \<Rightarrow> js option" where
  "markdown_call parse f args =
     (let md = value_string (argument args 0); doc = parse md in
      if f = ''_md_links'' then Some (Some (JArr (md_links doc)))
      else if f = ''_md_headings'' then Some (Some (JArr (md_headings doc)))
      else if f = ''_md_items'' then Some (Some (JArr (md_items doc)))
      else if f = ''_md_sections'' then map_option (\<lambda>ss. Some (JArr ss)) (md_sections md doc)
      else Some (Some (JStr (md_plain doc))))"

definition markdown_prompt :: bytes where
  \<open>markdown_prompt =
     concat
       [''/** Parse markdown into structured data. No LLM call needed. */'', newline,
        ''declare module '', apostrophe, ''markdown'', apostrophe, '' {'', newline,
        ''  interface Link { text: string; url: string }'', newline,
        ''  interface Heading { text: string; level: number }'', newline,
        ''  interface ListItem { text: string; links: Link[] }'', newline,
        ''  interface Section { heading: string; level: number; content: string; links:'', '' Link[] }'', newline,
        newline,
        ''  /** Extract all links from markdown. */'', newline,
        ''  function links(md: string): Link[];'', newline,
        ''  /** Extract all headings from markdown. */'', newline,
        ''  function headings(md: string): Heading[];'', newline,
        ''  /** Extract all list items from markdown. */'', newline,
        ''  function items(md: string): ListItem[];'', newline,
        ''  /** Split markdown into sections by heading. Each section includes its content'', '' and links. */'', newline,
        ''  function sections(md: string): Section[];'', newline,
        ''  /** Strip markdown formatting and return plain text. */'', newline,
        ''  function plain(md: string): string;'', newline,
        ''}'']\<close>

definition markdown_help :: bytes where
  \<open>markdown_help =
     concat
       [''require('', apostrophe, ''markdown'', apostrophe, '') '', em_dash, '' Parse markdown into structured data.'', newline,
        ''  var m = require('', apostrophe, ''markdown'', apostrophe, '');'', newline,
        ''  m.links(md) '', em_dash, '' Extract all links as [{text, url}]'', newline,
        ''  m.headings(md) '', em_dash, '' Extract all headings as [{text, level}]'', newline,
        ''  m.items(md) '', em_dash, '' Extract all list items as [{text, links}]'', newline,
        ''  m.sections(md) '', em_dash, '' Split by heading into [{heading, level, content, links}]'', newline,
        ''  m.plain(md) '', em_dash, '' Strip formatting, return plain text'']\<close>

definition markdown_module_js :: bytes where
  \<open>markdown_module_js =
     concat
       [''exports.links = function(md) { return _md_links(md); };'', newline,
        ''exports.headings = function(md) { return _md_headings(md); };'', newline,
        ''exports.items = function(md) { return _md_items(md); };'', newline,
        ''exports.sections = function(md) { return _md_sections(md); };'', newline,
        ''exports.plain = function(md) { return _md_plain(md); };'']\<close>

text \<open>The pack, given what its functions do, with the module it makes loadable.\<close>

definition markdown_pack ::
    "(bytes \<times> (policy option \<Rightarrow> js list list \<Rightarrow> js list \<Rightarrow> sandbox_event list \<times> (bytes + js))) list \<Rightarrow> pack \<times> bytes \<times> bytes" where
  "markdown_pack functions =
     (\<lparr>pk_name = ''markdown'', pk_description = ''Parse markdown into structured data (links, headings, sections)'',
       pk_skill_type = [], pk_prompt = markdown_prompt, pk_help = [(''markdown'', markdown_help)],
       pk_functions = functions, pk_skills = None\<rparr>,
      ''markdown'', markdown_module_js)"

end
