(* ===== verification/Host_Packs.thy ===== *)
theory Host_Packs
  imports Fetch_Pack Llm_Types
begin

text \<open>
  \<open>sandbox/pack_ai.go\<close> and \<open>ext/pack_secret.go\<close>, \<open>pack_email.go\<close>, \<open>pack_search.go\<close> and
  \<open>pack_stores.go\<close>: the packs that lend a script a service of the application.  The services (the
  model client, the secrets, the mailer, the retriever and the catalogue) are parameters, which see
  the calls of the function made before; what a function asks of its service is listed beside its
  events and its answer.  A missing service is \<open>None\<close>.
\<close>

section \<open>Gates\<close>

definition denial_events :: "(bytes \<times> bytes) list \<Rightarrow> sandbox_event list" where
  "denial_events l = map (\<lambda>(s, d). mk_sandbox_event ''error'' s d []) l"

text \<open>The argument that has to be there and not be the empty text.\<close>

definition required_text :: "bytes \<Rightarrow> js list \<Rightarrow> bytes + bytes" where
  "required_text missing args =
     (if args = [] \<or> value_string (argument args 0) = [] then Inl missing else Inr (value_string (argument args 0)))"

text \<open>A call of a service behind the policy: what was asked of it, the events, the answer.\<close>

definition gated ::
    "policy option \<Rightarrow> bytes \<Rightarrow> policy_args \<Rightarrow> (unit \<Rightarrow> 'e list \<times> sandbox_event list \<times> (bytes + js))
     \<Rightarrow> 'e list \<times> sandbox_event list \<times> (bytes + js)" where
  "gated p tool pargs call =
     (let (denial, verdict) = check_policy_or_panic p tool pargs in
      case verdict of
        Inl e \<Rightarrow> ([], denial_events denial, Inl e)
      | Inr _ \<Rightarrow> (let (asked, evts, r) = call () in (asked, denial_events denial @ evts, r)))"

section \<open>The model\<close>

definition fence :: bytes where
  "fence = ''```''"

definition tag_char :: "char \<Rightarrow> bool" where
  "tag_char c = (is_alpha c \<or> is_digit c \<or> c \<in> set ''_+-'')"

text \<open>\<open>codeFenceRe\<close> on trimmed text: after the opening fence and its tag, everything up to the fence
  that ends the text.\<close>

definition strip_code_fences :: "bytes \<Rightarrow> bytes" where
  "strip_code_fences s =
     (let s = trim_space s; r = dropWhile tag_char (drop 3 s) in
      if has_prefix fence s \<and> has_suffix fence r then trim_space (take (length r - 3) r) else s)"

definition truncate_text :: "bytes \<Rightarrow> int \<Rightarrow> bytes" where
  "truncate_text s n =
     (if n \<le> 3 then ''...'' else if int (length s) \<le> n then s else take (nat (n - 3)) s @ ''...'')"

definition ai_request :: "bytes \<Rightarrow> bytes \<Rightarrow> bytes \<Rightarrow> completion_request" where
  "ai_request model prompt system =
     \<lparr>req_messages = (if system \<noteq> [] then [mk_message ''system'' system] else []) @ [mk_message ''user'' prompt],
      req_model = model, req_temperature = None, req_max_tokens = None\<rparr>"

type_synonym ai_client = "js list list \<Rightarrow> completion_request \<Rightarrow> bytes + completion_response"

definition call_ai ::
    "(completion_request \<Rightarrow> bytes + completion_response) \<Rightarrow> bytes \<Rightarrow> bytes \<Rightarrow> bytes
     \<Rightarrow> completion_request list \<times> sandbox_event list \<times> (bytes + bytes)" where
  "call_ai client model prompt system =
     (let req = ai_request model prompt system;
          start = mk_sandbox_event ''ai'' (''ai: '' @ truncate_text prompt 80) prompt []
      in case client req of
           Inl e \<Rightarrow> ([req], [start, mk_sandbox_event ''error'' ''ai: generation error'' e []], Inl (''ai: '' @ e))
         | Inr resp \<Rightarrow>
             ([req],
              [start, mk_sandbox_event ''ai'' (''ai: done ('' @ itoa (int (length (resp_content resp))) @ '' chars)'') []
                        (truncate_text (resp_content resp) 200)],
              Inr (resp_content resp)))"

definition ai_text ::
    "(completion_request \<Rightarrow> bytes + completion_response) \<Rightarrow> bytes \<Rightarrow> policy option \<Rightarrow> js list
     \<Rightarrow> completion_request list \<times> sandbox_event list \<times> (bytes + js)" where
  "ai_text client model p args =
     (case required_text ''ai: prompt is required'' args of
        Inl e \<Rightarrow> ([], [], Inl e)
      | Inr prompt \<Rightarrow>
          let system = (case argument args 1 of None \<Rightarrow> [] | Some v \<Rightarrow> value_string (Some v)) in
          gated p ''ai'' [(''prompt'', JStr prompt)] (\<lambda>_.
            let (reqs, evts, r) = call_ai client model prompt system in
            (reqs, evts, case r of Inl e \<Rightarrow> Inl e | Inr t \<Rightarrow> Inr (Some (JStr (strip_code_fences t))))))"

definition json_only :: bytes where
  "json_only = ''Respond with raw JSON only; no prose, no code fences.''"

definition schema_prompt :: "js \<Rightarrow> bytes" where
  "schema_prompt v =
     (case v of
        None \<Rightarrow> newline @ newline @ ''Respond with a JSON value.''
      | Some JNull \<Rightarrow> newline @ newline @ ''Respond with a JSON value.''
      | Some w \<Rightarrow> newline @ newline @ ''Respond with JSON matching this schema:'' @ newline @ json_marshal w)"

text \<open>\<open>why\<close> is the decoder's error for a text that is no JSON.\<close>

definition ai_json ::
    "(completion_request \<Rightarrow> bytes + completion_response) \<Rightarrow> bytes \<Rightarrow> (bytes \<Rightarrow> bytes) \<Rightarrow> policy option \<Rightarrow> js list
     \<Rightarrow> completion_request list \<times> sandbox_event list \<times> (bytes + js)" where
  "ai_json client model why p args =
     (case required_text ''aiJSON: prompt is required'' args of
        Inl e \<Rightarrow> ([], [], Inl e)
      | Inr prompt \<Rightarrow>
          gated p ''ai'' [(''prompt'', JStr prompt)] (\<lambda>_.
            let (reqs, evts, r) = call_ai client model (prompt @ schema_prompt (argument args 1)) json_only in
            case r of
              Inl e \<Rightarrow> (reqs, evts, Inl e)
            | Inr t \<Rightarrow>
                let stripped = strip_code_fences t in
                case json_parse stripped of
                  None \<Rightarrow>
                    (reqs, evts @ [mk_sandbox_event ''error'' ''aiJSON: parse failure'' (truncate_text stripped 200) []],
                     Inl (''aiJSON: response was not valid JSON: '' @ why stripped
                          @ '' (raw: '' @ quote (truncate_text stripped 200) @ '')''))
                | Some v \<Rightarrow> (reqs, evts, Inr (Some v))))"

definition ai_prompt :: bytes where
  \<open>ai_prompt =
     concat
       [''// --- AI ---'', newline,
        newline,
        ''/** Free-text LLM call '', em_dash, '' summarize, classify, translate, any text synthesis. Synchronous; returns the text.'', '' */'', newline,
        ''declare function ai(prompt: string, system?: string): string;'', newline,
        ''/**'', newline,
        '' * LLM call that returns parsed JSON. Pass the shape you want as schema '', em_dash, '' an example'', newline,
        '' * value works best: aiJSON("Extract every row from:'', [CHR 0x5C], ''n" + text, [{ name: "string", total: "number" }]).'', newline,
        '' * The schema guides the model (inlined into the prompt); the result is parsed but'', '' NOT'', newline,
        '' * validated, so check the fields you rely on.'', newline,
        '' */'', newline,
        ''declare function aiJSON(prompt: string, schema?: unknown): any;'']\<close>

definition ai_help :: "(bytes \<times> bytes) list" where
  \<open>ai_help =
     [(''ai'', concat
         [''ai(prompt, system?) '', em_dash, '' Free-text LLM call. Returns string.'', newline,
          ''  Example: var s = ai("Summarize: " + text);'']),
      (''aiJSON'', concat
         [''aiJSON(prompt, schema?) '', em_dash, '' JSON-shaped LLM call. Returns parsed value.'', newline,
          ''  schema is inlined into the prompt as a guideline; the pack strips fences and'', '' JSON.parses.'', newline,
          ''  Example: var cities = aiJSON("List 10 German cities", { type: "array", items: {'', '' type: "string" } });''])]\<close>

definition ai_module_js :: bytes where
  \<open>ai_module_js =
     concat
       [newline,
        ''exports.ai = function(prompt, system) { return _ai_text(prompt, system); };'', newline,
        ''exports.aiJSON = function(prompt, schema) { return _ai_json(prompt, schema); };'', newline]\<close>

definition ai_pack :: "ai_client \<Rightarrow> bytes \<Rightarrow> (bytes \<Rightarrow> bytes) \<Rightarrow> pack" where
  "ai_pack client model why =
     (let text = (\<lambda>p before args. snd (ai_text (client before) model p args));
          json = (\<lambda>p before args. snd (ai_json (client before) model why p args))
      in \<lparr>pk_name = ''ai'', pk_description = ''LLM sub-calls '' @ em_dash @ '' text synthesis and JSON-shaped output'',
          pk_skill_type = [], pk_prompt = ai_prompt, pk_help = ai_help,
          pk_functions = [(''ai'', text), (''aiJSON'', json), (''_ai_text'', text), (''_ai_json'', json)],
          pk_skills = None\<rparr>)"

section \<open>Secrets\<close>

type_synonym secret_getter = "bytes \<Rightarrow> bytes + bytes"

text \<open>The names the getter was asked for come first.\<close>

definition secret_call :: "secret_getter option \<Rightarrow> policy option \<Rightarrow> js list \<Rightarrow> bytes list \<times> sandbox_event list \<times> (bytes + js)" where
  "secret_call get p args =
     (case required_text ''secret: name is required'' args of
        Inl e \<Rightarrow> ([], [], Inl e)
      | Inr name \<Rightarrow>
          gated p ''secret'' [(''name'', JStr name)] (\<lambda>_.
            case get of
              None \<Rightarrow> ([], [], Inl (''secret('' @ quote name @ ''): no secrets backend configured''))
            | Some get \<Rightarrow>
                ([name], [], case get name of
                               Inl e \<Rightarrow> Inl (''secret('' @ quote name @ ''): '' @ e)
                             | Inr v \<Rightarrow> Inr (Some (JStr v)))))"

definition secret_prompt :: bytes where
  \<open>secret_prompt =
     concat
       [''// --- Secrets ---'', newline,
        ''/** Read a decrypted project secret by name. Throws if the secret is not set. */'', newline,
        ''declare function secret(name: string): string;'']\<close>

definition secret_help :: "(bytes \<times> bytes) list" where
  \<open>secret_help =
     [(''secret'', concat
         [''secret(name) '', em_dash, '' Read a decrypted project secret by name. Returns string; throws if not set.'', newline,
          ''  Example: var key = secret("STRIPE_API_KEY");''])]\<close>

definition secret_module_js :: bytes where
  \<open>secret_module_js =
     concat
       [newline,
        ''exports.get = function(name) { return _secret_get(name); };'', newline,
        ''exports.secret = function(name) { return _secret_get(name); };'', newline]\<close>

definition secret_pack :: "(js list list \<Rightarrow> secret_getter) option \<Rightarrow> pack" where
  "secret_pack get =
     (let f = (\<lambda>p before args. snd (secret_call (map_option (\<lambda>g. g before) get) p args)) in
      \<lparr>pk_name = ''secret'', pk_description = ''Read project secrets by name '' @ em_dash @ '' secret(name)'',
       pk_skill_type = [], pk_prompt = secret_prompt, pk_help = secret_help,
       pk_functions = [(''secret'', f), (''_secret_get'', f)], pk_skills = None\<rparr>)"

section \<open>Mail\<close>

record mail =
  ml_to :: bytes
  ml_subject :: bytes
  ml_body :: bytes

definition as_string :: "json option \<Rightarrow> bytes" where
  "as_string v = (case v of None \<Rightarrow> [] | Some JNull \<Rightarrow> [] | Some (JStr s) \<Rightarrow> s | Some w \<Rightarrow> go_print w)"

text \<open>The sender answers an error or nothing.\<close>

definition send_email :: "(mail \<Rightarrow> bytes option) option \<Rightarrow> policy option \<Rightarrow> js list \<Rightarrow> mail list \<times> sandbox_event list \<times> (bytes + js)" where
  "send_email sender p args =
     (case argument args 0 of
        None \<Rightarrow> ([], [], Inl ''sendEmail: an argument object {to, subject, body} is required'')
      | Some JNull \<Rightarrow> ([], [], Inl ''sendEmail: an argument object {to, subject, body} is required'')
      | Some (JObj m) \<Rightarrow>
          let ml = \<lparr>ml_to = as_string (map_of m ''to''), ml_subject = as_string (map_of m ''subject''),
                    ml_body = as_string (map_of m ''body'')\<rparr> in
          if trim_space (ml_to ml) = []
          then ([], [], Inl (''sendEmail: '' @ apostrophe @ ''to'' @ apostrophe @ '' is required''))
          else gated p ''sendEmail'' [(''subject'', JStr (ml_subject ml)), (''to'', JStr (ml_to ml))] (\<lambda>_.
                 case sender of
                   None \<Rightarrow> ([], [], Inl ''sendEmail: no email backend configured'')
                 | Some mailer \<Rightarrow>
                     ([ml], [], case mailer ml of Some e \<Rightarrow> Inl (''sendEmail: '' @ e) | None \<Rightarrow> Inr (Some (JBool True))))
      | Some _ \<Rightarrow> ([], [], Inl ''sendEmail: argument must be an object {to, subject, body}''))"

definition email_prompt :: bytes where
  \<open>email_prompt =
     concat
       [''// --- Email ---'', newline,
        ''/** Send a plain-text email. Returns true on success; throws on failure. */'', newline,
        ''declare function sendEmail(msg: { to: string; subject: string; body: string }):'', '' boolean;'']\<close>

definition email_help :: "(bytes \<times> bytes) list" where
  \<open>email_help =
     [(''sendEmail'', concat
         [''sendEmail({to, subject, body}) '', em_dash, '' Send a plain-text email. Returns true; throws on failure.'', newline,
          ''  Example: sendEmail({ to: "ops@example.com", subject: "Run done", body:'', '' "Finished." });''])]\<close>

definition email_pack :: "(js list list \<Rightarrow> mail \<Rightarrow> bytes option) option \<Rightarrow> pack" where
  "email_pack sender =
     \<lparr>pk_name = ''sendEmail'', pk_description = ''Send a plain-text email '' @ em_dash @ '' sendEmail({to, subject, body})'',
      pk_skill_type = [], pk_prompt = email_prompt, pk_help = email_help,
      pk_functions = [(''sendEmail'', \<lambda>p before args. snd (send_email (map_option (\<lambda>g. g before) sender) p args))],
      pk_skills = None\<rparr>"

section \<open>Document search\<close>

text \<open>A score is the text it prints as.\<close>

record search_hit =
  hit_document :: bytes
  hit_title :: bytes
  hit_chunk :: int
  hit_content :: bytes
  hit_score :: bytes

definition hit_value :: "search_hit \<Rightarrow> json" where
  "hit_value h =
     JObj [(''chunkIndex'', JNum (itoa (hit_chunk h))), (''content'', JStr (hit_content h)),
           (''documentId'', JStr (hit_document h)), (''documentTitle'', JStr (hit_title h)), (''score'', JNum (hit_score h))]"

text \<open>\<open>to_integer\<close> is the engine's conversion of a value to an integer.\<close>

definition top_k :: "(json \<Rightarrow> int) \<Rightarrow> js \<Rightarrow> int" where
  "top_k to_integer v =
     (case v of
        None \<Rightarrow> 5
      | Some JNull \<Rightarrow> 5
      | Some w \<Rightarrow> if 0 < to_integer w then to_integer w else 5)"

definition document_search ::
    "(json \<Rightarrow> int) \<Rightarrow> (bytes \<Rightarrow> int \<Rightarrow> bytes + search_hit list) option \<Rightarrow> js list \<Rightarrow> bytes + js" where
  "document_search to_integer search args =
     (case required_text ''documentSearch: query is required'' args of
        Inl e \<Rightarrow> Inl e
      | Inr query \<Rightarrow>
          (case search of
             None \<Rightarrow> Inl ''documentSearch: no search backend configured''
           | Some search \<Rightarrow>
               (case search query (top_k to_integer (argument args 1)) of
                  Inl e \<Rightarrow> Inl (''documentSearch('' @ quote query @ ''): '' @ e)
                | Inr hits \<Rightarrow> Inr (Some (JArr (map hit_value hits))))))"

definition search_prompt :: bytes where
  \<open>search_prompt =
     concat
       [''// --- Document search ---'', newline,
        ''/** Semantic search over the agent'', apostrophe, ''s document corpus. Returns up to topK matches (default 5), highest score first. */'', newline,
        ''declare function documentSearch(query: string, topK?: number): { documentId:'', '' string; documentTitle: string; chunkIndex: number; content: string; score: number'', '' }[];'']\<close>

definition search_help :: "(bytes \<times> bytes) list" where
  \<open>search_help =
     [(''documentSearch'', concat
         [''documentSearch(query, topK?) '', em_dash, '' Semantic search over the document corpus.'', newline,
          ''  Returns an array of { documentId, documentTitle, chunkIndex, content, score },'', '' highest score first.'', newline,
          ''  Example: var hits = documentSearch("refund policy", 3);''])]\<close>

definition search_pack :: "(json \<Rightarrow> int) \<Rightarrow> (js list list \<Rightarrow> bytes \<Rightarrow> int \<Rightarrow> bytes + search_hit list) option \<Rightarrow> pack" where
  "search_pack to_integer search =
     \<lparr>pk_name = ''documentSearch'',
      pk_description = ''Semantic search over the indexed document corpus '' @ em_dash @ '' documentSearch(query, topK?)'',
      pk_skill_type = [], pk_prompt = search_prompt, pk_help = search_help,
      pk_functions = [(''documentSearch'', \<lambda>p before args. ([], document_search to_integer (map_option (\<lambda>g. g before) search) args))],
      pk_skills = None\<rparr>"

section \<open>Stores\<close>

record store_doc =
  sd_id :: bytes
  sd_title :: bytes
  sd_chunks :: int

record stores_backend =
  sk_list :: "bytes + store_doc list"
  sk_read :: "bytes \<Rightarrow> bytes + bytes"

definition doc_value :: "store_doc \<Rightarrow> json" where
  "doc_value d = JObj [(''chunkCount'', JNum (itoa (sd_chunks d))), (''id'', JStr (sd_id d)), (''title'', JStr (sd_title d))]"

definition stores_list :: "stores_backend option \<Rightarrow> bytes + js" where
  "stores_list backend =
     (case backend of
        None \<Rightarrow> Inl ''stores.list: no stores backend configured''
      | Some b \<Rightarrow>
          (case sk_list b of
             Inl e \<Rightarrow> Inl (''stores.list: '' @ e)
           | Inr docs \<Rightarrow> Inr (Some (JArr (map doc_value docs)))))"

definition stores_read :: "stores_backend option \<Rightarrow> js list \<Rightarrow> bytes + js" where
  "stores_read backend args =
     (case required_text ''stores.read: documentId is required'' args of
        Inl e \<Rightarrow> Inl e
      | Inr i \<Rightarrow>
          (case backend of
             None \<Rightarrow> Inl ''stores.read: no stores backend configured''
           | Some b \<Rightarrow>
               (case sk_read b i of
                  Inl e \<Rightarrow> Inl (''stores.read('' @ quote i @ ''): '' @ e)
                | Inr t \<Rightarrow> Inr (Some (JStr t)))))"

definition stores_prompt :: bytes where
  \<open>stores_prompt =
     concat
       [''// --- Stores ---'', newline,
        ''/** The indexed document corpus. */'', newline,
        ''declare const stores: {'', newline,
        ''  /** List indexed documents. */'', newline,
        ''  list(): { id: string; title: string; chunkCount: number }[];'', newline,
        ''  /** Full text of one document by id (chunks joined in source order). */'', newline,
        ''  read(documentId: string): string;'', newline,
        ''};'']\<close>

definition stores_help :: "(bytes \<times> bytes) list" where
  \<open>stores_help =
     [(''stores'', concat
         [''stores.list() '', em_dash, '' List indexed documents: [{ id, title, chunkCount }].'', newline,
          ''stores.read(id) '', em_dash, '' Return the full text of one document.'', newline,
          ''  Example: var docs = stores.list(); var text = stores.read(docs[0].id);''])]\<close>

text \<open>The two functions are properties of the object \<open>stores\<close>.\<close>

definition stores_pack :: "(js list list \<Rightarrow> stores_backend) option \<Rightarrow> pack" where
  "stores_pack backend =
     \<lparr>pk_name = ''stores'',
      pk_description = ''Inspect the indexed document corpus '' @ em_dash @ '' stores.list() / stores.read(id)'',
      pk_skill_type = [], pk_prompt = stores_prompt, pk_help = stores_help,
      pk_functions = [(''stores.list'', \<lambda>p before args. ([], stores_list (map_option (\<lambda>b. b before) backend))),
                      (''stores.read'', \<lambda>p before args. ([], stores_read (map_option (\<lambda>b. b before) backend) args))],
      pk_skills = None\<rparr>"

end
