(* ===== verification/Host_Properties.thy ===== *)
theory Host_Properties
  imports Host_Packs Sandbox_Properties
begin

text \<open>
  What the packs over the application's services promise: a service is asked only with the policy's
  leave, a script learns nothing of the secrets it has no leave for, and fenced JSON is read.
\<close>

section \<open>Leave\<close>

definition allows :: "policy option \<Rightarrow> bytes \<Rightarrow> policy_args \<Rightarrow> bool" where
  "allows p tool args = (case check_policy p tool args of Inl _ \<Rightarrow> False | Inr r \<Rightarrow> allowed r)"

lemma gated_allows: "gated p tool args call = (asked, evts, r) \<Longrightarrow> asked = [] \<or> allows p tool args \<and> asked = fst (call ())"
  by (auto simp: gated_def check_policy_or_panic_def allows_def Let_def split: sum.splits if_splits prod.splits)

lemma gated_denied:
  "\<not> allows p tool args \<Longrightarrow> gated p tool args call = gated p tool args call'"
  by (auto simp: gated_def check_policy_or_panic_def allows_def Let_def split: sum.splits)

lemma fst_gated: "fst (gated p tool args call) = (if allows p tool args then fst (call ()) else [])"
  by (auto simp: gated_def check_policy_or_panic_def allows_def Let_def split: sum.splits prod.splits)

lemma fst_call_ai: "fst (call_ai client model prompt system) = [ai_request model prompt system]"
  by (simp add: call_ai_def Let_def split: sum.split)

text \<open>C33 No service is asked without the policy's leave for just that use: each mail sent, each secret read
  and each completion requested had it, and one call asks at most once.\<close>

theorem services_ask_leave:
  "list_all (\<lambda>m. allows p ''sendEmail'' [(''subject'', JStr (ml_subject m)), (''to'', JStr (ml_to m))]) (fst (send_email sender p args))
   \<and> list_all (\<lambda>n. allows p ''secret'' [(''name'', JStr n)]) (fst (secret_call getter p args))
   \<and> (fst (ai_text client model p args) = [] \<or> allows p ''ai'' [(''prompt'', JStr (value_string (argument args 0)))])
   \<and> (fst (ai_json client model why p args) = [] \<or> allows p ''ai'' [(''prompt'', JStr (value_string (argument args 0)))])
   \<and> length (fst (send_email sender p args)) \<le> 1 \<and> length (fst (secret_call getter p args)) \<le> 1
   \<and> length (fst (ai_text client model p args)) \<le> 1 \<and> length (fst (ai_json client model why p args)) \<le> 1"
proof -
  have mail: "list_all (\<lambda>m. allows p ''sendEmail'' [(''subject'', JStr (ml_subject m)), (''to'', JStr (ml_to m))]) (fst (send_email sender p args))
      \<and> length (fst (send_email sender p args)) \<le> 1"
    by (simp add: send_email_def Let_def fst_gated split: option.split json.split)
  have secret: "list_all (\<lambda>n. allows p ''secret'' [(''name'', JStr n)]) (fst (secret_call getter p args))
      \<and> length (fst (secret_call getter p args)) \<le> 1"
    by (simp add: secret_call_def Let_def fst_gated split: option.split sum.split)
  have ai: "(fst (ai_text client model p args) = [] \<or> allows p ''ai'' [(''prompt'', JStr (value_string (argument args 0)))])
      \<and> length (fst (ai_text client model p args)) \<le> 1"
    by (auto simp: ai_text_def required_text_def fst_gated fst_call_ai split_beta Let_def split: sum.split)
  have json: "(fst (ai_json client model why p args) = [] \<or> allows p ''ai'' [(''prompt'', JStr (value_string (argument args 0)))])
      \<and> length (fst (ai_json client model why p args)) \<le> 1"
    by (auto simp: ai_json_def required_text_def fst_gated fst_call_ai split_beta Let_def split: sum.split option.split)
  show ?thesis using mail secret ai json by (elim conjE) (intro conjI)
qed

section \<open>Functions a policy closes\<close>

text \<open>Packs that differ only in functions which answer alike under the policy of the sandbox.\<close>

definition repacked :: "pack list \<Rightarrow> sandbox \<Rightarrow> sandbox" where
  "repacked ps sb = sb\<lparr>sb_packs := ps\<rparr>"

definition face :: "pack \<Rightarrow> bytes \<times> bytes \<times> bytes \<times> bytes \<times> (bytes \<times> bytes) list \<times> bytes list \<times> (bytes \<times> bytes \<times> bytes) list option" where
  "face p = (pk_name p, pk_description p, pk_skill_type p, pk_prompt p, pk_help p, map fst (pk_functions p), pk_skills p)"

definition functions_of :: "policy option \<Rightarrow> pack list \<Rightarrow> (bytes \<times> (js list list \<Rightarrow> js list \<Rightarrow> sandbox_event list \<times> (bytes + js))) list" where
  "functions_of pol ps = map (\<lambda>(f, g). (f, g pol)) (concat (map pk_functions (rev ps)))"

definition alike :: "policy option \<Rightarrow> pack list \<Rightarrow> pack list \<Rightarrow> bool" where
  "alike pol ps qs \<longleftrightarrow> map face ps = map face qs \<and> functions_of pol ps = functions_of pol qs"

lemma repacked_fields [simp]:
  "sb_logs (repacked ps sb) = sb_logs sb" "sb_help (repacked ps sb) = sb_help sb" "sb_packs (repacked ps sb) = ps"
  "sb_max_log (repacked ps sb) = sb_max_log sb" "sb_on_event (repacked ps sb) = sb_on_event sb"
  "sb_events (repacked ps sb) = sb_events sb" "sb_policy (repacked ps sb) = sb_policy sb"
  "sb_answered (repacked ps sb) = sb_answered sb" "sb_answer_text (repacked ps sb) = sb_answer_text sb"
  "sb_counts (repacked ps sb) = sb_counts sb" "sb_timers (repacked ps sb) = sb_timers sb"
  "sb_group (repacked ps sb) = sb_group sb" "sb_base_keys (repacked ps sb) = sb_base_keys sb"
  "sb_globals (repacked ps sb) = sb_globals sb" "sb_calls (repacked ps sb) = sb_calls sb"
  "sb_clock (repacked ps sb) = sb_clock sb" "sb_ticks (repacked ps sb) = sb_ticks sb"
  by (simp_all add: repacked_def)

lemma repacked_updates:
  "(repacked ps sb)\<lparr>sb_logs := l\<rparr> = repacked ps (sb\<lparr>sb_logs := l\<rparr>)"
  "(repacked ps sb)\<lparr>sb_counts := n\<rparr> = repacked ps (sb\<lparr>sb_counts := n\<rparr>)"
  "(repacked ps sb)\<lparr>sb_timers := n\<rparr> = repacked ps (sb\<lparr>sb_timers := n\<rparr>)"
  "(repacked ps sb)\<lparr>sb_group := g\<rparr> = repacked ps (sb\<lparr>sb_group := g\<rparr>)"
  "(repacked ps sb)\<lparr>sb_ticks := k\<rparr> = repacked ps (sb\<lparr>sb_ticks := k\<rparr>)"
  "(repacked ps sb)\<lparr>sb_calls := cs\<rparr> = repacked ps (sb\<lparr>sb_calls := cs\<rparr>)"
  "(repacked ps sb)\<lparr>sb_globals := gs\<rparr> = repacked ps (sb\<lparr>sb_globals := gs\<rparr>)"
  "(repacked ps sb)\<lparr>sb_answered := x\<rparr> = repacked ps (sb\<lparr>sb_answered := x\<rparr>)"
  "(repacked ps sb)\<lparr>sb_answer_text := t\<rparr> = repacked ps (sb\<lparr>sb_answer_text := t\<rparr>)"
  "(repacked ps sb)\<lparr>sb_events := es\<rparr> = repacked ps (sb\<lparr>sb_events := es\<rparr>)"
  by (simp_all add: repacked_def)

lemma send_repacked: "send e (repacked ps sb) = repacked ps (send e sb)"
  by (simp add: send_def repacked_updates)

lemma read_clock_repacked: "read_clock (repacked ps sb) = (fst (read_clock sb), repacked ps (snd (read_clock sb)))"
  by (simp add: read_clock_def repacked_updates)

lemma emit_console_repacked: "emit_console l xs (repacked ps sb) = repacked ps (emit_console l xs sb)"
  by (simp add: emit_console_def Let_def read_clock_repacked repacked_updates send_repacked split_beta)

lemma console_repacked: "console c args (repacked ps sb) = repacked ps (console c args sb)"
  by (cases c) (simp_all add: Let_def emit_console_repacked read_clock_repacked repacked_updates split_beta
      split: option.split)

lemma sends_repacked: "fold send evts (repacked ps sb) = repacked ps (fold send evts sb)"
  by (induction evts arbitrary: sb) (simp_all add: send_repacked)

lemma map_of_functions:
  "map_of (concat (map pk_functions (rev ps))) f = None \<longleftrightarrow> map_of (functions_of pol ps) f = None"
  "map_of (concat (map pk_functions (rev ps))) f = Some g \<Longrightarrow> map_of (functions_of pol ps) f = Some (g pol)"
  by (simp_all add: functions_of_def map_of_map)

lemma pack_call_alike:
  assumes "alike (sb_policy sb) ps qs"
  shows "pack_call f args (repacked ps sb) = (case pack_call f args (repacked qs sb) of (sb', r) \<Rightarrow> (repacked ps sb', r))"
proof -
  let ?ps = "concat (map pk_functions (rev ps))" and ?qs = "concat (map pk_functions (rev qs))"
  let ?cs = "case map_of (sb_calls sb) f of Some cs \<Rightarrow> cs | None \<Rightarrow> []"
  have same: "functions_of (sb_policy sb) ps = functions_of (sb_policy sb) qs" using assms by (simp add: alike_def)
  show ?thesis
  proof (cases "map_of ?qs f")
    case None
    then have "map_of ?ps f = None" using map_of_functions(1) [of _ f "sb_policy sb"] same by simp
    then show ?thesis using None by (simp add: pack_call_def repacked_def)
  next
    case (Some g)
    then have "map_of ?ps f \<noteq> None"
      using map_of_functions(1) [of ps f "sb_policy sb"] map_of_functions(2) [OF Some, of "sb_policy sb"] same by simp
    then obtain h where h: "map_of ?ps f = Some h" by blast
    have hg: "h (sb_policy sb) = g (sb_policy sb)"
      using map_of_functions(2) [OF h, of "sb_policy sb"] map_of_functions(2) [OF Some, of "sb_policy sb"] same by simp
    obtain evts r where e: "g (sb_policy sb) ?cs args = (evts, r)" by (cases "g (sb_policy sb) ?cs args")
    have q: "pack_call f args (repacked qs sb)
        = (repacked qs (fold send evts (sb\<lparr>sb_calls := AList.update f (args # ?cs) (sb_calls sb)\<rparr>)), r)"
      by (simp only: pack_call_def repacked_fields Some option.case e Let_def split repacked_updates sends_repacked)
    have p: "pack_call f args (repacked ps sb)
        = (repacked ps (fold send evts (sb\<lparr>sb_calls := AList.update f (args # ?cs) (sb_calls sb)\<rparr>)), r)"
      by (simp only: pack_call_def repacked_fields h hg option.case e Let_def split repacked_updates sends_repacked)
    show ?thesis unfolding p q by (simp add: repacked_def)
  qed
qed

lemma map_face: "map face ps = map face qs \<Longrightarrow> map pk_skills ps = map pk_skills qs"
proof -
  have skills: "map pk_skills xs = map (\<lambda>(_, _, _, _, _, _, s). s) (map face xs)" for xs
    by (induction xs) (simp_all add: face_def)
  assume "map face ps = map face qs"
  then show ?thesis unfolding skills by (rule arg_cong)
qed

lemma known_skills_alike: "alike pol ps qs \<Longrightarrow> known_skills (repacked ps sb) = known_skills (repacked qs sb)"
proof -
  have skills: "known_skills (repacked xs sb) = concat (map (\<lambda>s. case s of Some ss \<Rightarrow> ss | None \<Rightarrow> []) (map pk_skills xs))" for xs
    by (simp add: known_skills_def comp_def)
  assume "alike pol ps qs"
  then show ?thesis unfolding skills using map_face [of ps qs] by (simp only: alike_def)
qed

lemma repacked_twice [simp]: "repacked ps (repacked qs sb) = repacked ps sb"
  by (simp add: repacked_def)

lemma host_function_alike:
  assumes "alike (sb_policy sb) ps qs"
  shows "host_function h args (repacked ps sb) = (case host_function h args (repacked qs sb) of (sb', r) \<Rightarrow> (repacked ps sb', r))"
proof (cases h)
  case (Pack_call f)
  then show ?thesis using pack_call_alike [OF assms] by simp
next
  case Skill_list
  then show ?thesis using known_skills_alike [OF assms, of sb] by (simp add: skill_list_def)
next
  case Skill_get
  then show ?thesis using known_skills_alike [OF assms, of sb] by (simp add: skill_get_def help_entry_def Let_def cong: option.case_cong)
qed (simp_all add: console_repacked answer_call_def help_call_def help_overview_def help_entries_def help_entry_def Let_def
    send_repacked repacked_updates)

lemma send_policy [simp]: "sb_policy (send e sb) = sb_policy sb"
  by (simp add: send_def)

lemma sends_policy [simp]: "sb_policy (fold send evts sb) = sb_policy sb"
  by (induction evts arbitrary: sb) simp_all

lemma console_policy [simp]: "sb_policy (console c args sb) = sb_policy sb"
  by (cases c) (simp_all add: Let_def emit_console_def read_clock_def split_beta split: option.split)

lemma host_function_policy: "sb_policy (fst (host_function h args sb)) = sb_policy sb"
  by (cases h) (simp_all add: answer_call_def pack_call_def Let_def split_beta split: option.split)

lemma run_script_policy [simp]: "sb_policy (fst (run_script s sb)) = sb_policy sb"
  by (induction s arbitrary: sb) (simp_all add: host_function_policy split_beta)

lemma run_script_alike:
  "alike (sb_policy sb) ps qs \<Longrightarrow>
     run_script s (repacked ps sb) = (case run_script s (repacked qs sb) of (sb', r) \<Rightarrow> (repacked ps sb', r))"
proof (induction s arbitrary: sb)
  case (Perform h args k)
  obtain sb' r where h: "host_function h args (repacked qs sb) = (sb', r)" by (metis prod.exhaust)
  have own: "repacked qs sb' = sb'"
    using host_function_alike [of sb qs qs h args] h by (simp add: alike_def)
  have "sb_policy sb' = sb_policy sb" using host_function_policy [of h args "repacked qs sb"] h by simp
  then have "run_script (k r) (repacked ps sb') = (case run_script (k r) (repacked qs sb') of (s', r) \<Rightarrow> (repacked ps s', r))"
    using Perform.prems Perform.IH [of "k r" sb'] by simp
  then show ?case
    using host_function_alike [OF Perform.prems, of h args] h own by simp
qed (simp_all add: repacked_updates split_beta)

text \<open>A turn shows the same from both.\<close>

lemma execute_turn_alike:
  assumes "alike (sb_policy sb) ps qs"
  shows "execute_turn engine code args (repacked ps sb)
    = (case execute_turn engine code args (repacked qs sb) of (sb', r) \<Rightarrow> (repacked ps sb', r))"
proof -
  let ?b = "(begin_turn code sb)\<lparr>sb_globals := fst (assign_global ''args'' (Some (turn_args args)) (sb_globals (begin_turn code sb)))\<rparr>"
  have begins: "begin_turn code (repacked xs sb) = repacked xs (begin_turn code sb)" for xs
    by (simp add: begin_turn_def reset_globals_def repacked_updates send_repacked)
  have "alike (sb_policy ?b) ps qs" using assms by (simp add: begin_turn_def reset_globals_def)
  from run_script_alike [OF this, of "engine (turn_source code)"] show ?thesis
    by (simp add: execute_turn_def Let_def begins repacked_updates send_repacked joined_logs_def split_beta
        split: script_end.split)
qed
section \<open>Secrets without leave\<close>

definition with_secrets :: "(js list list \<Rightarrow> secret_getter) option \<Rightarrow> sandbox \<Rightarrow> sandbox" where
  "with_secrets get sb = repacked (map (\<lambda>p. if pk_name p = ''secret'' then secret_pack get else p) (sb_packs sb)) sb"

lemma secret_call_closed:
  assumes "\<And>name. \<not> allows pol ''secret'' [(''name'', JStr name)]"
  shows "secret_call get pol args = secret_call get' pol args"
proof (cases "required_text ''secret: name is required'' args")
  case (Inr name)
  then show ?thesis using gated_denied [OF assms [of name]] by (simp add: secret_call_def)
qed (simp add: secret_call_def)

lemma secret_packs_alike:
  assumes "\<And>name. \<not> allows pol ''secret'' [(''name'', JStr name)]"
  shows "alike pol (map (\<lambda>p. if pk_name p = ''secret'' then secret_pack get else p) ps)
                   (map (\<lambda>p. if pk_name p = ''secret'' then secret_pack get' else p) ps)"
proof -
  let ?f = "\<lambda>g p. if pk_name p = ''secret'' then secret_pack g else p"
  have closed: "secret_call (map_option (\<lambda>g. g x) get) pol args = secret_call (map_option (\<lambda>g. g x) get') pol args" for x args
    by (rule secret_call_closed [OF assms])
  have fns: "map (\<lambda>(f, g). (f, g pol)) (pk_functions (?f get p)) = map (\<lambda>(f, g). (f, g pol)) (pk_functions (?f get' p))" for p
    unfolding secret_pack_def Let_def by (simp add: closed)
  have "functions_of pol (map (?f g) ps) = concat (map (\<lambda>p. map (\<lambda>(f, h). (f, h pol)) (pk_functions (?f g p))) (rev ps))" for g
    by (simp add: functions_of_def map_concat rev_map comp_def)
  moreover have "face (?f get p) = face (?f get' p)" for p by (simp add: face_def secret_pack_def Let_def)
  ultimately show ?thesis by (simp add: alike_def fns)
qed

text \<open>Turn after turn: what each showed the model, and what was sent to the callback.\<close>

fun turns :: "(bytes \<Rightarrow> script) \<Rightarrow> (bytes \<times> bytes) list \<Rightarrow> sandbox \<Rightarrow> sandbox \<times> (bytes \<times> bytes \<times> bytes option) list" where
  "turns engine [] sb = (sb, [])"
| "turns engine ((code, args) # ts) sb =
     (let (sb, shown) = execute_turn engine code args sb; (sb, rest) = turns engine ts sb in (sb, shown # rest))"

lemma execute_turn_policy [simp]: "sb_policy (fst (execute_turn engine code args sb)) = sb_policy sb"
proof -
  let ?b = "(begin_turn code sb)\<lparr>sb_globals := fst (assign_global ''args'' (Some (turn_args args)) (sb_globals (begin_turn code sb)))\<rparr>"
  have "sb_policy ?b = sb_policy sb" by (simp add: begin_turn_def reset_globals_def)
  then show ?thesis
    using run_script_policy [of "engine (turn_source code)" ?b]
    by (simp add: execute_turn_def Let_def split_beta split: script_end.split)
qed

lemma turns_alike:
  "alike (sb_policy sb) ps qs \<Longrightarrow>
     turns engine ts (repacked ps sb) = (case turns engine ts (repacked qs sb) of (sb', r) \<Rightarrow> (repacked ps sb', r))"
proof (induction ts arbitrary: sb)
  case (Cons t ts)
  obtain code args where t: "t = (code, args)" by (cases t)
  obtain sb' r where x: "execute_turn engine code args (repacked qs sb) = (sb', r)" by (metis prod.exhaust)
  have own: "repacked qs sb' = sb'"
    using execute_turn_alike [of sb qs qs engine code args] x by (simp add: alike_def)
  have "sb_policy sb' = sb_policy sb" using execute_turn_policy [of engine code args "repacked qs sb"] x by simp
  then show ?case
    using execute_turn_alike [OF Cons.prems, of engine code args] Cons.IH [of sb'] Cons.prems x own
    by (simp add: t split_beta Let_def)
qed simp

text \<open>A default policy without leave for secrets.\<close>

definition sealed :: "default_policy \<Rightarrow> sandbox \<Rightarrow> sandbox" where
  "sealed p sb = sb\<lparr>sb_policy := Some (Default_policy (p\<lparr>allow_tools := removeAll ''secret'' (allow_tools p)\<rparr>))\<rparr>"

text \<open>C34 Under a default policy that does not grant secrets, no script learns anything of them, however many
  turns it gets: whatever the secrets are, or without any, the turns show the model the same and send
  the same events.\<close>

theorem secrets_sealed:
  "let (a, shown_a) = turns engine ts (with_secrets get (sealed p sb));
       (b, shown_b) = turns engine ts (with_secrets get' (sealed p sb))
   in shown_a = shown_b \<and> sb_events a = sb_events b \<and> take_answer_of a = take_answer_of b"
proof -
  have "\<not> allows (sb_policy (sealed p sb)) ''secret'' [(''name'', JStr name)]" for name
    by (simp add: sealed_def allows_def check_policy_def default_check_def url_tools_def side_effect_tools_def
        default_denial_def refuse_def)
  note same = secret_packs_alike [OF this, where get = get and get' = get' and ps = "sb_packs (sealed p sb)"]
  from turns_alike [OF same, of engine ts]
  show ?thesis by (simp add: with_secrets_def split_beta take_answer_of_def Let_def)
qed

section \<open>Fenced JSON\<close>

lemma trim_space_pad: "is_space a \<Longrightarrow> is_space b \<Longrightarrow> trim_space (a # s @ [b]) = trim_space s"
proof -
  assume a: "is_space a" and b: "is_space b"
  show ?thesis
  proof (cases "list_all is_space s")
    case True
    then have "trim_space s = []" "trim_space (a # s @ [b]) = []"
      unfolding trim_space_empty_iff using a b by simp_all
    then show ?thesis by simp
  next
    case False
    then have "dropWhile is_space (s @ [b]) = dropWhile is_space s @ [b]"
      by (auto simp: list_all_iff dropWhile_append)
    then show ?thesis using a b by (simp add: trim_space_def)
  qed
qed

lemma trim_space_solid: "s \<noteq> [] \<Longrightarrow> \<not> is_space (hd s) \<Longrightarrow> \<not> is_space (last s) \<Longrightarrow> trim_space s = s"
proof -
  assume "s \<noteq> []" "\<not> is_space (hd s)" "\<not> is_space (last s)"
  moreover from this have "dropWhile is_space s = s" by (cases s) simp_all
  moreover have "dropWhile is_space (rev s) = rev s" using calculation by (cases "rev s") (auto simp: hd_rev [symmetric])
  ultimately show ?thesis by (simp add: trim_space_def)
qed

lemma strip_fenced:
  assumes "list_all tag_char tag"
  shows "strip_code_fences (fence @ tag @ newline @ body @ newline @ fence) = trim_space body"
proof -
  let ?s = "fence @ tag @ newline @ body @ newline @ fence"
  have "trim_space ?s = ?s"
    by (rule trim_space_solid) (simp_all add: fence_def is_space_def)
  moreover have "drop 3 ?s = tag @ newline @ body @ newline @ fence" by (simp add: fence_def)
  moreover have "dropWhile tag_char (tag @ newline @ body @ newline @ fence) = newline @ body @ newline @ fence"
    using assms by (subst dropWhile_append2) (auto simp: list_all_iff tag_char_def is_alpha_def is_digit_def byte_of_def)
  moreover have "has_prefix fence ?s" by (simp add: fence_def)
  moreover have "has_suffix fence (newline @ body @ newline @ fence)" by (simp add: has_suffix_def fence_def)
  moreover have "take (length (newline @ body @ newline @ fence) - 3) (newline @ body @ newline @ fence) = newline @ body @ newline"
    by (simp add: fence_def)
  moreover have "trim_space (newline @ body @ newline) = trim_space body"
    using trim_space_pad [of "CHR 0x0A" "CHR 0x0A" body] by (simp add: is_space_def)
  ultimately show ?thesis by (simp only: strip_code_fences_def Let_def if_True simp_thms)
qed
lemma marshal_solid:
  assumes "wf_json v"
  shows "json_marshal v \<noteq> [] \<and> \<not> is_space (hd (json_marshal v)) \<and> \<not> is_space (last (json_marshal v))"
proof (cases v)
  case (JNum n)
  then have "n \<noteq> []" "list_all num_char n" using assms by (auto simp: valid_number_def)
  then have "num_char (hd n)" "num_char (last n)" by (simp_all add: list_all_iff)
  moreover have "\<not> is_space c" if "num_char c" for c
    using that by (auto simp: num_char_def is_space_def is_digit_def)
  ultimately show ?thesis using JNum \<open>n \<noteq> []\<close> by simp
qed (auto simp: is_space_def json_quote_def)

text \<open>What the model answers as JSON, fenced or not, is the value the script gets.\<close>

lemma fenced_json_read:
  assumes "wf_json v" and "list_all tag_char tag" and "prompt \<noteq> []"
    and "t \<in> {json_marshal v, fence @ tag @ newline @ json_marshal v @ newline @ fence}"
    and "client (ai_request model (prompt @ schema_prompt schema) json_only) = Inr resp" and "resp_content resp = t"
  shows "snd (snd (ai_json client model why None [Some (JStr prompt), schema])) = Inr (Some v)"
proof -
  have solid: "trim_space (json_marshal v) = json_marshal v" using marshal_solid [OF assms(1)] by (intro trim_space_solid) simp_all
  have "\<not> has_prefix fence (json_marshal v)"
  proof (cases v)
    case (JNum n)
    have "\<not> num_char (CHR ''`'')" by (simp add: num_char_def is_digit_def)
    then show ?thesis using JNum assms(1) by (cases n) (auto simp: fence_def)
  qed (auto simp: fence_def json_quote_def)
  then have "strip_code_fences (json_marshal v) = json_marshal v" by (simp add: strip_code_fences_def solid Let_def)
  then have "strip_code_fences t = json_marshal v" using assms(4) strip_fenced [OF assms(2), of "json_marshal v"] solid by auto
  then show ?thesis
    using assms(3,5,6) json_parse_marshal [OF assms(1)]
    by (simp add: ai_json_def required_text_def argument_def value_string_def gated_def check_policy_or_panic_def
        check_policy_def permit_def call_ai_def Let_def)
qed
end
