(* ===== verification/Script_Modules.thy ===== *)
theory Script_Modules
  imports Host_Properties
begin

text \<open>
  \<open>sandbox/pack_modules.go\<close> and \<open>sandbox/pack_require.go\<close>: the names of user-written modules, the
  packs that bind them, and \<open>require\<close>.  The engine is a parameter: what compiling a text answers and
  how the body of a module behaves, a tree of its own calls of \<open>require\<close>.
\<close>

section \<open>Names\<close>

definition ident_start :: "char \<Rightarrow> bool" where
  "ident_start c = (is_alpha c \<or> c = CHR ''_'')"

definition valid_identifier :: "bytes \<Rightarrow> bool" where
  "valid_identifier s = (case s of [] \<Rightarrow> False | c # r \<Rightarrow> ident_start c \<and> list_all (\<lambda>x. ident_start x \<or> is_digit x) r)"

definition reserved_names :: "bytes list" where
  "reserved_names =
     [''log'', ''print'', ''console'', ''text'', ''parseUrl'', ''help'', ''_http'', ''fetch'',
      ''htmlToMarkdown'', ''listStores'', ''getDocument'', ''ask'', ''_md_links'', ''_md_headings'',
      ''_md_items'', ''_md_sections'', ''_md_plain'', ''undefined'', ''null'', ''true'', ''false'',
      ''var'', ''function'', ''return'', ''if'', ''else'', ''for'', ''while'', ''do'', ''switch'',
      ''case'', ''break'', ''continue'', ''new'', ''this'', ''typeof'', ''delete'', ''void'',
      ''in'', ''instanceof'', ''try'', ''catch'', ''finally'', ''throw'', ''with'']"

definition reserved_module_names :: "bytes list" where
  "reserved_module_names = sort reserved_names"

text \<open>The error, if any.\<close>

definition validate_module_name :: "bytes \<Rightarrow> bytes option" where
  "validate_module_name name =
     (if \<not> valid_identifier name then Some (''skill name '' @ quote name @ '' is not a valid JavaScript identifier'')
      else if name \<in> set reserved_names then Some (''skill name '' @ quote name @ '' is reserved'')
      else None)"

section \<open>User-written modules\<close>

definition wrap_function :: "bytes \<Rightarrow> bytes \<Rightarrow> bytes" where
  "wrap_function name code = ''function '' @ name @ ''(args) {'' @ newline @ code @ newline @ ''}''"

definition validate_module_code :: "(bytes \<Rightarrow> bytes option) \<Rightarrow> bytes \<Rightarrow> bytes \<Rightarrow> bytes option" where
  "validate_module_code compile name code =
     (case compile (''('' @ wrap_function name code @ '')'') of Some e \<Rightarrow> Some (''syntax error: '' @ e) | None \<Rightarrow> None)"

text \<open>The function it declares lives in the engine; the sandbox gains the help entry.\<close>

definition register_module ::
    "(bytes \<Rightarrow> bytes option) \<Rightarrow> (bytes \<Rightarrow> bytes option) \<Rightarrow> bytes \<Rightarrow> bytes \<Rightarrow> bytes \<Rightarrow> sandbox \<Rightarrow> sandbox \<times> bytes option" where
  "register_module compile run name code description sb =
     (case validate_module_name name of
        Some e \<Rightarrow> (sb, Some e)
      | None \<Rightarrow>
     (case compile (wrap_function name code) of
        Some e \<Rightarrow> (sb, Some (''module '' @ name @ '': '' @ e))
      | None \<Rightarrow>
     (case run (wrap_function name code) of
        Some e \<Rightarrow> (sb, Some (''module '' @ name @ '': registration failed: '' @ e))
      | None \<Rightarrow>
          (add_help [(name, name @ ''(args) '' @ em_dash @ '' '' @ (if description = [] then ''Custom module skill.'' else description))] sb,
           None))))"

text \<open>The binding of a module: the function as it stands in the engine, if it still is one.\<close>

definition skill_call ::
    "bytes \<Rightarrow> (js \<Rightarrow> bytes + js) option \<Rightarrow> js list \<Rightarrow> sandbox_event list \<times> (bytes + js)" where
  "skill_call name inner args =
     (let called = mk_sandbox_event ''skill_call'' (''skill: '' @ name) [] [] in
      case inner of
        None \<Rightarrow> ([called], Inl (''skill '' @ name @ '': not a function''))
      | Some f \<Rightarrow>
          (case f (argument args 0) of
             Inl e \<Rightarrow> ([called, mk_sandbox_event ''error'' (''skill '' @ name @ '' error'') e []], Inl e)
           | Inr v \<Rightarrow> ([called], Inr v)))"

definition skill_prompt_line :: "bytes \<Rightarrow> bytes \<Rightarrow> bytes" where
  "skill_prompt_line name description =
     ''/** '' @ (if description = [] then ''Custom skill'' else description) @ '' */'' @ newline
     @ ''declare function '' @ name @ ''(args?: any): any;''"

text \<open>The pack, and the module that \<open>require\<close> finds; without a function when the code does not load.\<close>

definition module_pack ::
    "(bytes \<Rightarrow> bytes option) \<Rightarrow> (bytes \<Rightarrow> bytes option) \<Rightarrow> (js list list \<Rightarrow> (js \<Rightarrow> bytes + js) option)
     \<Rightarrow> bytes \<Rightarrow> bytes \<Rightarrow> bytes \<Rightarrow> pack \<times> bytes \<times> bytes" where
  "module_pack compile run inner name code description =
     (let wrapped = wrap_function (''_skill_'' @ name) code in
      (\<lparr>pk_name = name, pk_description = description, pk_skill_type = [],
        pk_prompt = skill_prompt_line name description,
        pk_help = [(name, name @ ''(args) '' @ em_dash @ '' '' @ description)],
        pk_functions = (if compile wrapped \<noteq> None \<or> run wrapped \<noteq> None then []
                        else [(name, \<lambda>p before args. skill_call name (inner before) args)]),
        pk_skills = None\<rparr>,
       name, code))"

section \<open>Loading\<close>

datatype module_body = Body_end "bytes + js" | Body_require "js list" "bytes + js \<Rightarrow> module_body"

text \<open>The code by name, the results by name, and the names of the modules whose code was started.\<close>

record require_state =
  rq_code :: "(bytes \<times> bytes) list"
  rq_cache :: "(bytes \<times> js) list"
  rq_events :: "sandbox_event list"
  rq_started :: "bytes list"

definition wrap_module :: "bytes \<Rightarrow> bytes" where
  "wrap_module code =
     ''(function() { var module = {exports: {}}; var exports = module.exports;'' @ newline @ code @ newline
     @ ''; return module.exports; })()''"

primrec run_body ::
    "(js list \<Rightarrow> require_state \<Rightarrow> require_state \<times> (bytes + js)) \<Rightarrow> module_body \<Rightarrow> require_state
     \<Rightarrow> require_state \<times> (bytes + js)" where
  "run_body req (Body_end r) st = (st, r)"
| "run_body req (Body_require args k) st = (case req args st of (st, r) \<Rightarrow> run_body req (k r) st)"

definition stack_overflow :: bytes where
  "stack_overflow = ''stack overflow''"

text \<open>\<open>n\<close> bounds the depth of nested loads, as the stack does.\<close>

primrec require_at ::
    "nat \<Rightarrow> (bytes \<Rightarrow> module_body) \<Rightarrow> policy option \<Rightarrow> js list \<Rightarrow> require_state \<Rightarrow> require_state \<times> (bytes + js)" where
  "require_at 0 behave p = (\<lambda>args st. (st, Inl stack_overflow))"
| "require_at (Suc n) behave p = (\<lambda>args st.
     case required_text ''require: module name is required'' args of
       Inl e \<Rightarrow> (st, Inl e)
     | Inr name \<Rightarrow>
         (case map_of (rq_cache st) name of
            Some v \<Rightarrow> (st, Inr v)
          | None \<Rightarrow>
              let (denial, verdict) = check_policy_or_panic p name [];
                  st = st\<lparr>rq_events := rq_events st @ denial_events denial\<rparr>
              in case verdict of
                   Inl e \<Rightarrow> (st, Inl e)
                 | Inr _ \<Rightarrow>
                     (case map_of (rq_code st) name of
                        None \<Rightarrow> (st, Inl (''require: module '' @ quote name @ '' not found''))
                      | Some code \<Rightarrow>
                          let (st, r) = run_body (require_at n behave p) (behave (wrap_module code))
                                          (st\<lparr>rq_started := rq_started st @ [name]\<rparr>)
                          in case r of
                               Inl e \<Rightarrow> (st, Inl (''require('' @ name @ ''): '' @ e))
                             | Inr v \<Rightarrow> (st\<lparr>rq_cache := AList.update name v (rq_cache st)\<rparr>, Inr v))))"

definition require_prompt :: bytes where
  \<open>require_prompt =
     concat
       [''/** CommonJS-style module loader. Loadable: every name declared as a module in this'', '' API (e.g. '', apostrophe, ''http'', apostrophe, '', '', apostrophe, ''markdown'', apostrophe, '') plus any skill documented in the context above '', em_dash, '' e.g. const api = require('', apostrophe, ''my-api'', apostrophe, ''). Results are cached per session. */'', newline,
        ''declare function require(name: string): any;'']\<close>

definition require_help :: bytes where
  \<open>require_help =
     concat
       [''require(name) '', em_dash, '' Load a JavaScript module by name. Returns the module'', apostrophe, ''s exports.'', newline,
        ''  The module code runs as CommonJS: use module.exports or exports.x to export'', '' values.'', newline,
        ''  Results are cached per session.'', newline,
        ''  Example:'', newline,
        ''    var utils = require("string-utils")'', newline,
        ''    var result = utils.capitalize("hello")'']\<close>

text \<open>The pack, given what its function does.\<close>

definition require_pack :: "(policy option \<Rightarrow> js list list \<Rightarrow> js list \<Rightarrow> sandbox_event list \<times> (bytes + js)) \<Rightarrow> pack" where
  "require_pack f =
     \<lparr>pk_name = ''require'', pk_description = ''CommonJS module loading'', pk_skill_type = [], pk_prompt = require_prompt,
      pk_help = [(''require'', require_help)], pk_functions = [(''require'', f)], pk_skills = None\<rparr>"

section \<open>Leave to load\<close>

definition loads_ok :: "policy option \<Rightarrow> (bytes \<times> bytes) list \<Rightarrow> require_state \<Rightarrow> bool" where
  "loads_ok p code st \<longleftrightarrow>
     rq_code st = code \<and> list_all (\<lambda>n. allows p n [] \<and> map_of code n \<noteq> None) (rq_started st)
     \<and> fst ` set (rq_cache st) \<subseteq> set (rq_started st) \<and> distinct (map fst (rq_cache st))"

lemma run_body_ok:
  assumes "\<And>args st. loads_ok p code st \<Longrightarrow> loads_ok p code (fst (req args st)) \<and> set (rq_started st) \<subseteq> set (rq_started (fst (req args st)))"
    and "loads_ok p code st"
  shows "loads_ok p code (fst (run_body req b st)) \<and> set (rq_started st) \<subseteq> set (rq_started (fst (run_body req b st)))"
  using assms(2)
proof (induction b arbitrary: st)
  case (Body_require args k)
  obtain st' r where r: "req args st = (st', r)" by (metis prod.exhaust)
  have "loads_ok p code st'" "set (rq_started st) \<subseteq> set (rq_started st')"
    using assms(1) [OF Body_require.prems, of args] r by simp_all
  then show ?case using Body_require.IH [of "k r" st'] r by auto
qed simp

lemma require_ok:
  "loads_ok p code st \<Longrightarrow>
     loads_ok p code (fst (require_at n behave p args st)) \<and> set (rq_started st) \<subseteq> set (rq_started (fst (require_at n behave p args st)))"
proof (induction n arbitrary: args st)
  case (Suc n)
  show ?case
  proof (cases "required_text ''require: module name is required'' args")
    case (Inr name)
    obtain denial verdict where c: "check_policy_or_panic p name [] = (denial, verdict)" by (metis prod.exhaust)
    let ?st = "st\<lparr>rq_events := rq_events st @ denial_events denial\<rparr>"
    have ok: "loads_ok p code ?st" using Suc.prems by (simp add: loads_ok_def)
    show ?thesis
    proof (cases "map_of (rq_cache st) name = None \<and> (\<exists>x. verdict = Inr x) \<and> map_of code name \<noteq> None")
      case False
      then show ?thesis using Suc.prems ok Inr c
        by (cases "map_of (rq_cache st) name"; cases verdict) (auto simp: Let_def loads_ok_def)
    next
      case True
      then obtain x src where t: "verdict = Inr x" "map_of code name = Some src" by auto
      then have "allows p name []"
        using c by (auto simp: check_policy_or_panic_def allows_def Let_def split: sum.splits if_splits)
      then have "loads_ok p code (?st\<lparr>rq_started := rq_started ?st @ [name]\<rparr>)"
        using ok t(2) by (auto simp: loads_ok_def)
      note body = run_body_ok [where req = "require_at n behave p" and b = "behave (wrap_module src)", OF Suc.IH this]
      obtain st2 r where b: "run_body (require_at n behave p) (behave (wrap_module src)) (?st\<lparr>rq_started := rq_started ?st @ [name]\<rparr>) = (st2, r)"
        by (metis prod.exhaust)
      have st2: "loads_ok p code st2" "set (rq_started st) \<subseteq> set (rq_started st2)" "name \<in> set (rq_started st2)"
        using body b by auto
      have "rq_code st = code" using Suc.prems by (simp add: loads_ok_def)
      then show ?thesis using True Inr c t b st2
        by (cases r) (auto simp: Let_def loads_ok_def distinct_update dom_update)
    qed
  qed (use Suc.prems in simp)
qed simp
text \<open>Whatever a script requires, and whatever the modules it loads require in turn, no module's code is
  started without the policy's leave for its name and without being registered; what is cached was
  started, each name once.\<close>

theorem modules_need_leave:
  "let st = foldl (\<lambda>st args. fst (require_at n behave p args st)) \<lparr>rq_code = code, rq_cache = [], rq_events = [], rq_started = []\<rparr> calls in
     list_all (\<lambda>name. allows p name [] \<and> map_of code name \<noteq> None) (rq_started st)
     \<and> fst ` set (rq_cache st) \<subseteq> set (rq_started st) \<and> distinct (map fst (rq_cache st))"
proof -
  have "loads_ok p code st \<Longrightarrow> loads_ok p code (foldl (\<lambda>st args. fst (require_at n behave p args st)) st calls)" for st
    by (induction calls arbitrary: st) (auto simp: require_ok)
  moreover have "loads_ok p code \<lparr>rq_code = code, rq_cache = [], rq_events = [], rq_started = []\<rparr>"
    by (simp add: loads_ok_def)
  ultimately show ?thesis by (simp add: loads_ok_def Let_def)
qed

text \<open>What loaded is answered again without running anything.\<close>

lemma loaded_once:
  assumes "require_at n behave p [Some (JStr name)] st = (st', Inr v)" and "name \<noteq> []"
  shows "require_at (Suc m) behave p [Some (JStr name)] st' = (st', Inr v)"
proof -
  have named: "required_text ''require: module name is required'' [Some (JStr name)] = Inr name"
    using assms(2) by (simp add: required_text_def argument_def value_string_def)
  have "map_of (rq_cache st') name = Some v"
    using assms(1)
    by (cases n) (auto simp: named Let_def update_conv' split: option.splits sum.splits prod.splits)
  then show ?thesis by (simp add: named)
qed

section \<open>What is missing\<close>

text \<open>
  Two modules that require each other while they load never load, however deep the stack: a
  module's exports are shared only once its code has ended.
\<close>

definition loads_first :: "bytes \<Rightarrow> module_body" where
  "loads_first other = Body_require [Some (JStr other)] (\<lambda>r. Body_end r)"

lemma circular_never_loads:
  assumes "behave (wrap_module ''A'') = loads_first ''b''" and "behave (wrap_module ''B'') = loads_first ''a''"
    and "name \<in> {''a'', ''b''}" and "rq_code st = [(''a'', ''A''), (''b'', ''B'')]" and "rq_cache st = []"
  shows "(\<exists>e. snd (require_at n behave None [Some (JStr name)] st) = Inl e)
         \<and> rq_cache (fst (require_at n behave None [Some (JStr name)] st)) = []"
  using assms(3-)
proof (induction n arbitrary: name st)
  case (Suc n)
  define other where "other = (if name = ''a'' then ''b'' else ''a'')"
  define st1 where "st1 = st\<lparr>rq_started := rq_started st @ [name]\<rparr>"
  define src where "src = (if name = ''a'' then ''A'' else ''B'')"
  have b: "behave (wrap_module src) = loads_first other" using assms(1,2) by (simp add: src_def other_def)
  have src: "map_of (rq_code st) name = Some src" using Suc.prems(1,2) by (auto simp: src_def)
  have "other \<in> {''a'', ''b''}" "rq_code st1 = [(''a'', ''A''), (''b'', ''B'')]" "rq_cache st1 = []"
    using Suc.prems by (simp_all add: other_def st1_def)
  from Suc.IH [OF this] obtain e st' where inner: "require_at n behave None [Some (JStr other)] st1 = (st', Inl e)" "rq_cache st' = []"
    by (cases "require_at n behave None [Some (JStr other)] st1") auto
  have ran: "run_body (require_at n behave None) (behave (wrap_module src)) st1 = (st', Inl e)"
    unfolding b loads_first_def using inner(1) by simp
  have named: "required_text ''require: module name is required'' [Some (JStr name)] = Inr name"
    using Suc.prems(1) by (auto simp: required_text_def argument_def value_string_def)
  have leave: "check_policy_or_panic None name [] = ([], Inr permit)"
    by (simp add: check_policy_or_panic_def check_policy_def permit_def)
  have same: "st\<lparr>rq_events := rq_events st @ denial_events []\<rparr> = st" by (simp add: denial_events_def)
  have "require_at (Suc n) behave None [Some (JStr name)] st = (st', Inl (''require('' @ name @ ''): '' @ e))"
    using ran Suc.prems(3)
    by (simp add: named leave Let_def src denial_events_def st1_def [symmetric])
  then show ?case using inner(2) by simp
qed simp

text \<open>Primitives of the sandbox and words of the language that are not reserved.\<close>

lemma not_reserved:
  "list_all (\<lambda>n. validate_module_name n = None)
     [''answer'', ''assert'', ''require'', ''skillGet'', ''allowUrls'', ''ai'', ''class'', ''const'', ''default'', ''super'', ''import'']"
  by code_simp
end
