(* ===== verification/Skills.thy ===== *)
theory Skills
  imports Project_Context
begin

text \<open>
  \<open>skills/skills.go\<close>: finding the \<open>SKILL.md\<close> files of a project, reading their front matter, and
  offering each as a document the agent can ask for.  What \<open>os.ReadDir\<close> lists is a parameter
  beside the disk; it lists in the order of the names.
\<close>

section \<open>Skills\<close>

definition skill_file :: bytes where "skill_file = ''SKILL.md''"
definition default_skill_dir :: bytes where "default_skill_dir = ''.agentloop/skills''"
definition default_skill_bytes :: int where "default_skill_bytes = 256 * 1024"

record skill =
  sk_name :: bytes
  sk_description :: bytes
  sk_body :: bytes
  sk_path :: bytes

definition reserved_skills :: "bytes list" where
  "reserved_skills =
     [''ai'', ''aiJSON'', ''answer'', ''assert'', ''console'', ''fetch'', ''help'', ''htmlToMarkdown'',
      ''http'', ''log'', ''markdown'', ''parseUrl'', ''print'', ''project'', ''project_instructions'',
      ''projectget'', ''projectlist'', ''require'', ''skillGet'', ''skillList'', ''skills'', ''text'']"

definition name_start :: "char \<Rightarrow> bool" where
  "name_start c = (97 \<le> byte_of c \<and> byte_of c \<le> 122 \<or> is_digit c)"

definition valid_name :: "bytes \<Rightarrow> bool" where
  "valid_name n =
     (case n of [] \<Rightarrow> False
      | c # cs \<Rightarrow> name_start c \<and> list_all (\<lambda>c. name_start c \<or> c = CHR ''_'' \<or> c = CHR ''-'') cs)"

record skill_loader =
  sl_dir :: bytes
  sl_global_dir :: bytes
  sl_max_bytes :: int

definition skill_bytes :: "skill_loader \<Rightarrow> int" where
  "skill_bytes l = (if sl_max_bytes l = 0 then default_skill_bytes else sl_max_bytes l)"

section \<open>Front matter\<close>

definition trim_quotes :: "bytes \<Rightarrow> bytes" where
  "trim_quotes s =
     (let quote_mark = (\<lambda>c. c = CHR 0x22 \<or> c = CHR 0x27) in rev (dropWhile quote_mark (rev (dropWhile quote_mark s))))"

text \<open>One line: a comment, an indented key, a line without a colon or a value is left out.\<close>

definition key_value :: "bytes \<Rightarrow> (bytes \<times> bytes) option" where
  "key_value line =
     (if CHR '':'' \<notin> set line then None
      else let (key, value) = cut_at (CHR '':'') line; key = trim_space key in
           if key = [] \<or> has_prefix ''#'' key \<or> CHR '' '' \<in> set key \<or> CHR 0x09 \<in> set key then None
           else let value = trim_quotes (trim_space value) in
                if value = [] then None else Some (to_lower key, value))"

definition parse_key_values :: "bytes \<Rightarrow> (bytes \<times> bytes) list" where
  "parse_key_values block =
     fold (\<lambda>line out. case key_value line of None \<Rightarrow> out | Some (k, v) \<Rightarrow> AList.update k v out)
       (split_on (CHR 0x0A) block) []"

definition fence :: bytes where "fence = ''---''"

definition split_front_matter :: "bytes \<Rightarrow> (bytes \<times> bytes) list \<times> bytes" where
  "split_front_matter content =
     (if \<not> has_prefix (fence @ newline) content then ([], content)
      else let rest = drop (length (fence @ newline)) content;
               part = (\<lambda>sep i. (parse_key_values (take i rest),
                         dropWhile (\<lambda>c. c = CHR 0x0A) (drop (i + length sep) rest)))
           in (case index_of (newline @ fence @ newline) rest of
                 Some i \<Rightarrow> part (newline @ fence @ newline) i
               | None \<Rightarrow>
                   (case index_of (newline @ fence) rest of
                      Some i \<Rightarrow> part (newline @ fence) i
                    | None \<Rightarrow> ([], content))))"

text \<open>A missing key of the map reads as the empty text.\<close>

definition meta_value :: "(bytes \<times> bytes) list \<Rightarrow> bytes \<Rightarrow> bytes" where
  "meta_value m k = (case map_of m k of Some v \<Rightarrow> v | None \<Rightarrow> [])"

definition ellipsis :: bytes where
  "ellipsis = [CHR 0xE2, CHR 0x80, CHR 0xA6]"

definition first_line :: "bytes \<Rightarrow> bytes" where
  "first_line body =
     (case filter (\<lambda>line. line \<noteq> [] \<and> \<not> has_prefix ''#'' line) (map trim_space (split_on (CHR 0x0A) body)) of
        [] \<Rightarrow> []
      | line # _ \<Rightarrow> if length line > 160 then trim_space (take 160 line) @ ellipsis else line)"

datatype skill_error =
    Bad_name bytes bytes
  | Reserved_name bytes bytes
  | Empty_body bytes
  | Unread_file bytes bytes
  | Unread_dir bytes bytes

definition parse_skill :: "skill_loader \<Rightarrow> bytes \<Rightarrow> bytes \<Rightarrow> bytes \<Rightarrow> skill_error + skill" where
  "parse_skill l dir_name content p =
     (let (meta, body) = split_front_matter content;
          name = to_lower (trim_space (meta_value meta ''name''));
          name = (if name = [] then to_lower (trim_space dir_name) else name) in
      if \<not> valid_name name then Inl (Bad_name p name)
      else if name \<in> set reserved_skills then Inl (Reserved_name p name)
      else let txt = trim_space body in
           if txt = [] then Inl (Empty_body p)
           else let n = skill_bytes l;
                    txt = (if n > 0 \<and> int (length txt) > n then trim_space (take (nat n) txt) @ truncated_at n else txt);
                    description = trim_space (meta_value meta ''description'');
                    description = (if description = [] then first_line txt else description)
                in Inr \<lparr>sk_name = name, sk_description = description, sk_body = txt, sk_path = p\<rparr>)"

section \<open>Loading\<close>

datatype listing = No_dir | Unlistable bytes | Entries "(bytes \<times> bool) list"

definition entry_skill :: "skill_loader \<Rightarrow> disk \<Rightarrow> bytes \<Rightarrow> bytes \<Rightarrow> (skill_error + skill) option" where
  "entry_skill l d dir name =
     (let p = path_join (path_join dir name) skill_file in
      case dk_read d p of
        Absent \<Rightarrow> None
      | Unreadable e \<Rightarrow> Some (Inl (Unread_file p e))
      | Content b \<Rightarrow> Some (parse_skill l name b p))"

definition load_skill_dir :: "skill_loader \<Rightarrow> disk \<Rightarrow> (bytes \<Rightarrow> listing) \<Rightarrow> bytes \<Rightarrow> (skill_error + skill) list" where
  "load_skill_dir l d ls dir =
     (case ls dir of
        No_dir \<Rightarrow> []
      | Unlistable e \<Rightarrow> [Inl (Unread_dir dir e)]
      | Entries es \<Rightarrow> List.map_filter (\<lambda>(name, is_dir). if is_dir then entry_skill l d dir name else None) es)"

definition skills_dir :: "skill_loader \<Rightarrow> disk \<Rightarrow> bytes \<Rightarrow> bytes" where
  "skills_dir l d cwd =
     (let dir = (if sl_dir l = [] then default_skill_dir else sl_dir l) in
      if has_prefix slash dir then dir else path_join (project_root d cwd) dir)"

definition skill_sources :: "skill_loader \<Rightarrow> disk \<Rightarrow> bytes \<Rightarrow> bytes list" where
  "skill_sources l d cwd = (if sl_global_dir l \<noteq> [] then [sl_global_dir l] else []) @ [skills_dir l d cwd]"

definition errors_of :: "('e + 'a) list \<Rightarrow> 'e list" where
  "errors_of rs = List.map_filter (case_sum Some (\<lambda>_. None)) rs"

definition values_of :: "('e + 'a) list \<Rightarrow> 'a list" where
  "values_of rs = List.map_filter (case_sum (\<lambda>_. None) Some) rs"

definition by_name :: "skill list \<Rightarrow> (bytes \<times> skill) list" where
  "by_name found = fold (\<lambda>s. AList.update (sk_name s) s) found []"

definition load_skills :: "skill_loader \<Rightarrow> disk \<Rightarrow> (bytes \<Rightarrow> listing) \<Rightarrow> bytes \<Rightarrow> skill list \<times> skill_error list" where
  "load_skills l d ls cwd =
     (let results = concat (map (load_skill_dir l d ls) (skill_sources l d cwd))
      in (sort_key sk_name (map snd (by_name (values_of results))), errors_of results))"

section \<open>Offering\<close>

definition ensure_sentence :: "bytes \<Rightarrow> bytes" where
  "ensure_sentence s =
     (let s = trim_space s in
      if s = [] then ''A project skill.''
      else if last s \<in> set ''.!?'' then s else s @ ''.'')"

definition skill_prompt :: "skill \<Rightarrow> bytes" where
  "skill_prompt s =
     ''// skill '' @ quote (sk_name s) @ '' '' @ em_dash @ '' '' @ ensure_sentence (sk_description s)
     @ '' Call skillGet('' @ quote (sk_name s) @ '') for the full instructions before using it.''"

definition skill_pack :: "skill \<Rightarrow> pack" where
  "skill_pack s =
     \<lparr>pk_name = sk_name s, pk_description = sk_description s, pk_skill_type = ''prompt'',
      pk_prompt = skill_prompt s, pk_help = [(sk_name s, sk_body s)], pk_functions = [], pk_skills = None\<rparr>"

definition skill_packs :: "skill list \<Rightarrow> pack list" where
  "skill_packs sks = map skill_pack sks"

definition skill_capabilities :: "skill list \<Rightarrow> capability list" where
  "skill_capabilities sks = map pack_capability (skill_packs sks)"

end
