(* ===== verification/Skill_Properties.thy ===== *)
theory Skill_Properties
  imports Markdown_Pack Script_Modules Skills
begin

text \<open>
  What loading skills promises: usable names, each once, the project's own ahead of the user's; a
  skill that is offered can be asked for, and none hides what the sandbox says of itself.
\<close>

section \<open>Loading\<close>

lemma parse_skill_spec:
  "parse_skill l dn content p = Inr s \<Longrightarrow>
     valid_name (sk_name s) \<and> sk_name s \<notin> set reserved_skills \<and> sk_body s \<noteq> [] \<and> sk_path s = p"
  by (auto simp: parse_skill_def Let_def truncated_at_def split: prod.splits if_splits)

definition good_skill :: "skill \<Rightarrow> bool" where
  "good_skill s = (valid_name (sk_name s) \<and> sk_name s \<notin> set reserved_skills \<and> sk_body s \<noteq> [])"

lemma set_values_of: "s \<in> set (values_of rs) \<longleftrightarrow> Inr s \<in> set rs"
  by (induction rs) (auto simp: values_of_def List.map_filter_simps split: sum.split)

lemma values_of_append: "values_of (xs @ ys) = values_of xs @ values_of ys"
  by (simp add: values_of_def List.map_filter_def)

lemma set_load_skill_dir:
  "Inr s \<in> set (load_skill_dir l d ls dir) \<Longrightarrow> good_skill s"
  by (auto simp: load_skill_dir_def List.map_filter_def entry_skill_def Let_def good_skill_def
      dest: parse_skill_spec split: listing.splits disk_read.splits if_splits)

lemma by_name_spec:
  "distinct (map fst (by_name found)) \<and>
   map_of (by_name found) n = find (\<lambda>s. sk_name s = n) (rev found)
   \<and> list_all (\<lambda>(k, s). sk_name s = k) (by_name found)"
proof (induction found rule: rev_induct)
  case (snoc s found)
  have "list_all (\<lambda>(k, s). sk_name s = k) (AList.update (sk_name s) s es)"
    if "list_all (\<lambda>(k, s). sk_name s = k) es" for es
    using that by (induction es) auto
  then show ?case using snoc by (auto simp: by_name_def distinct_update update_conv')
qed (simp add: by_name_def)

lemma by_name_values: "s \<in> set (map snd (by_name found)) \<longleftrightarrow> find (\<lambda>x. sk_name x = sk_name s) (rev found) = Some s"
proof -
  have "s \<in> set (map snd (by_name found)) \<longleftrightarrow> map_of (by_name found) (sk_name s) = Some s"
    using by_name_spec [of found "sk_name s"]
    by (force simp: map_of_eq_Some_iff list_all_iff)
  then show ?thesis using by_name_spec [of found "sk_name s"] by simp
qed

lemma by_name_names: "distinct (map sk_name (map snd (by_name found)))"
proof -
  have "map sk_name (map snd (by_name found)) = map fst (by_name found)"
    using by_name_spec [of found "[]"] unfolding map_map by (intro map_cong refl) (auto simp: list_all_iff)
  then show ?thesis using by_name_spec [of found "[]"] by (simp only:)
qed

lemma find_first: "find P xs = Some x \<longleftrightarrow> (\<exists>ys zs. xs = ys @ x # zs \<and> P x \<and> list_all (\<lambda>z. \<not> P z) ys)"
proof (induction xs)
  case (Cons y xs)
  show ?case
  proof (cases "P y")
    case False
    have "(\<exists>ys zs. y # xs = ys @ x # zs \<and> P x \<and> list_all (\<lambda>z. \<not> P z) ys)
        \<longleftrightarrow> (\<exists>ys zs. xs = ys @ x # zs \<and> P x \<and> list_all (\<lambda>z. \<not> P z) ys)"
    proof
      assume "\<exists>ys zs. y # xs = ys @ x # zs \<and> P x \<and> list_all (\<lambda>z. \<not> P z) ys"
      then show "\<exists>ys zs. xs = ys @ x # zs \<and> P x \<and> list_all (\<lambda>z. \<not> P z) ys"
        using False by (auto simp: Cons_eq_append_conv)
    next
      assume "\<exists>ys zs. xs = ys @ x # zs \<and> P x \<and> list_all (\<lambda>z. \<not> P z) ys"
      then show "\<exists>ys zs. y # xs = ys @ x # zs \<and> P x \<and> list_all (\<lambda>z. \<not> P z) ys"
        using False by (metis append_Cons list.pred_inject(2))
    qed
    with False Cons show ?thesis by simp
  qed (auto simp: Cons_eq_append_conv)
qed simp

lemma find_last: "find P (rev xs) = Some x \<longleftrightarrow> (\<exists>ys zs. xs = ys @ x # zs \<and> P x \<and> list_all (\<lambda>z. \<not> P z) zs)"
proof -
  have "rev xs = ys @ x # zs \<longleftrightarrow> xs = rev zs @ x # rev ys" for ys zs
    by (metis append.assoc append_Cons append_Nil rev.simps(2) rev_append rev_rev_ident)
  then show ?thesis unfolding find_first by (metis list.pred_set rev_rev_ident set_rev)
qed

lemma loaded_spec:
  assumes "load_skills l d ls cwd = (sks, errs)"
  shows "sorted (map sk_name sks)" "distinct (map sk_name sks)" "list_all good_skill sks"
    "s \<in> set sks \<longleftrightarrow> find (\<lambda>x. sk_name x = sk_name s) (rev (values_of (concat (map (load_skill_dir l d ls) (skill_sources l d cwd))))) = Some s"
proof -
  let ?found = "values_of (concat (map (load_skill_dir l d ls) (skill_sources l d cwd)))"
  have sks: "sks = sort_key sk_name (map snd (by_name ?found))" using assms by (simp add: load_skills_def Let_def)
  show "sorted (map sk_name sks)" by (simp add: sks)
  show "distinct (map sk_name sks)"
    using by_name_names [of ?found] unfolding sks distinct_map [of sk_name] by simp
  show mem: "s \<in> set sks \<longleftrightarrow> find (\<lambda>x. sk_name x = sk_name s) (rev ?found) = Some s" for s
    using by_name_values [of s ?found] by (simp add: sks)
  have "good_skill s" if "s \<in> set sks" for s
  proof -
    from that have "s \<in> set ?found" by (auto simp: mem find_last)
    then show ?thesis by (auto simp: set_values_of intro: set_load_skill_dir)
  qed
  then show "list_all good_skill sks" by (simp add: list_all_iff)
qed

text \<open>Loading skills yields usable ones: sorted by name, each name once, valid and not reserved, with a
  body; and exactly those no later directory overrides, the project's directory being read after the
  user's, so that a project's skill replaces a global one of its name.\<close>

theorem skills_loaded:
  "case load_skills l d ls cwd of (sks, errs) \<Rightarrow>
     sorted (map sk_name sks) \<and> distinct (map sk_name sks)
     \<and> list_all (\<lambda>s. valid_name (sk_name s) \<and> sk_name s \<notin> set reserved_skills \<and> sk_body s \<noteq> []) sks
     \<and> (\<forall>s. s \<in> set sks \<longleftrightarrow> (\<exists>before after.
           values_of (concat (map (load_skill_dir l d ls) (skill_sources l d cwd))) = before @ s # after
           \<and> list_all (\<lambda>t. sk_name t \<noteq> sk_name s) after))"
proof -
  obtain sks errs where l: "load_skills l d ls cwd = (sks, errs)" by fastforce
  note spec = loaded_spec [OF l]
  have "list_all (\<lambda>s. valid_name (sk_name s) \<and> sk_name s \<notin> set reserved_skills \<and> sk_body s \<noteq> []) sks"
    using spec(3) by (simp add: good_skill_def [abs_def])
  then show ?thesis using spec(1,2,4) by (simp add: l find_last)
qed

section \<open>Asking for a skill\<close>

lemma fold_update_other:
  "n \<notin> fst ` set es \<Longrightarrow> map_of (fold (\<lambda>(k, h). AList.update k h) es m) n = map_of m n"
  by (induction es arbitrary: m) (auto simp: update_conv')

lemma fold_update_last:
  "n \<notin> fst ` set zs \<Longrightarrow> map_of (fold (\<lambda>(k, h). AList.update k h) (ys @ (n, h) # zs) m) n = Some h"
  by (simp add: fold_update_other update_conv')

lemma fold_update:
  "map_of (fold (\<lambda>(k, h). AList.update k h) es m) n = (case map_of (rev es) n of Some h \<Rightarrow> Some h | None \<Rightarrow> map_of m n)"
  by (induction es arbitrary: m) (auto simp: update_conv' map_add_def split: option.split)

lemma register_packs_help:
  "sb_help (fold register_pack ps sb) = fold (\<lambda>(k, h). AList.update k h) (concat (map pk_help ps)) (sb_help sb)"
  by (induction ps arbitrary: sb) (simp_all add: register_pack_def add_help_def Let_def)

lemma new_sandbox_help:
  "sb_help (new_sandbox clk ps) =
     fold (\<lambda>(k, h). AList.update k h) (concat (map pk_help ps)) (fold (\<lambda>(k, h). AList.update k h) core_help [])"
  by (simp add: new_sandbox_def Let_def register_packs_help add_help_def bare_sandbox_def)

lemma skill_packs_help: "concat (map pk_help (skill_packs sks)) = map (\<lambda>s. (sk_name s, sk_body s)) sks"
  by (induction sks) (simp_all add: skill_packs_def skill_pack_def)

text \<open>
  What the sandbox has help for by itself: the core primitives, the packs of the default
  capabilities, the project's instructions, and the two packs the builder adds.
\<close>

definition builtin_help :: "bytes list" where
  "builtin_help =
     map fst core_help
     @ concat (map (\<lambda>p. map fst (pk_help p))
         [Script_Modules.require_pack (\<lambda>_ _ _. ([], Inr None)), fst (Markdown_Pack.markdown_pack []), fst http_module_pack,
          Fetch_Pack.fetch_pack []])
     @ map fst ai_help @ map fst (pk_help (project_pack []))
     @ concat (map (\<lambda>p. map fst (pk_help p)) [discovery_pack [], help_pack])"

lemma builtin_help_names:
  "builtin_help =
     [''log'', ''assert'', ''console'', ''text'', ''parseUrl'', ''require'', ''markdown'', ''http'', ''allowUrls'',
      ''fetch'', ''fetchWhitelist'', ''htmlToMarkdown'', ''ai'', ''aiJSON'', ''projectList'', ''projectGet'',
      ''skillList'', ''skillGet'', ''help'']"
  by (simp add: builtin_help_def core_help_def Script_Modules.require_pack_def Markdown_Pack.markdown_pack_def http_module_pack_def
      Fetch_Pack.fetch_pack_def fetch_help_def ai_help_def project_pack_def doc_bodies_def discovery_pack_def help_pack_def)

lemma good_not_builtin: "good_skill s \<Longrightarrow> sk_name s \<notin> set builtin_help"
proof -
  assume "good_skill s"
  moreover have "list_all (\<lambda>n. \<not> valid_name n \<or> n \<in> set reserved_skills) builtin_help"
    unfolding builtin_help_names
    by (simp add: reserved_skills_def valid_name_def name_start_def byte_of_def is_digit_def)
  ultimately show ?thesis by (auto simp: good_skill_def list_all_iff)
qed

lemma builtin_packs_help: "map fst (concat (map pk_help [discovery_pack infos, help_pack])) = [''skillList'', ''skillGet'', ''help'']"
  by (simp add: discovery_pack_def help_pack_def)

text \<open>
  C30 Every loaded skill can be asked for by its name and answers its whole body, in a sandbox built
  with the packs of the skills and the two packs the builder adds, whatever packs come before; and no
  skill hides the help of a core primitive, of \<open>require\<close>, \<open>markdown\<close>, \<open>http\<close>, \<open>fetch\<close> and its
  companions, \<open>ai\<close> and \<open>aiJSON\<close>, the project's instructions, or of those two packs: that stays
  what it is without skills.  The packs an application adds are not among them
  (\<open>unreserved_names\<close>).
\<close>

theorem skills_retrievable:
  "case load_skills l d ls cwd of (sks, errs) \<Rightarrow>
     let own = [discovery_pack infos, help_pack];
         sb = new_sandbox clk (others @ skill_packs sks @ own);
         plain = new_sandbox clk (others @ own)
     in list_all (\<lambda>s. skill_get [Some (JStr (sk_name s))] sb = Inr (Some (JStr (sk_body s)))) sks
        \<and> list_all (\<lambda>n. help_entry sb n = help_entry plain n) builtin_help"
proof -
  obtain sks errs where l: "load_skills l d ls cwd = (sks, errs)" by fastforce
  note spec = loaded_spec [OF l]
  let ?own = "[discovery_pack infos, help_pack]"
  let ?sb = "new_sandbox clk (others @ skill_packs sks @ ?own)"
  have names: "fst ` set (concat (map pk_help ?own)) = {''skillList'', ''skillGet'', ''help''}"
    by (simp add: discovery_pack_def help_pack_def insert_commute)
  have good: "good_skill s \<and> sk_name s \<notin> set builtin_help" if "s \<in> set sks" for s
    using spec(3) that good_not_builtin by (auto simp: list_all_iff)
  have get: "skill_get [Some (JStr (sk_name s))] ?sb = Inr (Some (JStr (sk_body s)))" if s: "s \<in> set sks" for s
  proof -
    obtain xs ys where split: "sks = xs @ s # ys" using s by (metis split_list)
    then have "sk_name s \<notin> sk_name ` set ys" using spec(2) by auto
    moreover have "sk_name s \<notin> {''skillList'', ''skillGet'', ''help''}"
      using good [OF s] by (auto simp: builtin_help_names)
    ultimately have "sk_name s \<notin> fst ` set (map (\<lambda>s. (sk_name s, sk_body s)) ys @ concat (map pk_help ?own))"
      unfolding set_append image_Un names by auto
    from fold_update_last [OF this, of "concat (map pk_help others) @ map (\<lambda>s. (sk_name s, sk_body s)) xs"]
    have "help_entry ?sb (sk_name s) = Some (sk_body s)"
      by (simp add: help_entry_def new_sandbox_help skill_packs_help split)
    moreover have "sk_name s \<noteq> []" using good [OF s] by (auto simp: good_skill_def valid_name_def)
    ultimately show ?thesis by (simp add: skill_get_def argument_def value_string_def)
  qed
  have untouched: "help_entry ?sb n = help_entry (new_sandbox clk (others @ ?own)) n" if n: "n \<in> set builtin_help" for n
  proof -
    have "n \<notin> fst ` set (map (\<lambda>s. (sk_name s, sk_body s)) sks)" using good n by auto
    then show ?thesis
      unfolding help_entry_def new_sandbox_help map_append concat_append fold_append comp_apply skill_packs_help
      by (simp only: fold_update [of "concat (map pk_help ?own)"] fold_update_other not_False_eq_True)
  qed
  show ?thesis using get untouched by (simp add: l Let_def list_all_iff)
qed

text \<open>
  The list of reserved names leaves out the packs of \<open>ext\<close> whose names a skill can have: a skill
  called \<open>exec\<close> replaces the help of the primitive.
\<close>

lemma unreserved_names:
  "list_all (\<lambda>n. valid_name n \<and> n \<notin> set reserved_skills) [''exec'', ''glob'', ''grep'', ''secret'', ''stores'']"
  by (simp add: reserved_skills_def valid_name_def name_start_def byte_of_def is_digit_def)

lemma skill_hides_help:
  "let helped = (discovery_pack [])\<lparr>pk_help := [(''exec'', ''run a command'')]\<rparr>;
       sk = \<lparr>sk_name = ''exec'', sk_description = [], sk_body = ''mine'', sk_path = []\<rparr> in
   help_entry (new_sandbox int [helped]) ''exec'' = Some ''run a command''
   \<and> help_entry (new_sandbox int ([helped] @ skill_packs [sk])) ''exec'' = Some ''mine''"
  by (simp add: help_entry_def new_sandbox_help skill_packs_def skill_pack_def fold_update update_conv')

section \<open>Front matter\<close>

text \<open>A description on one line, with no space or quotation mark at its ends.\<close>

definition plain_line :: "bytes \<Rightarrow> bool" where
  "plain_line v =
     (v \<noteq> [] \<and> CHR 0x0A \<notin> set v \<and> trim_space v = v \<and> hd v \<notin> {CHR 0x22, CHR 0x27} \<and> last v \<notin> {CHR 0x22, CHR 0x27})"

definition skill_text :: "bytes \<Rightarrow> bytes \<Rightarrow> bytes \<Rightarrow> bytes" where
  "skill_text name description body =
     fence @ newline @ (''name: '' @ name) @ newline @ (''description: '' @ description) @ newline @ fence @ newline @ body"

lemma index_of_first:
  "(\<And>i. i < length a \<Longrightarrow> \<not> has_prefix sub (drop i (a @ sub @ b))) \<Longrightarrow> sub \<noteq> [] \<Longrightarrow> index_of sub (a @ sub @ b) = Some (length a)"
proof (induction a)
  case Nil
  then show ?case by (cases "sub @ b") (auto, metis has_prefix_append)
next
  case (Cons c a)
  have "\<not> has_prefix sub (c # a @ sub @ b)" using Cons.prems(1) [of 0] by simp
  moreover have "index_of sub (a @ sub @ b) = Some (length a)"
    using Cons.IH Cons.prems(1) [of "Suc _"] Cons.prems(2) by simp
  ultimately show ?case by simp
qed

lemma has_prefix_nth: "has_prefix (c # p) (drop i s) \<Longrightarrow> s ! i = c"
  by (cases "i < length s") (auto simp flip: Cons_nth_drop_Suc)

lemma fence_index:
  assumes "CHR 0x0A \<notin> set l1" and "CHR 0x0A \<notin> set l2" and "l2 \<noteq> []" and "hd l2 \<noteq> CHR ''-''"
  shows "index_of (newline @ fence @ newline) (l1 @ newline @ l2 @ newline @ fence @ newline @ body) = Some (length (l1 @ newline @ l2))"
proof -
  let ?sub = "newline @ fence @ newline"
  let ?a = "l1 @ newline @ l2"
  have "\<not> has_prefix ?sub (drop i (?a @ ?sub @ body))" if i: "i < length ?a" for i
  proof
    assume p: "has_prefix ?sub (drop i (?a @ ?sub @ body))"
    then have "(?a @ ?sub @ body) ! i = CHR 0x0A"
      by (intro has_prefix_nth [of _ "fence @ newline"]) simp
    then have "?a ! i = CHR 0x0A" using i by (simp only: nth_append if_True)
    have "i = length l1"
    proof (rule ccontr)
      assume "i \<noteq> length l1"
      then consider "i < length l1" | k where "i = Suc (length l1 + k)"
        by (metis less_imp_Suc_add linorder_neqE_nat)
      then show False
      proof cases
        case 1
        then have "l1 ! i = CHR 0x0A" using \<open>?a ! i = CHR 0x0A\<close> by (simp add: nth_append)
        then show False using assms(1) nth_mem [OF 1] by simp
      next
        case 2
        then have "l2 ! k = CHR 0x0A" "k < length l2" using \<open>?a ! i = CHR 0x0A\<close> i by (simp_all add: nth_append)
        then show False using assms(2) nth_mem [of k l2] by simp
      qed
    qed
    then have "drop i (?a @ ?sub @ body) = newline @ l2 @ ?sub @ body" by simp
    with p have "has_prefix (fence @ newline) (l2 @ ?sub @ body)" by simp
    then show False using assms(3,4) by (cases l2) (auto simp: fence_def)
  qed
  from index_of_first [OF this] show ?thesis by simp
qed

lemma split_fenced:
  assumes "CHR 0x0A \<notin> set l1" and "CHR 0x0A \<notin> set l2" and "l2 \<noteq> []" and "hd l2 \<noteq> CHR ''-''"
  shows "split_front_matter (fence @ newline @ l1 @ newline @ l2 @ newline @ fence @ newline @ body)
    = (parse_key_values (l1 @ newline @ l2), dropWhile (\<lambda>c. c = CHR 0x0A) body)"
proof -
  let ?head = "l1 @ newline @ l2" and ?sep = "newline @ fence @ newline"
  let ?rest = "?head @ ?sep @ body"
  have whole: "fence @ newline @ l1 @ newline @ l2 @ newline @ fence @ newline @ body = (fence @ newline) @ ?rest" by simp
  have index: "index_of ?sep ?rest = Some (length ?head)" using fence_index [OF assms, of body] by simp
  have "drop (length (fence @ newline)) ((fence @ newline) @ ?rest) = ?rest" by simp
  moreover have "take (length ?head) ?rest = ?head" "drop (length ?head + length ?sep) ?rest = body"
    by (simp, metis append_assoc append_eq_conv_conj length_append)
  ultimately show ?thesis
    unfolding split_front_matter_def whole Let_def
    by (simp only: has_prefix_append index option.case not_True_eq_False if_False)
qed

lemma trim_quotes_plain: "plain_line v \<Longrightarrow> trim_quotes v = v"
proof -
  assume v: "plain_line v"
  let ?q = "\<lambda>c. c = CHR 0x22 \<or> c = CHR 0x27"
  have "dropWhile ?q v = v" using v by (cases v) (auto simp: plain_line_def)
  moreover have "dropWhile ?q (rev v) = rev v" using v by (cases v rule: rev_cases) (auto simp: plain_line_def)
  ultimately show ?thesis by (simp add: trim_quotes_def)
qed

lemma key_value_plain:
  assumes "plain_line v" and "CHR '':'' \<notin> set k" and "trim_space k = k" and "k \<noteq> []" and "\<not> has_prefix ''#'' k"
    and "CHR '' '' \<notin> set k" and "CHR 0x09 \<notin> set k" and "to_lower k = k"
  shows "key_value (k @ '': '' @ v) = Some (k, v)"
proof -
  have "takeWhile (\<lambda>x. x \<noteq> CHR '':'') (k @ '': '' @ v) = k" "dropWhile (\<lambda>x. x \<noteq> CHR '':'') (k @ '': '' @ v) = '': '' @ v"
    using assms(2) by (induction k) auto
  then have cut: "cut_at (CHR '':'') (k @ '': '' @ v) = (k, CHR '' '' # v)" by (simp add: cut_at_def)
  have "trim_space (CHR '' '' # v) = v" using assms(1) by (simp add: plain_line_def trim_space_def is_space_def)
  then show ?thesis
    unfolding key_value_def cut Let_def
    using assms trim_quotes_plain [OF assms(1)] by (simp add: plain_line_def)
qed

lemma valid_name_chars:
  "valid_name n \<Longrightarrow> n \<noteq> [] \<and> list_all (\<lambda>c. name_start c \<or> c = CHR ''_'' \<or> c = CHR ''-'') n \<and> name_start (hd n)"
  by (cases n) (auto simp: valid_name_def)

lemma valid_name_plain: "valid_name n \<Longrightarrow> plain_line n \<and> to_lower n = n"
proof -
  assume "valid_name n"
  note v = valid_name_chars [OF this]
  have c: "\<not> is_space c \<and> c \<notin> {CHR 0x22, CHR 0x27, CHR 0x0A} \<and> \<not> (65 \<le> (of_char c :: nat) \<and> (of_char c :: nat) \<le> 90)"
    if "c \<in> set n" for c
  proof -
    have "name_start c \<or> c = CHR ''_'' \<or> c = CHR ''-''" using v that by (auto simp: list_all_iff)
    then show ?thesis
      by (auto simp: name_start_def byte_of_def is_digit_def is_space_def)
  qed
  have "trim_space n = n"
  proof -
    have "dropWhile is_space n = n" using v c by (cases n) auto
    moreover have "dropWhile is_space (rev n) = rev n" using v c by (cases n rule: rev_cases) auto
    ultimately show ?thesis by (simp add: trim_space_def)
  qed
  moreover have "to_lower n = n" unfolding to_lower_def by (rule map_idI) (use c in auto)
  moreover have "hd n \<in> set n" "last n \<in> set n" using v by auto
  ultimately show ?thesis using v c by (auto simp: plain_line_def)
qed

text \<open>A skill file written with a name and a description in its front matter is read as just that
  skill, whatever the name of its directory and whatever lines, fences included, its body holds.\<close>

theorem front_matter_read:
  "if valid_name name \<and> name \<notin> set reserved_skills \<and> plain_line description
      \<and> body \<noteq> [] \<and> trim_space body = body \<and> (skill_bytes l \<le> 0 \<or> int (length body) \<le> skill_bytes l)
   then parse_skill l dir_name (skill_text name description body) p
     = Inr \<lparr>sk_name = name, sk_description = description, sk_body = body, sk_path = p\<rparr>
   else True"
proof (cases "valid_name name \<and> name \<notin> set reserved_skills \<and> plain_line description
      \<and> body \<noteq> [] \<and> trim_space body = body \<and> (skill_bytes l \<le> 0 \<or> int (length body) \<le> skill_bytes l)")
  case True
  then have n: "plain_line name \<and> to_lower name = name" using valid_name_plain by blast
  let ?l1 = "''name: '' @ name" and ?l2 = "''description: '' @ description"
  have no_newline: "CHR 0x0A \<notin> set ?l1" "CHR 0x0A \<notin> set ?l2" using n True by (auto simp: plain_line_def)
  have lines: "split_on (CHR 0x0A) (?l1 @ newline @ ?l2) = [?l1, ?l2]"
    using split_on_snoc [OF no_newline(1), of ?l2] split_on_whole [OF no_newline(2)] by simp
  have kv: "key_value ?l1 = Some (''name'', name)" "key_value ?l2 = Some (''description'', description)"
    using key_value_plain [of name "''name''"] key_value_plain [of description "''description''"] n True
    by (simp_all add: trim_space_def is_space_def to_lower_def)
  have "parse_key_values (?l1 @ newline @ ?l2) = [(''name'', name), (''description'', description)]"
    unfolding parse_key_values_def lines by (simp only: fold_simps kv option.case prod.case comp_apply id_apply) simp
  moreover have "dropWhile (\<lambda>c. c = CHR 0x0A) body = body"
    using True trim_space_ends(1) [of body] by (cases body) (auto simp: is_space_def)
  ultimately have "split_front_matter (skill_text name description body) = ([(''name'', name), (''description'', description)], body)"
    using split_fenced [OF no_newline, of body] by (simp add: skill_text_def)
  then show ?thesis
    using True n by (auto simp: parse_skill_def meta_value_def Let_def plain_line_def)
next
  case False
  show ?thesis unfolding if_not_P [OF False] by simp
qed

text \<open>
  Two shapes are read otherwise.  A fence that closes at once is not seen as one, so the text up to
  the next rule of the body is taken for front matter and lost.
\<close>

lemma empty_front_matter_eats_body:
  "parse_skill \<lparr>sl_dir = [], sl_global_dir = [], sl_max_bytes = 0\<rparr> ''d''
     (concat [fence, newline, fence, newline, ''First'', newline, fence, newline, ''Second'']) ''p''
   = Inr \<lparr>sk_name = ''d'', sk_description = ''Second'', sk_body = ''Second'', sk_path = ''p''\<rparr>"
  by code_simp

text \<open>Names are compared in lower case, so an entry with capitals reserves nothing.\<close>

lemma capitals_reserve_nothing:
  "list_all (\<lambda>n. \<not> valid_name n) [''aiJSON'', ''htmlToMarkdown'', ''parseUrl'', ''skillGet'', ''skillList'']"
  by code_simp

end
