(* ===== verification/Openapi.thy ===== *)
theory Openapi
  imports Sandbox_Turn
begin

text \<open>
  \<open>ext/pack_openapi.go\<close>, \<open>ext/openapi_gen.go\<close> and \<open>ext/openapi_render.go\<close>: a skill from an
  OpenAPI document, the JavaScript of its functions and their declarations.  The document's data
  model is a third-party package; a document is given here by the fields the code reads, with a
  missing reference as \<open>None\<close> and a map by its entries.  Parameters of equal name keep their order.
\<close>

section \<open>Documents\<close>

record oa_parameter =
  oa_in :: bytes
  oa_name :: bytes
  oa_required :: bool
  oa_type :: "bytes option"

record oa_operation =
  oa_id :: bytes
  oa_summary :: bytes
  oa_params :: "oa_parameter option list"
  oa_body :: "bool option"

record oa_item =
  oa_shared :: "oa_parameter option list"
  oa_methods :: "(bytes \<times> oa_operation) list"

record oa_info =
  oa_title :: bytes
  oa_description :: bytes
  oa_version :: bytes

record oa_spec =
  oa_info_of :: "oa_info option"
  oa_servers :: "bytes list"
  oa_paths :: "(bytes \<times> oa_item) list"

definition spec_title :: "oa_spec \<Rightarrow> bytes" where
  "spec_title s = (case oa_info_of s of None \<Rightarrow> [] | Some i \<Rightarrow> oa_title i)"

definition spec_description :: "oa_spec \<Rightarrow> bytes" where
  "spec_description s = (case oa_info_of s of None \<Rightarrow> [] | Some i \<Rightarrow> oa_description i)"

definition spec_version :: "oa_spec \<Rightarrow> bytes" where
  "spec_version s = (case oa_info_of s of None \<Rightarrow> [] | Some i \<Rightarrow> oa_version i)"

section \<open>Names\<close>

definition is_lower :: "char \<Rightarrow> bool" where "is_lower c = (97 \<le> byte_of c \<and> byte_of c \<le> 122)"
definition is_upper :: "char \<Rightarrow> bool" where "is_upper c = (65 \<le> byte_of c \<and> byte_of c \<le> 90)"

definition ident_char :: "char \<Rightarrow> bool" where
  "ident_char c = (is_lower c \<or> is_upper c \<or> is_digit c \<or> c = CHR ''_'')"

text \<open>A run of characters that do not satisfy \<open>ok\<close> becomes one \<open>c\<close>.\<close>

fun collapse :: "(char \<Rightarrow> bool) \<Rightarrow> char \<Rightarrow> bool \<Rightarrow> bytes \<Rightarrow> bytes" where
  "collapse ok c inside [] = []"
| "collapse ok c inside (x # xs) =
     (if ok x then x # collapse ok c False xs
      else if inside then collapse ok c True xs else c # collapse ok c True xs)"

definition trim_chars :: "char list \<Rightarrow> bytes \<Rightarrow> bytes" where
  "trim_chars chars s = trim_right chars (dropWhile (\<lambda>c. c \<in> set chars) s)"

definition slugify :: "bytes \<Rightarrow> bytes" where
  "slugify s = trim_chars ''-'' (collapse (\<lambda>c. is_lower c \<or> is_digit c) (CHR ''-'') False (to_lower s))"

definition sanitize_ident :: "bytes \<Rightarrow> bytes" where
  "sanitize_ident s =
     (let s = collapse ident_char (CHR ''_'') False s in
      if s = [] then ''_'' else if is_digit (hd s) then CHR ''_'' # s else s)"

definition to_upper_char :: "char \<Rightarrow> char" where
  "to_upper_char c = (if is_lower c then char_of (byte_of c - 32) else c)"

text \<open>\<open>strings.FieldsFunc\<close>: the runs of characters that satisfy \<open>ok\<close>.\<close>

definition fields_of :: "(char \<Rightarrow> bool) \<Rightarrow> bytes \<Rightarrow> bytes list" where
  "fields_of ok s = filter (\<lambda>f. f \<noteq> []) (split_on (CHR ''_'') (map (\<lambda>c. if ok c then c else CHR ''_'') s))"

definition capitalised :: "bytes \<Rightarrow> bytes" where
  "capitalised f = map to_upper_char (take 1 f) @ drop 1 f"

definition pascal_case :: "bytes \<Rightarrow> bytes" where
  "pascal_case s = concat (map capitalised (fields_of (\<lambda>c. is_lower c \<or> is_upper c \<or> is_digit c) s))"

definition segment_name :: "bytes \<Rightarrow> bytes" where
  "segment_name seg =
     (if seg = [] then []
      else if has_prefix ''{'' seg \<and> last seg = CHR ''}'' then ''By'' @ pascal_case (trim_chars ''{}'' seg)
      else pascal_case seg)"

definition derive_name :: "bytes \<Rightarrow> bytes \<Rightarrow> bytes" where
  "derive_name verb p =
     sanitize_ident (to_lower verb @ concat (map segment_name (split_on (CHR ''/'') (trim_chars ''/'' p))))"

text \<open>The loop over the numbers ends because only finitely many names are in use.\<close>

definition numbered :: "bytes \<Rightarrow> nat \<Rightarrow> bytes" where
  "numbered name n = name @ nat_text n"

definition taken_from :: "bytes \<Rightarrow> nat \<Rightarrow> bytes list \<Rightarrow> nat set" where
  "taken_from name n used = {m. n \<le> m \<and> numbered name m \<in> set used}"

lemma numbered_inj: "inj (numbered name)"
proof (rule injI)
  fix m n assume "numbered name m = numbered name n"
  then have "nat_text m = nat_text n" by (simp add: numbered_def)
  then show "m = n" by (metis digits_val_nat_text)
qed

lemma finite_taken: "finite (taken_from name n used)"
proof (rule finite_subset)
  show "taken_from name n used \<subseteq> numbered name -` set used" by (auto simp: taken_from_def)
  show "finite (numbered name -` set used)" by (intro finite_vimageI numbered_inj) simp
qed

function next_free :: "bytes \<Rightarrow> nat \<Rightarrow> bytes list \<Rightarrow> bytes" where
  "next_free name n used =
     (if numbered name n \<in> set used then next_free name (Suc n) used else numbered name n)"
  by auto
termination
proof (relation "measure (\<lambda>(name, n, used). card (taken_from name n used))")
  fix name n used
  assume "numbered name n \<in> set used"
  then have "taken_from name n used = insert n (taken_from name (Suc n) used)"
    by (auto simp: taken_from_def le_Suc_eq Suc_le_eq order_le_less)
  moreover have "n \<notin> taken_from name (Suc n) used" by (simp add: taken_from_def)
  ultimately show "((name, Suc n, used), name, n, used) \<in> measure (\<lambda>(name, n, used). card (taken_from name n used))"
    using finite_taken [of name "Suc n" used] by simp
qed simp

declare next_free.simps [simp del]

definition dedupe_name :: "bytes \<Rightarrow> bytes list \<Rightarrow> bytes" where
  "dedupe_name name used = (if name \<in> set used then next_free name 2 used else name)"

section \<open>Operations\<close>

record param =
  pa_name :: bytes
  pa_required :: bool
  pa_type :: bytes

record operation =
  op_func :: bytes
  op_method :: bytes
  op_path :: bytes
  op_summary :: bytes
  op_path_params :: "param list"
  op_query_params :: "param list"
  op_has_body :: bool
  op_body_required :: bool

definition schema_type_of :: "oa_parameter \<Rightarrow> bytes" where
  "schema_type_of p = (case oa_type p of None \<Rightarrow> ''string'' | Some t \<Rightarrow> t)"

definition param_key :: "oa_parameter \<Rightarrow> bytes" where
  "param_key p = oa_in p @ ''|'' @ oa_name p"

text \<open>The last parameter of a key wins, at the place of the first.\<close>

definition merge_parameters :: "oa_parameter option list \<Rightarrow> oa_parameter option list \<Rightarrow> oa_parameter list" where
  "merge_parameters path_level op_level =
     map snd (fold (\<lambda>r out. case r of None \<Rightarrow> out | Some p \<Rightarrow> AList.update (param_key p) p out) (path_level @ op_level) [])"

definition path_param :: "oa_parameter \<Rightarrow> param" where
  "path_param p = \<lparr>pa_name = sanitize_ident (oa_name p), pa_required = True, pa_type = schema_type_of p\<rparr>"

definition query_param :: "oa_parameter \<Rightarrow> param" where
  "query_param p = \<lparr>pa_name = sanitize_ident (oa_name p), pa_required = oa_required p, pa_type = schema_type_of p\<rparr>"

definition operation_name :: "oa_operation \<Rightarrow> bytes \<Rightarrow> bytes \<Rightarrow> bytes" where
  "operation_name op verb p = (if oa_id op \<noteq> [] then sanitize_ident (oa_id op) else derive_name verb p)"

definition extract_operation :: "oa_item \<Rightarrow> oa_operation \<Rightarrow> bytes \<Rightarrow> bytes \<Rightarrow> bytes list \<Rightarrow> operation" where
  "extract_operation item op verb p used =
     (let params = merge_parameters (oa_shared item) (oa_params op) in
      \<lparr>op_func = dedupe_name (operation_name op verb p) used, op_method = verb, op_path = p, op_summary = oa_summary op,
       op_path_params = sort_key pa_name (map path_param (filter (\<lambda>q. oa_in q = ''path'') params)),
       op_query_params = sort_key pa_name (map query_param (filter (\<lambda>q. oa_in q = ''query'') params)),
       op_has_body = (oa_body op \<noteq> None), op_body_required = (oa_body op = Some True)\<rparr>)"

text \<open>The walk over paths and methods in the order of their names, with the function names in use.\<close>

definition collect_step :: "bytes list \<Rightarrow> operation list \<Rightarrow> bytes \<times> bytes \<times> oa_item \<times> oa_operation \<Rightarrow> operation list" where
  "collect_step methods ops x =
     (let (p, verb, item, op) = x in
      if verb \<notin> set methods then ops
      else ops @ [extract_operation item op verb p (map op_func ops)])"

definition spec_operations :: "oa_spec \<Rightarrow> (bytes \<times> bytes \<times> oa_item \<times> oa_operation) list" where
  "spec_operations s =
     concat (map (\<lambda>(p, item). map (\<lambda>(verb, op). (p, verb, item, op)) (sort_key fst (oa_methods item)))
               (sort_key fst (oa_paths s)))"

definition collect_operations :: "oa_spec \<Rightarrow> bytes list \<Rightarrow> operation list" where
  "collect_operations s methods = foldl (collect_step methods) [] (spec_operations s)"

section \<open>JavaScript\<close>

text \<open>A template's literal parts and the parameters between braces.\<close>

datatype path_piece = Literal bytes | Hole bytes

definition literal :: "bytes \<Rightarrow> path_piece list" where
  "literal s = (if s = [] then [] else [Literal s])"

function path_pieces :: "bytes \<Rightarrow> bytes \<Rightarrow> path_piece list" where
  "path_pieces lit [] = literal lit"
| "path_pieces lit (c # cs) =
     (let n = takeWhile (\<lambda>x. x \<noteq> CHR ''}'') cs; r = dropWhile (\<lambda>x. x \<noteq> CHR ''}'') cs in
      if c = CHR ''{'' \<and> n \<noteq> [] \<and> r \<noteq> [] then literal lit @ Hole n # path_pieces [] (tl r)
      else path_pieces (lit @ [c]) cs)"
  by pat_completeness auto
termination
proof (relation "measure (length \<circ> snd)")
  fix lit :: bytes and c cs n r
  assume "r = dropWhile (\<lambda>x. x \<noteq> CHR ''}'') cs"
  then have "length (tl r) \<le> length cs" using length_dropWhile_le [of _ cs] by (metis diff_le_self le_trans length_tl)
  then show "(([], tl r), lit, c # cs) \<in> measure (length \<circ> snd)" by simp
qed simp_all

definition piece_js :: "path_piece \<Rightarrow> bytes" where
  "piece_js x =
     (case x of
        Literal s \<Rightarrow> '' + '' @ quote s
      | Hole n \<Rightarrow> '' + encodeURIComponent(String(params.'' @ sanitize_ident n @ ''))'')"

definition path_expr_js :: "bytes \<Rightarrow> bytes" where
  "path_expr_js p = ''BASE_URL'' @ concat (map piece_js (path_pieces [] p))"

definition merge_headers_js :: bytes where
  "merge_headers_js = concat (map (\<lambda>l. l @ newline)
     [''function _mergeHeaders(a, b) {'', ''  var out = {};'', ''  for (var k in a) { out[k] = a[k]; }'',
      ''  for (var k in b) { out[k] = b[k]; }'', ''  return out;'', ''}''])"

definition response_type_js :: bytes where
  "response_type_js = ''{ status: number; body: string; headers: Record<string, string> }''"

definition query_js :: "param \<Rightarrow> bytes" where
  \<open>query_js q =
     ''  if (params.'' @ pa_name q @ '' !== undefined) qs.push('' @ quote (pa_name q)
     @ '' + "=" + encodeURIComponent(String(params.'' @ pa_name q @ '')));'' @ newline\<close>

definition render_function_js :: "operation \<Rightarrow> bytes" where
  \<open>render_function_js op =
     ''exports.'' @ op_func op @ '' = function(params) {'' @ newline
     @ ''  params = params || {};'' @ newline
     @ ''  var url = '' @ path_expr_js (op_path op) @ '';'' @ newline
     @ (if op_query_params op = [] then []
        else ''  var qs = [];'' @ newline @ concat (map query_js (op_query_params op))
             @ ''  if (qs.length > 0) url += "?" + qs.join("&");'' @ newline)
     @ (if \<not> op_has_body op then []
        else concat (map (\<lambda>l. l @ newline)
          [''  var body = "";'', ''  var reqHeaders = HEADERS;'', ''  if (params.body !== undefined) {'',
           ''    body = JSON.stringify(params.body);'',
           ''    reqHeaders = _mergeHeaders(HEADERS, {"Content-Type": "application/json"});'', ''  }'']))
     @ ''  return _http(url, {method: '' @ quote (op_method op) @ '', ''
     @ (if op_has_body op then ''body: body, '' else []) @ ''headers: ''
     @ (if op_has_body op then ''reqHeaders'' else ''HEADERS'') @ ''});'' @ newline
     @ ''};'' @ newline\<close>

definition ts_type :: "bytes \<Rightarrow> bytes" where
  "ts_type t =
     (if t = ''integer'' \<or> t = ''number'' then ''number''
      else if t = ''boolean'' then ''boolean''
      else if t = ''array'' then ''any[]''
      else if t = ''object'' then ''any''
      else if t = ''string'' then ''string'' else ''any'')"

definition decl_fields :: "operation \<Rightarrow> bytes list" where
  "decl_fields op =
     map (\<lambda>p. pa_name p @ '': '' @ ts_type (pa_type p) @ '';'') (op_path_params op)
     @ map (\<lambda>p. pa_name p @ (if pa_required p then [] else ''?'') @ '': '' @ ts_type (pa_type p) @ '';'') (op_query_params op)
     @ (if op_has_body op
        then [''body'' @ (if op_body_required op then [] else ''?'') @ '': any; // JSON-serialized request body''] else [])"

definition params_optional :: "operation \<Rightarrow> bool" where
  "params_optional op =
     (op_path_params op = [] \<and> \<not> (op_has_body op \<and> op_body_required op)
      \<and> \<not> list_ex pa_required (op_query_params op))"

definition render_function_decl :: "operation \<Rightarrow> bytes" where
  "render_function_decl op =
     (let fields = decl_fields op;
          params_type = (if fields = [] then ''{}'' else ''{ '' @ join_with '' '' fields @ '' }'');
          summary = (if op_summary op = [] then op_method op @ '' '' @ op_path op else op_summary op)
      in ''/** '' @ summary @ '' */'' @ newline
         @ ''declare function '' @ op_func op @ ''(params'' @ (if params_optional op then ''?'' else []) @ '': ''
         @ params_type @ ''): '' @ response_type_js @ '';'' @ newline)"

definition intro_text :: "bytes \<Rightarrow> bytes \<Rightarrow> bytes \<Rightarrow> bytes \<Rightarrow> nat \<Rightarrow> bytes" where
  "intro_text title description version base_url n =
     (let header = (if title = [] then ''REST API'' else title) in
      (if version \<noteq> [] then header @ '' (v'' @ version @ '')'' @ newline else header @ newline)
      @ (if description \<noteq> [] then description @ newline else [])
      @ newline @ ''Base URL: '' @ base_url @ '' '' @ em_dash @ '' '' @ itoa (int n) @ '' operation(s) below.'' @ newline
      @ ''Every function takes one params object and returns '' @ response_type_js
      @ '' '' @ em_dash @ '' body is a raw string, JSON.parse it if the response is JSON.'')"

definition short_intro :: "bytes \<Rightarrow> bytes \<Rightarrow> nat \<Rightarrow> bytes" where
  "short_intro title name n =
     (let subject = (if title = [] then ''A REST API'' else title) in
      ''// --- '' @ subject @ '' (skill: '' @ name @ '') ---'' @ newline
      @ ''/** '' @ subject @ '' '' @ em_dash @ '' '' @ itoa (int n) @ '' operation(s). skillGet('' @ quote name
      @ '') for the full TypeScript API; require('' @ quote name @ '') to call it. */'')"

definition trim_suffix :: "bytes \<Rightarrow> bytes \<Rightarrow> bytes" where
  "trim_suffix p s = (if has_suffix p s then take (length s - length p) s else s)"

definition render_skill :: "bytes \<Rightarrow> bytes \<Rightarrow> bytes \<Rightarrow> bytes \<Rightarrow> (bytes \<times> bytes) list \<Rightarrow> operation list \<Rightarrow> bytes \<times> bytes" where
  "render_skill title description version base_url headers ops =
     (let base_url = trim_suffix ''/'' base_url in
      (''// Generated by ext.OpenAPIPack '' @ em_dash @ '' do not edit by hand.'' @ newline
       @ ''var BASE_URL = '' @ quote base_url @ '';'' @ newline
       @ ''var HEADERS = '' @ json_marshal (JObj (map (\<lambda>(k, v). (k, JStr v)) (sort_key fst headers))) @ '';'' @ newline
       @ merge_headers_js @ newline
       @ concat (map (\<lambda>op. render_function_js op @ newline) ops),
       trim_right newline (intro_text title description version base_url (length ops) @ newline @ newline
         @ concat (map render_function_decl ops))))"

section \<open>The pack\<close>

record openapi_config =
  oc_name :: bytes
  oc_description :: bytes
  oc_base_url :: bytes
  oc_headers :: "(bytes \<times> bytes) list"
  oc_methods :: "bytes list"

definition default_openapi_methods :: "bytes list" where
  "default_openapi_methods = [''GET'', ''POST'', ''PUT'', ''PATCH'', ''DELETE'']"

definition to_upper :: "bytes \<Rightarrow> bytes" where
  "to_upper s = map to_upper_char s"

text \<open>The pack, and the module it makes loadable under its name.\<close>

definition openapi_pack :: "oa_spec \<Rightarrow> openapi_config \<Rightarrow> bytes + pack \<times> bytes" where
  "openapi_pack s cfg =
     (let base_url = (if oc_base_url cfg = [] \<and> oa_servers s \<noteq> [] then hd (oa_servers s) else oc_base_url cfg) in
      if base_url = [] then Inl ''ext: OpenAPIPack: no BaseURL configured and the spec declares no servers''
      else
        let name = (if oc_name cfg = [] then slugify (spec_title s) else oc_name cfg);
            name = (if name = [] then ''api'' else name);
            description = (if oc_description cfg = [] then spec_title s else oc_description cfg);
            description = (if description = [] then ''REST API generated from an OpenAPI spec'' else description);
            methods = map to_upper (if oc_methods cfg = [] then default_openapi_methods else oc_methods cfg);
            ops = collect_operations s methods
        in if ops = []
           then Inl (''ext: OpenAPIPack: spec '' @ quote name
                  @ '' produced no operations (check Methods and that the spec has paths)'')
           else let (module_js, docs) = render_skill (spec_title s) (spec_description s) (spec_version s) base_url (oc_headers cfg) ops
                in Inr (\<lparr>pk_name = name, pk_description = description, pk_skill_type = [],
                         pk_prompt = short_intro (spec_title s) name (length ops), pk_help = [(name, docs)],
                         pk_functions = [], pk_skills = None\<rparr>, module_js))"

end
