(* ===== verification/Openapi_Properties.thy ===== *)
theory Openapi_Properties
  imports Openapi
begin

text \<open>
  What a generated skill promises: a function for every operation asked for, each under a name of
  its own that JavaScript accepts, and an address made of nothing but the template.
\<close>

section \<open>Names\<close>

definition js_name :: "bytes \<Rightarrow> bool" where
  "js_name s = (s \<noteq> [] \<and> list_all ident_char s \<and> \<not> is_digit (hd s))"

lemma collapse_ok: "ok c \<Longrightarrow> list_all ok (collapse ok c inside s)"
  by (induction ok c inside s rule: collapse.induct) auto

lemma sanitize_js_name: "js_name (sanitize_ident s)"
proof -
  have "list_all ident_char (collapse ident_char (CHR ''_'') False s)"
    by (rule collapse_ok) (simp add: ident_char_def)
  moreover have "\<not> is_digit (CHR ''_'')" by (simp add: is_digit_def)
  ultimately show ?thesis by (auto simp: js_name_def sanitize_ident_def Let_def ident_char_def)
qed

lemma operation_name_js: "js_name (operation_name op verb p)"
  by (simp add: operation_name_def derive_name_def sanitize_js_name)

lemma next_free_spec: "next_free name n used \<notin> set used \<and> (\<exists>m. next_free name n used = numbered name m)"
  by (induction name n used rule: next_free.induct) (metis next_free.simps)

lemma dedupe_spec:
  "dedupe_name name used \<notin> set used \<and> (dedupe_name name used = name \<or> (\<exists>m. dedupe_name name used = numbered name m))"
  using next_free_spec [of name 2 used] by (auto simp: dedupe_name_def)

lemma numbered_js_name: "js_name name \<Longrightarrow> js_name (numbered name n)"
  using nat_text_digits [of n] by (auto simp: js_name_def numbered_def list_all_iff ident_char_def)

lemma dedupe_js_name: "js_name name \<Longrightarrow> js_name (dedupe_name name used)"
  using dedupe_spec [of name used] numbered_js_name [of name] by auto

lemma collected:
  "distinct (map op_func (foldl (collect_step methods) ops xs)) = distinct (map op_func ops)
   \<and> (list_all (\<lambda>o'. js_name (op_func o')) ops \<longrightarrow> list_all (\<lambda>o'. js_name (op_func o')) (foldl (collect_step methods) ops xs))
   \<and> map (\<lambda>o'. (op_path o', op_method o')) (foldl (collect_step methods) ops xs)
       = map (\<lambda>o'. (op_path o', op_method o')) ops
         @ map (\<lambda>(p, verb, item, op). (p, verb)) (filter (\<lambda>(p, verb, item, op). verb \<in> set methods) xs)"
proof (induction xs arbitrary: ops)
  case (Cons x xs)
  obtain p verb item op where x: "x = (p, verb, item, op)" by (cases x)
  show ?case
  proof (cases "verb \<in> set methods")
    case False
    then show ?thesis using Cons.IH [of ops] by (simp add: x collect_step_def)
  next
    case True
    let ?o = "extract_operation item op verb p (map op_func ops)"
    have o: "op_func ?o \<notin> op_func ` set ops" "js_name (op_func ?o)" "op_path ?o = p" "op_method ?o = verb"
      using dedupe_spec [of "operation_name op verb p" "map op_func ops"] dedupe_js_name [OF operation_name_js]
      by (simp_all add: extract_operation_def Let_def)
    have step: "collect_step methods ops x = ops @ [?o]" using True by (simp add: x collect_step_def)
    show ?thesis unfolding foldl_Cons step
      using Cons.IH [of "ops @ [?o]"] o True by (simp add: x)
  qed
qed simp

text \<open>The module has one function for every operation of an allowed method, in the order of paths and
  methods, and no two share a name, whatever the document calls them; every name is one JavaScript
  accepts.  Finding a free name always ends.\<close>

theorem openapi_functions:
  "let ops = collect_operations s methods in
     distinct (map op_func ops)
     \<and> list_all (\<lambda>op. js_name (op_func op)) ops
     \<and> map (\<lambda>op. (op_path op, op_method op)) ops
       = map (\<lambda>(p, verb, item, op). (p, verb)) (filter (\<lambda>(p, verb, item, op). verb \<in> set methods) (spec_operations s))
     \<and> sorted (map op_path ops)"
proof -
  have paths: "map op_path (collect_operations s methods)
      = map fst (filter (\<lambda>(p, verb, item, op). verb \<in> set methods) (spec_operations s))"
  proof -
    have "map (\<lambda>op. (op_path op, op_method op)) (collect_operations s methods)
        = map (\<lambda>(p, verb, item, op). (p, verb)) (filter (\<lambda>(p, verb, item, op). verb \<in> set methods) (spec_operations s))"
      using collected [of methods "[]" "spec_operations s"] by (simp add: collect_operations_def)
    from arg_cong [OF this, of "map fst"] show ?thesis by (simp add: comp_def case_prod_unfold)
  qed
  have blocks: "sorted (map fst (concat (map (\<lambda>(p, item). map (\<lambda>(verb, op). (p, verb, item, op)) (f item)) xs)))"
    if "sorted (map fst xs)" for f :: "oa_item \<Rightarrow> (bytes \<times> oa_operation) list" and xs :: "(bytes \<times> oa_item) list"
    using that
  proof (induction xs)
    case (Cons x xs)
    then show ?case
      by (cases x) (auto simp: sorted_append comp_def case_prod_unfold sorted_wrt_map)
  qed simp
  have "sorted (map fst (spec_operations s))"
    unfolding spec_operations_def by (rule blocks [where f = "\<lambda>item. sort_key fst (oa_methods item)"]) simp
  then have "sorted (map op_path (collect_operations s methods))"
    unfolding paths by (rule sorted_filter)
  then show ?thesis
    using collected [of methods "[]" "spec_operations s"] by (simp add: collect_operations_def Let_def)
qed

section \<open>Addresses\<close>

fun piece_text :: "path_piece \<Rightarrow> bytes" where
  "piece_text (Literal s) = s"
| "piece_text (Hole n) = ''{'' @ n @ ''}''"

lemma pieces_cover: "concat (map piece_text (path_pieces lit p)) = lit @ p"
proof (induction lit p rule: path_pieces.induct)
  case (1 lit)
  then show ?case by (simp add: literal_def)
next
  case (2 lit c cs)
  let ?n = "takeWhile (\<lambda>x. x \<noteq> CHR ''}'') cs" and ?r = "dropWhile (\<lambda>x. x \<noteq> CHR ''}'') cs"
  show ?case
  proof (cases "c = CHR ''{'' \<and> ?n \<noteq> [] \<and> ?r \<noteq> []")
    case True
    then have "hd ?r = CHR ''}''" using hd_dropWhile [of "\<lambda>x. x \<noteq> CHR ''}''" cs] by simp
    then have "cs = ?n @ ''}'' @ tl ?r"
      using True takeWhile_dropWhile_id [of "\<lambda>x. x \<noteq> CHR ''}''" cs] by (cases ?r) auto
    then show ?thesis
      using 2(1) [OF refl refl True] True by (simp add: Let_def literal_def)
  next
    case False
    show ?thesis unfolding path_pieces.simps Let_def if_not_P [OF False]
      using 2(2) [OF refl refl False] by simp
  qed
qed

text \<open>The address a function calls is the template and nothing else: the pieces of the expression,
  read with the holes in braces, give the path back, so each value of a parameter lands, encoded,
  where its name stood.\<close>

theorem path_expression_covers:
  "path_expr_js p = ''BASE_URL'' @ concat (map piece_js (path_pieces [] p))
   \<and> concat (map piece_text (path_pieces [] p)) = p
   \<and> list_all (\<lambda>x. case x of Literal t \<Rightarrow> t \<noteq> [] | Hole n \<Rightarrow> n \<noteq> [] \<and> CHR ''}'' \<notin> set n) (path_pieces [] p)"
proof -
  have "list_all (\<lambda>x. case x of Literal t \<Rightarrow> t \<noteq> [] | Hole n \<Rightarrow> n \<noteq> [] \<and> CHR ''}'' \<notin> set n) (path_pieces lit p)" for lit
  proof (induction lit p rule: path_pieces.induct)
    case (2 lit c cs)
    then show ?case
      using set_takeWhileD [of "CHR ''}''" "\<lambda>x. x \<noteq> CHR ''}''" cs] by (auto simp: Let_def literal_def)
  qed (simp add: literal_def)
  then show ?thesis using pieces_cover [of "[]" p] by (simp add: path_expr_js_def)
qed

section \<open>Where the text goes wrong\<close>

text \<open>A query parameter is sent under its sanitized name, which the server does not know.\<close>

lemma query_name_lost:
  "pa_name (query_param \<lparr>oa_in = ''query'', oa_name = ''page-size'', oa_required = False, oa_type = None\<rparr>) = ''page_size''"
  by code_simp

lemma query_sent_sanitized:
  \<open>query_js (query_param p) =
     (''  if (params.'' @ sanitize_ident (oa_name p) @ '' !== undefined) qs.push('') @ quote (sanitize_ident (oa_name p))
     @ '' + "=" + encodeURIComponent(String(params.'' @ sanitize_ident (oa_name p) @ '')));'' @ newline\<close>
  unfolding query_js_def query_param_def param.simps by (simp only: append.assoc)

text \<open>The declaration of a function with a body puts its closing brace behind a line comment.\<close>

lemma body_comment_swallows_brace:
  "op_has_body op \<Longrightarrow> \<exists>before. join_with '' '' (decl_fields op) @ '' }'' = before @ ''// JSON-serialized request body }''"
proof -
  assume body: "op_has_body op"
  let ?b = "''body'' @ (if op_body_required op then [] else ''?'') @ '': any; ''"
  let ?c = "''// JSON-serialized request body''"
  have last_join: "\<exists>pre. join_with '' '' (fs @ [x]) = pre @ x" for fs and x :: bytes
  proof (induction fs)
    case (Cons f fs)
    then obtain pre where "join_with '' '' (fs @ [x]) = pre @ x" ..
    then have "join_with '' '' ((f # fs) @ [x]) = (f @ '' '' @ pre) @ x" by (cases "fs @ [x]") auto
    then show ?case ..
  qed simp
  obtain fs where "decl_fields op = fs @ [?b @ ?c]"
    using body by (simp add: decl_fields_def)
  with last_join [of fs "?b @ ?c"] obtain pre where j: "join_with '' '' (decl_fields op) = pre @ ?b @ ?c" by metis
  show ?thesis unfolding j by (rule exI [of _ "pre @ ?b"]) simp
qed

end
