(* ===== verification/Fetch_Properties.thy ===== *)
theory Fetch_Properties
  imports Fetch_Pack
begin

text \<open>
  What the network primitives promise: whatever a script calls, every request the pack makes goes
  where the policy lets it or to a host the user said yes to; and what their matching of addresses
  misses, the redirects first.
\<close>

section \<open>Leave\<close>

definition policy_lets :: "policy option \<Rightarrow> bytes \<Rightarrow> bool" where
  "policy_lets p raw =
     (case check_policy p ''fetch'' [(''url'', JStr raw)] of
        Inl _ \<Rightarrow> False
      | Inr res \<Rightarrow> allowed res \<and> (let cfg = decode_fetch_config (config_json res) in
                       fc_allow_all cfg \<or> is_url_allowed raw (effective_urls cfg) \<or> effective_urls cfg = []))"

definition user_lets :: "bytes list \<Rightarrow> bytes \<Rightarrow> bool" where
  "user_lets hosts raw =
     (is_session_allowed hosts (host_or_raw raw)
      \<or> (case parse_url raw of Some h \<Rightarrow> is_session_allowed hosts (host_name h) | None \<Rightarrow> False))"

definition leave :: "fetch_env \<Rightarrow> bytes list \<Rightarrow> bytes \<Rightarrow> bool" where
  "leave E hosts raw = (policy_lets (fe_policy E) raw \<or> user_lets hosts raw)"

definition approved :: "(bytes \<times> bool) list \<Rightarrow> bytes list" where
  "approved asked = map fst (filter snd asked)"

text \<open>The record holds what the user replied to the question about the host, and nothing else.\<close>

fun replies :: "((bytes \<times> bool) list \<Rightarrow> input_request_data \<Rightarrow> bytes + js) \<Rightarrow> (bytes \<times> bool) list \<Rightarrow> (bytes \<times> bool) list \<Rightarrow> bool" where
  "replies q before [] = True"
| "replies q before ((host, yes) # r) =
     (yes = (q before (confirm_request (''Allow the agent to access '' @ host @ ''?'')) = Inr (Some (JBool True)))
      \<and> replies q (before @ [(host, yes)]) r)"

lemma replies_snoc:
  "replies q before (xs @ [(host, yes)]) \<longleftrightarrow>
     replies q before xs
     \<and> yes = (q (before @ xs) (confirm_request (''Allow the agent to access '' @ host @ ''?'')) = Inr (Some (JBool True)))"
  by (induction q before xs rule: replies.induct) auto

definition truly_asked :: "fetch_env \<Rightarrow> (bytes \<times> bool) list \<Rightarrow> bool" where
  "truly_asked E asked = (case fe_requester E of None \<Rightarrow> asked = [] | Some q \<Rightarrow> replies q [] asked)"

definition fetch_inv :: "fetch_env \<Rightarrow> fetch_state \<Rightarrow> bool" where
  "fetch_inv E st \<longleftrightarrow>
     list_all (\<lambda>(r, _). fr_url r \<noteq> [] \<and> leave E (approved (fs_asked st)) (fr_url r)) (fs_sent st)
     \<and> set (fs_session st) = set (approved (fs_asked st)) \<and> distinct (approved (fs_asked st))
     \<and> truly_asked E (fs_asked st)"

lemma session_mono: "set a \<subseteq> set b \<Longrightarrow> is_session_allowed a h \<Longrightarrow> is_session_allowed b h"
  by (auto simp: is_session_allowed_def list_ex_iff)

lemma leave_mono: "leave E a raw \<Longrightarrow> set a \<subseteq> set b \<Longrightarrow> leave E b raw"
  by (auto simp: leave_def user_lets_def intro: session_mono split: option.splits)

lemma fetch_inv_emit [simp]: "fetch_inv E (fs_emit k s d r st) = fetch_inv E st"
  by (simp add: fetch_inv_def fs_emit_def)

lemma fetch_inv_config [simp]: "fetch_inv E (st\<lparr>fs_config := c\<rparr>) = fetch_inv E st"
  by (simp add: fetch_inv_def)

lemma fs_emit_fields [simp]:
  "fs_session (fs_emit k s d r st) = fs_session st" "fs_asked (fs_emit k s d r st) = fs_asked st"
  "fs_sent (fs_emit k s d r st) = fs_sent st"
  by (simp_all add: fs_emit_def)

section \<open>Every step keeps it\<close>

lemma same_config [simp]: "\<exists>c. st = st\<lparr>fs_config := c\<rparr>"
  by (rule exI [of _ "fs_config st"]) simp

lemma policy_check_ok:
  assumes "policy_check_fetch E raw st = ((ok, why), st')"
  shows "\<exists>c. st' = st\<lparr>fs_config := c\<rparr>" and "ok \<Longrightarrow> leave E (fs_session st) raw"
proof -
  have "(\<exists>c. st' = st\<lparr>fs_config := c\<rparr>) \<and> (ok \<longrightarrow> leave E (fs_session st) raw)"
  proof (cases "case parse_url raw of Some h \<Rightarrow> is_session_allowed (fs_session st) (host_name h) | None \<Rightarrow> False")
    case True
    have "st' = st\<lparr>fs_config := fs_config st\<rparr>" "leave E (fs_session st) raw"
      using assms True by (auto simp: policy_check_fetch_def leave_def user_lets_def)
    then show ?thesis by blast
  next
    case False
    then show ?thesis using assms
      by (auto simp: policy_check_fetch_def leave_def policy_lets_def Let_def split: sum.splits if_splits)
  qed
  then show "\<exists>c. st' = st\<lparr>fs_config := c\<rparr>" and "ok \<Longrightarrow> leave E (fs_session st) raw" by auto
qed

lemma ask_user_inv:
  assumes "ask_user q host st = (ok, st')" and "fetch_inv E st" and "fe_requester E = Some q"
    and "host \<notin> set (fs_session st)"
  shows "fetch_inv E st' \<and> (ok \<longrightarrow> host \<in> set (fs_session st'))"
proof -
  let ?reply = "q (fs_asked st) (confirm_request (''Allow the agent to access '' @ host @ ''?''))"
  have inv: "list_all (\<lambda>(r, _). fr_url r \<noteq> [] \<and> leave E (approved (fs_asked st)) (fr_url r)) (fs_sent st)"
    "set (fs_session st) = set (approved (fs_asked st))" "distinct (approved (fs_asked st))" "replies q [] (fs_asked st)"
    using assms(2,3) by (simp_all add: fetch_inv_def truly_asked_def)
  have more: "list_all (\<lambda>(r, _). fr_url r \<noteq> [] \<and> leave E (approved (fs_asked st) @ [host]) (fr_url r)) (fs_sent st)"
    using inv(1) by (auto simp: list_all_iff intro: leave_mono)
  show ?thesis
  proof (cases "?reply = Inr (Some (JBool True))")
    case True
    then have "st' = fs_emit ''ask_result'' (''allowUrls: '' @ host @ '' approved'') [] []
        ((fs_emit ''ask'' (''allowUrls: requesting access to '' @ host) [] [] st)
           \<lparr>fs_asked := fs_asked st @ [(host, True)], fs_session := List.insert host (fs_session st)\<rparr>)"
      using assms(1) by (simp add: ask_user_def Let_def fs_emit_def)
    then show ?thesis
      using inv more True assms(3,4) by (auto simp: fetch_inv_def truly_asked_def approved_def replies_snoc fs_emit_def)
  next
    case False
    then have "\<not> ok" "fs_asked st' = fs_asked st @ [(host, False)]" "fs_session st' = fs_session st" "fs_sent st' = fs_sent st"
      using assms(1) by (auto simp: ask_user_def Let_def fs_emit_def split: sum.splits)
    then show ?thesis using inv False assms(3) by (simp add: fetch_inv_def truly_asked_def approved_def replies_snoc)
  qed
qed

lemma request_access_inv:
  assumes "request_access E raw st = (ok, st')" and inv: "fetch_inv E st"
  shows "fetch_inv E st'" and "ok \<Longrightarrow> leave E (fs_session st') raw"
proof -
  have here: "leave E hosts raw" if "is_session_allowed hosts (host_or_raw raw)" for hosts
    using that by (simp add: leave_def user_lets_def)
  have "fetch_inv E st' \<and> (ok \<longrightarrow> leave E (fs_session st') raw)"
  proof (cases "is_session_allowed (fs_session st) (host_or_raw raw)")
    case True
    then show ?thesis using assms here by (simp add: request_access_def Let_def)
  next
    case False
    obtain o1 why st1 where c: "policy_check_fetch E raw st = ((o1, why), st1)" by (metis prod.exhaust)
    obtain cfg where st1: "st1 = st\<lparr>fs_config := cfg\<rparr>" using policy_check_ok(1) [OF c] ..
    show ?thesis
    proof (cases "o1 \<or> fe_requester E = None")
      case True
      then show ?thesis
        using assms False c policy_check_ok(2) [OF c] st1 by (auto simp: request_access_def Let_def split: if_splits)
    next
      case no: False
      then obtain q where q: "fe_requester E = Some q" by auto
      have "ask_user q (host_or_raw raw) st1 = (ok, st')"
        using assms(1) False c no q by (simp add: request_access_def Let_def)
      moreover have "host_or_raw raw \<notin> set (fs_session st1)" using False st1 by (simp add: is_session_allowed_def)
      ultimately have "fetch_inv E st'" "ok \<longrightarrow> host_or_raw raw \<in> set (fs_session st')"
        using ask_user_inv [of q "host_or_raw raw" st1 ok st' E] q inv st1 by simp_all
      then show ?thesis using here by (simp add: is_session_allowed_def)
    qed
  qed
  then show "fetch_inv E st'" and "ok \<Longrightarrow> leave E (fs_session st') raw" by auto
qed

lemma send_request_inv:
  assumes "fetch_inv E st" and "leave E (fs_session st) raw" and "raw \<noteq> []"
  shows "fetch_inv E (snd (send_request E prim label raw verb body headers st))"
proof -
  have "leave E (approved (fs_asked st)) raw"
    using assms(1,2) by (auto simp: fetch_inv_def intro: leave_mono)
  then have "fetch_inv E (snd (do_fetch_request E raw verb body headers st))" for verb body headers
    using assms(1,3) by (simp add: fetch_inv_def do_fetch_request_def Let_def new_fetch_request_def split: prod.split)
  moreover have "fetch_inv E (snd (do_fetch_request E raw verb body headers (fs_emit k s d r st)))
      = fetch_inv E (snd (do_fetch_request E raw verb body headers st))" for k s d r
    by (simp add: do_fetch_request_def Let_def fetch_inv_def fs_emit_def split: prod.split)
  ultimately show ?thesis
    by (simp add: send_request_def Let_def case_prod_unfold split: sum.split)
qed

lemma request_all_inv:
  "fetch_inv E st \<Longrightarrow> fetch_inv E (snd (request_all E hosts st))"
proof -
  assume "fetch_inv E st"
  moreover have "fetch_inv E (snd (foldl (\<lambda>(all, st) (host, raw). let (ok, st) = request_access E raw st in (all \<and> ok, st)) x hosts))"
    if "fetch_inv E (snd x)" for x
    using that
  proof (induction hosts arbitrary: x)
    case (Cons a hosts)
    obtain all st where x: "x = (all, st)" by (cases x)
    obtain host raw where a: "a = (host, raw)" by (cases a)
    obtain ok st' where r: "request_access E raw st = (ok, st')" by (metis prod.exhaust)
    have "fetch_inv E st'" using request_access_inv(1) [OF r] Cons.prems x by simp
    then show ?case using Cons.IH [of "(all \<and> ok, st')"] by (simp add: x a r)
  qed simp
  ultimately show ?thesis by (simp add: request_all_def)
qed

lemma http_call_inv: "fetch_inv E st \<Longrightarrow> fetch_inv E (snd (http_call E args st))"
proof -
  assume inv: "fetch_inv E st"
  let ?raw = "value_string (argument args 0)"
  obtain ok why st1 where c: "policy_check_fetch E ?raw st = ((ok, why), st1)" by (metis prod.exhaust)
  obtain cfg where st1: "st1 = st\<lparr>fs_config := cfg\<rparr>" using policy_check_ok(1) [OF c] ..
  show ?thesis
  proof (cases "?raw = [] \<or> \<not> ok")
    case True
    then show ?thesis using inv st1 c by (auto simp: http_call_def Let_def)
  next
    case False
    then have "leave E (fs_session st1) ?raw" using policy_check_ok(2) [OF c] st1 by simp
    with False show ?thesis
      using inv st1 c by (simp add: http_call_def Let_def send_request_inv)
  qed
qed

lemma fetch_call_inv: "fetch_inv E st \<Longrightarrow> fetch_inv E (snd (fetch_call E args st))"
proof -
  assume inv: "fetch_inv E st"
  let ?raw = "value_string (argument args 0)"
  obtain ok st1 where c: "request_access E ?raw st = (ok, st1)" by (metis prod.exhaust)
  note i = request_access_inv [OF c inv]
  show ?thesis
    using inv i c by (cases "?raw = []"; cases ok) (simp_all add: fetch_call_def Let_def send_request_inv)
qed

lemma primitive_inv: "fetch_inv E st \<Longrightarrow> fetch_inv E (snd (fetch_primitive_call E p args st))"
proof (induction E p args st rule: fetch_primitive_call.induct)
  case (3 E args st)
  then show ?case
    using request_all_inv by (simp add: allow_urls_def Let_def case_prod_unfold split: sum.split)
next
  case (4 E args st)
  then show ?case by (simp add: html_to_markdown_def Let_def split: sum.split)
next
  case (5 E args st)
  obtain v st1 where c: "policy_check_fetch E [] st = (v, st1)" by (metis prod.exhaust)
  then obtain cfg where "st1 = st\<lparr>fs_config := cfg\<rparr>" using policy_check_ok(1) by (metis prod.exhaust)
  then show ?case using 5 c by (simp add: fetch_whitelist_def)
qed (simp_all add: fetch_call_inv http_call_inv)

lemma fetch_run_inv: "fetch_inv E (fetch_run E calls)"
proof -
  have "fetch_inv E st \<Longrightarrow> fetch_inv E (foldl (\<lambda>st (p, args). snd (fetch_primitive_call E p args st)) st calls)" for st
    by (induction calls arbitrary: st) (auto simp: primitive_inv)
  moreover have "fetch_inv E new_fetch_pack"
    by (simp add: fetch_inv_def truly_asked_def new_fetch_pack_def approved_def split: option.split)
  ultimately show ?thesis by (simp add: fetch_run_def)
qed

text \<open>
  C31 Whatever a script calls, in whatever order: every request the pack makes is for a URL that the
  policy lets through or whose host (or one above it) the user said yes to; the approved hosts are
  exactly those the user replied yes for, each asked about no more once approved; with no user to
  ask, none is approved.  This is about the URL a request starts from.  Where the HTTP client goes
  on its own, following the redirects of the answer, nothing is asked: \<open>redirect_unchecked\<close> below.
\<close>

theorem fetch_confined:
  "let st = fetch_run E calls; hosts = approved (fs_asked st) in
     list_all (\<lambda>(r, followed). policy_lets (fe_policy E) (fr_url r) \<or> user_lets hosts (fr_url r)) (fs_sent st)
     \<and> set (fs_session st) = set hosts \<and> distinct hosts
     \<and> (case fe_requester E of None \<Rightarrow> fs_asked st = [] | Some q \<Rightarrow> replies q [] (fs_asked st))"
  using fetch_run_inv [of E calls] by (auto simp: Let_def fetch_inv_def leave_def truly_asked_def list_all_iff)

text \<open>
  A redirect leads anywhere: under the default policy, with nothing granted and nobody to ask, a
  public host that answers with a redirect has the client fetch the address of a cloud's metadata
  service, which \<open>fetch\<close> itself refuses.
\<close>

definition redirecting :: "bytes \<Rightarrow> fetch_env" where
  "redirecting target =
     \<lparr>fe_policy = Some (Default_policy default_policy_zero), fe_requester = None,
      fe_client = (\<lambda>_ r. ([r\<lparr>fr_url := target\<rparr>], Inr \<lparr>fp_status = 200, fp_headers = [], fp_body = []\<rparr>)),
      fe_rank = length, fe_markdown = Inr\<rparr>"

definition metadata_url :: bytes where
  "metadata_url = ''http://169.254.169.254/latest''"

lemma request_without_user:
  assumes "check_policy (fe_policy E) ''fetch'' [(''url'', JStr raw)] = Inr res" "fe_requester E = None"
    and "fs_session st = []" "decode_fetch_config (config_json res) = no_fetch_config"
  shows "request_access E raw st = (if allowed res then (True, st\<lparr>fs_config := no_fetch_config\<rparr>) else (False, st))"
  using assms by (simp add: request_access_def policy_check_fetch_def is_session_allowed_def no_fetch_config_def
      effective_urls_def Let_def split: option.split)

lemma send_request_sent:
  "fs_sent (snd (send_request E prim label raw verb body headers st)) =
     (let req = new_fetch_request raw verb body (sort_key (\<lambda>(k, v). fe_rank E k) headers) in
      fs_sent st @ [(req, fst (fe_client E (fs_sent st) req))])"
  "fs_session (snd (send_request E prim label raw verb body headers st)) = fs_session st"
  by (simp_all add: send_request_def do_fetch_request_def Let_def split: prod.split sum.split)

lemma redirect_unchecked:
  "map (\<lambda>(r, followed). map fr_url (r # followed))
     (fs_sent (fetch_run (redirecting metadata_url)
        [(Fetch, [Some (JStr ''http://example.com/'')]), (Fetch, [Some (JStr metadata_url)])]))
   = [[''http://example.com/'', metadata_url]]"
proof -
  let ?E = "redirecting metadata_url" and ?u = "''http://example.com/''"
  let ?check = "\<lambda>raw. check_policy (fe_policy ?E) ''fetch'' [(''url'', JStr raw)]"
  have "map_sum id (\<lambda>r. (allowed r, decode_fetch_config (config_json r) = no_fetch_config)) (?check ?u) = Inr (True, True)"
      "map_sum id (\<lambda>r. (allowed r, decode_fetch_config (config_json r) = no_fetch_config)) (?check metadata_url) = Inr (False, True)"
    by code_simp+
  then obtain a b where lets: "?check ?u = Inr a" "allowed a" "decode_fetch_config (config_json a) = no_fetch_config"
      "?check metadata_url = Inr b" "\<not> allowed b" "decode_fetch_config (config_json b) = no_fetch_config"
    by (auto simp: map_sum_def split: sum.splits)
  have none: "fe_requester ?E = None" by (simp add: redirecting_def)
  have away: "fst (fe_client ?E before r) = [r\<lparr>fr_url := metadata_url\<rparr>]" for before r by (simp add: redirecting_def)
  define st where "st = snd (fetch_call ?E [Some (JStr ?u)] new_fetch_pack)"
  have one: "fs_session st = []" "map (\<lambda>(r, followed). map fr_url (r # followed)) (fs_sent st) = [[?u, metadata_url]]"
    by (simp_all add: st_def fetch_call_def argument_def value_string_def request_without_user [OF lets(1) none _ lets(3)]
        lets(2) send_request_sent away new_fetch_pack_def new_fetch_request_def Let_def)
  moreover have "fs_sent (snd (fetch_call ?E [Some (JStr metadata_url)] st)) = fs_sent st"
    by (simp add: fetch_call_def argument_def value_string_def request_without_user [OF lets(4) none one(1) lets(6)]
        lets(5) Let_def)
  ultimately show ?thesis by (simp add: fetch_run_def st_def)
qed

section \<open>Under the default policy\<close>

text \<open>
  What a URL names, when it names an address that is not public: in IPv4 loopback, the zero address,
  10/8, 172.16/12, 192.168/16 and 169.254/16; in IPv6 loopback, the zero address, fc00::/7 and
  fe80::/10; and by name \<open>localhost\<close>.
\<close>

definition names_private :: "bytes \<Rightarrow> bool" where
  "names_private raw =
     (case parse_url raw of
        None \<Rightarrow> False
      | Some h \<Rightarrow>
          (case parse_ip (to_lower (host_name h)) of
             Some (V4 a b c d) \<Rightarrow> a = 127 \<or> a = 10 \<or> a = 172 \<and> b \<in> {16..31} \<or> (a, b) \<in> {(192, 168), (169, 254)}
               \<or> (a, b, c, d) = (0, 0, 0, 0)
           | Some (V6 (g # gs)) \<Rightarrow> g \<in> {0xFC00..0xFDFF} \<or> g \<in> {0xFE80..0xFEBF}
               \<or> g = 0 \<and> gs \<in> {[0, 0, 0, 0, 0, 0, 0], [0, 0, 0, 0, 0, 0, 1]}
           | Some (V6 []) \<Rightarrow> False
           | None \<Rightarrow> to_lower (host_name h) = ''localhost''))"

lemma names_private_refused: "names_private raw \<Longrightarrow> is_private_host_url raw"
proof -
  have "g div 512 = 126" if "g \<in> {0xFC00..0xFDFF}" for g :: int using that by auto
  moreover have "g div 64 = 1018" if "g \<in> {0xFE80..0xFEBF}" for g :: int using that by auto
  moreover have "replicate 8 (0::int) = [0, 0, 0, 0, 0, 0, 0, 0]" by (simp add: eval_nat_numeral)
  ultimately show "names_private raw \<Longrightarrow> is_private_host_url raw"
    by (auto simp: names_private_def is_private_host_url_def Let_def
        split: option.splits ip_address.splits list.splits)
qed

text \<open>
  C32 Without a user to ask, the default policy lets the pack make a request only for a URL under a
  listed prefix or, when nothing is listed, for one that names no loopback, private or link-local
  address and not \<open>localhost\<close> (any, once private networks are granted).  What a host name resolves
  to is not looked at, a name ending in a dot is another name (\<open>trailing_dot_allowed\<close>), and redirects
  are followed unchecked (\<open>redirect_unchecked\<close>).
\<close>

theorem default_fetch_public:
  "let st = fetch_run (E\<lparr>fe_policy := Some (Default_policy p), fe_requester := None\<rparr>) calls in
     list_all (\<lambda>(r, followed). list_ex (\<lambda>q. has_prefix q (fr_url r)) (prefixes (url_allow_prefixes p))
                   \<or> prefixes (url_allow_prefixes p) = []
                     \<and> (if names_private (fr_url r) then allow_private_networks p else True)) (fs_sent st)"
proof -
  let ?E = "E\<lparr>fe_policy := Some (Default_policy p), fe_requester := None\<rparr>"
  let ?st = "fetch_run ?E calls"
  have inv: "fetch_inv ?E ?st" by (rule fetch_run_inv)
  then have none: "approved (fs_asked ?st) = []" by (simp add: fetch_inv_def truly_asked_def approved_def)
  have "list_ex (\<lambda>q. has_prefix q raw) (prefixes (url_allow_prefixes p))
      \<or> prefixes (url_allow_prefixes p) = [] \<and> (allow_private_networks p \<or> \<not> names_private raw)"
    if "leave ?E [] raw" "raw \<noteq> []" for raw
  proof -
    have "\<not> user_lets [] raw" by (simp add: user_lets_def is_session_allowed_def split: option.split)
    then have "policy_lets (Some (Default_policy p)) raw" using that(1) by (simp add: leave_def)
    then show ?thesis using that(2) names_private_refused [of raw]
      by (auto simp: policy_lets_def check_policy_def default_check_def check_url_def url_tools_def string_arg_def
            Let_def refuse_def not_listed_def split: if_splits)
  qed
  moreover have "leave ?E [] (fr_url r) \<and> fr_url r \<noteq> []" if "(r, followed) \<in> set (fs_sent ?st)" for r followed
    using inv that by (auto simp: fetch_inv_def none list_all_iff)
  ultimately show ?thesis by (fastforce simp: Let_def list_all_iff)
qed

text \<open>The list a script asks for is the list the policy was given.\<close>

lemma decode_whitelist: "decode_fetch_config (whitelist_config ps) = \<lparr>fc_urls = [], fc_allow_all = False, fc_whitelist = prefixes ps\<rparr>"
proof -
  let ?v = "JObj [(''whitelist'', case ps of None \<Rightarrow> JNull | Some l \<Rightarrow> JArr (map JStr l))]"
  have "wf_json ?v" by (cases ps) (auto simp: list_all_iff)
  then have "json_parse (whitelist_config ps) = Some ?v" unfolding whitelist_config_def by (rule json_parse_marshal)
  moreover have "to_lower ''whitelist'' = ''whitelist''" by code_simp
  ultimately show ?thesis
    by (cases ps) (simp_all add: decode_fetch_config_def no_fetch_config_def fetch_config_field_def string_list_field_def
        string_elem_def prefixes_def comp_def)
qed

lemma has_prefix_Nil [simp]: "has_prefix p [] = (p = [])"
  by (cases p) simp_all

lemma whitelist_listed:
  assumes "[] \<notin> set (fs_session st)" and "fe_policy E \<in> {Some (Default_policy p), Some (Url_allowlist (url_allow_prefixes p))}"
  shows "fst (fetch_whitelist E st) = Inr (Some (JArr (map JStr (prefixes (url_allow_prefixes p)))))"
proof -
  have "parse_url [] = Some []" by code_simp
  moreover have "host_name [] = []" by code_simp
  moreover have "\<not> is_session_allowed (fs_session st) []"
    using assms(1) by (simp add: is_session_allowed_def has_suffix_def list_ex_iff)
  moreover have "check_policy (fe_policy E) ''fetch'' [(''url'', JStr [])]
      = Inr (permit\<lparr>config_json := whitelist_config (url_allow_prefixes p)\<rparr>)"
    using assms(2) by (auto simp: check_policy_def default_check_def check_url_def url_allowlist_check_def url_tools_def string_arg_def)
  ultimately show ?thesis
    by (simp add: fetch_whitelist_def policy_check_fetch_def Let_def permit_def decode_whitelist effective_urls_def split: if_split)
qed

section \<open>What the matching misses\<close>

text \<open>A path of the list is a prefix of the text, not of the path's parts, and nothing is cleaned.\<close>

lemma path_prefix_no_boundary:
  "is_url_allowed ''https://api.example.com/v10/secrets'' [''api.example.com/v1'']
   \<and> is_url_allowed ''https://api.example.com/v1/../admin'' [''api.example.com/v1'']"
  by code_simp

text \<open>An entry with a port matches no address at all.\<close>

lemma port_never_matches:
  "\<not> is_url_allowed ''http://localhost:3000/'' [''localhost:3000''] \<and> \<not> is_url_allowed ''http://localhost/'' [''localhost:3000'']"
  by code_simp

text \<open>A host approved with its port is asked about again.\<close>

lemma approved_port_lost:
  "host_or_raw ''localhost:3000'' = ''localhost:3000''
   \<and> \<not> is_session_allowed [''localhost:3000''] (host_or_raw ''http://localhost:3000/'')"
  by code_simp
end
