(* ===== verification/Markdown_Properties.thy ===== *)
theory Markdown_Properties
  imports Markdown_Pack
begin

text \<open>
  What the Markdown functions promise of a parsed document (every heading, every link, one section per
  heading of the top level), and what they lose.
\<close>

section \<open>Everything is visited\<close>

fun preorder :: "md_node \<Rightarrow> md_node list" where
  "preorder (Md k ls cs) = Md k ls cs # concat (map preorder cs)"

text \<open>The nodes of a document down to, and not below, those of a kind.\<close>

fun topmost :: "(md_node \<Rightarrow> bool) \<Rightarrow> md_node \<Rightarrow> md_node list" where
  "topmost P (Md k ls cs) = (if P (Md k ls cs) then [Md k ls cs] else concat (map (topmost P) cs))"

lemma fold_appends: "(\<And>c s. c \<in> set cs \<Longrightarrow> f c s = s @ g c) \<Longrightarrow> fold f cs s = s @ concat (map g cs)"
  by (induction cs arbitrary: s) simp_all

lemma walk_all:
  assumes "\<And>n s. f n s = (s @ out n, True)"
  shows "md_walk f n s = s @ concat (map out (preorder n))"
proof (induction n arbitrary: s rule: preorder.induct)
  case (1 k ls cs)
  have "fold (md_walk f) cs s = s @ concat (map (\<lambda>c. concat (map out (preorder c))) cs)" for s
    by (rule fold_appends) (rule 1)
  moreover have "md_walk f (Md k ls cs) s = fold (md_walk f) cs (s @ out (Md k ls cs))"
    by (simp only: md_walk.simps assms Let_def split if_True)
  moreover have "concat (map out (concat (map preorder cs))) = concat (map (\<lambda>c. concat (map out (preorder c))) cs)"
    by (induction cs) simp_all
  ultimately show ?case by simp
qed

lemma walk_topmost:
  assumes "\<And>n s. f n s = (if P n then (s @ [out n], False) else (s, True))"
  shows "md_walk f n s = s @ map out (topmost P n)"
proof (induction n arbitrary: s rule: preorder.induct)
  case (1 k ls cs)
  have "fold (md_walk f) cs s = s @ concat (map (\<lambda>c. map out (topmost P c)) cs)" for s
    by (rule fold_appends) (rule 1)
  moreover have "md_walk f (Md k ls cs) s
      = (if P (Md k ls cs) then s @ [out (Md k ls cs)] else fold (md_walk f) cs s)"
    by (simp only: md_walk.simps assms Let_def split split: if_split) simp
  ultimately show ?case by (simp add: map_concat comp_def)
qed

definition is_link :: "md_node \<Rightarrow> bool" where
  "is_link n = (case md_kind_of n of Md_link _ \<Rightarrow> True | Md_auto_link _ \<Rightarrow> True | _ \<Rightarrow> False)"

definition link_of :: "md_node \<Rightarrow> json" where
  "link_of n = (case md_kind_of n of Md_link url \<Rightarrow> link_entry (node_text n) url | Md_auto_link url \<Rightarrow> link_entry url url | _ \<Rightarrow> JNull)"

definition heading_level :: "md_node \<Rightarrow> int option" where
  "heading_level n = (case md_kind_of n of Md_heading l \<Rightarrow> Some l | _ \<Rightarrow> None)"

definition heading_entry :: "md_node \<Rightarrow> json list" where
  "heading_entry n =
     (case heading_level n of Some l \<Rightarrow> [JObj [(''level'', JNum (itoa l)), (''text'', JStr (node_text n))]] | None \<Rightarrow> [])"

lemma links_found: "md_links doc = map link_of (topmost is_link doc)"
proof -
  have "md_walk visit_link doc [] = [] @ map link_of (topmost is_link doc)"
    by (rule walk_topmost) (simp add: visit_link_def is_link_def link_of_def split: md_kind.split)
  then show ?thesis by (simp add: md_links_def)
qed

lemma headings_found: "md_headings doc = concat (map heading_entry (preorder doc))"
proof -
  have "md_walk visit_heading doc [] = [] @ concat (map heading_entry (preorder doc))"
    by (rule walk_all) (simp add: visit_heading_def heading_entry_def heading_level_def split: md_kind.split)
  then show ?thesis by (simp add: md_headings_def)
qed

lemma items_found:
  "length (md_items doc) = length (topmost (\<lambda>n. md_kind_of n = Md_list_item) doc)"
proof -
  have "md_walk visit_item doc [] = [] @ map (\<lambda>n. JObj [(''links'', JArr (md_walk visit_inner_link n [])),
      (''text'', JStr (trim_space (node_text n)))]) (topmost (\<lambda>n. md_kind_of n = Md_list_item) doc)"
    by (rule walk_topmost) (simp add: visit_item_def split: md_kind.split)
  then show ?thesis by (simp add: md_items_def)
qed

section \<open>Sections\<close>

definition value_field :: "bytes \<Rightarrow> json \<Rightarrow> json option" where
  "value_field k v = (case v of JObj kvs \<Rightarrow> map_of kvs k | _ \<Rightarrow> None)"

definition section_head :: "json \<Rightarrow> json option \<times> json option" where
  "section_head v = (value_field ''heading'' v, value_field ''level'' v)"

definition head_of_node :: "md_node \<Rightarrow> (json option \<times> json option) list" where
  "head_of_node n = (case heading_level n of Some l \<Rightarrow> [(Some (JStr (node_text n)), Some (JNum (itoa l)))] | None \<Rightarrow> [])"

definition builder_head :: "section_builder \<Rightarrow> json option \<times> json option" where
  "builder_head b = (Some (JStr (sec_heading b)), Some (JNum (itoa (sec_level b))))"

lemma section_head_value: "section_head (section_value b c) = builder_head b"
  by (simp add: section_head_def value_field_def section_value_def builder_head_def)

lemma sections_heads:
  "sections_from src cur ns = Some ss \<Longrightarrow>
     map section_head ss = (case cur of None \<Rightarrow> [] | Some b \<Rightarrow> [builder_head b]) @ concat (map head_of_node ns)"
proof (induction src cur ns arbitrary: ss rule: sections_from.induct)
  case (2 src b)
  then show ?case by (auto simp: section_head_value split: option.splits)
next
  case (3 src cur n ns)
  show ?case
  proof (cases "md_kind_of n")
    case (Md_heading level)
    have opened: "builder_head (open_section n level) = (Some (JStr (node_text n)), Some (JNum (itoa level)))"
      by (simp add: builder_head_def open_section_def)
    show ?thesis using 3 Md_heading opened
      by (cases cur) (auto simp: head_of_node_def heading_level_def section_head_value split: option.splits)
  qed (use 3 in \<open>cases cur; simp add: head_of_node_def heading_level_def builder_head_def\<close>)+
qed simp

text \<open>Headings that follow each other inside the source: each starts at or after the end of the one before.\<close>

fun well_placed :: "bytes \<Rightarrow> nat \<Rightarrow> md_node list \<Rightarrow> bool" where
  "well_placed src a [] = (a \<le> length src)"
| "well_placed src a (n # ns) =
     (if heading_level n = None then well_placed src a ns
      else a \<le> node_start_offset n \<and> node_start_offset n \<le> length src \<and> well_placed src (node_end_offset n) ns)"

lemma sections_some:
  "well_placed src (case cur of None \<Rightarrow> 0 | Some b \<Rightarrow> sec_start b) ns \<Longrightarrow> sections_from src cur ns \<noteq> None"
proof (induction src cur ns rule: sections_from.induct)
  case (3 src cur n ns)
  then show ?case
    by (cases "md_kind_of n"; cases cur) (auto simp: heading_level_def open_section_def go_slice_def split: option.splits)
qed (auto simp: go_slice_def)
text \<open>One section for every heading of the top level, in order, unless the offsets are out of order.\<close>

theorem sections_are_headings:
  "(case md_sections src doc of
      None \<Rightarrow> \<not> well_placed src 0 (md_children doc)
    | Some ss \<Rightarrow> map section_head ss = concat (map head_of_node (md_children doc)))"
  using sections_heads [of src None "md_children doc"] sections_some [of src None "md_children doc"]
  by (auto simp: md_sections_def split: option.split)

section \<open>What is lost\<close>

text \<open>A bare address is a link of the document, but not of the item or the section it stands in.\<close>

definition bare_item :: md_node where
  "bare_item = Md Md_list_item [] [Md Md_other [(2, 20)] [Md (Md_auto_link ''https://a.example'') [] []]]"

lemma auto_links_lost:
  "md_links bare_item = [link_entry ''https://a.example'' ''https://a.example'']
   \<and> md_items bare_item = [JObj [(''links'', JArr []), (''text'', JStr [])]]"
  by code_simp

text \<open>An item inside an item is none of its own; its text is glued to the outer one's.\<close>

definition leaf :: "nat \<Rightarrow> bytes \<Rightarrow> md_node" where
  "leaf a s = Md (Md_text a (a + length s) s False) [] []"

definition tight_item :: "nat \<Rightarrow> bytes \<Rightarrow> md_node list \<Rightarrow> md_node" where
  "tight_item a s inner = Md Md_list_item [] (Md Md_other [(a, a + length s)] [leaf a s] # inner)"

lemma nested_items_lost:
  "md_items (Md Md_other [] [tight_item 2 ''one'' [Md Md_other [] [tight_item 10 ''two'' []]]])
   = [JObj [(''links'', JArr []), (''text'', JStr ''onetwo'')]]"
  by code_simp

text \<open>The plain text of a tight list runs its items together.\<close>

lemma plain_items_glued:
  "md_plain (Md Md_other [] [tight_item 2 ''one'' [], tight_item 8 ''two'' []]) = ''onetwo''"
  by code_simp

text \<open>
  The lines of a heading start behind its marks, so the marks of the next heading end up in the
  content of a section; and a heading without text, which has no lines, ends the host function in a
  panic.
\<close>

definition mark_source :: bytes where
  "mark_source = concat [''# A'', newline, newline, ''Text'', newline, newline, ''## B'', newline]"

definition heading_at :: "nat \<Rightarrow> bytes \<Rightarrow> int \<Rightarrow> md_node" where
  "heading_at a s level = Md (Md_heading level) (if s = [] then [] else [(a, a + length s)]) (if s = [] then [] else [leaf a s])"

lemma marks_in_content:
  "md_sections mark_source (Md Md_other [] [heading_at 2 ''A'' 1, Md Md_paragraph [(5, 9)] [leaf 5 ''Text''], heading_at 14 ''B'' 2])
   = Some [JObj [(''content'', JStr (''Text'' @ newline @ newline @ ''##'')), (''heading'', JStr ''A''), (''level'', JNum ''1''), (''links'', JArr [])],
           JObj [(''content'', JStr []), (''heading'', JStr ''B''), (''level'', JNum ''2''), (''links'', JArr [])]]"
  by code_simp

lemma empty_heading_panics:
  "md_sections (''# A'' @ newline @ ''#'' @ newline) (Md Md_other [] [heading_at 2 ''A'' 1, heading_at 5 [] 1]) = None"
  by code_simp
end
