(* ===== verification/Cli_Prompter.thy ===== *)
theory Cli_Prompter
  imports Fetch_Pack Sql_Store
begin

text \<open>
  \<open>cmd/agentloop/prompt.go\<close>: the terminal that answers permission prompts, over the rest of the
  standard input, the session in progress and the session database (none for an ephemeral one).
  Reading ends at the end of the input and does not fail otherwise; \<open>conn\<close> is what the driver
  answers to the n-th statement of the prompter.  What the user typed is recorded besides.
\<close>

datatype approval_mode = Approve_prompt | Approve_auto | Approve_deny

text \<open>\<open>None\<close> is the empty mode.\<close>

definition parse_approval_mode :: "bytes \<Rightarrow> bytes + approval_mode option" where
  "parse_approval_mode s =
     (if s = ''prompt'' then Inr (Some Approve_prompt)
      else if s = ''auto'' then Inr (Some Approve_auto)
      else if s = ''deny'' then Inr (Some Approve_deny)
      else if s = [] then Inr None
      else Inl (''unknown --approve mode '' @ quote s @ '' '' @ em_dash @ '' use prompt, auto, or deny''))"

definition no_terminal :: bytes where
  "no_terminal = ''no terminal available to answer this prompt''"

record prompter =
  tp_in :: bytes
  tp_out :: bytes
  tp_mode :: approval_mode
  tp_store :: "database option"
  tp_statements :: nat
  tp_session :: bytes
  tp_remembered :: "(bytes \<times> bool) list"
  tp_typed :: "(bytes \<times> bytes \<times> bool) list"

definition new_terminal_prompter :: "bytes \<Rightarrow> approval_mode \<Rightarrow> database option \<Rightarrow> bytes \<Rightarrow> prompter" where
  "new_terminal_prompter input mode store i =
     \<lparr>tp_in = input, tp_out = [], tp_mode = mode, tp_store = store, tp_statements = 0, tp_session = i,
      tp_remembered = [], tp_typed = []\<rparr>"

definition show_text :: "bytes \<Rightarrow> prompter \<Rightarrow> prompter" where
  "show_text s p = p\<lparr>tp_out := tp_out p @ s\<rparr>"

text \<open>\<open>ReadString\<close> up to and with the newline.\<close>

definition split_line :: "bytes \<Rightarrow> bytes \<times> bytes" where
  "split_line s =
     (let l = takeWhile (\<lambda>c. c \<noteq> CHR 0x0A) s in
      if length l < length s then (l @ newline, drop (length l + 1) s) else (l, []))"

definition read_line :: "prompter \<Rightarrow> (bytes + bytes) \<times> prompter" where
  "read_line p =
     (let (line, rest) = split_line (tp_in p); p = p\<lparr>tp_in := rest\<rparr> in
      if has_suffix newline line \<or> trim_space line \<noteq> [] then (Inr line, p)
      else (Inl (no_terminal @ '': EOF''), show_text newline p))"

definition db_message :: "sql_error \<Rightarrow> bytes" where
  "db_message e = (case e of Db_error m \<Rightarrow> m | No_session i \<Rightarrow> ''agentloopsql: no such session'' @ (if i = [] then [] else '': '' @ i))"

text \<open>The answer remembered for a question, if there is one.\<close>

definition recall :: "(nat \<Rightarrow> connection) \<Rightarrow> bytes \<Rightarrow> prompter \<Rightarrow> bool option \<times> prompter" where
  "recall conn q p =
     (case map_of (tp_remembered p) q of
        Some a \<Rightarrow> (Some a, p)
      | None \<Rightarrow>
          (case tp_store p of
             None \<Rightarrow> (None, p)
           | Some db \<Rightarrow>
               let found = sql_is_granted (conn (tp_statements p)) db (tp_session p) q;
                   p = p\<lparr>tp_statements := Suc (tp_statements p)\<rparr>
               in if found = Inr True
                  then (Some True, show_text ([CHR 0xC2, CHR 0xB7] @ '' already approved for this session: '' @ q @ newline) p)
                  else (None, p)))"

definition remember :: "(nat \<Rightarrow> connection) \<Rightarrow> bytes \<Rightarrow> bool \<Rightarrow> prompter \<Rightarrow> prompter" where
  "remember conn q answer p =
     (let p = p\<lparr>tp_remembered := AList.update q answer (tp_remembered p)\<rparr> in
      case tp_store p of
        None \<Rightarrow> p
      | Some db \<Rightarrow>
          if \<not> answer then p
          else let (db, err) = sql_grant (conn (tp_statements p)) db (tp_session p) q;
                   p = p\<lparr>tp_store := Some db, tp_statements := Suc (tp_statements p)\<rparr>
               in case err of
                    None \<Rightarrow> p
                  | Some e \<Rightarrow>
                      show_text ([CHR 0xC2, CHR 0xB7] @ '' could not record the approval (it will be asked again): ''
                        @ db_message e @ newline) p)"

text \<open>
  \<open>EqualFold\<close> folds letters of Unicode: beside the capitals, only the long s (U+017F, two bytes)
  stands for a letter of these words.
\<close>

definition says_yes :: "bytes \<Rightarrow> bool" where
  "says_yes line = (to_lower (trim_space line) \<in> {''y'', ''yes'', ''ye'' @ [CHR 0xC5, CHR 0xBF]})"

definition confirm :: "(nat \<Rightarrow> connection) \<Rightarrow> input_request_data \<Rightarrow> prompter \<Rightarrow> (bytes + js) \<times> prompter" where
  "confirm conn req p =
     (case tp_mode p of
        Approve_auto \<Rightarrow> (Inr (Some (JBool True)), p)
      | Approve_deny \<Rightarrow> (Inr (Some (JBool False)), p)
      | Approve_prompt \<Rightarrow>
          (case recall conn (ir_message req) p of
             (Some a, p) \<Rightarrow> (Inr (Some (JBool a)), p)
           | (None, p) \<Rightarrow>
               let (line, p) = read_line (show_text (newline @ ir_message req @ '' [y/N] '') p) in
               case line of
                 Inl e \<Rightarrow> (Inl e, p)
               | Inr line \<Rightarrow>
                   let answer = says_yes line;
                       p = p\<lparr>tp_typed := tp_typed p @ [(tp_session p, ir_message req, answer)]\<rparr>
                   in (Inr (Some (JBool answer)), remember conn (ir_message req) answer p)))"

definition option_lines :: "bytes list \<Rightarrow> bytes" where
  "option_lines opts = concat (map (\<lambda>(i, o'). ''  '' @ itoa (int i + 1) @ '') '' @ o' @ newline) (zip [0..<length opts] opts))"

definition choice :: "input_request_data \<Rightarrow> prompter \<Rightarrow> (bytes + js) \<times> prompter" where
  "choice req p =
     (let opts = ir_options req in
      if opts = [] then (Inl ''a choice prompt arrived with no options'', p)
      else
        let (line, p) = read_line (show_text (newline @ ir_message req @ newline @ option_lines opts @ ''Choose [1] '') p) in
        case line of
          Inl e \<Rightarrow> (Inl e, p)
        | Inr line \<Rightarrow>
            let line = trim_space line in
            if line = [] then (Inr (Some (JStr (hd opts))), p)
            else let bad = (Inl (quote line @ '' is not one of the '' @ itoa (int (length opts)) @ '' options offered''), p) in
                 case parse_int line of
                   None \<Rightarrow> bad
                 | Some n \<Rightarrow>
                     if n < 1 \<or> int (length opts) < n then bad
                     else (Inr (Some (JStr (opts ! nat (n - 1)))), p))"

definition free_text :: "input_request_data \<Rightarrow> prompter \<Rightarrow> (bytes + js) \<times> prompter" where
  "free_text req p =
     (let hint = (if ir_placeholder req \<noteq> [] then '' ('' @ ir_placeholder req @ '')'' else []);
          (line, p) = read_line (show_text (newline @ ir_message req @ hint @ newline @ ''> '') p)
      in case line of
           Inl e \<Rightarrow> (Inl e, p)
         | Inr line \<Rightarrow> (Inr (Some (JStr (trim_right [CHR 0x0D, CHR 0x0A] line))), p))"

definition prompter_request :: "(nat \<Rightarrow> connection) \<Rightarrow> input_request_data \<Rightarrow> prompter \<Rightarrow> (bytes + js) \<times> prompter" where
  "prompter_request conn req p =
     (if ir_type req = ''confirm'' then confirm conn req p
      else if ir_type req = ''choice''
      then (if tp_mode p \<noteq> Approve_prompt then (Inl no_terminal, p) else choice req p)
      else if ir_type req = ''text''
      then (if tp_mode p \<noteq> Approve_prompt then (Inl no_terminal, p) else free_text req p)
      else (Inl (''unsupported prompt type '' @ quote (ir_type req)), p))"

section \<open>A process\<close>

text \<open>What happens to a prompter while a process lives: requests, and a new session (\<open>/new\<close>).\<close>

datatype prompter_event = Request input_request_data | New_session bytes

fun prompter_step :: "(nat \<Rightarrow> connection) \<Rightarrow> prompter_event \<Rightarrow> prompter \<Rightarrow> (bytes + js) option \<times> prompter" where
  "prompter_step conn (Request req) p = (let (r, p) = prompter_request conn req p in (Some r, p))"
| "prompter_step conn (New_session i) p = (None, p\<lparr>tp_session := i\<rparr>)"

definition prompter_run :: "(nat \<Rightarrow> connection) \<Rightarrow> prompter_event list \<Rightarrow> prompter \<Rightarrow> prompter" where
  "prompter_run conn evs p = foldl (\<lambda>p e. snd (prompter_step conn e p)) p evs"

end
