(* ===== verification/Cli_Options.thy ===== *)
theory Cli_Options
  imports Cli_Prompter Capabilities Exec_Pack Script_Modules
begin

text \<open>
  \<open>cmd/agentloop/main.go\<close>, \<open>options.go\<close>, \<open>caps.go\<close> and \<open>run.go\<close>: what an invocation means.  The flags
  are given as package \<open>flag\<close> parsed them; the environment, the terminal, the database that is
  opened and fresh identifiers are parameters.
\<close>

section \<open>Routing\<close>

definition subcommands :: "bytes list" where
  "subcommands = [''run'', ''chat'', ''sessions'', ''doctor'']"

definition route :: "bytes list \<Rightarrow> bytes \<times> bytes list" where
  "route argv =
     (case argv of
        [] \<Rightarrow> (''run'', [])
      | w # rest \<Rightarrow>
          if w \<in> {''help'', ''-h'', ''-help'', ''--help''} then (''help'', rest)
          else if w \<in> {''version'', ''--version''} then (''version'', rest)
          else if w \<in> set subcommands then (w, rest)
          else (''run'', argv))"

section \<open>Options\<close>

record options =
  o_model :: bytes
  o_max_steps :: int
  o_timeout :: int
  o_history_window :: int
  o_context_window :: int
  o_session :: bytes
  o_cwd :: bytes
  o_db :: bytes
  o_resume :: bool
  o_ephemeral :: bool
  o_as_json :: bool
  o_json_stream :: bool
  o_quiet :: bool
  o_approve :: bytes
  o_approval :: "approval_mode option"
  o_no_network :: bool
  o_no_exec :: bool
  o_allow_exec :: bytes
  o_allow_shell :: bool
  o_exec_names :: "bytes list"

text \<open>The defaults of the flags.\<close>

definition flag_defaults :: options where
  "flag_defaults =
     \<lparr>o_model = [], o_max_steps = 0, o_timeout = 0, o_history_window = 0, o_context_window = 0, o_session = [],
      o_cwd = [], o_db = [], o_resume = False, o_ephemeral = False, o_as_json = False, o_json_stream = False,
      o_quiet = False, o_approve = [], o_approval = None, o_no_network = False, o_no_exec = False,
      o_allow_exec = [], o_allow_shell = False, o_exec_names = []\<rparr>"

record cli_env =
  ce_getwd :: "bytes + bytes"
  ce_variable :: "bytes \<Rightarrow> bytes"
  ce_config_dir :: "bytes + bytes"
  ce_terminal :: bool

definition split_list :: "bytes \<Rightarrow> bytes list" where
  "split_list v = filter (\<lambda>p. p \<noteq> []) (map trim_space (split_on (CHR '','') v))"

definition resolve_approval_mode :: "bytes \<Rightarrow> bool \<Rightarrow> bytes + approval_mode" where
  "resolve_approval_mode requested has_terminal =
     (case parse_approval_mode requested of
        Inl e \<Rightarrow> Inl e
      | Inr None \<Rightarrow> Inr (if has_terminal then Approve_prompt else Approve_deny)
      | Inr (Some mode) \<Rightarrow>
          if mode = Approve_prompt \<and> \<not> has_terminal
          then Inl ''--approve prompt needs a terminal to ask at; use auto or deny when stdin is redirected''
          else Inr mode)"

definition default_db_path :: "cli_env \<Rightarrow> bytes + bytes" where
  "default_db_path E =
     (if ce_variable E ''AGENTLOOP_DB'' \<noteq> [] then Inr (ce_variable E ''AGENTLOOP_DB'')
      else if ce_variable E ''XDG_DATA_HOME'' \<noteq> []
      then Inr (path_join (ce_variable E ''XDG_DATA_HOME'') ''agentloop/sessions.db'')
      else case ce_config_dir E of
             Inl e \<Rightarrow> Inl (''cannot determine where to keep sessions '' @ em_dash @ '' set --db or AGENTLOOP_DB: '' @ e)
           | Inr dir \<Rightarrow> Inr (path_join dir ''agentloop/sessions.db''))"

text \<open>The checks in their order; an error ends the invocation.\<close>

definition fail_if :: "bool \<Rightarrow> bytes \<Rightarrow> bytes + options \<Rightarrow> bytes + options" where
  "fail_if bad e rest = (if bad then Inl e else rest)"

definition working_dir :: "cli_env \<Rightarrow> options \<Rightarrow> bytes + bytes" where
  "working_dir E o' = (if o_cwd o' = [] then ce_getwd E else Inr (o_cwd o'))"

definition database_path :: "cli_env \<Rightarrow> options \<Rightarrow> bytes + bytes" where
  "database_path E o' = (if \<not> o_ephemeral o' \<and> o_db o' = [] then default_db_path E else Inr (o_db o'))"

definition resolve :: "cli_env \<Rightarrow> options \<Rightarrow> bytes + options" where
  "resolve E o' =
     (case working_dir E o' of
        Inl e \<Rightarrow> Inl (''cannot determine the working directory: '' @ e)
      | Inr wd \<Rightarrow>
          let o' = o'\<lparr>o_cwd := wd\<rparr> in
          fail_if (o_json_stream o' \<and> \<not> o_as_json o') ''--json-stream has no meaning without --json''
          (fail_if (o_session o' \<noteq> [] \<and> o_resume o')
             ''--session names a session and --continue picks one; use one or the other''
          (fail_if (o_resume o' \<and> o_ephemeral o')
             ''--continue resumes a stored session, which --ephemeral has none of''
          (fail_if (o_db o' \<noteq> [] \<and> o_ephemeral o') ''--db names a database and --ephemeral writes to none''
          (case database_path E o' of
             Inl e \<Rightarrow> Inl e
           | Inr db \<Rightarrow>
               let o' = o'\<lparr>o_db := db\<rparr> in
               fail_if (o_max_steps o' < 0 \<or> o_history_window o' < 0 \<or> o_timeout o' < 0 \<or> o_context_window o' < 0)
                 ''--max-steps, --history-window, --timeout and --context-window cannot be negative''
               (case resolve_approval_mode (o_approve o') (ce_terminal E) of
                  Inl e \<Rightarrow> Inl e
                | Inr mode \<Rightarrow>
                    let o' = o'\<lparr>o_approval := Some mode, o_exec_names := split_list (o_allow_exec o')\<rparr> in
                    fail_if (o_no_exec o' \<and> (o_exec_names o' \<noteq> [] \<or> o_allow_shell o'))
                      (''--no-exec removes exec() entirely, so there is nothing for --allow-exec or ''
                       @ ''--dangerously-allow-shell to permit'')
                      (Inr o')))))))"

section \<open>The engine's configuration\<close>

definition cli_policy :: "options \<Rightarrow> policy" where
  "cli_policy o' = Default_policy (default_policy_zero\<lparr>allow_commands := o_exec_names o'\<rparr>)"

definition cli_profile :: "options \<Rightarrow> profile" where
  "cli_profile o' = profile_for (o_context_window o')"

definition sized :: "options \<Rightarrow> bool" where
  "sized o' = (0 < o_context_window o')"

definition loop_config :: "options \<Rightarrow> llm_complete \<Rightarrow> capability list \<Rightarrow> config \<times> sandbox_builder" where
  "loop_config o' client caps =
     (let cfg = \<lparr>has_llm = True, has_sessions = True, has_steps = True, has_builder = True,
                 cfg_policy = Some (cli_policy o'), cfg_model = o_model o', cfg_max_iterations = o_max_steps o',
                 cfg_run_timeout = o_timeout o', cfg_history_window = o_history_window o',
                 cfg_compactor = (if sized o'
                   then Some (Summarizing \<lparr>sc_llm = Some client, sc_model = [], sc_trigger = 0, sc_keep = 0,
                          sc_prompt = [], sc_merge_prompt = [], sc_budget = zero_budget\<rparr>)
                   else None),
                 cfg_budget = zero_budget, cfg_redactor = None\<rparr>;
          cfg = profile_apply (cli_profile o') cfg;
          cfg = (if 0 < o_history_window o' then cfg\<lparr>cfg_history_window := o_history_window o'\<rparr> else cfg)
      in (cfg, \<lparr>sbu_capabilities = caps, sbu_enabled = None, sbu_max_log = pf_max_log_bytes (cli_profile o')\<rparr>))"

text \<open>The packs a capability of the command line builds: fetch with someone to ask, files, commands.\<close>

record cli_packs =
  cp_fetch :: pack
  cp_workspace :: pack
  cp_exec :: "bool \<Rightarrow> pack"

definition network_capabilities :: "bytes list" where
  "network_capabilities = [''fetch'', ''http'']"

definition unattended_fetch :: bytes where
  "unattended_fetch =
     ''no fetch capability to attach approval prompts to '' @ em_dash @ '' unapproved domains will fail rather than ask''"

text \<open>The capabilities and the warnings; a workspace that is no directory has no root.\<close>

definition build_capabilities ::
    "options \<Rightarrow> capability list \<Rightarrow> cli_packs \<Rightarrow> bool \<Rightarrow> capability list \<times> bytes list" where
  "build_capabilities o' base packs has_root =
     (let caps = (if o_no_network o' then filter (\<lambda>c. cap_name c \<notin> set network_capabilities) base
                  else map (\<lambda>c. if cap_name c = ''fetch'' then c\<lparr>cap_build := (\<lambda>_. Inr [cp_fetch packs])\<rparr> else c) base);
          warned = (\<not> o_no_network o' \<and> \<not> list_ex (\<lambda>c. cap_name c = ''fetch'') base);
          caps = caps @ (if has_root
                   then [\<lparr>cap_name = ''workspace'', cap_description = ''read and change files in the project directory'',
                          always_on = False, cap_build = (\<lambda>_. Inr [cp_workspace packs])\<rparr>] else []);
          caps = caps @ (if \<not> o_no_exec o'
                   then [\<lparr>cap_name = ''exec'', cap_description = ''run commands and read their output'',
                          always_on = False, cap_build = (\<lambda>_. Inr [cp_exec packs (o_allow_shell o')])\<rparr>] else [])
      in (caps, if warned then [unattended_fetch] else []))"

section \<open>Sessions and messages\<close>

text \<open>The database, if any, and the session; \<open>opened\<close> is what opening the database answers.\<close>

definition resolve_stores ::
    "connection \<Rightarrow> bytes + database \<Rightarrow> bytes \<Rightarrow> options \<Rightarrow> bytes + database option \<times> bytes" where
  "resolve_stores conn opened fresh o' =
     (if o_ephemeral o' then Inr (None, if o_session o' = [] then fresh else o_session o')
      else case opened of
             Inl e \<Rightarrow> Inl e
           | Inr db \<Rightarrow>
               if o_session o' \<noteq> [] then Inr (Some db, o_session o')
               else if o_resume o'
               then (case sql_most_recent conn db of
                       Inr i \<Rightarrow> Inr (Some db, i)
                     | Inl (No_session _) \<Rightarrow> Inl (''nothing to continue '' @ em_dash @ '' no sessions in '' @ o_db o')
                     | Inl (Db_error e) \<Rightarrow> Inl e)
               else Inr (Some db, fresh))"

text \<open>\<open>piped\<close> is what reading the standard input answers, when it is no terminal.\<close>

definition resolve_message :: "bytes list \<Rightarrow> (bytes + bytes) option \<Rightarrow> bytes + bytes" where
  "resolve_message args piped =
     (let joined = trim_space (join_with '' '' args) in
      if joined \<noteq> [] then Inr joined
      else case piped of
             Some (Inl e) \<Rightarrow> Inl (''cannot read the message from stdin: '' @ e)
           | Some (Inr s) \<Rightarrow> if trim_space s \<noteq> [] then Inr (trim_space s) else Inl ''no message given''
           | None \<Rightarrow> Inl ''no message given'')"

definition exit_ok :: int where "exit_ok = 0"
definition exit_error :: int where "exit_error = 1"
definition exit_max_steps :: int where "exit_max_steps = 2"
definition exit_usage :: int where "exit_usage = 3"

definition exit_code_for :: "run_result \<Rightarrow> bytes option \<Rightarrow> int" where
  "exit_code_for res err =
     (if res_status res = ''max_iterations'' then exit_max_steps
      else if err \<noteq> None then exit_error
      else if res_status res = ''completed'' then exit_ok
      else exit_error)"

section \<open>The conversation\<close>

text \<open>
  A chat reads lines of the standard input, which a turn may read from as well (a permission prompt):
  \<open>turn\<close> gives the result of a message in a session, with the rest of the input in view, and how much
  of it the turn consumed.
\<close>

record chat_state =
  ch_in :: bytes
  ch_session :: bytes
  ch_fresh :: nat
  ch_last :: int
  ch_turns :: "(bytes \<times> bytes) list"
  ch_out :: bytes

definition dot :: bytes where
  "dot = [CHR 0xC2, CHR 0xB7] @ '' ''"

definition chat_help :: bytes where
  "chat_help = dot @ ''/new      start a fresh session'' @ newline @ dot @ ''/session  print the current session id'' @ newline
     @ dot @ ''/exit     leave'' @ newline"

text \<open>\<open>chatCommand\<close>: the state and, when the command ends the chat, its exit code.\<close>

definition chat_command :: "(nat \<Rightarrow> bytes) \<Rightarrow> bool \<Rightarrow> bytes \<Rightarrow> chat_state \<Rightarrow> (int option \<times> chat_state) option" where
  "chat_command ids interactive message st =
     (if \<not> has_prefix ''/'' message then None
      else let word = takeWhile (\<lambda>c. \<not> is_space c) message in
           Some (if word \<in> {''/exit'', ''/quit''} then (Some exit_ok, st)
                 else if word = ''/new''
                 then let i = ids (ch_fresh st) in
                      (None, st\<lparr>ch_session := i, ch_fresh := Suc (ch_fresh st),
                                ch_out := ch_out st @ (if interactive then dot @ ''started session '' @ i @ newline else [])\<rparr>)
                 else if word = ''/session''
                 then (None, st\<lparr>ch_out := ch_out st @ dot @ ''session '' @ ch_session st @ newline\<rparr>)
                 else if word = ''/help'' then (None, st\<lparr>ch_out := ch_out st @ chat_help\<rparr>)
                 else (None, st\<lparr>ch_out := ch_out st @ dot @ ''unknown command '' @ quote message @ '' '' @ em_dash @ '' try /help'' @ newline\<rparr>)))"

lemma split_line_shorter: "split_line s = (l, r) \<Longrightarrow> s \<noteq> [] \<Longrightarrow> length r < length s"
  by (auto simp: split_line_def Let_def split: if_splits)

lemma chat_command_input: "chat_command ids interactive message st = Some (code, st') \<Longrightarrow> ch_in st' = ch_in st"
  by (auto simp: chat_command_def Let_def split: if_splits)

definition show_if :: "bool \<Rightarrow> bytes \<Rightarrow> chat_state \<Rightarrow> chat_state" where
  "show_if interactive s st = (if interactive then st\<lparr>ch_out := ch_out st @ s\<rparr> else st)"

lemma show_if_input [simp]: "ch_in (show_if interactive s st) = ch_in st"
  by (simp add: show_if_def)

definition prompt_mark :: bytes where
  "prompt_mark = newline @ [CHR 0xE2, CHR 0x80, CHR 0xBA] @ '' ''"

text \<open>One line: the message and the state behind it, or the end of the input.\<close>

definition chat_line :: "bool \<Rightarrow> chat_state \<Rightarrow> (bytes \<times> chat_state) option" where
  "chat_line interactive st =
     (let (line, rest) = split_line (ch_in st); message = trim_space line in
      if message = [] \<and> \<not> has_suffix newline line then None
      else Some (message, (show_if interactive prompt_mark st)\<lparr>ch_in := rest\<rparr>))"

lemma chat_line_shorter: "chat_line interactive st = Some (message, st') \<Longrightarrow> length (ch_in st') < length (ch_in st)"
proof -
  assume a: "chat_line interactive st = Some (message, st')"
  then have "ch_in st \<noteq> []" by (auto simp: chat_line_def split_line_def trim_space_def has_suffix_def Let_def split: if_splits)
  then show ?thesis using a split_line_shorter [of "ch_in st"] by (auto simp: chat_line_def Let_def split: prod.splits if_splits)
qed

function chat_loop ::
    "(nat \<Rightarrow> bytes) \<Rightarrow> bool \<Rightarrow> (chat_state \<Rightarrow> bytes \<Rightarrow> run_result \<times> bytes option \<times> nat) \<Rightarrow> chat_state \<Rightarrow> int \<times> chat_state" where
  "chat_loop ids interactive turn st =
     (case chat_line interactive st of
        None \<Rightarrow> (ch_last st, show_if interactive (prompt_mark @ newline) st)
      | Some (message, st) \<Rightarrow>
          (case chat_command ids interactive message st of
             Some (Some code, st) \<Rightarrow> (code, st)
           | Some (None, st) \<Rightarrow> chat_loop ids interactive turn st
           | None \<Rightarrow>
               let (res, err, n) = turn st message in
               chat_loop ids interactive turn
                 (st\<lparr>ch_in := drop n (ch_in st), ch_last := exit_code_for res err,
                     ch_turns := ch_turns st @ [(ch_session st, message)]\<rparr>)))"
  by pat_completeness auto
termination
  by (relation "measure (\<lambda>(_, _, _, st). length (ch_in st))")
     (auto dest!: chat_line_shorter chat_command_input)

declare chat_loop.simps [simp del]

definition new_chat :: "bytes \<Rightarrow> bytes \<Rightarrow> chat_state" where
  "new_chat input session =
     \<lparr>ch_in = input, ch_session = session, ch_fresh = 0, ch_last = exit_ok, ch_turns = [], ch_out = []\<rparr>"

end
