(* ===== verification/Cli_Prompter_Properties.thy ===== *)
theory Cli_Prompter_Properties
  imports Cli_Prompter
begin

text \<open>
  What the prompter promises within a session: nothing counts as approved that the user did not
  approve, unattended runs fail closed, and no question is asked twice; and what it does across
  sessions.
\<close>

definition grants_of :: "database \<Rightarrow> (bytes \<times> bytes) set" where
  "grants_of db = (\<lambda>g. (grant_session g, grant_prompt g)) ` set (db_grants db)"

definition earned :: "(bytes \<times> bytes \<times> bool) list \<Rightarrow> (bytes \<times> bytes) set" where
  "earned typed = {(s, q). (s, q, True) \<in> set typed}"

definition asked_questions :: "(bytes \<times> bytes \<times> bool) list \<Rightarrow> bytes list" where
  "asked_questions typed = map (\<lambda>(s, q, a). q) typed"

lemma granted_upsert:
  "(\<lambda>g. (grant_session g, grant_prompt g)) ` set (upsert_grant g gs)
   = insert (grant_session g, grant_prompt g) ((\<lambda>g. (grant_session g, grant_prompt g)) ` set gs)"
  by (induction gs) auto

lemma granted_sql_grant: "grants_of (fst (sql_grant c db i q)) \<subseteq> insert (i, q) (grants_of db)"
  by (auto simp: sql_grant_def grants_of_def granted_upsert split: option.split)

lemma is_granted_iff: "sql_is_granted c db i q = Inr True \<Longrightarrow> (i, q) \<in> grants_of db"
  by (auto simp: sql_is_granted_def grants_of_def list_ex_iff split: option.splits)

definition store_earned :: "database option \<Rightarrow> database option \<Rightarrow> (bytes \<times> bytes \<times> bool) list \<Rightarrow> bool" where
  "store_earned store now typed =
     (case (store, now) of
        (None, None) \<Rightarrow> True
      | (Some db, Some db') \<Rightarrow> grants_of db' \<subseteq> grants_of db \<union> earned typed
      | _ \<Rightarrow> False)"

lemma store_earned_more: "store_earned store now typed \<Longrightarrow> store_earned store now (typed @ others)"
  by (auto simp: store_earned_def earned_def split: option.splits)

text \<open>The invariant, from the database a process starts with.\<close>

definition prompter_inv :: "approval_mode \<Rightarrow> database option \<Rightarrow> prompter \<Rightarrow> bool" where
  "prompter_inv mode store p \<longleftrightarrow>
     tp_mode p = mode
     \<and> store_earned store (tp_store p) (tp_typed p)
     \<and> distinct (asked_questions (tp_typed p))
     \<and> (\<forall>q a. map_of (tp_remembered p) q = Some a \<longleftrightarrow> (\<exists>s. (s, q, a) \<in> set (tp_typed p)))
     \<and> (mode \<noteq> Approve_prompt \<longrightarrow> tp_typed p = [] \<and> tp_store p = store)"

lemma shown_inv [simp]: "prompter_inv mode store (show_text s p) = prompter_inv mode store p"
  by (simp add: prompter_inv_def show_text_def)

lemma other_fields_inv [simp]:
  "prompter_inv mode store (p\<lparr>tp_in := s\<rparr>) = prompter_inv mode store p"
  "prompter_inv mode store (p\<lparr>tp_statements := n\<rparr>) = prompter_inv mode store p"
  "prompter_inv mode store (p\<lparr>tp_session := i\<rparr>) = prompter_inv mode store p"
  by (simp_all add: prompter_inv_def)

lemma read_line_same:
  "\<exists>i o'. snd (read_line p) = p\<lparr>tp_in := i, tp_out := o'\<rparr>"
proof -
  obtain l r where s: "split_line (tp_in p) = (l, r)" by (cases "split_line (tp_in p)")
  have "snd (read_line p) = p\<lparr>tp_in := r, tp_out := tp_out (snd (read_line p))\<rparr>"
    by (simp add: read_line_def s Let_def show_text_def)
  then show ?thesis by blast
qed

lemma recall_same: "\<exists>o' n. snd (recall conn q p) = p\<lparr>tp_out := o', tp_statements := n\<rparr>"
proof -
  have "snd (recall conn q p) = p\<lparr>tp_out := tp_out (snd (recall conn q p)), tp_statements := tp_statements (snd (recall conn q p))\<rparr>"
    by (simp add: recall_def Let_def show_text_def split: option.split)
  then show ?thesis by blast
qed

lemma recall_cases:
  assumes "recall conn q p = (r, p')"
  shows "r = Some True \<Longrightarrow> map_of (tp_remembered p) q = Some True \<or> (\<exists>db. tp_store p = Some db \<and> (tp_session p, q) \<in> grants_of db)"
    and "r = None \<Longrightarrow> map_of (tp_remembered p) q = None"
  using assms is_granted_iff by (auto simp: recall_def Let_def split: option.splits if_splits)

lemma inv_update_out [simp]: "prompter_inv mode store (p\<lparr>tp_out := o'\<rparr>) = prompter_inv mode store p"
  by (simp add: prompter_inv_def)

text \<open>Recording what the user typed.\<close>

lemma remember_inv:
  assumes inv: "prompter_inv mode store p" and new: "map_of (tp_remembered p) q = None" and mode: "mode = Approve_prompt"
  shows "prompter_inv mode store (remember conn q a (p\<lparr>tp_typed := tp_typed p @ [(tp_session p, q, a)]\<rparr>))"
proof -
  let ?typed = "tp_typed p @ [(tp_session p, q, a)]"
  let ?p1 = "p\<lparr>tp_typed := ?typed, tp_remembered := AList.update q a (tp_remembered p)\<rparr>"
  have unasked: "q \<notin> set (asked_questions (tp_typed p))"
  proof
    assume "q \<in> set (asked_questions (tp_typed p))"
    then obtain s b where "(s, q, b) \<in> set (tp_typed p)" by (auto simp: asked_questions_def)
    then have "map_of (tp_remembered p) q = Some b" using inv by (auto simp: prompter_inv_def)
    then show False using new by simp
  qed
  have memo: "map_of (AList.update q a (tp_remembered p)) q' = Some a' \<longleftrightarrow> (\<exists>s. (s, q', a') \<in> set ?typed)" for q' a'
    using inv unasked by (auto simp: prompter_inv_def update_conv' asked_questions_def image_iff)
  have grow: "earned (tp_typed p) \<subseteq> earned ?typed" by (auto simp: earned_def)
  have p1: "prompter_inv mode store ?p1"
    using inv memo unasked mode store_earned_more
    by (auto simp: prompter_inv_def asked_questions_def)
  show ?thesis
  proof (cases "tp_store p")
    case None
    then show ?thesis using p1 by (simp add: remember_def)
  next
    case (Some db)
    show ?thesis
    proof (cases a)
      case False
      then show ?thesis using p1 Some by (simp add: remember_def)
    next
      case True
      obtain db' err where g: "sql_grant (conn (tp_statements p)) db (tp_session p) q = (db', err)"
        by (metis prod.exhaust)
      obtain db0 where db0: "store = Some db0" "grants_of db \<subseteq> grants_of db0 \<union> earned (tp_typed p)"
        using inv Some by (auto simp: prompter_inv_def store_earned_def split: option.splits)
      have "(tp_session p, q) \<in> earned ?typed" using True by (simp add: earned_def)
      then have "grants_of db' \<subseteq> grants_of db0 \<union> earned ?typed"
        using granted_sql_grant [of "conn (tp_statements p)" db "tp_session p" q] g db0(2) grow by auto
      then have "prompter_inv mode store (?p1\<lparr>tp_store := Some db'\<rparr>)"
        using p1 db0(1) mode by (simp add: prompter_inv_def store_earned_def)
      then have "prompter_inv mode store (?p1\<lparr>tp_store := Some db', tp_statements := n\<rparr>)" for n
        by (simp add: prompter_inv_def)
      then show ?thesis using Some True g by (simp add: remember_def Let_def split: option.split)
    qed
  qed
qed
lemma recalled_inv:
  "recall conn q p = (r, p1) \<Longrightarrow> prompter_inv mode store p \<Longrightarrow>
     prompter_inv mode store p1 \<and> tp_remembered p1 = tp_remembered p \<and> tp_session p1 = tp_session p \<and> tp_typed p1 = tp_typed p
     \<and> tp_store p1 = tp_store p"
  using recall_same [of conn q p] by auto

text \<open>What a reply to a permission prompt rests on.\<close>

definition backed :: "database option \<Rightarrow> prompter \<Rightarrow> bytes \<Rightarrow> bool" where
  "backed store p q \<longleftrightarrow>
     tp_mode p = Approve_auto \<or> (\<exists>s. (s, q) \<in> earned (tp_typed p))
     \<or> (\<exists>db. store = Some db \<and> (tp_session p, q) \<in> grants_of db)"

lemma confirm_inv:
  assumes "confirm conn req p = (r, p')" and inv: "prompter_inv mode store p"
  shows "prompter_inv mode store p'"
    and "r = Inr (Some (JBool True)) \<Longrightarrow> backed store p' (ir_message req)"
proof -
  let ?q = "ir_message req"
  have mode: "tp_mode p = mode" using inv by (simp add: prompter_inv_def)
  have memo: "(\<exists>s. (s, ?q) \<in> earned (tp_typed p))" if "map_of (tp_remembered p) ?q = Some True"
    using that inv by (auto simp: prompter_inv_def earned_def)
  have "prompter_inv mode store p' \<and> (r = Inr (Some (JBool True)) \<longrightarrow> backed store p' ?q)"
  proof (cases mode)
    case Approve_prompt
    obtain a p1 where rec: "recall conn ?q p = (a, p1)" by (metis prod.exhaust)
    note p1 = recalled_inv [OF rec inv]
    show ?thesis
    proof (cases a)
      case (Some b)
      have r: "r = Inr (Some (JBool b))" "p' = p1"
        using assms(1) rec Some mode Approve_prompt by (simp_all add: confirm_def)
      moreover have "backed store p1 ?q" if "b = True"
      proof -
        have "(\<exists>s. (s, ?q) \<in> earned (tp_typed p)) \<or> (\<exists>db. tp_store p = Some db \<and> (tp_session p, ?q) \<in> grants_of db)"
          using recall_cases(1) [OF rec] Some that memo by auto
        moreover have "store_earned store (tp_store p) (tp_typed p)" using inv by (simp add: prompter_inv_def)
        ultimately show ?thesis using p1
          by (auto simp: backed_def store_earned_def split: option.splits)
      qed
      ultimately show ?thesis using p1 by simp
    next
      case None
      obtain l p2 where l: "read_line (show_text (newline @ ?q @ '' [y/N] '') p1) = (l, p2)" by (metis prod.exhaust)
      obtain i out where "p2 = (show_text (newline @ ?q @ '' [y/N] '') p1)\<lparr>tp_in := i, tp_out := out\<rparr>"
        using read_line_same [of "show_text (newline @ ?q @ '' [y/N] '') p1"] l by auto
      then have p2: "prompter_inv mode store p2" "tp_remembered p2 = tp_remembered p"
        using p1 by (simp_all add: show_text_def)
      show ?thesis
      proof (cases l)
        case (Inl e)
        then show ?thesis using assms(1) rec None l mode Approve_prompt p2 by (auto simp: confirm_def)
      next
        case (Inr line)
        let ?p3 = "p2\<lparr>tp_typed := tp_typed p2 @ [(tp_session p2, ?q, says_yes line)]\<rparr>"
        have r: "r = Inr (Some (JBool (says_yes line)))" "p' = remember conn ?q (says_yes line) ?p3"
          using assms(1) rec None l Inr mode Approve_prompt by (simp_all add: confirm_def Let_def)
        have "tp_typed p' = tp_typed ?p3"
          using r by (simp add: remember_def Let_def show_text_def split_beta split: option.split)
        then have "backed store p' ?q" if "says_yes line" using that by (auto simp: backed_def earned_def)
        moreover have "prompter_inv mode store p'"
          unfolding r(2) using p2 recall_cases(2) [OF rec None] Approve_prompt by (intro remember_inv) simp_all
        ultimately show ?thesis using r(1) by simp
      qed
    qed
  qed (use assms mode in \<open>auto simp: confirm_def backed_def\<close>)
  then show "prompter_inv mode store p'" and "r = Inr (Some (JBool True)) \<Longrightarrow> backed store p' ?q" by auto
qed

lemma shown_read:
  assumes "read_line (show_text s p) = (l, p')" and "prompter_inv mode store p"
  shows "prompter_inv mode store p'"
proof -
  obtain i out where "p' = (show_text s p)\<lparr>tp_in := i, tp_out := out\<rparr>" using read_line_same [of "show_text s p"] assms(1) by auto
  then show ?thesis using assms(2) by (simp add: show_text_def)
qed

lemma choice_inv:
  assumes "choice req p = (r, p')" and "prompter_inv mode store p"
  shows "prompter_inv mode store p' \<and> r \<noteq> Inr (Some (JBool b))"
  using assms shown_read [OF _ assms(2)]
  by (auto simp: choice_def Let_def split: if_splits prod.splits sum.splits option.splits)

lemma free_text_inv:
  assumes "free_text req p = (r, p')" and "prompter_inv mode store p"
  shows "prompter_inv mode store p' \<and> r \<noteq> Inr (Some (JBool b))"
  using assms shown_read [OF _ assms(2)]
  by (auto simp: free_text_def Let_def split: prod.splits sum.splits)

lemma request_inv:
  assumes "prompter_request conn req p = (r, p')" and "prompter_inv mode store p"
  shows "prompter_inv mode store p' \<and> (r = Inr (Some (JBool True)) \<longrightarrow> backed store p' (ir_message req))"
  using assms confirm_inv [of conn req p r p' mode store] choice_inv [of req p r p' mode store True]
    free_text_inv [of req p r p' mode store True]
  by (auto simp: prompter_request_def split: if_splits)
lemma prompter_run_inv: "prompter_inv mode store p \<Longrightarrow> prompter_inv mode store (prompter_run conn evs p)"
proof -
  have "prompter_inv mode store p \<Longrightarrow> prompter_inv mode store (snd (prompter_step conn e p))" for e p
    using request_inv [OF prod.collapse [symmetric], of mode store p conn] by (cases e) (simp_all add: split_beta)
  then show "prompter_inv mode store p \<Longrightarrow> ?thesis" unfolding prompter_run_def
    by (induction evs arbitrary: p) simp_all
qed

lemma new_prompter_inv: "prompter_inv mode store (new_terminal_prompter input mode store i)"
  by (simp add: prompter_inv_def new_terminal_prompter_def store_earned_def asked_questions_def split: option.split)

section \<open>One session\<close>

text \<open>As long as the session stays the same, every answer was typed in it.\<close>

definition own_answers :: "prompter \<Rightarrow> bool" where
  "own_answers p = list_all (\<lambda>(s, q, a). s = tp_session p) (tp_typed p)"

lemma own_answers_fields [simp]:
  "own_answers (p\<lparr>tp_in := x\<rparr>) = own_answers p" "own_answers (p\<lparr>tp_out := x\<rparr>) = own_answers p"
  "own_answers (p\<lparr>tp_statements := n\<rparr>) = own_answers p" "own_answers (p\<lparr>tp_store := st\<rparr>) = own_answers p"
  "own_answers (p\<lparr>tp_remembered := m\<rparr>) = own_answers p" "own_answers (show_text x p) = own_answers p"
  by (simp_all add: own_answers_def show_text_def)

lemma own_answers_typed [simp]:
  "s = tp_session p \<Longrightarrow> own_answers (p\<lparr>tp_typed := tp_typed p @ [(s, q, a)]\<rparr>) = own_answers p"
  by (simp add: own_answers_def)

lemma read_line_own:
  "tp_session (snd (read_line p)) = tp_session p \<and> own_answers (snd (read_line p)) = own_answers p"
  using read_line_same [of p] by auto

lemma recall_own:
  "tp_session (snd (recall conn q p)) = tp_session p \<and> own_answers (snd (recall conn q p)) = own_answers p"
  using recall_same [of conn q p] by auto

lemma show_text_session [simp]: "tp_session (show_text x p) = tp_session p"
  by (simp add: show_text_def)

lemma remember_own:
  "tp_session (remember conn q a p) = tp_session p \<and> own_answers (remember conn q a p) = own_answers p"
  by (simp add: remember_def Let_def split_beta split: option.split)

lemma request_own:
  "tp_session (snd (prompter_request conn req p)) = tp_session p
   \<and> own_answers (snd (prompter_request conn req p)) = own_answers p"
proof -
  have "tp_session (snd (confirm conn req p)) = tp_session p \<and> own_answers (snd (confirm conn req p)) = own_answers p"
  proof (cases "tp_mode p")
    case Approve_prompt
    obtain a p1 where rec: "recall conn (ir_message req) p = (a, p1)" by (metis prod.exhaust)
    have p1: "tp_session p1 = tp_session p" "own_answers p1 = own_answers p"
      using recall_own [of conn "ir_message req" p] rec by simp_all
    obtain l p2 where l: "read_line (show_text (newline @ ir_message req @ '' [y/N] '') p1) = (l, p2)" by (metis prod.exhaust)
    have "tp_session p2 = tp_session p" "own_answers p2 = own_answers p"
      using read_line_own [of "show_text (newline @ ir_message req @ '' [y/N] '') p1"] l p1 by simp_all
    then show ?thesis using Approve_prompt rec l p1 remember_own
      by (cases a; cases l) (simp_all add: confirm_def Let_def)
  qed (simp_all add: confirm_def)
  moreover have "tp_session (snd (choice req p)) = tp_session p \<and> own_answers (snd (choice req p)) = own_answers p"
    using read_line_own by (auto simp: choice_def Let_def split_beta split: sum.split option.split)
  moreover have "tp_session (snd (free_text req p)) = tp_session p \<and> own_answers (snd (free_text req p)) = own_answers p"
    using read_line_own by (auto simp: free_text_def Let_def split_beta split: sum.split)
  ultimately show ?thesis by (simp add: prompter_request_def)
qed

lemma requests_own:
  "tp_session (prompter_run conn (map Request reqs) p) = tp_session p
   \<and> own_answers (prompter_run conn (map Request reqs) p) = own_answers p"
proof (induction reqs arbitrary: p)
  case (Cons req reqs)
  have "prompter_run conn (map Request (req # reqs)) p
      = prompter_run conn (map Request reqs) (snd (prompter_request conn req p))"
    by (simp add: prompter_run_def split_beta)
  then show ?case using Cons.IH request_own [of conn req p] by simp
qed (simp add: prompter_run_def)

lemma own_earned: "own_answers p \<Longrightarrow> (s, q) \<in> earned (tp_typed p) \<Longrightarrow> (tp_session p, q) \<in> earned (tp_typed p)"
  by (auto simp: own_answers_def earned_def list_all_iff)

text \<open>
  C35 Approvals are earned.  A grant in the database is one that was there, or one the user typed yes
  to in the very session it is for, whatever happened, new sessions included.  While a process stays
  in one session, no question is put to the user twice, nothing is recorded without a prompt, and a
  request is answered yes only in auto mode, after a yes typed in this session, or with a grant the
  database held for it.  This is said of one session only: after \<open>/new\<close> the code still answers
  from what was typed in the session before, against its own comments (\<open>approval_crosses_sessions\<close>).
\<close>

theorem approvals_earned:
  "(let p = prompter_run conn evs (new_terminal_prompter input mode store i) in
      store_earned store (tp_store p) (tp_typed p))
   \<and> (let p = prompter_run conn (map Request reqs) (new_terminal_prompter input mode store i);
          (r, p') = prompter_request conn req p in
      distinct (asked_questions (tp_typed p'))
      \<and> (if mode = Approve_prompt then True else tp_typed p' = [] \<and> tp_store p' = store)
      \<and> (if r = Inr (Some (JBool True))
         then mode = Approve_auto \<or> (i, ir_message req) \<in> earned (tp_typed p')
              \<or> (\<exists>db. store = Some db \<and> (i, ir_message req) \<in> grants_of db)
         else True))"
proof -
  let ?new = "new_terminal_prompter input mode store i"
  let ?p = "prompter_run conn (map Request reqs) ?new"
  have inv: "prompter_inv mode store (prompter_run conn es ?new)" for es
    by (rule prompter_run_inv) (rule new_prompter_inv)
  obtain r p' where r: "prompter_request conn req ?p = (r, p')" by (metis prod.exhaust)
  note after = request_inv [OF r inv]
  have "tp_session ?new = i" "own_answers ?new" by (simp_all add: new_terminal_prompter_def own_answers_def)
  then have "tp_session ?p = i" "own_answers ?p" using requests_own [of conn reqs ?new] by simp_all
  then have same: "tp_session p' = i" "own_answers p'" using request_own [of conn req ?p] r by simp_all
  have "mode = Approve_auto \<or> (i, ir_message req) \<in> earned (tp_typed p')
      \<or> (\<exists>db. store = Some db \<and> (i, ir_message req) \<in> grants_of db)" if "r = Inr (Some (JBool True))"
    using after that own_earned [OF same(2)] same(1) by (auto simp: backed_def prompter_inv_def)
  moreover have "store_earned store (tp_store (prompter_run conn evs ?new)) (tp_typed (prompter_run conn evs ?new))"
    using inv by (simp add: prompter_inv_def)
  ultimately show ?thesis using after r by (auto simp: prompter_inv_def Let_def)
qed

section \<open>What crosses the boundary\<close>

text \<open>
  An answer remembered for the life of the process is remembered for every session of it: after
  \<open>/new\<close> the question of the old session is answered without asking, and without any grant.
\<close>

definition example_question :: input_request_data where
  "example_question = confirm_request ''Allow the agent to access example.com?''"

definition working_driver :: "nat \<Rightarrow> connection" where
  "working_driver n = \<lparr>refuses = (\<lambda>_. None), reads = (\<lambda>_. 0)\<rparr>"

lemma approval_crosses_sessions:
  "(let p = prompter_run working_driver [Request example_question, New_session ''b'']
              (new_terminal_prompter (''y'' @ newline) Approve_prompt (Some empty_db) ''a'')
    in (fst (prompter_request working_driver example_question p),
        map_option (\<lambda>db. sql_is_granted (working_driver 0) db ''b'' (ir_message example_question)) (tp_store p)))
   = (Inr (Some (JBool True)), Some (Inr False))"
  by code_simp
end
