(* ===== verification/Cli_Properties.thy ===== *)
theory Cli_Properties
  imports Cli_Options Cli_Prompter_Properties Loop_Properties
begin

text \<open>
  What the command line promises: an unattended invocation is refused every permission, whatever its
  flags make of the engine's configuration is one the engine accepts, flags that take a capability away
  do, and the exit code tells how the run ended.
\<close>

section \<open>Flags\<close>

lemma approval_cases:
  "resolve_approval_mode requested terminal = Inr how \<Longrightarrow>
     (how = Approve_auto \<longrightarrow> requested = ''auto'') \<and> (how = Approve_prompt \<longrightarrow> terminal)"
  by (auto simp: resolve_approval_mode_def parse_approval_mode_def split: if_splits)

definition coherent :: "cli_env \<Rightarrow> options \<Rightarrow> options \<Rightarrow> bool" where
  "coherent E given r \<longleftrightarrow>
     (case o_approval r of
        None \<Rightarrow> False
      | Some how \<Rightarrow> (if how = Approve_auto then o_approve given = ''auto'' else True)
                   \<and> (if how = Approve_prompt then ce_terminal E else True))
     \<and> 0 \<le> o_max_steps r \<and> 0 \<le> o_history_window r \<and> 0 \<le> o_timeout r \<and> 0 \<le> o_context_window r
     \<and> (if o_ephemeral r then o_db r = [] \<and> \<not> o_resume r else True)
     \<and> (if o_no_exec r then o_exec_names r = [] \<and> \<not> o_allow_shell r else True)
     \<and> (if o_resume r then o_session r = [] else True)
     \<and> o_exec_names r = split_list (o_allow_exec given)
     \<and> o_allow_shell r = o_allow_shell given \<and> o_no_network r = o_no_network given \<and> o_no_exec r = o_no_exec given"

lemma fail_if_Inr: "fail_if bad e rest = Inr r \<longleftrightarrow> \<not> bad \<and> rest = Inr r"
  by (simp add: fail_if_def)

lemma resolve_coherent: "resolve E given = Inr r \<Longrightarrow> coherent E given r"
proof -
  assume a: "resolve E given = Inr r"
  have path: "database_path E (given\<lparr>o_cwd := wd\<rparr>) = database_path E given" for wd
    by (simp add: database_path_def)
  obtain wd where wd: "working_dir E given = Inr wd"
    using a by (cases "working_dir E given") (simp_all add: resolve_def)
  obtain db where db: "database_path E given = Inr db"
    using a by (cases "database_path E given") (simp_all add: resolve_def wd path Let_def fail_if_Inr)
  obtain how where how: "resolve_approval_mode (o_approve given) (ce_terminal E) = Inr how"
    using a by (cases "resolve_approval_mode (o_approve given) (ce_terminal E)")
      (simp_all add: resolve_def wd path db Let_def fail_if_Inr)
  have r: "r = given\<lparr>o_cwd := wd, o_db := db, o_approval := Some how, o_exec_names := split_list (o_allow_exec given)\<rparr>"
    using a by (simp add: resolve_def wd path db how Let_def fail_if_Inr)
  have checks: "\<not> (o_resume given \<and> o_ephemeral given)" "\<not> (o_db given \<noteq> [] \<and> o_ephemeral given)"
    "\<not> (o_session given \<noteq> [] \<and> o_resume given)"
    "\<not> (o_max_steps given < 0 \<or> o_history_window given < 0 \<or> o_timeout given < 0 \<or> o_context_window given < 0)"
    "\<not> (o_no_exec given \<and> (split_list (o_allow_exec given) \<noteq> [] \<or> o_allow_shell given))"
    using a by (simp_all add: resolve_def wd path db how Let_def fail_if_Inr)
  have "o_ephemeral given \<Longrightarrow> db = []" using db checks by (auto simp: database_path_def)
  then show ?thesis using approval_cases [OF how] checks by (auto simp: r coherent_def)
qed

text \<open>C39 An invocation that passes the checks is coherent, and one with nobody at the terminal that does not
  ask for \<open>auto\<close> is refused every permission it asks for, without reading its input.\<close>

theorem unattended_denied:
  "case resolve E given of
     Inl e \<Rightarrow> True
   | Inr r \<Rightarrow>
       coherent E given r
       \<and> (if \<not> ce_terminal E \<and> o_approve given \<noteq> ''auto''
          then o_approval r = Some Approve_deny
               \<and> prompter_request conn (confirm_request q) (new_terminal_prompter input (the (o_approval r)) store i)
                 = (Inr (Some (JBool False)), new_terminal_prompter input (the (o_approval r)) store i)
          else True)"
proof (cases "resolve E given")
  case (Inr r)
  have c: "coherent E given r" using resolve_coherent [OF Inr] .
  then obtain how where how: "o_approval r = Some how" by (auto simp: coherent_def split: option.splits)
  have "how = Approve_deny" if "\<not> ce_terminal E" "o_approve given \<noteq> ''auto''"
    using c that by (cases how) (auto simp: coherent_def how)
  then show ?thesis using Inr c
    by (auto simp: how prompter_request_def confirm_request_def confirm_def new_terminal_prompter_def)
qed simp

section \<open>The engine accepts it\<close>

lemma new_loop_accepts:
  assumes "has_llm cfg" "has_sessions cfg" "has_steps cfg" "has_builder cfg" and "cfg_policy cfg = Some p"
    and "budget_enabled (cfg_budget cfg) \<longrightarrow> 0 < allowance (cfg_budget cfg)"
  shows "\<exists>c. new_loop cfg = Inr c
      \<and> cfg_max_iterations c = (if 0 < cfg_max_iterations cfg then cfg_max_iterations cfg else default_max_iterations)
      \<and> cfg_run_timeout c = (if 0 < cfg_run_timeout cfg then cfg_run_timeout cfg else default_run_timeout)
      \<and> 0 < cfg_history_window c \<and> (0 < cfg_history_window cfg \<longrightarrow> cfg_history_window c = cfg_history_window cfg)
      \<and> cfg_policy c = Some p \<and> cfg_compactor c = cfg_compactor cfg \<and> cfg_budget c = cfg_budget cfg"
  using assms by (auto simp: new_loop_def Let_def not_le)

lemma loop_config_fields:
  fixes o' :: options and client :: llm_complete and caps :: "capability list"
  defines "cfg \<equiv> fst (loop_config o' client caps)" and "b \<equiv> zero_budget\<lparr>max_tokens := o_context_window o'\<rparr>"
  shows "has_llm cfg" "has_sessions cfg" "has_steps cfg" "has_builder cfg" "cfg_policy cfg = Some (cli_policy o')"
    "cfg_max_iterations cfg = o_max_steps o'" "cfg_run_timeout cfg = o_timeout o'"
    "0 < o_history_window o' \<Longrightarrow> cfg_history_window cfg = o_history_window o'"
    "cfg_budget cfg = (if sized o' then b else zero_budget)"
    "cfg_compactor cfg = (if sized o'
       then Some (Summarizing \<lparr>sc_llm = Some client, sc_model = [], sc_trigger = pf_compact_trigger (cli_profile o'),
              sc_keep = pf_compact_keep (cli_profile o'), sc_prompt = [], sc_merge_prompt = [], sc_budget = b\<rparr>)
       else None)"
proof -
  have b: "max_tokens (pf_budget (cli_profile o')) = (if sized o' then o_context_window o' else 0)"
    "sized o' \<Longrightarrow> pf_budget (cli_profile o') = b" "sized o' \<Longrightarrow> pf_summarize_budget (cli_profile o') = b"
    by (simp_all add: cli_profile_def profile_for_def sized_def b_def zero_budget_def Let_def)
  have z: "sized o' \<longleftrightarrow> 0 < o_context_window o'" by (simp add: sized_def)
  show "has_llm cfg" "has_sessions cfg" "has_steps cfg" "has_builder cfg" "cfg_policy cfg = Some (cli_policy o')"
    "cfg_max_iterations cfg = o_max_steps o'" "cfg_run_timeout cfg = o_timeout o'"
    by (simp_all add: cfg_def loop_config_def profile_apply_def Let_def)
  show "0 < o_history_window o' \<Longrightarrow> cfg_history_window cfg = o_history_window o'"
    by (simp add: cfg_def loop_config_def Let_def)
  show "cfg_budget cfg = (if sized o' then b else zero_budget)"
    using b z by (simp add: cfg_def loop_config_def profile_apply_def Let_def)
  show "cfg_compactor cfg = (if sized o'
       then Some (Summarizing \<lparr>sc_llm = Some client, sc_model = [], sc_trigger = pf_compact_trigger (cli_profile o'),
              sc_keep = pf_compact_keep (cli_profile o'), sc_prompt = [], sc_merge_prompt = [], sc_budget = b\<rparr>)
       else None)"
    using b z by (simp add: cfg_def loop_config_def profile_apply_def Let_def)
qed

text \<open>The window of a sized run leaves room.\<close>

lemma sized_room: "sized o' \<Longrightarrow> 0 < allowance (zero_budget\<lparr>max_tokens := o_context_window o'\<rparr>)"
  by (rule default_allowance_pos) (simp_all add: sized_def zero_budget_def)

lemma unsized_budget: "\<not> budget_enabled zero_budget"
  by (simp add: budget_enabled_def zero_budget_def)

lemma budget_room:
  "budget_enabled (cfg_budget (fst (loop_config o' client caps))) \<longrightarrow> 0 < allowance (cfg_budget (fst (loop_config o' client caps)))"
  using loop_config_fields(9) [of o' client caps] sized_room unsized_budget by (simp split: if_splits)

text \<open>Whatever window, steps and history are asked for, the engine accepts the configuration: the number
  of steps and the history window are the ones given or a positive default, a sized run has a compactor
  held to the window, and the policy grants the listed commands and nothing else.\<close>

theorem cli_config_accepted:
  "case new_loop (fst (loop_config o' client caps)) of
     Inl e \<Rightarrow> False
   | Inr c \<Rightarrow>
       cfg_max_iterations c = (if 0 < o_max_steps o' then o_max_steps o' else default_max_iterations)
       \<and> cfg_run_timeout c = (if 0 < o_timeout o' then o_timeout o' else default_run_timeout)
       \<and> 0 < cfg_history_window c
       \<and> (if 0 < o_history_window o' then cfg_history_window c = o_history_window o' else True)
       \<and> cfg_policy c = Some (Default_policy (default_policy_zero\<lparr>allow_commands := o_exec_names o'\<rparr>))
       \<and> (if sized o'
          then max_tokens (cfg_budget c) = o_context_window o' \<and> 0 < allowance (cfg_budget c)
               \<and> (case cfg_compactor c of
                    Some (Summarizing sc) \<Rightarrow> sc_llm sc = Some client \<and> sc_budget sc = cfg_budget c
                        \<and> sc_trigger sc = profile_trigger (o_context_window o')
                  | _ \<Rightarrow> False)
          else cfg_compactor c = None \<and> \<not> budget_enabled (cfg_budget c))"
proof -
  let ?cfg = "fst (loop_config o' client caps)" and ?b = "zero_budget\<lparr>max_tokens := o_context_window o'\<rparr>"
  note f = loop_config_fields [of o' client caps]
  from new_loop_accepts [OF f(1-5) budget_room] obtain c where c: "new_loop ?cfg = Inr c"
      "cfg_max_iterations c = (if 0 < cfg_max_iterations ?cfg then cfg_max_iterations ?cfg else default_max_iterations)"
      "cfg_run_timeout c = (if 0 < cfg_run_timeout ?cfg then cfg_run_timeout ?cfg else default_run_timeout)"
      "0 < cfg_history_window c" "0 < cfg_history_window ?cfg \<longrightarrow> cfg_history_window c = cfg_history_window ?cfg"
      "cfg_policy c = Some (cli_policy o')" "cfg_compactor c = cfg_compactor ?cfg" "cfg_budget c = cfg_budget ?cfg"
    by (elim exE conjE) (rule that)
  have trigger: "sized o' \<Longrightarrow> pf_compact_trigger (cli_profile o') = profile_trigger (o_context_window o')"
    unfolding cli_profile_def by (rule profile_fields(1)) (simp add: sized_def)
  show ?thesis
    using c(2-) f(6-10) sized_room [of o'] unsized_budget trigger by (simp add: c(1) cli_policy_def)
qed

section \<open>What flags take away\<close>

text \<open>Without network, commands or a workspace nothing of that name is on offer.\<close>

theorem flags_limit_capabilities:
  "let caps = fst (build_capabilities o' (default_capabilities ps has_client) packs has_root); names = map cap_name caps in
     (if o_no_network o' then ''fetch'' \<notin> set names \<and> ''http'' \<notin> set names else ''fetch'' \<in> set names)
     \<and> (''exec'' \<in> set names) = (\<not> o_no_exec o') \<and> (''workspace'' \<in> set names) = has_root
     \<and> distinct names
     \<and> (list_all (\<lambda>c. cap_name c \<noteq> ''fetch'' \<or> cap_build c = (\<lambda>_. Inr [cp_fetch packs])) caps)"
  by (auto simp: build_capabilities_def default_capabilities_def network_capabilities_def Let_def)

section \<open>How it ended\<close>

text \<open>The exit code tells how the run ended: zero exactly when it returned without an error, and then the
  last step it persisted is the response it shows; two exactly when it ran out of steps; one otherwise.  A run
  that started is never reported as a usage error.\<close>

theorem exit_code_reports:
  "case run cfg w rq of
     (s, Panicked) \<Rightarrow> False
   | (s, Returned out err) \<Rightarrow>
       exit_code_for out err =
         (if res_status out = ''max_iterations'' then exit_max_steps else if err = None then exit_ok else exit_error)
       \<and> (if exit_code_for out err = exit_ok
          then err = None \<and> (\<exists>st. last_step (tr s) = Some st \<and> step_type st = ''response'' \<and> step_content st = final_text out)
          else final_text out = [])"
proof -
  obtain s outcome where r: "run cfg w rq = (s, outcome)" by (cases "run cfg w rq")
  note o = run_outcome_aux [of cfg w rq, unfolded r prod.case]
  show ?thesis
  proof (cases outcome)
    case (Returned out err)
    then show ?thesis using o
      by (cases err) (auto simp: r exit_code_for_def exit_ok_def exit_error_def exit_max_steps_def)
  qed (use o r in simp)
qed

section \<open>The conversation\<close>

definition chat_fair :: "(nat \<Rightarrow> bytes) \<Rightarrow> bytes \<Rightarrow> chat_state \<Rightarrow> bool" where
  "chat_fair ids session st \<longleftrightarrow>
     ch_session st \<in> insert session (ids ` {..<ch_fresh st})
     \<and> list_all (\<lambda>(i, message). i \<in> insert session (ids ` {..<ch_fresh st}) \<and> \<not> has_prefix ''/'' message) (ch_turns st)"

lemma chat_fair_line:
  "chat_line interactive st = Some (message, st') \<Longrightarrow> chat_fair ids session st' = chat_fair ids session st \<and> ch_last st' = ch_last st"
  by (auto simp: chat_line_def chat_fair_def show_if_def Let_def split: prod.splits if_splits)

lemma chat_fair_command:
  "chat_command ids interactive message st = Some (code, st') \<Longrightarrow> chat_fair ids session st \<Longrightarrow>
     chat_fair ids session st' \<and> (code = None \<or> code = Some exit_ok)"
  by (auto simp: chat_command_def chat_fair_def Let_def list_all_iff less_Suc_eq split: if_splits)

lemma chat_fair_turn:
  "chat_command ids interactive message st = None \<Longrightarrow> chat_fair ids session st \<Longrightarrow>
     chat_fair ids session (st\<lparr>ch_in := rest, ch_last := code, ch_turns := ch_turns st @ [(ch_session st, message)]\<rparr>)"
  by (auto simp: chat_command_def chat_fair_def Let_def split: if_splits)

lemma chat_loop_fair:
  "chat_fair ids session st \<Longrightarrow> chat_loop ids interactive turn st = (code, st') \<Longrightarrow>
     chat_fair ids session st' \<and> code \<in> {exit_ok, ch_last st'}"
proof (induction ids interactive turn st arbitrary: code st' rule: chat_loop.induct)
  case (1 ids interactive turn st)
  show ?case
  proof (cases "chat_line interactive st")
    case None
    then have "code = ch_last st" "st' = show_if interactive (prompt_mark @ newline) st"
      using 1(4) by (simp_all add: chat_loop.simps [of ids interactive turn st])
    then show ?thesis using 1(3) by (simp add: chat_fair_def show_if_def)
  next
    case (Some p)
    obtain message t where p: "p = (message, t)" by (cases p)
    note line = Some [unfolded p]
    have t: "chat_fair ids session t" using chat_fair_line [OF line] 1(3) by simp
    note step = 1(4) [unfolded chat_loop.simps [of ids interactive turn st] line option.case prod.case]
    show ?thesis
    proof (cases "chat_command ids interactive message t")
      case None
      obtain res err n where turn: "turn t message = (res, err, n)" by (cases "turn t message")
      show ?thesis
        using 1(1) [OF line refl None refl turn [symmetric] refl chat_fair_turn [OF None t]] step
        by (simp add: None turn)
    next
      case (Some q)
      obtain stop u where q: "q = (stop, u)" by (cases q)
      note u = chat_fair_command [OF Some [unfolded q] t]
      note u' = u [THEN conjunct1]
      show ?thesis
        using 1(2) [OF line refl Some q [symmetric] _ u'] step u by (cases stop) (auto simp: Some q)
    qed
  qed
qed

text \<open>A slash command never reaches the engine, every turn runs in the session the chat began with or one that
  \<open>/new\<close> started, and the chat's exit code is that of its last turn, or zero when it was left by command.\<close>

theorem chat_turns_fair:
  "case chat_loop ids interactive turn (new_chat input session) of
     (code, st) \<Rightarrow> chat_fair ids session st \<and> code \<in> {exit_ok, ch_last st}"
proof -
  have f: "chat_fair ids session (new_chat input session)" by (simp add: chat_fair_def new_chat_def)
  obtain code st where r: "chat_loop ids interactive turn (new_chat input session) = (code, st)"
    by (cases "chat_loop ids interactive turn (new_chat input session)")
  show ?thesis using chat_loop_fair [OF f r] by (simp add: r)
qed

end
