(* ===== verification/Cli_Session.thy ===== *)
theory Cli_Session
  imports Cli_Properties Store_Properties Skills
begin







section \<open>Together\<close>















end
