(* ===== verification/Cli_Render.thy ===== *)
theory Cli_Render
  imports Cli_Options
begin

text \<open>
  \<open>cmd/agentloop/render.go\<close>: what a run looks like, for a human and as lines of JSON.  The two output
  streams are the texts written to them so far.
\<close>

section \<open>For a human\<close>

record human_renderer =
  hr_out :: bytes
  hr_err :: bytes
  hr_quiet :: bool
  hr_stream :: bool
  hr_wrote :: bool

definition sandbox_event_noise :: "bytes list" where
  "sandbox_event_noise = [''script'', ''script_result'', ''answer'']"

definition prefixed :: "bytes \<Rightarrow> bytes" where
  "prefixed msg = (if has_prefix ''agentloop:'' msg then msg else ''agentloop: '' @ msg)"

definition to_err :: "bytes \<Rightarrow> human_renderer \<Rightarrow> human_renderer" where
  "to_err s h = h\<lparr>hr_err := hr_err h @ s\<rparr>"

definition end_chunks :: "human_renderer \<Rightarrow> human_renderer" where
  "end_chunks h = (if hr_wrote h then (to_err newline h)\<lparr>hr_wrote := False\<rparr> else h)"

definition err_line :: "bytes \<Rightarrow> human_renderer \<Rightarrow> human_renderer" where
  "err_line s h = to_err (dot @ s @ newline) (end_chunks h)"

definition frame :: "bytes \<Rightarrow> bytes \<Rightarrow> human_renderer \<Rightarrow> human_renderer" where
  "frame label body h =
     to_err (newline @ ''--- '' @ label @ '' ---'' @ newline @ trim_right [CHR 0x0A] body @ newline) (end_chunks h)"

definition args_field :: "run_event \<Rightarrow> bytes \<Rightarrow> json option" where
  "args_field e k = (case ev_args e of Some (JObj kvs) \<Rightarrow> map_of kvs k | _ \<Rightarrow> None)"

text \<open>\<open>%v\<close> of an argument, nil when there is none.\<close>

definition arg_shown :: "run_event \<Rightarrow> bytes \<Rightarrow> bytes" where
  "arg_shown e k = (case args_field e k of Some v \<Rightarrow> go_print v | None \<Rightarrow> ''<nil>'')"

definition pencil :: bytes where
  "pencil = [CHR 0xE2, CHR 0x9C, CHR 0x8E]"

definition sandbox_line :: "bytes \<Rightarrow> bytes \<Rightarrow> bytes option" where
  "sandbox_line kind content =
     (if kind \<in> set sandbox_event_noise \<or> trim_space content = [] then None
      else if kind = ''file_write'' then Some (pencil @ '' '' @ content)
      else if kind \<in> {''exec'', ''exec_result''} then Some (''$ '' @ trim_prefix ''exec: '' content)
      else Some (kind @ '': '' @ content))"

definition human_event :: "run_event \<Rightarrow> human_renderer \<Rightarrow> human_renderer" where
  "human_event e h =
     (let t = ev_type e in
      if hr_quiet h then h
      else if t = ''execute_js'' then frame ''run()'' (ev_content e) h
      else if t = ''execute_js_result'' then frame ''result'' (ev_content e) h
      else if t = ''compacted''
      then err_line (''compacted history: '' @ arg_shown e ''messages_before'' @ '' '' @ right_arrow @ '' ''
             @ arg_shown e ''messages_after'' @ '' messages'') h
      else if t = ''budget_trimmed''
      then err_line (''context budget: dropped '' @ arg_shown e ''messages_dropped'' @ '' older message(s) '' @ em_dash @ '' ~''
             @ arg_shown e ''estimated_tokens'' @ '' tokens against an allowance of '' @ arg_shown e ''allowance'') h
      else if t = ''sandbox_event''
      then (case sandbox_line (case args_field e ''kind'' of Some (JStr k) \<Rightarrow> k | _ \<Rightarrow> []) (ev_content e) of
              None \<Rightarrow> h | Some s \<Rightarrow> err_line s h)
      else if t = ''response_chunk''
      then (if \<not> hr_stream h then h else (to_err (ev_content e) h)\<lparr>hr_wrote := True\<rparr>)
      else if t \<in> {''warning'', ''error''} then err_line (''['' @ t @ ''] '' @ ev_content e) h
      else h)"

definition human_result :: "run_result \<Rightarrow> human_renderer \<Rightarrow> human_renderer" where
  "human_result res h =
     (let h = (if final_text res \<noteq> [] then (end_chunks h)\<lparr>hr_out := hr_out h @ final_text res @ newline\<rparr> else h) in
      if hr_quiet h then h
      else err_line (res_status res @ '' '' @ dot @ itoa (res_steps res) @ '' steps '' @ dot @ itoa (res_prompt_tokens res)
             @ ''+'' @ itoa (res_completion_tokens res) @ '' tokens'') h)"

definition human_fatal :: "bytes \<Rightarrow> human_renderer \<Rightarrow> human_renderer" where
  "human_fatal msg h = to_err (prefixed msg @ newline) (end_chunks h)"

section \<open>As JSON\<close>

record json_renderer =
  jr_out :: bytes
  jr_err :: bytes
  jr_chunks :: bool

text \<open>Fields that are omitted when empty.\<close>

definition text_field :: "bytes \<Rightarrow> bytes \<Rightarrow> (bytes \<times> json) list" where
  "text_field k s = (if s = [] then [] else [(k, JStr s)])"

definition int_field :: "bytes \<Rightarrow> int \<Rightarrow> (bytes \<times> json) list" where
  "int_field k n = (if n = 0 then [] else [(k, JNum (itoa n))])"

definition json_tokens_of :: "int \<Rightarrow> int \<Rightarrow> json" where
  "json_tokens_of p c = JObj [(''prompt'', JNum (itoa p)), (''completion'', JNum (itoa c))]"

definition summary_json :: "run_summary \<Rightarrow> json" where
  "summary_json s =
     JObj ([(''session_id'', JStr (rs_session_id s)), (''steps'', JNum (itoa (rs_steps s))),
            (''tokens'', json_tokens_of (rs_prompt_tokens s) (rs_completion_tokens s))]
           @ int_field ''data_bytes_carried'' (rs_data_bytes s))"

definition event_json :: "run_event \<Rightarrow> json" where
  "event_json e =
     JObj ([(''type'', JStr (ev_type e))] @ text_field ''content'' (ev_content e) @ text_field ''tool'' (ev_tool e)
           @ (case ev_args e of Some (JObj (kv # kvs)) \<Rightarrow> [(''args'', JObj (kv # kvs))] | _ \<Rightarrow> [])
           @ (case ev_summary e of Some s \<Rightarrow> [(''summary'', summary_json s)] | None \<Rightarrow> [])
           @ (case ev_tokens e of Some (p, c) \<Rightarrow> [(''tokens'', json_tokens_of p c)] | None \<Rightarrow> []))"

definition result_json :: "run_result \<Rightarrow> json" where
  "result_json res =
     JObj ([(''type'', JStr ''result''), (''session_id'', JStr (run_id res)), (''status'', JStr (res_status res))]
           @ text_field ''final_text'' (final_text res)
           @ [(''steps'', JNum (itoa (res_steps res))),
              (''tokens'', json_tokens_of (res_prompt_tokens res) (res_completion_tokens res))]
           @ int_field ''data_bytes_carried'' (res_data_bytes res))"

definition error_json :: "bytes \<Rightarrow> bytes \<Rightarrow> json" where
  "error_json kind msg = JObj [(''type'', JStr kind), (''error'', JStr msg)]"

text \<open>What \<open>json.Marshal\<close> cannot write: a number that is none (NaN, an infinity).\<close>

fun unsupported :: "json \<Rightarrow> bytes list" where
  "unsupported (JNum s) = (if valid_number s \<and> list_all num_char s then [] else [s])"
| "unsupported (JArr vs) = concat (map unsupported vs)"
| "unsupported (JObj kvs) = concat (map (\<lambda>kv. unsupported (snd kv)) kvs)"
| "unsupported _ = []"

definition json_line :: "json \<Rightarrow> bytes \<Rightarrow> bytes" where
  "json_line v kind =
     (case unsupported v of
        [] \<Rightarrow> json_marshal v
      | s # _ \<Rightarrow> json_marshal (error_json kind (''event is not representable as JSON: json: unsupported value: '' @ s)))"

definition json_write :: "json \<Rightarrow> bytes \<Rightarrow> json_renderer \<Rightarrow> json_renderer" where
  "json_write v kind j = j\<lparr>jr_out := jr_out j @ json_line v kind @ newline\<rparr>"

definition json_event :: "run_event \<Rightarrow> json_renderer \<Rightarrow> json_renderer" where
  "json_event e j =
     (if ev_type e = ''response_chunk'' \<and> \<not> jr_chunks j then j else json_write (event_json e) (ev_type e) j)"

definition json_result :: "run_result \<Rightarrow> json_renderer \<Rightarrow> json_renderer" where
  "json_result res j = json_write (result_json res) ''result'' j"

definition json_fatal :: "bytes \<Rightarrow> json_renderer \<Rightarrow> json_renderer" where
  "json_fatal msg j =
     (let j = json_write (error_json ''fatal'' msg) ''fatal'' j in j\<lparr>jr_err := jr_err j @ prefixed msg @ newline\<rparr>)"

section \<open>An invocation\<close>

datatype shown = Shown_event run_event | Shown_result run_result | Shown_fatal bytes

fun human_show :: "shown \<Rightarrow> human_renderer \<Rightarrow> human_renderer" where
  "human_show (Shown_event e) h = human_event e h"
| "human_show (Shown_result r) h = human_result r h"
| "human_show (Shown_fatal m) h = human_fatal m h"

fun json_show :: "shown \<Rightarrow> json_renderer \<Rightarrow> json_renderer" where
  "json_show (Shown_event e) j = json_event e j"
| "json_show (Shown_result r) j = json_result r j"
| "json_show (Shown_fatal m) j = json_fatal m j"

text \<open>\<open>newRenderer\<close>: the answer streams to the terminal only when stdout goes elsewhere.\<close>

definition new_renderer :: "options \<Rightarrow> bool \<Rightarrow> human_renderer + json_renderer" where
  "new_renderer o' stdout_terminal =
     (if o_as_json o' then Inr \<lparr>jr_out = [], jr_err = [], jr_chunks = o_json_stream o'\<rparr>
      else Inl \<lparr>hr_out = [], hr_err = [], hr_quiet = o_quiet o',
                hr_stream = (\<not> o_quiet o' \<and> \<not> stdout_terminal), hr_wrote = False\<rparr>)"

definition render :: "options \<Rightarrow> bool \<Rightarrow> shown list \<Rightarrow> bytes \<times> bytes" where
  "render o' stdout_terminal things =
     (case new_renderer o' stdout_terminal of
        Inl h \<Rightarrow> (let h = fold human_show things h in (hr_out h, hr_err h))
      | Inr j \<Rightarrow> (let j = fold json_show things j in (jr_out j, jr_err j)))"

section \<open>The answer and nothing else\<close>

definition answers :: "shown list \<Rightarrow> bytes" where
  "answers things =
     concat (map (\<lambda>x. case x of Shown_result r \<Rightarrow> if final_text r = [] then [] else final_text r @ newline | _ \<Rightarrow> []) things)"

text \<open>A framed line starts at the beginning of a row: nothing unterminated is left on stderr.\<close>

definition row_start :: "human_renderer \<Rightarrow> bool" where
  "row_start h \<longleftrightarrow> (if hr_wrote h then True else hr_err h = [] \<or> has_suffix newline (hr_err h))"

lemma human_out:
  "hr_out (to_err s h) = hr_out h" "hr_out (end_chunks h) = hr_out h" "hr_out (err_line s h) = hr_out h"
  "hr_out (frame s b h) = hr_out h" "hr_out (human_event e h) = hr_out h" "hr_out (human_fatal m h) = hr_out h"
  by (simp_all add: to_err_def end_chunks_def err_line_def frame_def human_event_def human_fatal_def Let_def split: option.split)

lemma human_quiet:
  "hr_quiet (to_err s h) = hr_quiet h" "hr_quiet (end_chunks h) = hr_quiet h" "hr_quiet (err_line s h) = hr_quiet h"
  "hr_quiet (frame s b h) = hr_quiet h" "hr_quiet (human_event e h) = hr_quiet h" "hr_quiet (human_fatal m h) = hr_quiet h"
  "hr_quiet (human_result r h) = hr_quiet h"
  by (simp_all add: to_err_def end_chunks_def err_line_def frame_def human_event_def human_fatal_def human_result_def Let_def split: option.split)

lemma human_result_out: "hr_out (human_result r h) = hr_out h @ answers [Shown_result r]"
  by (simp add: human_result_def human_out answers_def Let_def)

lemma human_show_out: "hr_out (human_show x h) = hr_out h @ answers [x]"
  by (cases x) (simp_all add: human_out human_result_out, simp_all add: answers_def)

lemma human_shows_out: "hr_out (fold human_show things h) = hr_out h @ answers things"
  by (induction things arbitrary: h) (simp_all add: human_show_out, simp_all add: answers_def)

lemma ends_row: "has_suffix newline s = (s \<noteq> [] \<and> last s = CHR 0x0A)"
  by (cases s rule: rev_cases) (auto simp: has_suffix_def)

lemma row_start_rules:
  "row_start h \<Longrightarrow> row_start (end_chunks h)" "row_start h \<Longrightarrow> row_start (err_line s h)" "row_start (frame l b h)" "row_start (human_fatal m h)"
  by (auto simp: row_start_def end_chunks_def to_err_def err_line_def frame_def human_fatal_def ends_row split: if_splits)

lemma human_event_row: "row_start h \<Longrightarrow> row_start (human_event e h)"
  by (auto simp: human_event_def Let_def row_start_rules row_start_def [of "x\<lparr>hr_wrote := True\<rparr>" for x] split: option.split)

lemma human_show_row: "row_start h \<Longrightarrow> row_start (human_show x h)"
proof (cases x)
  case (Shown_result r)
  assume h: "row_start h"
  have "row_start (h\<lparr>hr_out := s\<rparr>)" if "row_start h" for s h using that by (simp add: row_start_def)
  then show ?thesis using h by (simp add: Shown_result human_result_def Let_def row_start_rules)
qed (simp_all add: human_event_row row_start_rules)

lemma human_shows_row: "row_start h \<Longrightarrow> row_start (fold human_show things h)"
  by (induction things arbitrary: h) (simp_all add: human_show_row)

section \<open>One value per line\<close>

lemma newline_hex: "d < 16 \<Longrightarrow> CHR 0x0A \<noteq> hex_digit d"
proof
  assume "d < 16" "CHR 0x0A = hex_digit d"
  then have "hex_val (CHR 0x0A) = Some d" by (simp add: hex_digit_val)
  moreover have "hex_val (CHR 0x0A) = None" by code_simp
  ultimately show False by simp
qed

lemma quote_one_line: "CHR 0x0A \<notin> set (json_quote s)"
proof -
  have "CHR 0x0A \<notin> set (esc_byte c)" for c
  proof (cases c rule: esc_byte_cases)
    case unicode
    then show ?thesis by (simp add: newline_hex)
  next
    case plain
    then show ?thesis by auto
  qed (auto simp: esc_byte_def)
  then show ?thesis by (auto simp: json_quote_def)
qed

lemma number_one_line: "list_all num_char s \<Longrightarrow> CHR 0x0A \<notin> set s"
  by (auto simp: list_all_iff num_char_def is_digit_def)

lemma marshal_one_line:
  "unsupported v = [] \<Longrightarrow> CHR 0x0A \<notin> set (json_marshal v)"
  "\<forall>v \<in> set vs. unsupported v = [] \<Longrightarrow> CHR 0x0A \<notin> set (marshal_elems vs)"
  "\<forall>kv \<in> set kvs. unsupported (snd kv) = [] \<Longrightarrow> CHR 0x0A \<notin> set (marshal_members kvs)"
proof (induction v and vs and kvs rule: json_marshal_marshal_elems_marshal_members.induct)
  case (3 s)
  then show ?case using number_one_line by (auto split: if_splits)
qed (auto simp: quote_one_line split: if_splits)

lemma json_line_one_line: "CHR 0x0A \<notin> set (json_line v kind)"
  by (auto simp: json_line_def error_json_def marshal_one_line quote_one_line split: list.split)

definition lines_of :: "bool \<Rightarrow> shown list \<Rightarrow> bytes list" where
  "lines_of chunks things =
     concat (map (\<lambda>x. case x of
         Shown_event e \<Rightarrow> if ev_type e = ''response_chunk'' \<and> \<not> chunks then [] else [json_line (event_json e) (ev_type e)]
       | Shown_result r \<Rightarrow> [json_line (result_json r) ''result'']
       | Shown_fatal m \<Rightarrow> [json_line (error_json ''fatal'' m) ''fatal'']) things)"

lemma json_shows: "jr_out (fold json_show things j) = jr_out j @ concat (map (\<lambda>l. l @ newline) (lines_of (jr_chunks j) things))"
proof (induction things arbitrary: j)
  case (Cons x things)
  have c: "jr_chunks (json_show x j) = jr_chunks j"
    by (cases x) (simp_all add: json_event_def json_result_def json_fatal_def json_write_def Let_def)
  have "jr_out (json_show x j) = jr_out j @ concat (map (\<lambda>l. l @ newline) (lines_of (jr_chunks j) [x]))"
    by (cases x) (simp_all add: json_event_def json_result_def json_fatal_def json_write_def lines_of_def Let_def)
  then show ?case by (simp add: Cons.IH c) (simp add: lines_of_def)
qed (simp add: lines_of_def)

text \<open>C40 For a human stdout is the answers and nothing else, and stderr ends a row unless a streamed answer is in
  progress; as JSON stdout is one line per event and result shown, none of them with a line break inside.\<close>

theorem render_streams:
  "case render o' stdout_terminal things of
     (out, err) \<Rightarrow>
       if o_as_json o'
       then out = concat (map (\<lambda>l. l @ newline) (lines_of (o_json_stream o') things))
            \<and> list_all (\<lambda>l. CHR 0x0A \<notin> set l) (lines_of (o_json_stream o') things)
       else out = answers things \<and> row_start (fold human_show things (projl (new_renderer o' stdout_terminal)))"
proof -
  have l: "list_all (\<lambda>l. CHR 0x0A \<notin> set l) (lines_of c things)" for c
    by (auto simp: list_all_iff lines_of_def json_line_one_line split: shown.splits if_splits)
  have r: "row_start \<lparr>hr_out = [], hr_err = [], hr_quiet = q, hr_stream = s, hr_wrote = False\<rparr>" for q s
    by (simp add: row_start_def)
  show ?thesis
    using l by (simp add: render_def new_renderer_def json_shows human_shows_out human_shows_row r Let_def)
qed

text \<open>A quiet human run shows errors on stderr and nothing else.\<close>

lemma quiet_stderr: "hr_quiet h \<Longrightarrow> hr_err (fold human_show (map Shown_event evts) h) = hr_err h"
  by (induction evts arbitrary: h) (simp_all add: human_event_def Let_def)

end
