(* ===== verification/Cli_Sessions.thy ===== *)
theory Cli_Sessions
  imports Cli_Render
begin

text \<open>
  \<open>cmd/agentloop/sessions.go\<close>: listing, showing and pruning what the database holds.  A command gives its
  exit code and what it wrote; \<open>conn\<close> is what the driver answers to the n-th call of the store, \<open>zone\<close> the
  offset of local time at an instant, in seconds.  Texts are valid UTF-8.
\<close>

record written =
  out_text :: bytes
  err_text :: bytes

definition silent :: written where
  "silent = \<lparr>out_text = [], err_text = []\<rparr>"

definition say :: "bytes \<Rightarrow> written \<Rightarrow> written" where
  "say s w = w\<lparr>out_text := out_text w @ s\<rparr>"

definition complain :: "bytes \<Rightarrow> written \<Rightarrow> written" where
  "complain s w = w\<lparr>err_text := err_text w @ ''agentloop: '' @ s @ newline\<rparr>"

definition note_that :: "bytes \<Rightarrow> written \<Rightarrow> written" where
  "note_that s w = w\<lparr>err_text := err_text w @ s\<rparr>"

section \<open>Lines\<close>

definition pad_left :: "nat \<Rightarrow> bytes \<Rightarrow> bytes" where
  "pad_left w s = replicate (w - length s) (CHR '' '') @ s"

text \<open>\<open>strings.Fields\<close>.\<close>

fun fields_from :: "bytes \<Rightarrow> bytes \<Rightarrow> bytes list" where
  "fields_from w [] = (if w = [] then [] else [w])"
| "fields_from w (c # s) =
     (if \<not> is_space c then fields_from (w @ [c]) s
      else if w = [] then fields_from [] s else w # fields_from [] s)"

text \<open>The first \<open>n\<close> characters.\<close>

fun take_runes :: "nat \<Rightarrow> bytes \<Rightarrow> bytes" where
  "take_runes n [] = []"
| "take_runes n (c # s) =
     (if byte_of c div 64 = 2 then c # take_runes n s
      else case n of 0 \<Rightarrow> [] | Suc m \<Rightarrow> c # take_runes m s)"

definition truncate_runes :: "bytes \<Rightarrow> nat \<Rightarrow> bytes" where
  "truncate_runes s n =
     (let s = join_with '' '' (fields_from [] s) in
      if rune_count s \<le> n then s else take_runes (n - 1) s @ ellipsis)"

definition local_stamp :: "(int \<Rightarrow> int) \<Rightarrow> int \<Rightarrow> bytes" where
  "local_stamp zone t = map (\<lambda>c. if c = CHR ''T'' then CHR '' '' else c) (seconds_text (t div 1000 + zone t))"

definition local_clock :: "(int \<Rightarrow> int) \<Rightarrow> int \<Rightarrow> bytes" where
  "local_clock zone t = drop 1 (dropWhile (\<lambda>c. c \<noteq> CHR ''T'') (seconds_text (t div 1000 + zone t)))"

definition rfc3339 :: "int \<Rightarrow> bytes" where
  "rfc3339 t = seconds_text (t div 1000) @ ''Z''"

definition session_json :: "session_info \<Rightarrow> json" where
  "session_json r =
     JObj ([(''type'', JStr ''session''), (''id'', JStr (info_id r))]
           @ text_field ''status'' (info_status r) @ text_field ''model'' (info_model r)
           @ [(''steps'', JNum (itoa (info_steps r))), (''tokens'', json_tokens_of (fst (info_tokens r)) (snd (info_tokens r))),
              (''created_at'', JStr (rfc3339 (info_created_at r))), (''updated_at'', JStr (rfc3339 (info_updated_at r)))]
           @ text_field ''opening'' (info_opening r))"

definition step_json :: "run_step \<Rightarrow> json" where
  "step_json s =
     JObj ([(''type'', JStr (step_type s)), (''step_index'', JNum (itoa (step_index s)))]
           @ text_field ''content'' (step_content s) @ [(''created_at'', JStr (rfc3339 (created_at s)))])"

definition session_line :: "(int \<Rightarrow> int) \<Rightarrow> session_info \<Rightarrow> bytes" where
  "session_line zone r =
     info_id r @ ''  '' @ pad_right 14 (if info_status r = [] then ''-'' else info_status r) @ ''  ''
     @ pad_left 3 (itoa (info_steps r)) @ '' steps  '' @ pad_right 19 (local_stamp zone (info_updated_at r)) @ ''  ''
     @ truncate_runes (info_opening r) 48 @ newline"

definition step_block :: "(int \<Rightarrow> int) \<Rightarrow> run_step \<Rightarrow> bytes" where
  "step_block zone s =
     newline @ ''--- '' @ step_type s @ '' (step '' @ itoa (step_index s) @ '', '' @ local_clock zone (created_at s) @ '') ---''
     @ newline @ trim_right [CHR 0x0A] (step_content s) @ newline"

section \<open>The commands\<close>

definition sessions_list ::
    "(nat \<Rightarrow> connection) \<Rightarrow> (int \<Rightarrow> int) \<Rightarrow> options \<Rightarrow> int \<Rightarrow> database \<Rightarrow> int \<times> written" where
  "sessions_list conn zone o' n db =
     (case sql_list (conn 0) db n of
        Inl e \<Rightarrow> (exit_error, complain (db_message e) silent)
      | Inr rows \<Rightarrow>
          if o_as_json o' then (exit_ok, say (concat (map (\<lambda>r. json_marshal (session_json r) @ newline) rows)) silent)
          else if rows = [] then (exit_ok, note_that (''No sessions in '' @ o_db o' @ ''.'' @ newline) silent)
          else (exit_ok, say (concat (map (session_line zone) rows)) silent))"

definition sessions_show ::
    "(nat \<Rightarrow> connection) \<Rightarrow> (int \<Rightarrow> int) \<Rightarrow> options \<Rightarrow> bytes list \<Rightarrow> database \<Rightarrow> int \<times> written" where
  "sessions_show conn zone o' args db =
     (case args of
        [i] \<Rightarrow>
          (case sql_exists (conn 0) db i of
             Inl e \<Rightarrow> (exit_error, complain (db_message e) silent)
           | Inr found \<Rightarrow>
               if \<not> found then (exit_error, complain (''no such session: '' @ i) silent)
               else case sql_steps (conn 1) db i of
                      Inl e \<Rightarrow> (exit_error, complain (db_message e) silent)
                    | Inr steps \<Rightarrow>
                        if o_as_json o' then (exit_ok, say (concat (map (\<lambda>s. json_marshal (step_json s) @ newline) steps)) silent)
                        else let w = say (concat (map (step_block zone) steps)) silent in
                             case sql_grants (conn 2) db i of
                               Inl e \<Rightarrow> (exit_error, complain (db_message e) w)
                             | Inr grants \<Rightarrow>
                                 (exit_ok,
                                  if grants = [] then w
                                  else note_that (newline @ ''Run `agentloop sessions revoke '' @ i @ ''` to forget these.'' @ newline)
                                    (say (newline @ ''--- approved ('' @ itoa (int (length grants)) @ '') ---'' @ newline
                                       @ concat (map (\<lambda>g. ''  '' @ g @ newline) grants)) w)))
      | _ \<Rightarrow> (exit_usage, complain ''sessions show takes exactly one session id'' silent))"

text \<open>One id after the other: the exit code so far, the calls made, the text written, the database.\<close>

record pruning =
  pr_code :: int
  pr_calls :: nat
  pr_output :: written
  pr_db :: database

definition start_pruning :: "database \<Rightarrow> pruning" where
  "start_pruning db = \<lparr>pr_code = exit_ok, pr_calls = 0, pr_output = silent, pr_db = db\<rparr>"

definition prune_failed :: "bytes \<Rightarrow> pruning \<Rightarrow> pruning" where
  "prune_failed why p = p\<lparr>pr_code := exit_error, pr_output := complain why (pr_output p)\<rparr>"

definition next_call :: "pruning \<Rightarrow> pruning" where
  "next_call p = p\<lparr>pr_calls := Suc (pr_calls p)\<rparr>"

definition revoke_one :: "(nat \<Rightarrow> connection) \<Rightarrow> bytes \<Rightarrow> pruning \<Rightarrow> pruning" where
  "revoke_one conn i p =
     (case sql_grants (conn (pr_calls p)) (pr_db p) i of
        Inl e \<Rightarrow> prune_failed (db_message e) (next_call p)
      | Inr grants \<Rightarrow>
          let p = next_call p in
          case sql_revoke (conn (pr_calls p)) (pr_db p) i of
            (db, Some e) \<Rightarrow> prune_failed (db_message e) (next_call p\<lparr>pr_db := db\<rparr>)
          | (db, None) \<Rightarrow>
              next_call p\<lparr>pr_db := db,
                pr_output := note_that (dot @ i @ '': forgot '' @ itoa (int (length grants)) @ '' approval(s)'' @ newline) (pr_output p)\<rparr>)"

definition remove_one :: "(nat \<Rightarrow> connection) \<Rightarrow> bytes \<Rightarrow> pruning \<Rightarrow> pruning" where
  "remove_one conn i p =
     (let (db, err) = sql_delete (conn (pr_calls p)) (pr_db p) i; p = (next_call p)\<lparr>pr_db := db\<rparr> in
      case err of
        Some (No_session _) \<Rightarrow> prune_failed (''no such session: '' @ i) p
      | Some (Db_error e) \<Rightarrow> prune_failed e p
      | None \<Rightarrow> p\<lparr>pr_output := note_that (dot @ ''removed '' @ i @ newline) (pr_output p)\<rparr>)"

definition sessions_revoke :: "(nat \<Rightarrow> connection) \<Rightarrow> bytes list \<Rightarrow> database \<Rightarrow> int \<times> written \<times> database" where
  "sessions_revoke conn args db =
     (if args = [] then (exit_usage, complain ''sessions revoke takes one or more session ids'' silent, db)
      else let p = fold (revoke_one conn) args (start_pruning db) in (pr_code p, pr_output p, pr_db p))"

definition sessions_remove :: "(nat \<Rightarrow> connection) \<Rightarrow> bytes list \<Rightarrow> database \<Rightarrow> int \<times> written \<times> database" where
  "sessions_remove conn args db =
     (if args = [] then (exit_usage, complain ''sessions rm takes one or more session ids'' silent, db)
      else let p = fold (remove_one conn) args (start_pruning db) in (pr_code p, pr_output p, pr_db p))"

definition sessions_action :: "bytes list \<Rightarrow> bytes \<times> bytes list" where
  "sessions_action argv =
     (case argv of
        [] \<Rightarrow> (''ls'', [])
      | w # rest \<Rightarrow> if has_prefix ''-'' w then (''ls'', argv) else (w, rest))"

text \<open>
  \<open>cmdSessions\<close> with its flags parsed: \<open>given\<close> and the limit, \<open>args\<close> what the flags left.  The database is
  opened once the options are settled.
\<close>

definition cmd_sessions ::
    "cli_env \<Rightarrow> (nat \<Rightarrow> connection) \<Rightarrow> (int \<Rightarrow> int) \<Rightarrow> bytes \<Rightarrow> options \<Rightarrow> int \<Rightarrow> bytes list \<Rightarrow> bytes + database
     \<Rightarrow> int \<times> written \<times> database option" where
  "cmd_sessions E conn zone action given n args opened =
     (if o_ephemeral given then (exit_usage, complain ''--ephemeral has no sessions to inspect'' silent, None)
      else case resolve E (given\<lparr>o_session := [], o_resume := False\<rparr>) of
             Inl e \<Rightarrow> (exit_usage, complain e silent, None)
           | Inr o' \<Rightarrow>
               (case opened of
                  Inl e \<Rightarrow> (exit_usage, complain e silent, None)
                | Inr db \<Rightarrow>
                    if action \<in> {''ls'', ''list''} then (let (code, w) = sessions_list conn zone o' n db in (code, w, Some db))
                    else if action = ''show'' then (let (code, w) = sessions_show conn zone o' args db in (code, w, Some db))
                    else if action \<in> {''rm'', ''remove'', ''delete''}
                    then (let (code, w, db) = sessions_remove conn args db in (code, w, Some db))
                    else if action = ''revoke'' then (let (code, w, db) = sessions_revoke conn args db in (code, w, Some db))
                    else (exit_usage,
                          complain (''unknown sessions command '' @ quote action @ '' '' @ em_dash @ '' try ls, show, rm, or revoke.'') silent,
                          Some db)))"

section \<open>What is pruned\<close>

text \<open>A driver that refuses nothing.\<close>

definition working :: "(nat \<Rightarrow> nat \<Rightarrow> int) \<Rightarrow> nat \<Rightarrow> connection" where
  "working clocks n = \<lparr>refuses = (\<lambda>_. None), reads = clocks n\<rparr>"

definition without_sessions :: "bytes set \<Rightarrow> database \<Rightarrow> database" where
  "without_sessions ids db =
     db\<lparr>db_sessions := filter (\<lambda>r. row_id r \<notin> ids) (db_sessions db),
        db_steps := filter (\<lambda>r. session_id (row_step r) \<notin> ids) (db_steps db),
        db_grants := filter (\<lambda>g. grant_session g \<notin> ids) (db_grants db)\<rparr>"

definition without_grants :: "bytes set \<Rightarrow> database \<Rightarrow> database" where
  "without_grants ids db = db\<lparr>db_grants := filter (\<lambda>g. grant_session g \<notin> ids) (db_grants db)\<rparr>"

definition stored :: "database \<Rightarrow> bytes set" where
  "stored db = row_id ` set (db_sessions db)"

text \<open>The code a removal ends with: an id is missed when it is not stored, or was named before.\<close>

fun removal_code :: "bytes set \<Rightarrow> bytes list \<Rightarrow> int" where
  "removal_code there [] = exit_ok"
| "removal_code there (i # is) = (if i \<in> there then removal_code (there - {i}) is else exit_error)"

lemma removal_code_ok: "(removal_code there is = exit_ok) = (distinct is \<and> set is \<subseteq> there)"
  by (induction "is" arbitrary: there) (auto simp: exit_ok_def exit_error_def)

lemma working_delete:
  "sql_delete (working clocks n) db i = (without_sessions {i} db, if i \<in> stored db then None else Some (No_session i))"
  by (auto simp: sql_delete_def working_def without_sessions_def stored_def Let_def filter_empty_conv)

lemma without_fields [simp]:
  "stored (without_sessions ids db) = stored db - ids" "without_sessions js (without_sessions is db) = without_sessions (is \<union> js) db"
  by (auto simp: stored_def without_sessions_def intro!: filter_cong)

lemma remove_fold:
  "pr_db (fold (remove_one (working clocks)) is p) = without_sessions (set is) (pr_db p)
   \<and> pr_code (fold (remove_one (working clocks)) is p)
     = (if pr_code p = exit_ok then removal_code (stored (pr_db p)) is else pr_code p)"
  if "pr_code p \<in> {exit_ok, exit_error}"
  using that
proof (induction "is" arbitrary: p)
  case Nil
  then show ?case by (auto simp: without_sessions_def)
next
  case (Cons i "is")
  let ?q = "remove_one (working clocks) i p"
  have q: "pr_db ?q = without_sessions {i} (pr_db p)" "pr_code ?q = (if i \<in> stored (pr_db p) then pr_code p else exit_error)"
    by (simp_all add: remove_one_def working_delete prune_failed_def next_call_def)
  have "pr_code ?q \<in> {exit_ok, exit_error}" using Cons.prems q by auto
  from Cons.IH [OF this] show ?case using Cons.prems q by (auto simp: exit_ok_def exit_error_def)
qed

text \<open>With a driver that refuses nothing, \<open>sessions rm\<close> leaves no session, step or approval of the ids it is
  given and everything else as it was, and exits with zero exactly when each id was stored and named once.\<close>

theorem sessions_removed:
  "case sessions_remove (working clocks) ids db of
     (code, w, db') \<Rightarrow>
       if ids = [] then code = exit_usage \<and> db' = db
       else db' = without_sessions (set ids) db \<and> (code = exit_ok) = (distinct ids \<and> set ids \<subseteq> stored db)"
  using remove_fold [of "start_pruning db" clocks ids] removal_code_ok [of "stored db" ids]
  by (auto simp: sessions_remove_def start_pruning_def Let_def)

text \<open>\<open>sessions revoke\<close> forgets the approvals of the ids and nothing else.\<close>

lemma sessions_revoked:
  "case sessions_revoke (working clocks) ids db of
     (code, w, db') \<Rightarrow> if ids = [] then code = exit_usage \<and> db' = db else code = exit_ok \<and> db' = without_grants (set ids) db"
proof -
  have one: "pr_db (revoke_one (working clocks) i p) = without_grants {i} (pr_db p) \<and> pr_code (revoke_one (working clocks) i p) = pr_code p" for i p
    by (simp add: revoke_one_def sql_grants_def sql_revoke_def working_def next_call_def without_grants_def Let_def)
  have two: "without_grants js (without_grants is d) = without_grants (is \<union> js) d" for "is" js d
    by (auto simp: without_grants_def intro!: filter_cong)
  have "pr_db (fold (revoke_one (working clocks)) is p) = without_grants (set is) (pr_db p)
      \<and> pr_code (fold (revoke_one (working clocks)) is p) = pr_code p" for "is" p
    by (induction "is" arbitrary: p) (simp_all add: one two, simp add: without_grants_def)
  then show ?thesis by (auto simp: sessions_revoke_def start_pruning_def Let_def)
qed

end
