(* ===== verification/Cli_Doctor.thy ===== *)
theory Cli_Doctor
  imports Cli_Sessions Llm_Client Skills
begin

text \<open>
  \<open>cmd/agentloop/doctor.go\<close>: the checks of an installation.  What the checks find is a parameter: the
  environment, the endpoint behind the model client, the workspace, the instruction files and skills with
  the texts of their errors, and the database.
\<close>

record report =
  rp_out :: bytes
  rp_failed :: bool

record installation =
  in_variable :: "bytes \<Rightarrow> bytes"
  in_transport :: transport
  in_took :: bytes
  in_root :: "bytes option"
  in_docs :: "doc list"
  in_docs_error :: "bytes option"
  in_skills :: "skill list"
  in_skills_error :: "bytes option"
  in_database :: "bytes + database"
  in_connection :: connection

section \<open>Reporting\<close>

definition entry :: "bytes \<Rightarrow> bytes \<Rightarrow> bytes \<Rightarrow> report \<Rightarrow> report" where
  "entry mark_text label body r = r\<lparr>rp_out := rp_out r @ mark_text @ pad_right 22 label @ '' '' @ body @ newline\<rparr>"

definition rp_section :: "bytes \<Rightarrow> report \<Rightarrow> report" where
  "rp_section name r = r\<lparr>rp_out := rp_out r @ newline @ name @ newline\<rparr>"

definition rp_ok :: "bytes \<Rightarrow> bytes \<Rightarrow> report \<Rightarrow> report" where
  "rp_ok label body = entry ''  ok    '' label body"

definition rp_info :: "bytes \<Rightarrow> bytes \<Rightarrow> report \<Rightarrow> report" where
  "rp_info label body = entry ''        '' label body"

definition rp_warn :: "bytes \<Rightarrow> bytes \<Rightarrow> report \<Rightarrow> report" where
  "rp_warn label body = entry ''  warn  '' label body"

definition rp_fail :: "bytes \<Rightarrow> bytes \<Rightarrow> report \<Rightarrow> report" where
  "rp_fail label body r = entry ''  FAIL  '' label body (r\<lparr>rp_failed := True\<rparr>)"

section \<open>The checks\<close>

definition llm_message :: "llm_error \<Rightarrow> bytes" where
  "llm_message e = (case e of Llm_error m \<Rightarrow> m | Api_error status body \<Rightarrow> ''llm: status '' @ itoa status @ '': '' @ body)"

definition ping :: "bytes \<Rightarrow> completion_request" where
  "ping model = \<lparr>req_messages = [mk_message ''user'' ''ping''], req_model = model, req_temperature = None, req_max_tokens = Some 1\<rparr>"

definition probe_error :: "installation \<Rightarrow> client \<Rightarrow> bytes \<Rightarrow> bytes option" where
  "probe_error I c model =
     (case stream (in_transport I) c (ping model) [] of
        (_, _, Inl e) \<Rightarrow> Some (llm_message e) | (_, _, Inr _) \<Rightarrow> None)"

definition probe :: "installation \<Rightarrow> client \<Rightarrow> bytes \<Rightarrow> report \<Rightarrow> report" where
  "probe I c model r =
     (case probe_error I c model of
        Some e \<Rightarrow> rp_fail ''reachability'' e r
      | None \<Rightarrow> rp_ok ''reachability'' (''answered in '' @ in_took I) r)"

definition model_or :: "bytes \<Rightarrow> bytes \<Rightarrow> bytes" where
  "model_or override fallback = (if override \<noteq> [] then override else fallback)"

definition endpoint_checks :: "installation \<Rightarrow> options \<Rightarrow> bool \<Rightarrow> report \<Rightarrow> report" where
  "endpoint_checks I o' offline r =
     (let cfg = config_from_env (in_variable I); model = model_or (o_model o') (lc_chat_model cfg);
          r = rp_section ''Endpoint'' r;
          r = (if lc_api_key cfg = [] then rp_fail ''OPENAI_API_KEY'' ''not set'' r
               else rp_ok ''OPENAI_API_KEY'' (''set ('' @ itoa (int (length (lc_api_key cfg))) @ '' chars)'') r);
          r = rp_info ''model'' model (rp_info ''base URL'' (lc_base_url cfg) r)
      in if lc_api_key cfg = [] then r
         else case new_openai cfg of
                Inl e \<Rightarrow> rp_fail ''client'' e r
              | Inr c \<Rightarrow> if offline then rp_info ''reachability'' ''skipped (--offline)'' r else probe I c model r)"

definition commands_check :: "options \<Rightarrow> report \<Rightarrow> report" where
  "commands_check o' r =
     (if o_no_exec o' then rp_info ''commands'' ''off (--no-exec): exec() is not installed'' r
      else if o_exec_names o' \<noteq> []
      then rp_warn ''commands'' (join_with '', '' (o_exec_names o') @ '' run without asking; anything else is asked about'') r
      else rp_info ''commands'' ''exec() asks before running anything'' r)"

definition listed :: "'a list \<Rightarrow> bytes \<Rightarrow> bytes \<Rightarrow> ('a \<Rightarrow> bytes) \<Rightarrow> bytes option \<Rightarrow> report \<Rightarrow> report" where
  "listed xs what label shows err r =
     (let r = (case err of Some e \<Rightarrow> rp_warn what e r | None \<Rightarrow> r) in
      if xs = [] then rp_info what ''none found'' r else fold (\<lambda>x. rp_ok label (shows x)) xs r)"

definition workspace_checks :: "installation \<Rightarrow> options \<Rightarrow> report \<Rightarrow> report" where
  "workspace_checks I o' r =
     (let r = rp_info ''root'' (o_cwd o') (rp_section ''Workspace'' r);
          r = (case in_root I of
                 Some e \<Rightarrow> rp_fail ''root'' e r
               | None \<Rightarrow> rp_ok ''file access'' ''readFile, writeFile, editFile, listDir, glob, grep'' r);
          r = (if o_no_network o'
               then rp_info ''network'' (''off (--no-network): fetch() and require('' @ apostrophe @ ''http'' @ apostrophe @ '') are not installed'') r
               else rp_info ''network'' (''on '' @ em_dash @ '' fetch() asks before reaching an unapproved domain'') r);
          r = commands_check o' r;
          r = (if o_allow_shell o' then rp_warn ''shell'' ''exec() accepts a shell string (--dangerously-allow-shell)'' r else r);
          r = listed (in_docs I) ''project instructions'' ''AGENTS.md''
                (\<lambda>d. doc_name d @ '' ('' @ itoa (int (length (doc_content d))) @ '' bytes)'') (in_docs_error I) r
      in listed (in_skills I) ''skills'' ''SKILL.md''
           (\<lambda>s. sk_name s @ '' '' @ em_dash @ '' '' @ sk_description s) (in_skills_error I) r)"

definition approval_text :: "approval_mode option \<Rightarrow> bytes" where
  "approval_text a =
     (case a of None \<Rightarrow> [] | Some Approve_prompt \<Rightarrow> ''prompt'' | Some Approve_auto \<Rightarrow> ''auto'' | Some Approve_deny \<Rightarrow> ''deny'')"

definition permission_checks :: "options \<Rightarrow> report \<Rightarrow> report" where
  "permission_checks o' r =
     (let r = rp_info ''approval mode'' (approval_text (o_approval o')) (rp_section ''Permissions'' r) in
      case o_approval o' of
        Some Approve_deny \<Rightarrow>
          rp_info [] (''capabilities that need permission will refuse '' @ em_dash @ '' no terminal to ask at'') r
      | Some Approve_auto \<Rightarrow> rp_warn ''approval mode'' ''every permission request is granted without asking'' r
      | _ \<Rightarrow> r)"

definition session_checks :: "installation \<Rightarrow> options \<Rightarrow> report \<Rightarrow> report" where
  "session_checks I o' r =
     (let r = rp_info ''database'' (o_db o') (rp_section ''Sessions'' r) in
      case in_database I of
        Inl e \<Rightarrow> rp_fail ''database'' e r
      | Inr db \<Rightarrow>
          (case sql_list (in_connection I) db 0 of
             Inl e \<Rightarrow> rp_fail ''database'' (db_message e) r
           | Inr rows \<Rightarrow> rp_ok ''stored'' (itoa (int (length rows)) @ '' session(s)'') r))"

text \<open>\<open>cmdDoctor\<close> with its flags parsed: the exit code and the report.\<close>

definition cmd_doctor :: "cli_env \<Rightarrow> installation \<Rightarrow> options \<Rightarrow> bool \<Rightarrow> int \<times> written" where
  "cmd_doctor E I given offline =
     (case resolve E given of
        Inl e \<Rightarrow> (exit_usage, complain e silent)
      | Inr o' \<Rightarrow>
          let r = session_checks I o' (permission_checks o' (workspace_checks I o'
                    (endpoint_checks I o' offline \<lparr>rp_out = [], rp_failed = False\<rparr>)))
          in (if rp_failed r then exit_error else exit_ok, say (rp_out r) silent))"

section \<open>The verdict\<close>

lemma failed_simps [simp]:
  "rp_failed (rp_section n r) = rp_failed r" "rp_failed (rp_ok l b r) = rp_failed r" "rp_failed (rp_info l b r) = rp_failed r"
  "rp_failed (rp_warn l b r) = rp_failed r" "rp_failed (rp_fail l b r)"
  by (simp_all add: rp_section_def rp_ok_def rp_info_def rp_warn_def rp_fail_def entry_def)

lemma failed_listed [simp]: "rp_failed (listed xs what label shows err r) = rp_failed r"
proof -
  have "rp_failed (fold (\<lambda>x. rp_ok label (shows x)) ys q) = rp_failed q" for ys q
    by (induction ys arbitrary: q) simp_all
  then show ?thesis by (simp add: listed_def Let_def split: option.split)
qed

definition endpoint_fails :: "installation \<Rightarrow> options \<Rightarrow> bool \<Rightarrow> bool" where
  "endpoint_fails I o' offline =
     (let cfg = config_from_env (in_variable I) in
      case new_openai cfg of
        Inl _ \<Rightarrow> True
      | Inr c \<Rightarrow> \<not> offline \<and> probe_error I c (model_or (o_model o') (lc_chat_model cfg)) \<noteq> None)"

definition database_fails :: "installation \<Rightarrow> bool" where
  "database_fails I =
     (case in_database I of Inl _ \<Rightarrow> True | Inr db \<Rightarrow> (case sql_list (in_connection I) db 0 of Inl _ \<Rightarrow> True | Inr _ \<Rightarrow> False))"

text \<open>\<open>doctor\<close> exits with zero exactly when the endpoint answers (or is not asked), the workspace opens and the
  database can be read; warnings about instruction files, skills and permissions do not fail it.\<close>

theorem doctor_verdict:
  "case resolve E given of
     Inl e \<Rightarrow> fst (cmd_doctor E I given offline) = exit_usage
   | Inr o' \<Rightarrow>
       fst (cmd_doctor E I given offline)
         = (if endpoint_fails I o' offline \<or> in_root I \<noteq> None \<or> database_fails I then exit_error else exit_ok)"
proof -
  have e: "rp_failed (endpoint_checks I o' offline r) = (rp_failed r \<or> endpoint_fails I o' offline)" for o' r
    by (simp add: endpoint_checks_def endpoint_fails_def probe_def new_openai_def Let_def split: option.split)
  have w: "rp_failed (workspace_checks I o' r) = (rp_failed r \<or> in_root I \<noteq> None)" for o' r
    by (simp add: workspace_checks_def commands_check_def Let_def split: option.split)
  have p: "rp_failed (permission_checks o' r) = rp_failed r" for o' r
    by (simp add: permission_checks_def Let_def split: option.split approval_mode.split)
  have s: "rp_failed (session_checks I o' r) = (rp_failed r \<or> database_fails I)" for o' r
    by (simp add: session_checks_def database_fails_def Let_def split: sum.split)
  show ?thesis by (simp add: cmd_doctor_def e w p s Let_def split: sum.split)
qed

end
