(* ===== verification/Browser_Pack.thy ===== *)
theory Browser_Pack
  imports Fetch_Pack
begin

text \<open>
  \<open>browser/pack.go\<close>, \<open>prompt.go\<close>, \<open>driver.go\<close> and \<open>som.go\<close>: the primitives that drive a browser,
  one page, one call at a time.  The driver, the vision model and the clock are parameters that see
  the steps made so far; the pack records each step it made, and whether it succeeded, beside the
  flag that says whether the ids of the last \<open>mark()\<close> still hold.
\<close>

section \<open>The driver\<close>

record mark =
  mk_id :: int
  mk_tag :: bytes
  mk_role :: bytes
  mk_name :: bytes
  mk_x :: int
  mk_y :: int
  mk_w :: int
  mk_h :: int

text \<open>The methods of \<open>Driver\<close>; \<open>Eval\<close> by the destination it is given: none, a value, a list of marks.\<close>

datatype driver_op =
    Navigate bytes
  | Click bytes
  | Send_keys bytes bytes
  | Wait_visible bytes
  | Wait_ready bytes
  | Text_of bytes
  | Value_of bytes
  | Eval_void bytes
  | Eval_value bytes
  | Eval_marks bytes
  | Key_event bytes
  | Take_screenshot

type_synonym driver_log = "(driver_op \<times> bool) list"

record driver =
  dr_do :: "driver_log \<Rightarrow> driver_op \<Rightarrow> bytes + unit"
  dr_read :: "driver_log \<Rightarrow> driver_op \<Rightarrow> bytes + bytes"
  dr_value :: "driver_log \<Rightarrow> driver_op \<Rightarrow> bytes + js"
  dr_marks :: "driver_log \<Rightarrow> driver_op \<Rightarrow> bytes + mark list"

text \<open>\<open>be_integer\<close> is \<open>ToInteger\<close>; \<open>be_cancelled\<close> the error of the run's context when it ends before a wait does.\<close>

record browser_env =
  be_policy :: "policy option"
  be_driver :: "driver option"
  be_vision :: "(driver_log \<Rightarrow> bytes \<Rightarrow> bytes \<Rightarrow> bytes + bytes) option"
  be_integer :: "json \<Rightarrow> int"
  be_cancelled :: "driver_log \<Rightarrow> int \<Rightarrow> bytes option"

record browser_state =
  bs_marks_valid :: bool
  bs_log :: driver_log
  bs_asked :: "bytes list"
  bs_waits :: "int list"
  bs_events :: "sandbox_event list"

definition new_browser :: browser_state where
  "new_browser = \<lparr>bs_marks_valid = False, bs_log = [], bs_asked = [], bs_waits = [], bs_events = []\<rparr>"

section \<open>Set of Marks\<close>


definition som_js :: bytes where
  \<open>som_js =
     concat
       [newline,
        ''(() => {'', newline,
        ''  if (window.__som) return;'', newline,
        newline,
        ''  const SEL = ['', newline,
        ''    '', apostrophe, ''a[href]'', apostrophe, '', '', apostrophe, ''button'', apostrophe, '', '', apostrophe, ''input:not([type=hidden])'', apostrophe, '', '', apostrophe, ''select'', apostrophe, '', '', apostrophe, ''textarea'', apostrophe, '','', newline,
        ''    '', apostrophe, ''[role=button]'', apostrophe, '', '', apostrophe, ''[role=link]'', apostrophe, '', '', apostrophe, ''[role=tab]'', apostrophe, '', '', apostrophe, ''[role=menuitem]'', apostrophe, '','', newline,
        ''    '', apostrophe, ''[role=checkbox]'', apostrophe, '', '', apostrophe, ''[role=radio]'', apostrophe, '', '', apostrophe, ''[role=switch]'', apostrophe, '', '', apostrophe, ''[role=textbox]'', apostrophe, '','', newline,
        ''    '', apostrophe, ''[onclick]'', apostrophe, '', '', apostrophe, ''[contenteditable=""]'', apostrophe, '', '', apostrophe, ''[contenteditable=true]'', apostrophe, '','', newline,
        ''    '', apostrophe, ''summary'', apostrophe, '', '', apostrophe, ''label[for]'', apostrophe, '','', newline,
        ''  ].join('', apostrophe, '','', apostrophe, '');'', newline,
        newline,
        ''  const STYLE_ID = '', apostrophe, ''__som_style__'', apostrophe, '';'', newline,
        ''  const LAYER_ID = '', apostrophe, ''__som_layer__'', apostrophe, '';'', newline,
        newline,
        ''  function isVisible(el) {'', newline,
        ''    const r = el.getBoundingClientRect();'', newline,
        ''    if (r.width < 4 || r.height < 4) return false;'', newline,
        ''    const cs = getComputedStyle(el);'', newline,
        ''    if (cs.visibility === '', apostrophe, ''hidden'', apostrophe, '' || cs.display === '', apostrophe, ''none'', apostrophe, '' || cs.opacity === '', apostrophe, ''0'', apostrophe, '') return false;'', newline,
        ''    if (el.disabled) return false;'', newline,
        ''    const vw = innerWidth, vh = innerHeight;'', newline,
        ''    if (r.bottom < 0 || r.right < 0 || r.left > vw || r.top > vh) return false;'', newline,
        ''    return true;'', newline,
        ''  }'', newline,
        newline,
        ''  function ensureStyle() {'', newline,
        ''    if (document.getElementById(STYLE_ID)) return;'', newline,
        ''    const s = document.createElement('', apostrophe, ''style'', apostrophe, '');'', newline,
        ''    s.id = STYLE_ID;'', newline,
        ''    s.textContent ='', newline,
        ''      '', apostrophe, ''#'', apostrophe, '' + LAYER_ID + '', apostrophe, ''{position:fixed;inset:0;pointer-events:none;z-index:2147483647;}'', apostrophe, '' +'', newline,
        ''      '', apostrophe, ''#'', apostrophe, '' + LAYER_ID + '', apostrophe, '' .__som_box{position:absolute;outline:2px solid #ff2d2d;'', apostrophe, '' +'', newline,
        ''      '', apostrophe, ''background:rgba(255,45,45,0.06);box-sizing:border-box;border-radius:2px;}'', apostrophe, '' +'', newline,
        ''      '', apostrophe, ''#'', apostrophe, '' + LAYER_ID + '', apostrophe, '' .__som_tag{position:absolute;top:-1px;left:-1px;'', apostrophe, '' +'', newline,
        ''      '', apostrophe, ''background:#ff2d2d;color:white;font:bold 11px/1 ui-monospace,Menlo,monospace;'', apostrophe, '' +'', newline,
        ''      '', apostrophe, ''padding:2px 5px;border-radius:2px 0 4px 0;}'', apostrophe, '';'', newline,
        ''    document.documentElement.appendChild(s);'', newline,
        ''  }'', newline,
        newline,
        ''  function rectOf(el) {'', newline,
        ''    const r = el.getBoundingClientRect();'', newline,
        ''    return { x: r.left, y: r.top, w: r.width, h: r.height,'', newline,
        ''             cx: r.left + r.width / 2, cy: r.top + r.height / 2 };'', newline,
        ''  }'', newline,
        newline,
        ''  function describe(el) {'', newline,
        ''    const tag = el.tagName.toLowerCase();'', newline,
        ''    const role = el.getAttribute('', apostrophe, ''role'', apostrophe, '') || '', apostrophe, apostrophe, '';'', newline,
        ''    const name = (el.getAttribute('', apostrophe, ''aria-label'', apostrophe, '') ||'', newline,
        ''                  el.getAttribute('', apostrophe, ''alt'', apostrophe, '') ||'', newline,
        ''                  el.getAttribute('', apostrophe, ''title'', apostrophe, '') ||'', newline,
        ''                  el.getAttribute('', apostrophe, ''placeholder'', apostrophe, '') ||'', newline,
        ''                  el.value ||'', newline,
        ''                  el.innerText || '', apostrophe, apostrophe, '').trim().replace(/'', [CHR 0x5C], ''s+/g, '', apostrophe, '' '', apostrophe, '').slice(0, 80);'', newline,
        ''    return { tag, role, name };'', newline,
        ''  }'', newline,
        newline,
        ''  const api = {'', newline,
        ''    elements: [],'', newline,
        ''    removeLayer() {'', newline,
        ''      const layer = document.getElementById(LAYER_ID);'', newline,
        ''      if (layer) layer.remove();'', newline,
        ''    },'', newline,
        ''    install() {'', newline,
        ''      this.removeLayer();'', newline,
        ''      this.elements = [];'', newline,
        ''      ensureStyle();'', newline,
        ''      const layer = document.createElement('', apostrophe, ''div'', apostrophe, '');'', newline,
        ''      layer.id = LAYER_ID;'', newline,
        ''      document.documentElement.appendChild(layer);'', newline,
        newline,
        ''      const seen = new Set();'', newline,
        ''      const marks = [];'', newline,
        ''      const all = document.querySelectorAll(SEL);'', newline,
        ''      let id = 0;'', newline,
        ''      for (const el of all) {'', newline,
        ''        if (seen.has(el) || !isVisible(el)) continue;'', newline,
        ''        seen.add(el);'', newline,
        ''        id++;'', newline,
        ''        this.elements[id] = el;'', newline,
        ''        const r = rectOf(el);'', newline,
        ''        const d = describe(el);'', newline,
        newline,
        ''        const box = document.createElement('', apostrophe, ''div'', apostrophe, '');'', newline,
        ''        box.className = '', apostrophe, ''__som_box'', apostrophe, '';'', newline,
        ''        box.style.left = r.x + '', apostrophe, ''px'', apostrophe, '';'', newline,
        ''        box.style.top = r.y + '', apostrophe, ''px'', apostrophe, '';'', newline,
        ''        box.style.width = r.w + '', apostrophe, ''px'', apostrophe, '';'', newline,
        ''        box.style.height = r.h + '', apostrophe, ''px'', apostrophe, '';'', newline,
        newline,
        ''        const tag = document.createElement('', apostrophe, ''div'', apostrophe, '');'', newline,
        ''        tag.className = '', apostrophe, ''__som_tag'', apostrophe, '';'', newline,
        ''        tag.textContent = id;'', newline,
        ''        box.appendChild(tag);'', newline,
        ''        layer.appendChild(box);'', newline,
        newline,
        ''        marks.push({ id, tag: d.tag, role: d.role, name: d.name,'', newline,
        ''                     x: Math.round(r.cx), y: Math.round(r.cy),'', newline,
        ''                     w: Math.round(r.w), h: Math.round(r.h) });'', newline,
        ''      }'', newline,
        ''      return marks;'', newline,
        ''    },'', newline,
        ''    uninstall() { this.removeLayer(); },'', newline,
        ''    get(id) { return this.elements[id]; },'', newline,
        ''    click(id) {'', newline,
        ''      const el = this.elements[id];'', newline,
        ''      if (!el) throw new Error('', apostrophe, ''no mark '', apostrophe, '' + id);'', newline,
        ''      el.scrollIntoView({ block: '', apostrophe, ''center'', apostrophe, '', inline: '', apostrophe, ''center'', apostrophe, '' });'', newline,
        ''      if (typeof el.click === '', apostrophe, ''function'', apostrophe, '') el.click();'', newline,
        ''      else el.dispatchEvent(new MouseEvent('', apostrophe, ''click'', apostrophe, '', { bubbles: true, cancelable: true }));'', newline,
        ''    },'', newline,
        ''    focus(id) {'', newline,
        ''      const el = this.elements[id];'', newline,
        ''      if (!el) throw new Error('', apostrophe, ''no mark '', apostrophe, '' + id);'', newline,
        ''      el.scrollIntoView({ block: '', apostrophe, ''center'', apostrophe, '', inline: '', apostrophe, ''center'', apostrophe, '' });'', newline,
        ''      if (typeof el.focus === '', apostrophe, ''function'', apostrophe, '') el.focus();'', newline,
        ''    },'', newline,
        ''  };'', newline,
        newline,
        ''  Object.defineProperty(window, '', apostrophe, ''__som'', apostrophe, '', { value: api, configurable: true });'', newline,
        ''})();'', newline]\<close>

definition install_js :: bytes where
  "install_js = som_js @ '';__som.install()''"

definition uninstall_js :: bytes where
  "uninstall_js = som_js @ '';__som.uninstall()''"

definition click_js :: "int \<Rightarrow> bytes" where
  "click_js i = som_js @ '';__som.click('' @ itoa i @ '')''"

definition focus_js :: "int \<Rightarrow> bytes" where
  "focus_js i = som_js @ '';__som.focus('' @ itoa i @ '')''"

definition scroll_js :: "int \<Rightarrow> int \<Rightarrow> bytes" where
  "scroll_js dx dy = ''window.scrollBy('' @ itoa dx @ '','' @ itoa dy @ '')''"

definition mark_value :: "mark \<Rightarrow> json" where
  "mark_value m =
     JObj [(''h'', JNum (itoa (mk_h m))), (''id'', JNum (itoa (mk_id m))), (''name'', JStr (mk_name m)),
           (''role'', JStr (mk_role m)), (''tag'', JStr (mk_tag m)), (''w'', JNum (itoa (mk_w m))),
           (''x'', JNum (itoa (mk_x m))), (''y'', JNum (itoa (mk_y m)))]"

definition marks_to_js :: "mark list \<Rightarrow> json" where
  "marks_to_js ms = JArr (map mark_value ms)"

section \<open>What the primitives share\<close>

text \<open>A step that throws ends the call; the steps after it are the rest of the call.\<close>

type_synonym answer = "(bytes + js) \<times> browser_state"

definition br_throw :: "bytes \<Rightarrow> bytes \<Rightarrow> browser_state \<Rightarrow> answer" where
  "br_throw name why st = (Inl (''browser.'' @ name @ '': '' @ why), st)"

definition br_emit :: "bytes \<Rightarrow> bytes \<Rightarrow> bytes \<Rightarrow> bytes \<Rightarrow> browser_state \<Rightarrow> browser_state" where
  "br_emit kind s d r st = st\<lparr>bs_events := bs_events st @ [mk_sandbox_event kind s d r]\<rparr>"

definition br_fail :: "bytes \<Rightarrow> bytes \<Rightarrow> browser_state \<Rightarrow> answer" where
  "br_fail name e st = br_throw name e (br_emit ''error'' (''browser.'' @ name @ '' failed'') e [] st)"

definition act :: "bytes \<Rightarrow> browser_state \<Rightarrow> browser_state" where
  "act summary st = br_emit ''browser'' summary [] [] st"

definition gate :: "browser_env \<Rightarrow> bytes \<Rightarrow> policy_args \<Rightarrow> (driver \<Rightarrow> browser_state \<Rightarrow> answer) \<Rightarrow> browser_state \<Rightarrow> answer" where
  "gate E name args k st =
     (case be_driver E of
        None \<Rightarrow> br_throw name ''no browser driver configured'' st
      | Some d \<Rightarrow>
          let (denial, verdict) = check_policy_or_panic (be_policy E) ''browser'' ((''action'', JStr name) # args);
              st = st\<lparr>bs_events := bs_events st @ map (\<lambda>(s, d). mk_sandbox_event ''error'' s d []) denial\<rparr>
          in case verdict of Inl e \<Rightarrow> (Inl e, st) | Inr _ \<Rightarrow> k d st)"

definition missing :: "js \<Rightarrow> bool" where
  "missing v = (v = None \<or> v = Some JNull)"

definition text_arg :: "js list \<Rightarrow> nat \<Rightarrow> bytes \<Rightarrow> bytes \<Rightarrow> (bytes \<Rightarrow> browser_state \<Rightarrow> answer) \<Rightarrow> browser_state \<Rightarrow> answer" where
  "text_arg args i arg name k st =
     (if missing (argument args i) \<or> value_string (argument args i) = [] then br_throw name (arg @ '' is required'') st
      else k (value_string (argument args i)) st)"

definition opt_num :: "browser_env \<Rightarrow> js list \<Rightarrow> nat \<Rightarrow> int" where
  "opt_num E args i = (case argument args i of Some v \<Rightarrow> if v = JNull then 0 else be_integer E v | None \<Rightarrow> 0)"

definition num_arg ::
    "browser_env \<Rightarrow> js list \<Rightarrow> nat \<Rightarrow> bytes \<Rightarrow> bytes \<Rightarrow> (int \<Rightarrow> browser_state \<Rightarrow> answer) \<Rightarrow> browser_state \<Rightarrow> answer" where
  "num_arg E args i arg name k st =
     (if missing (argument args i) then br_throw name (arg @ '' is required'') st else k (opt_num E args i) st)"

definition require_marks :: "bytes \<Rightarrow> (browser_state \<Rightarrow> answer) \<Rightarrow> browser_state \<Rightarrow> answer" where
  "require_marks name k st =
     (if bs_marks_valid st then k st
      else br_throw name (''no valid marks '' @ em_dash @ '' call browser.mark() first (ids are renumbered by every ''
                       @ ''mark() and dropped by goto())'') st)"

text \<open>One step of the driver, by what it answers.\<close>

definition drive ::
    "(driver_log \<Rightarrow> driver_op \<Rightarrow> bytes + 'a) \<Rightarrow> bytes \<Rightarrow> driver_op \<Rightarrow> ('a \<Rightarrow> browser_state \<Rightarrow> answer) \<Rightarrow> browser_state \<Rightarrow> answer" where
  "drive step name op k st =
     (case step (bs_log st) op of
        Inl e \<Rightarrow> br_fail name e (st\<lparr>bs_log := bs_log st @ [(op, False)]\<rparr>)
      | Inr a \<Rightarrow> k a (st\<lparr>bs_log := bs_log st @ [(op, True)]\<rparr>))"

definition undefined_value :: "browser_state \<Rightarrow> answer" where
  "undefined_value st = (Inr None, st)"

definition number :: "int \<Rightarrow> json" where
  "number i = JNum (itoa i)"

section \<open>The primitives\<close>

definition goto_url :: "browser_env \<Rightarrow> js list \<Rightarrow> browser_state \<Rightarrow> answer" where
  "goto_url E args =
     text_arg args 0 ''url'' ''goto'' (\<lambda>url.
     gate E ''goto'' [(''url'', JStr url)] (\<lambda>d st.
     drive (dr_do d) ''goto'' (Navigate url) (\<lambda>_ st. undefined_value (st\<lparr>bs_marks_valid := False\<rparr>))
       (act (''goto '' @ url) st)))"

definition click :: "browser_env \<Rightarrow> js list \<Rightarrow> browser_state \<Rightarrow> answer" where
  "click E args =
     text_arg args 0 ''selector'' ''click'' (\<lambda>sel.
     gate E ''click'' [(''selector'', JStr sel)] (\<lambda>d st.
     drive (dr_do d) ''click'' (Click sel) (\<lambda>_. undefined_value) (act (''click '' @ sel) st)))"

definition type_into :: "browser_env \<Rightarrow> js list \<Rightarrow> browser_state \<Rightarrow> answer" where
  "type_into E args =
     text_arg args 0 ''selector'' ''type'' (\<lambda>sel.
     gate E ''type'' [(''selector'', JStr sel)] (\<lambda>d st.
     let typed = value_string (argument args 1) in
     drive (dr_do d) ''type'' (Send_keys sel typed) (\<lambda>_. undefined_value)
       (act (''type '' @ itoa (int (length typed)) @ '' chars into '' @ sel) st)))"

definition wait_visible :: "browser_env \<Rightarrow> js list \<Rightarrow> browser_state \<Rightarrow> answer" where
  "wait_visible E args =
     text_arg args 0 ''selector'' ''waitVisible'' (\<lambda>sel.
     gate E ''waitVisible'' [(''selector'', JStr sel)] (\<lambda>d.
     drive (dr_do d) ''waitVisible'' (Wait_visible sel) (\<lambda>_. undefined_value)))"

definition wait_ready :: "browser_env \<Rightarrow> js list \<Rightarrow> browser_state \<Rightarrow> answer" where
  "wait_ready E args =
     text_arg args 0 ''selector'' ''waitReady'' (\<lambda>sel.
     gate E ''waitReady'' [(''selector'', JStr sel)] (\<lambda>d.
     drive (dr_do d) ''waitReady'' (Wait_ready sel) (\<lambda>_. undefined_value)))"

definition text_of :: "browser_env \<Rightarrow> js list \<Rightarrow> browser_state \<Rightarrow> answer" where
  "text_of E args =
     text_arg args 0 ''selector'' ''text'' (\<lambda>sel.
     gate E ''text'' [(''selector'', JStr sel)] (\<lambda>d.
     drive (dr_read d) ''text'' (Text_of sel) (\<lambda>out st. (Inr (Some (JStr out)), st))))"

definition value_of :: "browser_env \<Rightarrow> js list \<Rightarrow> browser_state \<Rightarrow> answer" where
  "value_of E args =
     text_arg args 0 ''selector'' ''value'' (\<lambda>sel.
     gate E ''value'' [(''selector'', JStr sel)] (\<lambda>d.
     drive (dr_read d) ''value'' (Value_of sel) (\<lambda>out st. (Inr (Some (JStr out)), st))))"

definition eval_in_page :: "browser_env \<Rightarrow> js list \<Rightarrow> browser_state \<Rightarrow> answer" where
  "eval_in_page E args =
     text_arg args 0 ''expression'' ''eval'' (\<lambda>expr.
     gate E ''eval'' [(''expression'', JStr expr)] (\<lambda>d.
     drive (dr_value d) ''eval'' (Eval_value expr) (\<lambda>out st. (Inr out, st))))"

definition scroll :: "browser_env \<Rightarrow> js list \<Rightarrow> browser_state \<Rightarrow> answer" where
  "scroll E args =
     gate E ''scroll'' [(''dx'', number (opt_num E args 0)), (''dy'', number (opt_num E args 1))] (\<lambda>d.
     drive (dr_do d) ''scroll'' (Eval_void (scroll_js (opt_num E args 0) (opt_num E args 1))) (\<lambda>_. undefined_value))"

text \<open>Durations are nanoseconds in 64 bits.\<close>

definition max_sleep :: int where
  "max_sleep = 30000000000"

definition sleep_duration :: "int \<Rightarrow> int" where
  "sleep_duration ms = min max_sleep (sint (word_of_int (ms * 1000000) :: 64 word))"

definition sleep :: "browser_env \<Rightarrow> js list \<Rightarrow> browser_state \<Rightarrow> answer" where
  "sleep E args =
     num_arg E args 0 ''ms'' ''sleep'' (\<lambda>ms st.
     if ms \<le> 0 then undefined_value st
     else let st = st\<lparr>bs_waits := bs_waits st @ [sleep_duration ms]\<rparr> in
          case be_cancelled E (bs_log st) (sleep_duration ms) of
            Some e \<Rightarrow> br_throw ''sleep'' e st
          | None \<Rightarrow> undefined_value st)"

definition mark_page :: "browser_env \<Rightarrow> browser_state \<Rightarrow> answer" where
  "mark_page E =
     gate E ''mark'' [] (\<lambda>d.
     drive (dr_marks d) ''mark'' (Eval_marks install_js) (\<lambda>ms st.
       (Inr (Some (marks_to_js ms)),
        act (''mark: '' @ itoa (int (length ms)) @ '' interactive elements'') (st\<lparr>bs_marks_valid := True\<rparr>))))"

definition unmark :: "browser_env \<Rightarrow> browser_state \<Rightarrow> answer" where
  "unmark E = gate E ''unmark'' [] (\<lambda>d. drive (dr_do d) ''unmark'' (Eval_void uninstall_js) (\<lambda>_. undefined_value))"

definition click_mark :: "browser_env \<Rightarrow> js list \<Rightarrow> browser_state \<Rightarrow> answer" where
  "click_mark E args =
     num_arg E args 0 ''id'' ''clickMark'' (\<lambda>i.
     gate E ''clickMark'' [(''id'', number i)] (\<lambda>d.
     require_marks ''clickMark'' (\<lambda>st.
     drive (dr_do d) ''clickMark'' (Eval_void (click_js i)) (\<lambda>_. undefined_value) (act (''clickMark '' @ itoa i) st))))"

definition type_mark :: "browser_env \<Rightarrow> js list \<Rightarrow> browser_state \<Rightarrow> answer" where
  "type_mark E args =
     num_arg E args 0 ''id'' ''typeMark'' (\<lambda>i.
     gate E ''typeMark'' [(''id'', number i)] (\<lambda>d.
     require_marks ''typeMark'' (\<lambda>st.
     let typed = value_string (argument args 1) in
     drive (dr_do d) ''typeMark'' (Eval_void (focus_js i)) (\<lambda>_.
       drive (dr_do d) ''typeMark'' (Key_event typed) (\<lambda>_. undefined_value))
       (act (''typeMark '' @ itoa i @ '', '' @ itoa (int (length typed)) @ '' chars'') st))))"

text \<open>The question to the vision model about a picture.\<close>

definition consult ::
    "(driver_log \<Rightarrow> bytes \<Rightarrow> bytes \<Rightarrow> bytes + bytes) \<Rightarrow> bytes \<Rightarrow> bytes \<Rightarrow> bytes \<Rightarrow> browser_state \<Rightarrow> answer" where
  "consult see name question shot st =
     (let st = st\<lparr>bs_asked := bs_asked st @ [question]\<rparr> in
      case see (bs_log st) shot question of
        Inl e \<Rightarrow> br_fail name e st
      | Inr a \<Rightarrow> (Inr (Some (JStr a)), br_emit ''browser'' (''browser.'' @ name @ '': '' @ question) [] a st))"

definition ask_page ::
    "browser_env \<Rightarrow> (driver_log \<Rightarrow> bytes \<Rightarrow> bytes \<Rightarrow> bytes + bytes) \<Rightarrow> js list \<Rightarrow> browser_state \<Rightarrow> answer" where
  "ask_page E see args =
     text_arg args 0 ''question'' ''ask'' (\<lambda>question.
     gate E ''ask'' [(''question'', JStr question)] (\<lambda>d.
     drive (dr_read d) ''ask'' Take_screenshot (consult see ''ask'' question)))"

definition ask_marks ::
    "browser_env \<Rightarrow> (driver_log \<Rightarrow> bytes \<Rightarrow> bytes \<Rightarrow> bytes + bytes) \<Rightarrow> js list \<Rightarrow> browser_state \<Rightarrow> answer" where
  "ask_marks E see args =
     text_arg args 0 ''question'' ''askMarks'' (\<lambda>question.
     gate E ''askMarks'' [(''question'', JStr question)] (\<lambda>d.
     drive (dr_do d) ''askMarks'' (Eval_void install_js) (\<lambda>_ st.
     drive (dr_read d) ''askMarks'' Take_screenshot (\<lambda>shot.
     drive (dr_do d) ''askMarks'' (Eval_void uninstall_js) (\<lambda>_.
     consult see ''askMarks'' question shot)) (st\<lparr>bs_marks_valid := True\<rparr>))))"

datatype browser_primitive =
    Goto | Click_on | Type_into | Wait_for_visible | Wait_for_ready | Get_text | Get_value | Evaluate
  | Scroll | Sleep | Mark_page | Unmark | Click_mark | Type_mark | Ask | Ask_marks

text \<open>Without a vision model \<open>ask\<close> and \<open>askMarks\<close> are no functions: calling them is an error of the script.\<close>

definition browser_call :: "browser_env \<Rightarrow> browser_primitive \<Rightarrow> js list \<Rightarrow> browser_state \<Rightarrow> answer" where
  "browser_call E prim args =
     (case prim of
        Goto \<Rightarrow> goto_url E args | Click_on \<Rightarrow> click E args | Type_into \<Rightarrow> type_into E args
      | Wait_for_visible \<Rightarrow> wait_visible E args | Wait_for_ready \<Rightarrow> wait_ready E args
      | Get_text \<Rightarrow> text_of E args | Get_value \<Rightarrow> value_of E args | Evaluate \<Rightarrow> eval_in_page E args
      | Scroll \<Rightarrow> scroll E args | Sleep \<Rightarrow> sleep E args | Mark_page \<Rightarrow> mark_page E | Unmark \<Rightarrow> unmark E
      | Click_mark \<Rightarrow> click_mark E args | Type_mark \<Rightarrow> type_mark E args
      | Ask \<Rightarrow> (case be_vision E of Some see \<Rightarrow> ask_page E see args | None \<Rightarrow> br_throw ''ask'' ''not a function'')
      | Ask_marks \<Rightarrow> (case be_vision E of Some see \<Rightarrow> ask_marks E see args | None \<Rightarrow> br_throw ''askMarks'' ''not a function''))"

text \<open>A script calls what it likes, in any order.\<close>

definition browser_run :: "browser_env \<Rightarrow> (browser_primitive \<times> js list) list \<Rightarrow> browser_state" where
  "browser_run E calls = foldl (\<lambda>st (prim, args). snd (browser_call E prim args st)) new_browser calls"

section \<open>Texts\<close>


definition prompt_head :: bytes where
  \<open>prompt_head =
     concat
       [''// --- Browser ---'', newline,
        ''/** A real browser, one page. Every call is synchronous: it returns once the'', newline,
        '' *  browser has finished the step, and throws on failure. */'', newline,
        ''declare const browser: {'', newline,
        ''  /** Load a URL and wait for the page to settle. Drops any existing marks. */'', newline,
        ''  goto(url: string): void;'', newline,
        ''  /** Click the first element matching a CSS selector, waiting for it first. */'', newline,
        ''  click(selector: string): void;'', newline,
        ''  /** Type into the first element matching a CSS selector. */'', newline,
        ''  type(selector: string, text: string): void;'', newline,
        ''  /** Block until the selector matches a visible element. */'', newline,
        ''  waitVisible(selector: string): void;'', newline,
        ''  /** Block until the selector matches an element in the DOM, visible or not. */'', newline,
        ''  waitReady(selector: string): void;'', newline,
        ''  /** Visible text of the first matching element. */'', newline,
        ''  text(selector: string): string;'', newline,
        ''  /** The '', apostrophe, ''value'', apostrophe, '' property of the first matching element. */'', newline,
        ''  value(selector: string): string;'', newline,
        ''  /** Evaluate an expression in the page and return its value. */'', newline,
        ''  eval(expression: string): any;'', newline,
        ''  /** Scroll the page by a pixel offset. Re-mark afterwards to see what came into'', '' view. */'', newline,
        ''  scroll(dx: number, dy: number): void;'', newline,
        ''  /** Wait, capped at 30s. Prefer waitVisible when waiting for something specific.'', '' */'', newline,
        ''  sleep(ms: number): void;'', newline,
        ''  /** Number every visible interactive element and return the listing. Ids are'', newline,
        ''   *  assigned in document order and renumbered by every mark(), so mark, act,'', newline,
        ''   *  and re-mark rather than reusing an old listing. Viewport only: scroll and'', newline,
        ''   *  mark again to reach what is below the fold. */'', newline,
        ''  mark(): { id: number; tag: string; role: string; name: string; x: number; y:'', '' number; w: number; h: number }[];'', newline,
        ''  /** Remove the numbered boxes from the page. The ids stay usable. */'', newline,
        ''  unmark(): void;'', newline,
        ''  /** Click a marked element by id. */'', newline,
        ''  clickMark(id: number): void;'', newline,
        ''  /** Focus a marked element by id and type into it. */'', newline,
        ''  typeMark(id: number, text: string): void;'', newline]\<close>

definition prompt_vision :: bytes where
  \<open>prompt_vision =
     concat
       [''  /** Screenshot the page and ask a vision model about it. */'', newline,
        ''  ask(question: string): string;'', newline,
        ''  /** Mark, screenshot, ask, then strip the boxes. Ids in the answer stay usable'', newline,
        ''   *  by clickMark / typeMark. Use this when the page'', apostrophe, ''s structure is unclear'', newline,
        ''   *  from mark()'', apostrophe, ''s listing alone. */'', newline,
        ''  askMarks(question: string): string;'', newline]\<close>

definition prompt_tail :: bytes where
  \<open>prompt_tail =
     concat
       [''};'', newline,
        newline,
        ''// Prefer mark() + clickMark() over CSS selectors on pages you have not seen'', newline,
        ''// before: the listing tells you what is actually clickable, and an id cannot'', newline,
        ''// be a selector that silently matches nothing.'']\<close>

definition help_browser :: bytes where
  \<open>help_browser =
     concat
       [''browser '', em_dash, '' Drive a real browser, one page, synchronously.'', newline,
        newline,
        ''  Navigation and reading:'', newline,
        ''    browser.goto(url), browser.click(sel), browser.type(sel, text)'', newline,
        ''    browser.waitVisible(sel), browser.waitReady(sel)'', newline,
        ''    browser.text(sel), browser.value(sel), browser.eval(expr)'', newline,
        ''    browser.scroll(dx, dy), browser.sleep(ms)'', newline,
        newline,
        ''  Set-of-Marks '', em_dash, '' navigate without selectors:'', newline,
        ''    var marks = browser.mark();          // [{id, tag, role, name, x, y, w, h}, ...]'', newline,
        ''    var search = marks.find(m => m.name.toLowerCase().includes("search"));'', newline,
        ''    browser.typeMark(search.id, "socks");'', newline,
        ''    browser.clickMark(marks.find(m => m.tag === "button").id);'', newline,
        newline,
        ''  Ids come from the most recent mark() and are dropped by goto(); acting on a'', newline,
        ''  stale id throws rather than clicking the wrong thing. mark() covers the'', newline,
        ''  viewport only '', em_dash, '' scroll() and mark() again for what is below the fold.'']\<close>

definition help_mark :: bytes where
  \<open>help_mark =
     concat
       [''browser.mark() '', em_dash, '' Number every visible interactive element and return the listing.'', newline,
        newline,
        ''  Returns [{id, tag, role, name, x, y, w, h}], ids in document order starting at 1.'', newline,
        ''  '', apostrophe, ''name'', apostrophe, '' is the element'', apostrophe, ''s accessible label: aria-label, alt, title, placeholder,'', newline,
        ''  value, or inner text, whichever it has first, trimmed to 80 chars.'', newline,
        newline,
        ''  Every call renumbers from scratch, and goto() drops the ids entirely. The'', newline,
        ''  reliable pattern is mark '', right_arrow, '' act '', right_arrow, '' mark again, not mark once and reuse.'', newline,
        ''  Also draws numbered boxes on the page; browser.unmark() removes them without'', newline,
        ''  invalidating the ids.'']\<close>

definition help_ask_marks :: bytes where
  \<open>help_ask_marks =
     concat
       [''browser.askMarks(question) '', em_dash, '' Ask a vision model about the marked page.'', newline,
        newline,
        ''  Installs the numbered boxes, screenshots, removes the boxes, and asks the'', newline,
        ''  question against that image. The answer'', apostrophe, ''s ids stay usable with clickMark() /'', newline,
        ''  typeMark(). Use it when mark()'', apostrophe, ''s listing is ambiguous '', em_dash, '' an icon-only button,'', newline,
        ''  a custom widget with no accessible name '', em_dash, '' and plain mark() when it is not,'', newline,
        ''  since this one costs a model call.'', newline,
        ''  Example: var id = parseInt(browser.askMarks("which mark is the cart icon?"), 10);'']\<close>

definition build_prompt :: "bool \<Rightarrow> bytes" where
  "build_prompt has_vision = prompt_head @ (if has_vision then prompt_vision else []) @ prompt_tail"

definition build_help :: "bool \<Rightarrow> (bytes \<times> bytes) list" where
  "build_help has_vision =
     [(''browser'', help_browser), (''browser.mark'', help_mark)]
     @ (if has_vision then [(''browser.askMarks'', help_ask_marks)] else [])"

text \<open>The pack registers one global object; what its methods do is \<open>browser_call\<close>.\<close>

definition browser_pack ::
    "browser_env \<Rightarrow> (policy option \<Rightarrow> js list list \<Rightarrow> js list \<Rightarrow> sandbox_event list \<times> (bytes + js)) \<Rightarrow> pack" where
  "browser_pack E object =
     (let has_vision = be_vision E \<noteq> None in
      \<lparr>pk_name = ''browser'',
       pk_description = ''Drive a real browser '' @ em_dash @ '' browser.goto/click/type/text, plus numbered Set-of-Marks navigation'',
       pk_skill_type = [], pk_prompt = build_prompt has_vision, pk_help = build_help has_vision,
       pk_functions = [(''browser'', object)], pk_skills = None\<rparr>)"

end

