(* ===== verification/Browser_Properties.thy ===== *)
theory Browser_Properties
  imports Browser_Pack
begin

text \<open>
  What the browser pack promises: no step of the driver without the policy's leave for just that
  call, and none on the id of a mark that a \<open>goto\<close> has taken away since.  Every primitive is a chain
  of the same few steps, so one rule for each of them carries the invariant through all.
\<close>

section \<open>Leave\<close>

definition browser_grants :: "policy option \<Rightarrow> bytes \<Rightarrow> policy_args \<Rightarrow> bool" where
  "browser_grants p name args =
     (case check_policy p ''browser'' ((''action'', JStr name) # args) of Inl _ \<Rightarrow> False | Inr r \<Rightarrow> allowed r)"

text \<open>The calls a step may belong to.\<close>

definition op_granted :: "policy option \<Rightarrow> driver_op \<Rightarrow> bool" where
  "op_granted p op =
     (case op of
        Navigate u \<Rightarrow> browser_grants p ''goto'' [(''url'', JStr u)]
      | Click s \<Rightarrow> browser_grants p ''click'' [(''selector'', JStr s)]
      | Send_keys s _ \<Rightarrow> browser_grants p ''type'' [(''selector'', JStr s)]
      | Wait_visible s \<Rightarrow> browser_grants p ''waitVisible'' [(''selector'', JStr s)]
      | Wait_ready s \<Rightarrow> browser_grants p ''waitReady'' [(''selector'', JStr s)]
      | Text_of s \<Rightarrow> browser_grants p ''text'' [(''selector'', JStr s)]
      | Value_of s \<Rightarrow> browser_grants p ''value'' [(''selector'', JStr s)]
      | Eval_value e \<Rightarrow> browser_grants p ''eval'' [(''expression'', JStr e)]
      | Eval_marks e \<Rightarrow> e = install_js \<and> browser_grants p ''mark'' []
      | Eval_void e \<Rightarrow>
          (\<exists>dx dy. e = scroll_js dx dy \<and> browser_grants p ''scroll'' [(''dx'', number dx), (''dy'', number dy)])
          \<or> (\<exists>i. e = click_js i \<and> browser_grants p ''clickMark'' [(''id'', number i)])
          \<or> (\<exists>i. e = focus_js i \<and> browser_grants p ''typeMark'' [(''id'', number i)])
          \<or> (e = uninstall_js \<and> browser_grants p ''unmark'' [])
          \<or> (e \<in> {install_js, uninstall_js} \<and> (\<exists>q. browser_grants p ''askMarks'' [(''question'', JStr q)]))
      | Key_event _ \<Rightarrow> \<exists>i. browser_grants p ''typeMark'' [(''id'', number i)]
      | Take_screenshot \<Rightarrow>
          \<exists>q. browser_grants p ''ask'' [(''question'', JStr q)] \<or> browser_grants p ''askMarks'' [(''question'', JStr q)])"

section \<open>Marks\<close>

text \<open>
  What the pack takes a step for: a navigation of its own that succeeds leaves the page, an
  evaluation that installs the marks marks it.  This is the flag of the code over the log, not what
  happens in the browser, where a click, an evaluated expression or a navigation that fails halfway
  leave the page as well (\<open>failed_goto_keeps_marks\<close>, \<open>click_keeps_marks\<close>).
\<close>

definition marked_by :: "bool \<Rightarrow> driver_op \<times> bool \<Rightarrow> bool" where
  "marked_by m step =
     (case step of
        (Navigate _, True) \<Rightarrow> False
      | (Eval_marks _, True) \<Rightarrow> True
      | (Eval_void e, True) \<Rightarrow> m \<or> e = install_js
      | _ \<Rightarrow> m)"

definition marked :: "driver_log \<Rightarrow> bool" where
  "marked l = foldl marked_by False l"

definition by_mark :: "driver_op \<Rightarrow> bool" where
  "by_mark op =
     (case op of
        Eval_void e \<Rightarrow> has_prefix (som_js @ '';__som.click('') e \<or> has_prefix (som_js @ '';__som.focus('') e
      | Key_event _ \<Rightarrow> True
      | _ \<Rightarrow> False)"

fun marks_honoured :: "driver_log \<Rightarrow> driver_log \<Rightarrow> bool" where
  "marks_honoured seen [] = True"
| "marks_honoured seen (s # l) = ((if by_mark (fst s) then marked seen else True) \<and> marks_honoured (seen @ [s]) l)"

lemma marks_honoured_snoc:
  "marks_honoured seen (l @ [s]) = (marks_honoured seen l \<and> (if by_mark (fst s) then marked (seen @ l) else True))"
  by (induction l arbitrary: seen) auto

lemma marked_snoc [simp]: "marked (l @ [s]) = marked_by (marked l) s"
  by (simp add: marked_def)

section \<open>The invariant\<close>

definition browser_inv :: "browser_env \<Rightarrow> browser_state \<Rightarrow> bool" where
  "browser_inv E st \<longleftrightarrow>
     bs_marks_valid st = marked (bs_log st) \<and> marks_honoured [] (bs_log st)
     \<and> list_all (\<lambda>s. op_granted (be_policy E) (fst s)) (bs_log st)
     \<and> list_all (\<lambda>w. 0 \<le> w \<longrightarrow> w \<le> max_sleep) (bs_waits st)"

lemma inv_emit [simp]: "browser_inv E (br_emit k s d r st) = browser_inv E st"
  by (simp add: browser_inv_def br_emit_def)

lemma inv_act [simp]: "browser_inv E (act s st) = browser_inv E st"
  by (simp add: act_def)

lemma br_emit_fields [simp]:
  "bs_log (br_emit k s d r st) = bs_log st" "bs_marks_valid (br_emit k s d r st) = bs_marks_valid st"
  "bs_log (act x st) = bs_log st" "bs_marks_valid (act x st) = bs_marks_valid st"
  by (simp_all add: br_emit_def act_def)

text \<open>The rules for the steps, each with what the rest of the call may rely on.\<close>

lemma inv_text_arg:
  "browser_inv E st \<Longrightarrow> (\<And>s. browser_inv E (snd (k s st))) \<Longrightarrow> browser_inv E (snd (text_arg args i arg name k st))"
  by (simp add: text_arg_def br_throw_def)

lemma inv_num_arg:
  "browser_inv E st \<Longrightarrow> (\<And>n. browser_inv E (snd (k n st))) \<Longrightarrow> browser_inv E (snd (num_arg E args i arg name k st))"
  by (simp add: num_arg_def br_throw_def)

lemma inv_gate:
  assumes "browser_inv E st"
    and "\<And>d st'. browser_inv E st' \<Longrightarrow> bs_marks_valid st' = bs_marks_valid st \<Longrightarrow> browser_grants (be_policy E) name args \<Longrightarrow> browser_inv E (snd (k d st'))"
  shows "browser_inv E (snd (gate E name args k st))"
proof (cases "be_driver E")
  case (Some d)
  obtain denial verdict where c: "check_policy_or_panic (be_policy E) ''browser'' ((''action'', JStr name) # args) = (denial, verdict)"
    by fastforce
  have i: "browser_inv E (st\<lparr>bs_events := evts\<rparr>)" for evts using assms(1) by (simp add: browser_inv_def)
  have "browser_grants (be_policy E) name args" if "verdict = Inr r" for r
    using c that by (auto simp: check_policy_or_panic_def browser_grants_def Let_def split: sum.splits if_splits)
  then show ?thesis using assms(2) i by (auto simp: gate_def Some c Let_def split: sum.splits)
qed (simp add: gate_def br_throw_def assms)

lemma inv_require_marks:
  "browser_inv E st \<Longrightarrow> (bs_marks_valid st \<Longrightarrow> browser_inv E (snd (k st))) \<Longrightarrow> browser_inv E (snd (require_marks name k st))"
  by (simp add: require_marks_def br_throw_def)

definition keeps_marks :: "driver_op \<Rightarrow> bool" where
  "keeps_marks op = (\<forall>m. marked_by m (op, True) = m)"

lemma marked_by_failed [simp]: "marked_by m (op, False) = m"
  by (cases op) (simp_all add: marked_by_def)

text \<open>A step that neither marks nor leaves the page.\<close>

lemma inv_drive:
  assumes "browser_inv E st" and "op_granted (be_policy E) op" and "by_mark op \<longrightarrow> bs_marks_valid st" and "keeps_marks op"
    and "\<And>a st'. browser_inv E st' \<Longrightarrow> bs_marks_valid st' = bs_marks_valid st \<Longrightarrow> browser_inv E (snd (k a st'))"
  shows "browser_inv E (snd (drive step name op k st))"
proof -
  have "browser_inv E (st\<lparr>bs_log := bs_log st @ [(op, ok)]\<rparr>)" for ok
    using assms(1-4) by (cases ok) (auto simp: browser_inv_def marks_honoured_snoc keeps_marks_def)
  then show ?thesis using assms(5) by (auto simp: drive_def br_fail_def br_throw_def split: sum.splits)
qed

text \<open>A step that marks or leaves it: its success is followed by the flag's new value.\<close>

lemma inv_drive_flag:
  assumes "browser_inv E st" and "op_granted (be_policy E) op" and "\<not> by_mark op" and "\<And>m. marked_by m (op, True) = v"
    and "\<And>a st'. browser_inv E (st'\<lparr>bs_marks_valid := v\<rparr>) \<Longrightarrow> browser_inv E (snd (k a st'))"
  shows "browser_inv E (snd (drive step name op k st))"
proof -
  have "browser_inv E (st\<lparr>bs_log := bs_log st @ [(op, False)]\<rparr>)"
    using assms(1-3) by (simp add: browser_inv_def marks_honoured_snoc)
  moreover have "browser_inv E (st\<lparr>bs_log := bs_log st @ [(op, True)], bs_marks_valid := v\<rparr>)"
    using assms(1-4) by (simp add: browser_inv_def marks_honoured_snoc)
  ultimately show ?thesis using assms(5) by (auto simp: drive_def br_fail_def br_throw_def split: sum.splits)
qed

lemma undefined_inv [simp]: "snd (undefined_value st) = st"
  by (simp add: undefined_value_def)

lemmas step_rules = inv_text_arg inv_num_arg inv_gate inv_require_marks inv_drive

section \<open>The expressions\<close>

lemma som_js_start: "\<exists>r. som_js = CHR 0x0A # r"
  by (simp add: som_js_def)

lemma has_prefix_after [simp]: "has_prefix (p @ a) (p @ b) = has_prefix a b"
  by (induction p) simp_all

lemma som_scripts [simp]:
  "click_js i \<noteq> install_js" "focus_js i \<noteq> install_js" "uninstall_js \<noteq> install_js" "\<not> by_mark (Eval_void install_js)"
  "\<not> by_mark (Eval_void uninstall_js)"
  by (simp_all add: click_js_def focus_js_def install_js_def uninstall_js_def by_mark_def)

lemma scroll_script [simp]: "scroll_js dx dy \<noteq> install_js" "\<not> by_mark (Eval_void (scroll_js dx dy))"
proof -
  obtain r where r: "som_js = CHR 0x0A # r" using som_js_start by blast
  show "scroll_js dx dy \<noteq> install_js" "\<not> by_mark (Eval_void (scroll_js dx dy))"
    by (simp_all add: r scroll_js_def install_js_def by_mark_def)
qed

lemma scripts_by_mark [simp]: "by_mark (Eval_void (click_js i))" "by_mark (Eval_void (focus_js i))" "by_mark (Key_event t)"
  by (simp_all add: click_js_def focus_js_def by_mark_def)

lemma keeps_marks_simps [simp]:
  "keeps_marks (Click s)" "keeps_marks (Send_keys s t)" "keeps_marks (Wait_visible s)" "keeps_marks (Wait_ready s)"
  "keeps_marks (Text_of s)" "keeps_marks (Value_of s)" "keeps_marks (Eval_value s)" "keeps_marks (Key_event s)"
  "keeps_marks Take_screenshot" "e \<noteq> install_js \<Longrightarrow> keeps_marks (Eval_void e)"
  by (simp_all add: keeps_marks_def marked_by_def)

lemma by_mark_simps [simp]:
  "\<not> by_mark (Navigate s)" "\<not> by_mark (Click s)" "\<not> by_mark (Send_keys s t)" "\<not> by_mark (Wait_visible s)" "\<not> by_mark (Wait_ready s)"
  "\<not> by_mark (Text_of s)" "\<not> by_mark (Value_of s)" "\<not> by_mark (Eval_value s)" "\<not> by_mark (Eval_marks s)" "\<not> by_mark Take_screenshot"
  by (simp_all add: by_mark_def)

section \<open>Every primitive\<close>

lemma inv_goto: "browser_inv E st \<Longrightarrow> browser_inv E (snd (goto_url E args st))"
  unfolding goto_url_def
  by (intro inv_text_arg inv_gate, assumption, assumption, rule inv_drive_flag [where v = False])
     (auto simp: op_granted_def marked_by_def)

lemma inv_simple:
  assumes "browser_inv E st"
  shows "browser_inv E (snd (click E args st))" "browser_inv E (snd (type_into E args st))"
    "browser_inv E (snd (wait_visible E args st))" "browser_inv E (snd (wait_ready E args st))"
    "browser_inv E (snd (text_of E args st))" "browser_inv E (snd (value_of E args st))"
    "browser_inv E (snd (eval_in_page E args st))" "browser_inv E (snd (scroll E args st))" "browser_inv E (snd (unmark E st))"
  unfolding click_def type_into_def wait_visible_def wait_ready_def text_of_def value_of_def eval_in_page_def scroll_def unmark_def Let_def
  using assms by (intro step_rules; auto simp: op_granted_def)+

lemma inv_sleep: "browser_inv E st \<Longrightarrow> browser_inv E (snd (sleep E args st))"
  unfolding sleep_def
  by (rule inv_num_arg) (auto simp: Let_def browser_inv_def br_throw_def sleep_duration_def split: option.splits)

lemma inv_mark: "browser_inv E st \<Longrightarrow> browser_inv E (snd (mark_page E st))"
  unfolding mark_page_def
  by (intro inv_gate, assumption, rule inv_drive_flag [where v = True]) (auto simp: op_granted_def marked_by_def)

lemma inv_click_mark: "browser_inv E st \<Longrightarrow> browser_inv E (snd (click_mark E args st))"
  unfolding click_mark_def
  by (intro step_rules; auto simp: op_granted_def)+

lemma inv_type_mark: "browser_inv E st \<Longrightarrow> browser_inv E (snd (type_mark E args st))"
  unfolding type_mark_def Let_def
  by (intro step_rules; auto simp: op_granted_def)+

lemma inv_consult: "browser_inv E st \<Longrightarrow> browser_inv E (snd (consult see name question shot st))"
proof -
  assume "browser_inv E st"
  then have "browser_inv E (st\<lparr>bs_asked := q\<rparr>)" for q by (simp add: browser_inv_def)
  then show ?thesis by (auto simp: consult_def Let_def br_fail_def br_throw_def split: sum.splits)
qed

lemma inv_ask: "browser_inv E st \<Longrightarrow> browser_inv E (snd (ask_page E see args st))"
  unfolding ask_page_def
  by (intro step_rules inv_consult; auto simp: op_granted_def)+

lemma inv_ask_marks: "browser_inv E st \<Longrightarrow> browser_inv E (snd (ask_marks E see args st))"
  unfolding ask_marks_def
  by (intro inv_text_arg inv_gate, assumption, assumption, rule inv_drive_flag [where v = True])
     (auto simp: op_granted_def marked_by_def intro!: inv_drive inv_consult)

lemma browser_call_inv: "browser_inv E st \<Longrightarrow> browser_inv E (snd (browser_call E prim args st))"
  by (cases prim)
     (auto simp: browser_call_def br_throw_def inv_goto inv_simple inv_sleep inv_mark inv_click_mark inv_type_mark inv_ask inv_ask_marks
       split: option.splits)

lemma browser_run_inv: "browser_inv E (browser_run E calls)"
proof -
  have "browser_inv E st \<Longrightarrow> browser_inv E (foldl (\<lambda>st (prim, args). snd (browser_call E prim args st)) st calls)" for st
    by (induction calls arbitrary: st) (auto simp: browser_call_inv)
  moreover have "browser_inv E new_browser" by (simp add: browser_inv_def new_browser_def marked_def)
  ultimately show ?thesis by (simp add: browser_run_def)
qed

text \<open>
  C36 Whatever a script calls, in any order, every step of the driver had the policy's leave for a
  call that makes it, with the very arguments it acts on: the address to open, the selector, the
  expression, the distances, the mark, or the question a screenshot is for.  A call that is refused
  reaches the driver with nothing.
\<close>

theorem browser_confined:
  "list_all (\<lambda>s. op_granted (be_policy E) (fst s)) (bs_log (browser_run E calls))"
  using browser_run_inv [of E calls] by (simp add: browser_inv_def)

text \<open>
  What the flag of the marks is worth: since the last \<open>goto\<close> that succeeded, or since the start, the
  page was marked before any step acts on a mark.
\<close>

definition leaves_page :: "driver_op \<times> bool \<Rightarrow> bool" where
  "leaves_page s = (case s of (Navigate _, ok) \<Rightarrow> ok | _ \<Rightarrow> False)"

definition marks_page :: "driver_op \<times> bool \<Rightarrow> bool" where
  "marks_page s = (case s of (Eval_marks _, ok) \<Rightarrow> ok | (Eval_void e, ok) \<Rightarrow> ok \<and> e = install_js | _ \<Rightarrow> False)"

lemma marked_iff: "marked l \<longleftrightarrow> list_ex marks_page (takeWhile (\<lambda>s. \<not> leaves_page s) (rev l))"
proof (induction l rule: rev_induct)
  case (snoc s l)
  obtain op ok where s: "s = (op, ok)" by fastforce
  show ?case using snoc by (cases op; cases ok) (auto simp: s marked_by_def leaves_page_def marks_page_def)
qed (simp add: marked_def)

lemma marks_honoured_iff:
  "marks_honoured seen l \<longleftrightarrow> list_all (\<lambda>i. if by_mark (fst (l ! i)) then marked (seen @ take i l) else True) [0..<length l]"
proof (induction l rule: rev_induct)
  case (snoc s l)
  then show ?case by (auto simp: marks_honoured_snoc nth_append list_all_iff)
qed simp

lemma goto_drops_marks:
  "let l = bs_log (browser_run E calls) in
     list_all (\<lambda>i. if by_mark (fst (l ! i))
                   then list_ex marks_page (takeWhile (\<lambda>s. \<not> leaves_page s) (rev (take i l))) else True) [0..<length l]"
proof -
  have "marks_honoured [] (bs_log (browser_run E calls))"
    using browser_run_inv [of E calls] unfolding browser_inv_def by blast
  then show ?thesis unfolding Let_def marks_honoured_iff marked_iff by (simp only: append_Nil)
qed

text \<open>The default policy, which has no prefixes, keeps the agent from opening a private address.\<close>

theorem browser_public:
  "be_policy E = Some (Default_policy p) \<Longrightarrow> prefixes (url_allow_prefixes p) = [] \<Longrightarrow> \<not> allow_private_networks p \<Longrightarrow>
     (Navigate u, ok) \<in> set (bs_log (browser_run E calls)) \<Longrightarrow> u \<noteq> [] \<Longrightarrow> \<not> is_private_host_url u"
  using browser_run_inv [of E calls]
  by (auto simp: browser_inv_def list_all_iff op_granted_def browser_grants_def check_policy_def default_check_def url_tools_def check_url_def
       string_arg_def Let_def refuse_def split: if_splits)

section \<open>Findings\<close>

text \<open>\<open>sleep\<close> waits without asking the policy, and a number of milliseconds past 64 bits of nanoseconds does not wait.\<close>

lemma sleep_ungated:
  "bs_waits (snd (browser_call E Sleep [Some (JNum n)] st)) = bs_waits st @ [sleep_duration (be_integer E (JNum n))]"
  if "0 < be_integer E (JNum n)"
  using that
  by (simp add: browser_call_def sleep_def num_arg_def missing_def opt_num_def argument_def br_throw_def undefined_value_def Let_def split: option.splits)

lemma sleep_wraps: "sleep_duration 9223372036855 < 0"
  by code_simp

text \<open>A \<open>goto\<close> that fails keeps the marks: it is taken to have left nothing.\<close>

lemma failed_goto_keeps_marks:
  assumes "be_driver E = Some d" and "be_policy E = None" and "url \<noteq> []" and "dr_do d (bs_log st) (Navigate url) = Inl e"
  shows "bs_marks_valid (snd (browser_call E Goto [Some (JStr url)] st)) = bs_marks_valid st"
  using assms
  by (simp add: browser_call_def goto_url_def text_arg_def missing_def argument_def value_string_def gate_def check_policy_or_panic_def
      check_policy_def permit_def drive_def br_fail_def br_throw_def br_emit_def act_def Let_def)

text \<open>A click that follows a link leaves the page and keeps the marks too, and so does an expression.\<close>

lemma drive_flag:
  assumes "\<And>a st'. bs_marks_valid (snd (k a st')) = bs_marks_valid st'"
  shows "bs_marks_valid (snd (drive step name op k st)) = bs_marks_valid st"
  using assms by (auto simp: drive_def br_fail_def br_throw_def split: sum.splits)

lemma click_keeps_marks:
  assumes "be_driver E = Some d" and "be_policy E = None" and "x \<noteq> []"
  shows "bs_marks_valid (snd (browser_call E Click_on [Some (JStr x)] st)) = bs_marks_valid st"
    and "bs_marks_valid (snd (browser_call E Evaluate [Some (JStr x)] st)) = bs_marks_valid st"
  using assms
  by (simp_all add: browser_call_def click_def eval_in_page_def text_arg_def missing_def argument_def value_string_def gate_def
      check_policy_or_panic_def check_policy_def permit_def drive_flag br_throw_def undefined_value_def Let_def)

text \<open>A missing text is typed as the word \<open>undefined\<close>.\<close>

lemma missing_text_typed: "value_string (argument [Some (JStr sel)] 1) = ''undefined''"
  by (simp add: argument_def value_string_def)

end
