(* ===== verification/Set_Of_Marks.thy ===== *)
theory Set_Of_Marks
  imports Browser_Properties Complex_Main
begin

text \<open>
  The script \<open>browser/som.go\<close> puts into a page: what \<open>install\<close>, \<open>uninstall\<close>, \<open>click\<close> and \<open>focus\<close> make of
  the document.  The nodes that match the selector, in document order, and what the browser computes of a
  node are the page's; the map from ids to nodes and the layer of boxes are the script's.  Texts are ASCII,
  where a character is a UTF-16 unit.
\<close>

section \<open>The document\<close>

record element =
  el_tag :: bytes
  el_attributes :: "(bytes \<times> bytes) list"
  el_value :: bytes
  el_inner_text :: bytes
  el_left :: rat
  el_top :: rat
  el_width :: rat
  el_height :: rat
  el_visibility :: bytes
  el_display :: bytes
  el_opacity :: bytes
  el_disabled :: bool

text \<open>A document: its viewport, what its nodes are like, and the nodes that match the selector.\<close>

record 'n document =
  do_width :: rat
  do_height :: rat
  do_element :: "'n \<Rightarrow> element"
  do_matching :: "'n list"

text \<open>\<open>som_layer\<close> holds the ids of the boxes that are drawn; \<open>None\<close> is no script in this document.\<close>

record 'n som =
  som_elements :: "'n list"
  som_layer :: "int list option"

section \<open>Visible and described\<close>

definition is_visible :: "'n document \<Rightarrow> 'n \<Rightarrow> bool" where
  "is_visible D n =
     (let e = do_element D n in
      if el_width e < 4 \<or> el_height e < 4 then False
      else if el_visibility e = ''hidden'' \<or> el_display e = ''none'' \<or> el_opacity e = ''0'' then False
      else if el_disabled e then False
      else if el_top e + el_height e < 0 \<or> el_left e + el_width e < 0 \<or> el_left e > do_width D \<or> el_top e > do_height D then False
      else True)"

definition round_half_up :: "rat \<Rightarrow> int" where
  "round_half_up x = \<lfloor>x + 1 / 2\<rfloor>"

definition attribute :: "element \<Rightarrow> bytes \<Rightarrow> bytes" where
  "attribute e k = (case map_of (el_attributes e) k of Some v \<Rightarrow> v | None \<Rightarrow> [])"

fun first_text :: "bytes list \<Rightarrow> bytes" where
  "first_text [] = []"
| "first_text (s # ss) = (if s \<noteq> [] then s else first_text ss)"

text \<open>A run of white space becomes one blank.\<close>

fun squeeze :: "bool \<Rightarrow> bytes \<Rightarrow> bytes" where
  "squeeze blank [] = []"
| "squeeze blank (c # s) =
     (if \<not> is_space c then c # squeeze False s
      else if blank then squeeze True s else CHR '' '' # squeeze True s)"

definition label_of :: "element \<Rightarrow> bytes" where
  "label_of e =
     take 80 (squeeze False (trim_space (first_text
       [attribute e ''aria-label'', attribute e ''alt'', attribute e ''title'', attribute e ''placeholder'', el_value e, el_inner_text e])))"

definition describe :: "'n document \<Rightarrow> int \<Rightarrow> 'n \<Rightarrow> mark" where
  "describe D i n =
     (let e = do_element D n in
      \<lparr>mk_id = i, mk_tag = to_lower (el_tag e), mk_role = attribute e ''role'', mk_name = label_of e,
       mk_x = round_half_up (el_left e + el_width e / 2), mk_y = round_half_up (el_top e + el_height e / 2),
       mk_w = round_half_up (el_width e), mk_h = round_half_up (el_height e)\<rparr>)"

section \<open>The script\<close>

text \<open>The first injection into a document makes an empty map.\<close>

definition inject :: "'n som option \<Rightarrow> 'n som" where
  "inject s = (case s of None \<Rightarrow> \<lparr>som_elements = [], som_layer = None\<rparr> | Some s \<Rightarrow> s)"

text \<open>\<open>install\<close>: one pass over the nodes, skipping those seen and those not visible.\<close>

fun install_from :: "'n document \<Rightarrow> 'n list \<Rightarrow> 'n list \<Rightarrow> mark list \<Rightarrow> 'n list \<times> mark list" where
  "install_from D els [] ms = (els, ms)"
| "install_from D els (n # ns) ms =
     (if n \<in> set els \<or> \<not> is_visible D n then install_from D els ns ms
      else install_from D (els @ [n]) ns (ms @ [describe D (int (length els) + 1) n]))"

definition som_install :: "'n document \<Rightarrow> 'n som \<Rightarrow> mark list \<times> 'n som" where
  "som_install D s =
     (let (els, ms) = install_from D [] (do_matching D) [] in
      (ms, s\<lparr>som_elements := els, som_layer := Some (map mk_id ms)\<rparr>))"

definition som_uninstall :: "'n som \<Rightarrow> 'n som" where
  "som_uninstall s = s\<lparr>som_layer := None\<rparr>"

definition som_get :: "'n som \<Rightarrow> int \<Rightarrow> 'n option" where
  "som_get s i = (if 1 \<le> i \<and> i \<le> int (length (som_elements s)) then Some (som_elements s ! nat (i - 1)) else None)"

text \<open>\<open>click\<close> and \<open>focus\<close> reach the node or throw.\<close>

definition som_reach :: "'n som \<Rightarrow> int \<Rightarrow> bytes + 'n" where
  "som_reach s i = (case som_get s i of None \<Rightarrow> Inl (''no mark '' @ itoa i) | Some n \<Rightarrow> Inr n)"

section \<open>Ids\<close>


lemma install_from_inv:
  assumes "ms = map (\<lambda>k. describe D (int k + 1) (els ! k)) [0..<length els]" and "distinct els" and "list_all (is_visible D) els"
    and "install_from D els ns ms = (els', ms')"
  shows "ms' = map (\<lambda>k. describe D (int k + 1) (els' ! k)) [0..<length els'] \<and> distinct els' \<and> list_all (is_visible D) els'
     \<and> set els' = set els \<union> {n \<in> set ns. is_visible D n}"
  using assms
proof (induction D els ns ms arbitrary: els' ms' rule: install_from.induct)
  case (2 D els n ns ms)
  show ?case
  proof (cases "n \<in> set els \<or> \<not> is_visible D n")
    case True
    then show ?thesis using 2(1) [OF True 2(3-5)] 2(6) by auto
  next
    case False
    have m: "ms @ [describe D (int (length els) + 1) n] = map (\<lambda>k. describe D (int k + 1) ((els @ [n]) ! k)) [0..<length (els @ [n])]"
      using 2(3) by (auto simp: nth_append)
    show ?thesis using 2(2) [OF False m] 2(4,5,6) False by auto
  qed
qed simp

text \<open>Every visible node that matches is marked once; the ids are 1, 2, ... and the id a mark carries reaches the
  node it describes, after the boxes are gone as well; in a document not marked yet every id is refused.\<close>

theorem marks_resolve:
  "case som_install (D :: 'n document) (inject s) of
     (ms, s') \<Rightarrow>
       map mk_id ms = map (\<lambda>k. int k + 1) [0..<length ms]
       \<and> set (som_elements s') = {n \<in> set (do_matching D). is_visible D n} \<and> distinct (som_elements s')
       \<and> list_all (\<lambda>m. case som_reach (som_uninstall s') (mk_id m) of Inl _ \<Rightarrow> False | Inr n \<Rightarrow> is_visible D n \<and> m = describe D (mk_id m) n) ms
       \<and> (\<forall>i. som_reach (inject (None :: 'n som option)) i = Inl (''no mark '' @ itoa i))"
proof -
  obtain els ms where i: "install_from D [] (do_matching D) [] = (els, ms)" by fastforce
  from install_from_inv [OF _ _ _ i]
  have f: "ms = map (\<lambda>k. describe D (int k + 1) (els ! k)) [0..<length els]" "distinct els" "list_all (is_visible D) els"
    "set els = {n \<in> set (do_matching D). is_visible D n}" by simp_all
  have id: "mk_id (describe D j n) = j" for j n by (simp add: describe_def Let_def)
  have ids: "map mk_id ms = map (\<lambda>k. int k + 1) [0..<length ms]" unfolding f(1) by (simp add: id)
  have reach: "som_reach (som_uninstall (s\<lparr>som_elements := els, som_layer := l\<rparr>)) (int k + 1) = Inr (els ! k)" if "k < length els" for k s l
    using that by (simp add: som_reach_def som_get_def som_uninstall_def)
  have each: "list_all (\<lambda>m. case som_reach (som_uninstall (s\<lparr>som_elements := els, som_layer := l\<rparr>)) (mk_id m) of
       Inl _ \<Rightarrow> False | Inr n \<Rightarrow> is_visible D n \<and> m = describe D (mk_id m) n) ms" for s l
    using f(3) unfolding f(1) by (simp add: list_all_iff id reach)
  have none: "som_reach (inject (None :: 'n som option)) j = Inl (''no mark '' @ itoa j)" for j
    by (simp add: som_reach_def som_get_def inject_def)
  show ?thesis
    unfolding som_install_def i prod.case using ids each none f(2,4) by simp
qed

end
