(* ===== verification/Chrome_Driver.thy ===== *)
theory Chrome_Driver
  imports Browser_Pack
begin

text \<open>
  \<open>browser/chrome/chrome.go\<close>: one page in one Chrome process behind \<open>Driver\<close>, started on first use and
  ended by \<open>Close\<close>.  What \<open>chromedp\<close> makes of a command is a parameter, which sees the commands run so
  far; calls are serialised, as the two locks of the code make them.  The contexts that have been made
  and not cancelled are the processes and pages alive.
\<close>

section \<open>Options\<close>

record chrome_options =
  co_exec_path :: bytes
  co_headed :: bool
  co_width :: int
  co_height :: int
  co_user_data_dir :: bytes
  co_timeout :: int
  co_flags :: "(bytes \<times> js) list"
  co_on_frame :: bool

definition default_width :: int where "default_width = 1280"
definition default_height :: int where "default_height = 800"
definition default_step_timeout :: int where "default_step_timeout = 30000000000"

section \<open>State\<close>

text \<open>What \<open>chromedp.Run\<close> is given, and the flags a process is started with.\<close>

datatype chrome_action =
    Cdp_navigate bytes
  | Cdp_click bytes
  | Cdp_send_keys bytes bytes
  | Cdp_wait_visible bytes
  | Cdp_wait_ready bytes
  | Cdp_text bytes
  | Cdp_value bytes
  | Cdp_evaluate bytes
  | Cdp_key_event bytes
  | Cdp_screenshot
  | Cdp_start_screencast
  | Cdp_frame_ack int

datatype alloc_flag = Headless bool | Window_size int int | Exec_path bytes | User_data_dir bytes | Extra_flag bytes js

text \<open>An action's error, with the error of the caller's context and whether the step's deadline has passed.\<close>

record cdp_failure =
  cf_error :: bytes
  cf_caller :: "bytes option"
  cf_deadline :: bool

type_synonym cdp_log = "(nat \<times> chrome_action) list"

text \<open>\<open>ch_next\<close> numbers the contexts; \<open>ch_alive\<close> are those not cancelled, with the flags of their process.\<close>

record chrome =
  ch_opts :: chrome_options
  ch_bctx :: "nat option"
  ch_cancels :: "nat list"
  ch_closed :: bool
  ch_next :: nat
  ch_alive :: "nat list"
  ch_started :: "alloc_flag list list"
  ch_listening :: "nat list"
  ch_log :: cdp_log

definition new_chrome :: "chrome_options \<Rightarrow> chrome" where
  "new_chrome o' =
     \<lparr>ch_opts = o'\<lparr>co_width := (if co_width o' \<le> 0 then default_width else co_width o'),
                   co_height := (if co_height o' \<le> 0 then default_height else co_height o'),
                   co_timeout := (if co_timeout o' \<le> 0 then default_step_timeout else co_timeout o')\<rparr>,
      ch_bctx = None, ch_cancels = [], ch_closed = False, ch_next = 0, ch_alive = [], ch_started = [],
      ch_listening = [], ch_log = []\<rparr>"

section \<open>Start and end\<close>

definition cancel :: "nat \<Rightarrow> chrome \<Rightarrow> chrome" where
  "cancel i c = c\<lparr>ch_alive := filter (\<lambda>j. j \<noteq> i) (ch_alive c)\<rparr>"

definition close :: "chrome \<Rightarrow> chrome" where
  "close c = (fold cancel (rev (ch_cancels c)) (c\<lparr>ch_closed := True, ch_bctx := None\<rparr>))\<lparr>ch_cancels := []\<rparr>"

definition alloc_flags :: "chrome_options \<Rightarrow> alloc_flag list" where
  "alloc_flags o' =
     [Headless (\<not> co_headed o'), Window_size (co_width o') (co_height o')]
     @ (if co_exec_path o' \<noteq> [] then [Exec_path (co_exec_path o')] else [])
     @ (if co_user_data_dir o' \<noteq> [] then [User_data_dir (co_user_data_dir o')] else [])
     @ map (\<lambda>(k, v). Extra_flag k v) (co_flags o')"

text \<open>\<open>NewExecAllocator\<close> and \<open>NewContext\<close>: two contexts, whose cancel functions replace the ones held.\<close>

definition allocate :: "chrome \<Rightarrow> nat \<times> nat \<times> chrome" where
  "allocate c =
     (let a = ch_next c; b = Suc a in
      (a, b, c\<lparr>ch_next := Suc b, ch_alive := ch_alive c @ [a, b], ch_started := ch_started c @ [alloc_flags (ch_opts c)],
               ch_cancels := [a, b]\<rparr>))"

type_synonym cdp = "cdp_log \<Rightarrow> nat \<Rightarrow> chrome_action \<Rightarrow> cdp_failure + js"

definition cdp_run :: "cdp \<Rightarrow> nat \<Rightarrow> chrome_action \<Rightarrow> chrome \<Rightarrow> (cdp_failure + js) \<times> chrome" where
  "cdp_run R b a c = (R (ch_log c) b a, c\<lparr>ch_log := ch_log c @ [(b, a)]\<rparr>)"

definition ensure_chrome :: "cdp \<Rightarrow> chrome \<Rightarrow> (bytes + nat) \<times> chrome" where
  "ensure_chrome R c =
     (if ch_closed c then (Inl ''browser is closed'', c)
      else case ch_bctx c of
             Some b \<Rightarrow> (Inr b, c)
           | None \<Rightarrow>
               let (a, b, c) = allocate c;
                   c = (if co_on_frame (ch_opts c) then c\<lparr>ch_listening := ch_listening c @ [b]\<rparr> else c);
                   (blank, c) = cdp_run R b (Cdp_navigate ''about:blank'') c
               in case blank of
                    Inl f \<Rightarrow> (Inl (''starting chrome: '' @ cf_error f), (cancel a (cancel b c))\<lparr>ch_cancels := []\<rparr>)
                  | Inr _ \<Rightarrow>
                      if \<not> co_on_frame (ch_opts c) then (Inr b, c\<lparr>ch_bctx := Some b\<rparr>)
                      else let (cast, c) = cdp_run R b Cdp_start_screencast c in
                           case cast of
                             Inl f \<Rightarrow> (Inl (''starting screencast: '' @ cf_error f), c)
                           | Inr _ \<Rightarrow> (Inr b, c\<lparr>ch_bctx := Some b\<rparr>))"

text \<open>A frame is handed on and acknowledged.\<close>

definition on_screencast :: "cdp \<Rightarrow> nat \<Rightarrow> int \<Rightarrow> chrome \<Rightarrow> chrome" where
  "on_screencast R b session c = (if b \<in> set (ch_listening c) then snd (cdp_run R b (Cdp_frame_ack session) c) else c)"

section \<open>Steps\<close>

definition step_error :: "(int \<Rightarrow> bytes) \<Rightarrow> chrome \<Rightarrow> cdp_failure \<Rightarrow> bytes" where
  "step_error show_duration c f =
     (case cf_caller f of
        Some e \<Rightarrow> e
      | None \<Rightarrow>
          if cf_deadline f then ''timed out after '' @ show_duration (co_timeout (ch_opts c)) @ '': '' @ cf_error f
          else cf_error f)"

definition chrome_run :: "cdp \<Rightarrow> (int \<Rightarrow> bytes) \<Rightarrow> chrome_action \<Rightarrow> chrome \<Rightarrow> (bytes + js) \<times> chrome" where
  "chrome_run R show_duration a c =
     (let (started, c) = ensure_chrome R c in
      case started of
        Inl e \<Rightarrow> (Inl e, c)
      | Inr b \<Rightarrow>
          let (answer, c) = cdp_run R b a c in
          (case answer of Inl f \<Rightarrow> Inl (step_error show_duration c f) | Inr v \<Rightarrow> Inr v, c))"

text \<open>The methods of \<open>Driver\<close> as actions.\<close>

fun action_of :: "driver_op \<Rightarrow> chrome_action" where
  "action_of (Navigate u) = Cdp_navigate u"
| "action_of (Click s) = Cdp_click s"
| "action_of (Send_keys s t) = Cdp_send_keys s t"
| "action_of (Wait_visible s) = Cdp_wait_visible s"
| "action_of (Wait_ready s) = Cdp_wait_ready s"
| "action_of (Text_of s) = Cdp_text s"
| "action_of (Value_of s) = Cdp_value s"
| "action_of (Eval_void e) = Cdp_evaluate e"
| "action_of (Eval_value e) = Cdp_evaluate e"
| "action_of (Eval_marks e) = Cdp_evaluate e"
| "action_of (Key_event t) = Cdp_key_event t"
| "action_of Take_screenshot = Cdp_screenshot"

datatype chrome_call = Use driver_op | Frame nat int | Close

definition chrome_step :: "cdp \<Rightarrow> (int \<Rightarrow> bytes) \<Rightarrow> chrome_call \<Rightarrow> chrome \<Rightarrow> chrome" where
  "chrome_step R show_duration call c =
     (case call of
        Use op \<Rightarrow> snd (chrome_run R show_duration (action_of op) c)
      | Frame b session \<Rightarrow> on_screencast R b session c
      | Close \<Rightarrow> close c)"

definition chrome_history :: "cdp \<Rightarrow> (int \<Rightarrow> bytes) \<Rightarrow> chrome_options \<Rightarrow> chrome_call list \<Rightarrow> chrome" where
  "chrome_history R show_duration o' calls = fold (chrome_step R show_duration) calls (new_chrome o')"

section \<open>What is alive\<close>

text \<open>Every context alive, of one allocator and one browser at most, is one whose cancel function is held, and the
  browser in use is among them.\<close>

definition chrome_inv :: "chrome \<Rightarrow> bool" where
  "chrome_inv c \<longleftrightarrow>
     set (ch_alive c) \<subseteq> set (ch_cancels c) \<and> length (ch_alive c) \<le> 2
     \<and> (case ch_bctx c of None \<Rightarrow> ch_cancels c = [] | Some b \<Rightarrow> b \<in> set (ch_alive c) \<and> \<not> ch_closed c)
     \<and> \<not> co_on_frame (ch_opts c)"

lemma cancel_alive [simp]: "ch_alive (fold cancel is c) = filter (\<lambda>j. j \<notin> set is) (ch_alive c)"
  by (induction "is" arbitrary: c) (auto simp: cancel_def intro!: filter_cong)

lemma cancel_fields [simp]:
  "ch_opts (fold cancel is c) = ch_opts c" "ch_bctx (fold cancel is c) = ch_bctx c" "ch_closed (fold cancel is c) = ch_closed c"
  "ch_started (fold cancel is c) = ch_started c"
  by (induction "is" arbitrary: c) (simp_all add: cancel_def)

lemma close_alive: "ch_alive (close c) = filter (\<lambda>j. j \<notin> set (ch_cancels c)) (ch_alive c)"
  by (simp add: close_def)

lemma close_inv: "chrome_inv c \<Longrightarrow> chrome_inv (close c) \<and> ch_alive (close c) = []"
proof -
  assume i: "chrome_inv c"
  then have "ch_alive (close c) = []" by (auto simp: chrome_inv_def close_alive filter_empty_conv)
  then show ?thesis using i by (auto simp: chrome_inv_def close_def)
qed

lemma log_inv [simp]: "chrome_inv (c\<lparr>ch_log := l\<rparr>) = chrome_inv c"
  by (simp add: chrome_inv_def cong: option.case_cong)

lemma ensure_inv: "chrome_inv c \<Longrightarrow> chrome_inv (snd (ensure_chrome R c))"
  by (auto simp: ensure_chrome_def allocate_def cdp_run_def cancel_def chrome_inv_def Let_def split: option.splits sum.splits)

lemma run_inv: "chrome_inv c \<Longrightarrow> chrome_inv (snd (chrome_run R d a c))"
  using ensure_inv [of c R] by (auto simp: chrome_run_def cdp_run_def Let_def split: prod.splits sum.splits)

lemma step_inv: "chrome_inv c \<Longrightarrow> chrome_inv (chrome_step R d call c)"
  by (cases call) (auto simp: chrome_step_def run_inv close_inv on_screencast_def cdp_run_def)

lemma history_inv: "\<not> co_on_frame o' \<Longrightarrow> chrome_inv (chrome_history R d o' calls)"
proof -
  have "chrome_inv c \<Longrightarrow> chrome_inv (fold (chrome_step R d) calls c)" for c
    by (induction calls arbitrary: c) (simp_all add: step_inv)
  moreover assume "\<not> co_on_frame o'"
  ultimately show ?thesis by (simp add: chrome_history_def chrome_inv_def new_chrome_def)
qed

text \<open>Once closed, always closed: no process is started and no step is made.\<close>

lemma closed_step: "ch_closed c \<Longrightarrow> ch_closed (chrome_step R d call c) \<and> ch_started (chrome_step R d call c) = ch_started c"
  by (cases call) (auto simp: chrome_step_def chrome_run_def ensure_chrome_def close_def on_screencast_def cdp_run_def)

lemma closed_history:
  "ch_closed c \<Longrightarrow> ch_closed (fold (chrome_step R d) calls c) \<and> ch_started (fold (chrome_step R d) calls c) = ch_started c"
  by (induction calls arbitrary: c) (simp_all add: closed_step)

text \<open>C37 Without a screencast, whatever fails on the way, at most one Chrome is alive at any time, nothing is alive
  that \<open>Close\<close> would not end, and after \<open>Close\<close> nothing is alive and nothing starts again.\<close>

theorem chrome_ends:
  "if co_on_frame o' then True
   else let c = chrome_history R d o' calls; c' = fold (chrome_step R d) later (close c) in
     set (ch_alive c) \<subseteq> set (ch_cancels c) \<and> length (ch_alive c) \<le> 2 \<and> ch_alive (close c) = []
     \<and> ch_alive c' = [] \<and> ch_closed c' \<and> ch_started c' = ch_started c"
proof (cases "co_on_frame o'")
  case False
  let ?c = "chrome_history R d o' calls"
  note i = history_inv [OF False, of R d calls]
  have inv: "chrome_inv c \<Longrightarrow> ch_closed c \<Longrightarrow> ch_alive (fold (chrome_step R d) later c) = []" for c
  proof -
    assume a: "chrome_inv c" "ch_closed c"
    have "chrome_inv (fold (chrome_step R d) later c)" using a(1) by (induction later arbitrary: c) (simp_all add: step_inv)
    moreover have "ch_closed (fold (chrome_step R d) later c)" using closed_history [OF a(2)] by simp
    ultimately show ?thesis by (auto simp: chrome_inv_def split: option.splits)
  qed
  have closed: "ch_closed (close ?c)" "ch_started (close ?c) = ch_started ?c" by (simp_all add: close_def)
  show ?thesis
    using i close_inv [OF i] inv [OF _ closed(1)] closed_history [OF closed(1), of R d later] closed
    by (simp add: False Let_def chrome_inv_def)
qed simp

section \<open>A screencast that does not start\<close>

text \<open>
  The error of the screencast leaves the Chrome that was just started alive and not in use; the next
  call starts another, whose cancel functions take the place of the first one's.
\<close>

definition no_screencast :: cdp where
  "no_screencast = (\<lambda>_ _ a. if a = Cdp_start_screencast then Inl \<lparr>cf_error = ''refused'', cf_caller = None, cf_deadline = False\<rparr> else Inr None)"

definition watched :: chrome_options where
  "watched =
     \<lparr>co_exec_path = [], co_headed = False, co_width = 0, co_height = 0, co_user_data_dir = [], co_timeout = 0, co_flags = [],
      co_on_frame = True\<rparr>"

lemma screencast_leak:
  "ch_alive (chrome_history no_screencast (\<lambda>_. []) watched [Use (Click ''a''), Use (Click ''a''), Close]) = [0, 1]"
  by code_simp

end
