(* ===== verification/Spec2Isabelle.thy ===== *)
theory Spec2Isabelle
  imports Loop_Disclosure Loop_Durability Loop_Retries Store_Properties Policy_Properties Pool_Safety
    Sandbox_Properties Capabilities Llm_Properties Search_Properties Exec_Pack Eval_Service Project_Properties Skill_Properties
    Openapi_Properties Fetch_Properties Host_Properties Script_Modules
    Markdown_Properties Cli_Session Cli_Doctor Set_Of_Marks Chrome_Driver
begin

text \<open>
  agentloop: a reasoning loop for language-model agents that act by writing scripts.

  \<^bold>\<open>The program.\<close>  A caller hands the loop (\<open>run.go\<close>) a request.  The loop builds the conversation
  from the stored trace of the session, asks the model, reads the reply, runs the script it finds
  in a sandbox, shows the model what the script printed and returned, and so on until the model
  answers in prose, the script calls \<open>answer\<close>, or a bound is reached.  Every turn is persisted as
  steps of the session and reported as events.  Around the loop stand the model client (package
  \<open>llm\<close>), the sandbox with its policy and its packs of host functions (\<open>sandbox\<close>, \<open>ext\<close>), the pool
  that keeps one sandbox per session (\<open>pool\<close>), the stores (\<open>agentloopmem\<close>, \<open>agentloopsql\<close>), the
  redactor (\<open>redact\<close>), the project's instructions and skills (\<open>projectctx\<close>, \<open>skills\<close>), and a
  harness that evaluates the agent on suites of cases (\<open>eval\<close>, \<open>evalmem\<close>).

  \<^bold>\<open>What Go provides.\<close>
  \<^item> \<open>Go_Prelude\<close>: types, two's complement integers, lists.  \<open>Go_Strings\<close>: packages \<open>strings\<close>,
    \<open>strconv\<close>, \<open>fmt\<close> on byte strings.  \<open>Go_Json\<close>: \<open>encoding/json\<close> as a lexer and a stack machine,
    with the theorem that what is marshalled is read back.  \<open>Go_Time\<close>, \<open>Go_Url\<close>, \<open>Go_Path\<close>: instants,
    URLs and addresses, slash-separated names and glob patterns.

  \<^bold>\<open>The loop.\<close>
  \<^item> \<open>Loop_Config\<close> (\<open>loop.go\<close>, \<open>store.go\<close>, \<open>events.go\<close>, \<open>profile.go\<close>): requests, results, the configuration
    and what \<open>New\<close> makes of it.  \<open>Llm_Types\<close>: messages, requests, replies.
  \<^item> \<open>Context_Budget\<close> (\<open>budget.go\<close>), \<open>Step_History\<close> (\<open>history.go\<close>), \<open>Compaction\<close> (\<open>compact.go\<close>),
    \<open>Data_Shape\<close> (\<open>shape.go\<close>), \<open>Prompts\<close> (\<open>prompts.go\<close>), \<open>Error_Hints\<close> (\<open>errors.go\<close>), \<open>Reply_Parser\<close>
    (\<open>parser.go\<close>), \<open>Reply_Streamer\<close> (\<open>streamer.go\<close>), \<open>Redactor\<close> (\<open>redact/redact.go\<close>): the parts of a turn,
    each as functions, with the lemmas that describe it.
  \<^item> \<open>Run_Loop\<close> (\<open>run.go\<close>): the whole of \<open>Run\<close>.  The variables its closures share are a record; its
    effects (calls, steps, events) are a trace in that record; every collaborator (model, compactor,
    sandbox builder, stores, profiles) is a function of the trace so far, so it may answer
    differently each time.
  \<^item> \<open>Loop_Protocol\<close> gives the abstract specification of a run, a step relation, and the proof that
    \<open>Run_Loop\<close> refines it.  \<open>Loop_Invariants\<close> has one locale for properties of the state that every
    step keeps and one for properties of the single effects, the second an instance of the first;
    \<open>Loop_Properties\<close>, \<open>Loop_Retries\<close>, \<open>Loop_Disclosure\<close>, \<open>Loop_Durability\<close> interpret them for the
    indices of steps, the arguments threaded between scripts, the token counts, what leaves the
    process, and the checkpoint a later run starts from.

  \<^bold>\<open>The model client.\<close>  \<open>Llm_Retry\<close> (\<open>llm/retry.go\<close>), \<open>Llm_Client\<close> (\<open>llm/openai.go\<close>), \<open>Llm_Properties\<close>.
  The transport answers as a function of everything sent and waited so far.

  \<^bold>\<open>The stores.\<close>  \<open>Store_Contract\<close> states what the loop relies on as locales; \<open>Mem_Stores\<close> and
  \<open>Sql_Contract\<close> interpret them for the two implementations, the second over the tables of
  \<open>Sql_Store\<close>, whose statements may each be refused by the driver.  \<open>Store_Properties\<close> compares the
  two (the tables refine the maps) and continues a run over a store.

  \<^bold>\<open>The sandbox.\<close>
  \<^item> \<open>Script_Source\<close>, \<open>Sandbox_Core\<close>, \<open>Sandbox_Turn\<close>, \<open>Sandbox_Properties\<close> (\<open>sandbox/sandbox.go\<close>,
    \<open>console.go\<close>, \<open>events.go\<close>, \<open>pack.go\<close>, \<open>pack_help.go\<close>, \<open>pack_skills.go\<close>).  A script is a tree of
    the calls it makes, so a statement holds of whatever the model writes.
  \<^item> \<open>Sandbox_Policy\<close>, \<open>Policy_Properties\<close> (\<open>policy.go\<close>, \<open>defaultpolicy.go\<close>): the checkers.
  \<^item> \<open>Sandbox_Pool\<close>, \<open>Pool_Safety\<close> (\<open>pool/pool.go\<close>): the pool as interleaved steps of concurrent calls.
  \<^item> \<open>Capabilities\<close> (\<open>capability.go\<close>, \<open>defaults.go\<close>): from an allowlist to a sandbox.
  \<^item> \<open>Fetch_Pack\<close>, \<open>Fetch_Properties\<close> (\<open>pack_fetch.go\<close>, \<open>pack_input.go\<close>): the network primitives, with
    the hosts the user approved; the HTTP client and the user answer by what went before.
  \<^item> \<open>Script_Modules\<close> (\<open>pack_modules.go\<close>, \<open>pack_require.go\<close>), \<open>Host_Packs\<close>, \<open>Host_Properties\<close> (\<open>pack_ai.go\<close> and
    \<open>ext/pack_secret.go\<close>, \<open>pack_email.go\<close>, \<open>pack_search.go\<close>, \<open>pack_stores.go\<close>).
  \<^item> \<open>Markdown_Pack\<close>, \<open>Markdown_Properties\<close> (\<open>pack_markdown.go\<close>): what is read out of a parsed document.
  \<^item> \<open>File_Tree\<close>, \<open>Workspace\<close>, \<open>Workspace_Search\<close>, \<open>Workspace_Properties\<close>, \<open>Search_Properties\<close>
    (\<open>ext/pack_fs.go\<close>, \<open>pack_fs_ops.go\<close>): the files of the project.  \<open>Exec_Pack\<close> (\<open>ext/pack_exec.go\<close>,
    \<open>pack_exec_run.go\<close>): commands.
  \<^item> \<open>Openapi\<close>, \<open>Openapi_Properties\<close> (\<open>ext/pack_openapi.go\<close>, \<open>openapi_gen.go\<close>, \<open>openapi_render.go\<close>): skills
    generated from API documents.

  \<^bold>\<open>The browser.\<close>
  \<^item> \<open>Browser_Pack\<close>, \<open>Browser_Properties\<close> (\<open>browser/pack.go\<close>, \<open>prompt.go\<close>, \<open>driver.go\<close>): each primitive as the
    chain of its checks and steps, each check taking the rest of the call as an argument, so that a panic is
    the rest not being run; one rule per kind of step carries the invariant.  \<open>Set_Of_Marks\<close> (\<open>som.go\<close>): the
    script in the page.  \<open>Chrome_Driver\<close> (\<open>browser/chrome/chrome.go\<close>): the life of the process.

  \<^bold>\<open>The command line\<close> (\<open>cmd/agentloop\<close>).
  \<^item> \<open>Cli_Options\<close> (\<open>main.go\<close>, \<open>options.go\<close>, \<open>caps.go\<close>, \<open>run.go\<close>, \<open>chat.go\<close>), \<open>Cli_Session\<close> (\<open>newSession\<close>): from
    flags to an engine, and the conversation.  \<open>Cli_Prompter\<close>, \<open>Cli_Prompter_Properties\<close> (\<open>prompt.go\<close>):
    permission prompts at a terminal.  \<open>Cli_Render\<close> (\<open>render.go\<close>), \<open>Cli_Sessions\<close> (\<open>sessions.go\<close>),
    \<open>Cli_Doctor\<close> (\<open>doctor.go\<close>), \<open>Cli_Properties\<close>.

  \<^bold>\<open>Context and evaluation.\<close>  \<open>Project_Locate\<close>, \<open>Project_Context\<close>, \<open>Project_Properties\<close> (\<open>projectctx\<close>);
  \<open>Skills\<close>, \<open>Skill_Properties\<close> (\<open>skills\<close>); \<open>Eval_Judge\<close>, \<open>Eval_Store\<close>, \<open>Eval_Service\<close> (\<open>eval\<close>,
  \<open>evalmem\<close>), the store's contract again a locale.
\<close>

text \<open>
  \<^bold>\<open>What is shown.\<close>
  \<^item> A run returns, with an error exactly when it did not complete; it calls the model at most as
    often as configured; it persists consecutive steps, finalises its session once, threads what
    scripts return, emits one done event and cleans up.  Every prompt fits the budget or is down to
    the messages that trimming never drops; nothing persisted, emitted or returned holds a secret the redactor knows; a
    checkpoint makes the next run see the compacted conversation.
  \<^item> Both stores answer alike after the same calls, the tables are consistent however statements
    fail, and a run over them is continued by the next.
  \<^item> In every interleaving a sandbox of the pool has one user, is cleaned up once, and is its
    session's.  A turn does not depend on the global variables that earlier scripts added by
    assignment; hidden and permanent properties, overwritten keys and the built-in objects are not
    reset, and it may depend on those.
  \<^item> The default policy refuses URLs that name private addresses; every request the network
    primitives make has the policy's leave or the user's, for the URL it starts from (the redirects
    the client follows are recorded, and unchecked); services are called, files changed and commands
    run only with leave, and no file name reaches the system that leads out of the root; secrets
    without leave cannot influence a turn.
  \<^item> Searches are exact below their limits, edits replace what they name and nothing else
    (a write the system breaks off leaves a part of the new text in that file), generated modules have one function per operation under distinct names, instruction files come
    from inside the project, excerpts are honest, loaded skills can be retrieved and hide no
    help of the default packs.
  \<^item> No step of the browser is taken without the policy's leave for its arguments; the ids
    of marks reach what they describe; the browser's process ends with \<open>Close\<close>.
  \<^item> Within a session, the command line approves nothing the user did not; it denies unattended, starts under
    the session asked for, with an engine whatever the flags that pass its checks, keeps stdout for answers, and reports how a run ended by its exit code.
  \<^item> A case of an evaluation passes exactly by its rubric; judges and records see no secrets.
  \<^item> Where the code falls short of its comments or of itself, a lemma shows the case.

  \<^bold>\<open>Bounds and termination.\<close>  \<open>Run\<close> is a recursion over \<open>MaxIterations\<close>; the rounds of a compaction,
  the attempts of a request, the climb to a repository root, the search for a free name and the
  walk over a tree end by measures proved with their definitions.  The depth of nested loads in
  \<open>Script_Modules\<close> is a parameter, as the stack's limit is.  The ranges of a pattern's class are read
  with the length of the text as fuel, which no class exceeds.  \<open>int32\<close> counters wrap, and so do
  the 64-bit sums and products of numbers a script chooses (\<open>i64\<close>: line ranges, time limits); lengths
  and the program's own \<open>int\<close> values are unbounded integers, a byte string being shorter than 2^63.

  \<^bold>\<open>Not modelled.\<close>  Spans (\<open>tracing.go\<close>) have no effect on a run.  Of the command line,
  parsing flags, the terminal, signals, logging and the texts of usage and version are left out.  Contract tests, examples, documentation and the site are not the program.
  The script engine (goja), the Markdown parser, the HTML converter, the OpenAPI loader, the HTTP client, the driver of
  the database, Chrome and the DOM, the disk and processes are parameters, with what the code reads of them.  Case
  folding and white space outside ASCII are left out (but for the answers of a prompt), and floating-point numbers are the texts they
  print as.  Accessor properties of \<open>globalThis\<close> are left out, and so are symbolic links in the workspace.
\<close>

end
